(* ===== verification/Prelude.thy ===== *)
theory Prelude imports Complex_Main begin

text \<open>
  Shared vocabulary of the development.

  \<^item> IEEE doubles (Rust \<open>f64\<close>) as exact rationals with explicit infinities and NaN. Comparisons
    and classifications are those of the standard; every finite double is a rational, so nothing is
    lost by comparing. Rounding of sums and products is not modelled: where a component computes
    with doubles its theory says so.
  \<^item> \<open>std::time::Duration\<close> and instants as a number of nanoseconds (\<open>nat\<close>); \<open>saturating_sub\<close> is
    the subtraction of \<open>nat\<close>.
  \<^item> saturating and checked arithmetic of the fixed width integers;
  \<^item> results: \<open>'e + 'a\<close>, the error on the left.
\<close>

named_theorems model_defs \<open>definitions that witnesses unfold\<close>

section \<open>Doubles\<close>

datatype f64 = Fin rat | PosInf | NegInf | NaN

fun f64_le :: "f64 \<Rightarrow> f64 \<Rightarrow> bool" where
  "f64_le NaN _ = False"
| "f64_le _ NaN = False"
| "f64_le NegInf _ = True"
| "f64_le _ NegInf = False"
| "f64_le _ PosInf = True"
| "f64_le PosInf _ = False"
| "f64_le (Fin a) (Fin b) = (a \<le> b)"

fun f64_lt :: "f64 \<Rightarrow> f64 \<Rightarrow> bool" where
  "f64_lt NaN _ = False"
| "f64_lt _ NaN = False"
| "f64_lt _ NegInf = False"
| "f64_lt NegInf _ = True"
| "f64_lt PosInf _ = False"
| "f64_lt _ PosInf = True"
| "f64_lt (Fin a) (Fin b) = (a < b)"

fun f64_finite :: "f64 \<Rightarrow> bool" where
  "f64_finite (Fin _) = True"
| "f64_finite _ = False"

text \<open>The value of a finite double; 0 stands for the others, which the callers exclude first.\<close>

fun f64_val :: "f64 \<Rightarrow> rat" where
  "f64_val (Fin x) = x"
| "f64_val _ = 0"

lemma f64_finite_iff: "f64_finite x \<longleftrightarrow> (\<exists>r. x = Fin r)"
  by (cases x) auto

lemma f64_between_finite: "f64_le (Fin a) x \<Longrightarrow> f64_le x (Fin b) \<Longrightarrow> \<exists>r. x = Fin r \<and> a \<le> r \<and> r \<le> b"
  by (cases x) auto

section \<open>Durations\<close>

text \<open>Round to the nearest integer, ties to even.\<close>

definition round_ties_even :: "rat \<Rightarrow> int" where
  "round_ties_even x =
     (let f = \<lfloor>x\<rfloor>; d = x - of_int f
      in if d < 1 / 2 then f else if 1 / 2 < d then f + 1 else if even f then f else f + 1)"

lemma round_ties_even_nonneg: "0 \<le> x \<Longrightarrow> 0 \<le> round_ties_even x"
  by (auto simp: round_ties_even_def Let_def)

lemma round_ties_even_of_int [simp]: "round_ties_even (of_int n) = n"
  by (simp add: round_ties_even_def)

lemma round_ties_even_numeral [simp]:
  "round_ties_even (numeral n) = numeral n" "round_ties_even 0 = 0" "round_ties_even 1 = 1"
  using round_ties_even_of_int [of "numeral n"] round_ties_even_of_int [of 0]
    round_ties_even_of_int [of 1] by simp_all

lemma round_ties_even_le: "round_ties_even x \<le> \<lfloor>x\<rfloor> + 1"
  by (auto simp: round_ties_even_def Let_def)

lemma round_ties_even_mono: "x \<le> y \<Longrightarrow> round_ties_even x \<le> round_ties_even y"
proof (cases "\<lfloor>x\<rfloor> = \<lfloor>y\<rfloor>")
  case True
  then show "x \<le> y \<Longrightarrow> ?thesis" by (auto simp: round_ties_even_def Let_def)
next
  case False
  assume "x \<le> y"
  with False have "\<lfloor>x\<rfloor> + 1 \<le> \<lfloor>y\<rfloor>" using floor_mono [of x y] by linarith
  moreover have "\<lfloor>y\<rfloor> \<le> round_ties_even y" by (auto simp: round_ties_even_def Let_def)
  ultimately show ?thesis using round_ties_even_le [of x] by linarith
qed

abbreviation nanos_per_sec :: nat where "nanos_per_sec \<equiv> 1000000000"

text \<open>\<open>Duration::try_from_secs_f64\<close>: an error for a negative, non-finite or too large value.\<close>

fun try_from_secs_f64 :: "f64 \<Rightarrow> nat option" where
  "try_from_secs_f64 (Fin x) =
     (if x < 0 then None
      else let n = nat (round_ties_even (x * 1000000000))
           in if 2 ^ 64 * nanos_per_sec \<le> n then None else Some n)"
| "try_from_secs_f64 _ = None"

text \<open>
  \<open>Duration::from_secs_f64\<close> panics where the above is an error. The callers validate their
  argument first (each calling theory proves it), and 0 stands for the panic.
\<close>

definition from_secs_f64 :: "f64 \<Rightarrow> nat" where
  "from_secs_f64 x = (case try_from_secs_f64 x of Some n \<Rightarrow> n | None \<Rightarrow> 0)"

lemma try_from_secs_f64_some:
  assumes "0 \<le> x" "x \<le> 1000000"
  shows "try_from_secs_f64 (Fin x) = Some (nat (round_ties_even (x * 1000000000)))"
proof -
  have "round_ties_even (x * 1000000000) \<le> round_ties_even (1000000000000000)"
    using assms by (intro round_ties_even_mono) simp
  then have "round_ties_even (x * 1000000000) \<le> 1000000000000000" by simp
  then show ?thesis using assms by (simp add: Let_def not_le)
qed

lemma from_secs_f64_fin:
  "0 \<le> x \<Longrightarrow> x \<le> 1000000 \<Longrightarrow> from_secs_f64 (Fin x) = nat (round_ties_even (x * 1000000000))"
  by (simp only: from_secs_f64_def try_from_secs_f64_some option.simps)

lemma from_secs_f64_pos:
  assumes "1 / 10 \<le> x" "x \<le> 1000000"
  shows "100000000 \<le> from_secs_f64 (Fin x)"
proof -
  have "round_ties_even (100000000) \<le> round_ties_even (x * 1000000000)"
    using assms by (intro round_ties_even_mono) simp
  then show ?thesis using assms by (simp add: from_secs_f64_fin)
qed

section \<open>Fixed width integers held as \<open>nat\<close> or \<open>int\<close>\<close>

text \<open>\<open>saturating_add\<close> and \<open>checked_add\<close> of an unsigned integer of \<open>w\<close> bits.\<close>

definition sat_add :: "nat \<Rightarrow> nat \<Rightarrow> nat \<Rightarrow> nat" where
  "sat_add w a b = min (2 ^ w - 1) (a + b)"

definition checked_add :: "nat \<Rightarrow> nat \<Rightarrow> nat \<Rightarrow> nat option" where
  "checked_add w a b = (if a + b < 2 ^ w then Some (a + b) else None)"

definition checked_mul :: "nat \<Rightarrow> nat \<Rightarrow> nat \<Rightarrow> nat option" where
  "checked_mul w a b = (if a * b < 2 ^ w then Some (a * b) else None)"

lemma sat_add_le: "sat_add w a b \<le> a + b" "sat_add w a b \<le> 2 ^ w - 1"
  by (simp_all add: sat_add_def)

lemma sat_add_exact: "a + b < 2 ^ w \<Longrightarrow> sat_add w a b = a + b"
  by (simp add: sat_add_def)

lemma checked_add_Some: "checked_add w a b = Some c \<longleftrightarrow> c = a + b \<and> a + b < 2 ^ w"
  by (auto simp: checked_add_def)

section \<open>Results\<close>

fun is_ok :: "'e + 'a \<Rightarrow> bool" where
  "is_ok (Inr _) = True"
| "is_ok (Inl _) = False"

lemma is_ok_iff: "is_ok r \<longleftrightarrow> (\<exists>x. r = Inr x)"
  by (cases r) auto

text \<open>\<open>Result::and_then\<close> (also what \<open>?\<close> does), \<open>ok_or\<close> and \<open>ensure!\<close>.\<close>

definition and_then :: "'e + 'a \<Rightarrow> ('a \<Rightarrow> 'e + 'b) \<Rightarrow> 'e + 'b" where
  "and_then r f = (case r of Inl e \<Rightarrow> Inl e | Inr x \<Rightarrow> f x)"

definition ok_or :: "'a option \<Rightarrow> 'e \<Rightarrow> 'e + 'a" where
  "ok_or x e = (case x of None \<Rightarrow> Inl e | Some v \<Rightarrow> Inr v)"

definition ensure :: "bool \<Rightarrow> 'e \<Rightarrow> 'e + unit" where
  "ensure b e = (if b then Inr () else Inl e)"

lemma and_then_simps [simp]: "and_then (Inl e) f = Inl e" "and_then (Inr x) f = f x"
  by (simp_all add: and_then_def)

lemma and_then_Inr: "and_then r f = Inr y \<longleftrightarrow> (\<exists>x. r = Inr x \<and> f x = Inr y)"
  by (cases r) auto

lemma and_then_Inl: "and_then r f = Inl e \<longleftrightarrow> r = Inl e \<or> (\<exists>x. r = Inr x \<and> f x = Inl e)"
  by (cases r) auto

lemma ok_or_simps [simp]: "ok_or None e = Inl e" "ok_or (Some v) e = Inr v"
  by (simp_all add: ok_or_def)

lemma ok_or_eq: "ok_or x e = Inr v \<longleftrightarrow> x = Some v" "ok_or x e = Inl d \<longleftrightarrow> x = None \<and> d = e"
  by (cases x; auto)+

lemma ensure_simps [simp]: "ensure True e = Inr ()" "ensure False e = Inl e"
  by (simp_all add: ensure_def)

lemma ensure_eq: "ensure b e = Inr u \<longleftrightarrow> b" "ensure b e = Inl d \<longleftrightarrow> \<not> b \<and> d = e"
  by (auto simp: ensure_def)

lemmas result_eqs = and_then_Inr and_then_Inl ok_or_eq ensure_eq

text \<open>\<open>Option::is_none_or\<close> and \<open>Option::is_some_and\<close>.\<close>

definition none_or :: "'a option \<Rightarrow> ('a \<Rightarrow> bool) \<Rightarrow> bool" where
  "none_or x p = (case x of None \<Rightarrow> True | Some v \<Rightarrow> p v)"

definition some_and :: "'a option \<Rightarrow> ('a \<Rightarrow> bool) \<Rightarrow> bool" where
  "some_and x p = (case x of None \<Rightarrow> False | Some v \<Rightarrow> p v)"

lemma none_or_simps [simp]: "none_or None p" "none_or (Some v) p = p v"
  by (simp_all add: none_or_def)

lemma some_and_simps [simp]: "\<not> some_and None p" "some_and (Some v) p = p v"
  by (simp_all add: some_and_def)

lemma some_and_iff: "some_and x p \<longleftrightarrow> (\<exists>v. x = Some v \<and> p v)"
  by (cases x) auto

section \<open>Decimal formatting\<close>

text \<open>\<open>format!("{}", n)\<close> of an integer.\<close>

definition digit_char :: "nat \<Rightarrow> char" where
  "digit_char d = char_of (48 + d)"

fun show_nat :: "nat \<Rightarrow> string" where
  "show_nat n = (if n < 10 then [digit_char n] else show_nat (n div 10) @ [digit_char (n mod 10)])"

declare show_nat.simps [simp del]

definition show_int :: "int \<Rightarrow> string" where
  "show_int i = (if i < 0 then CHR ''-'' # show_nat (nat (- i)) else show_nat (nat i))"

lemma show_nat_digit: "n < 10 \<Longrightarrow> show_nat n = [digit_char n]"
  by (subst show_nat.simps) simp

lemma show_nat_step: "10 \<le> n \<Longrightarrow> show_nat n = show_nat (n div 10) @ [digit_char (n mod 10)]"
  by (subst show_nat.simps) simp

lemma show_nat_nonempty: "show_nat n \<noteq> []"
  by (subst show_nat.simps) simp

text \<open>The value of a string of decimal digits, and that formatting is read back.\<close>

definition is_digit :: "char \<Rightarrow> bool" where
  "is_digit c \<longleftrightarrow> 48 \<le> (of_char c :: nat) \<and> (of_char c :: nat) \<le> 57"

definition digit_val :: "char \<Rightarrow> nat" where
  "digit_val c = of_char c - 48"

definition digits_val :: "string \<Rightarrow> nat" where
  "digits_val = foldl (\<lambda>a c. 10 * a + digit_val c) 0"

lemma digit_char_val: "d < 10 \<Longrightarrow> is_digit (digit_char d) \<and> digit_val (digit_char d) = d"
  by (simp add: is_digit_def digit_val_def digit_char_def)

lemma digits_val_snoc [simp]: "digits_val (xs @ [c]) = 10 * digits_val xs + digit_val c"
  by (simp add: digits_val_def)

lemma show_nat_read: "list_all is_digit (show_nat n) \<and> digits_val (show_nat n) = n"
proof (induction n rule: show_nat.induct)
  case (1 n)
  show ?case
  proof (cases "n < 10")
    case True
    then show ?thesis using digit_char_val [of n]
      by (simp add: show_nat_digit) (simp add: digits_val_def)
  next
    case False
    with 1 digit_char_val [of "n mod 10"] show ?thesis
      by (simp add: show_nat_step)
  qed
qed

lemma show_nat_inj: "show_nat m = show_nat n \<Longrightarrow> m = n"
  using show_nat_read by metis

end
