(* ===== verification/Parameters.thy ===== *)
theory Parameters imports Prelude begin

text \<open>
  The two policy structs of \<open>crates/regain-hub/src/parameters.rs\<close> with the range checks the
  \<open>parameters!\<close> macro generates from their declarations: \<open>PollPolicy\<close> and \<open>SafetyPolicy\<close>,
  their defaults, \<open>validate\<close> and \<open>validate_timing\<close>. Messages are the formatted texts.
  The bounds 0.1 and 0.05 of the source are the doubles nearest to these decimals, which lie just
  above them with no double in between: for a double the comparison with the decimal is the same.
\<close>

record field_error =
  fe_path :: string
  fe_code :: string
  fe_message :: string

definition field_error_new :: "string \<Rightarrow> string \<Rightarrow> string \<Rightarrow> field_error" where
  "field_error_new path code message = \<lparr>fe_path = path, fe_code = code, fe_message = message\<rparr>"

text \<open>One generated check: the value must be finite and inside the closed range.\<close>

definition range_error :: "string \<Rightarrow> string \<Rightarrow> rat \<Rightarrow> rat \<Rightarrow> f64 \<Rightarrow> field_error list" where
  "range_error path message lo hi v =
     (if \<not> f64_finite v \<or> \<not> (f64_le (Fin lo) v \<and> f64_le v (Fin hi))
      then [field_error_new path ''range'' message] else [])"

lemma range_error_Nil: "range_error p m lo hi v = [] \<longleftrightarrow> (\<exists>r. v = Fin r \<and> lo \<le> r \<and> r \<le> hi)"
  by (cases v) (auto simp: range_error_def)

record poll_policy =
  connection_timeout_seconds :: f64
  poll_seconds :: f64
  request_timeout_seconds :: f64
  attempts_per_cycle :: nat
  initial_backoff_seconds :: f64
  backoff_multiplier :: f64
  backoff_cap_seconds :: f64

definition default_poll_policy :: poll_policy where
  "default_poll_policy =
     \<lparr>connection_timeout_seconds = Fin 30, poll_seconds = Fin 30, request_timeout_seconds = Fin 1,
      attempts_per_cycle = 3, initial_backoff_seconds = Fin (1/2), backoff_multiplier = Fin 2,
      backoff_cap_seconds = Fin 30\<rparr>"

definition poll_validate :: "poll_policy \<Rightarrow> field_error list" where
  "poll_validate p =
     range_error ''connectionTimeoutSeconds'' ''Connection timeout must be between 1 and 300 s'' 1 300
       (connection_timeout_seconds p)
     @ range_error ''pollSeconds'' ''Check interval must be between 0.1 and 3600 s'' (1/10) 3600
       (poll_seconds p)
     @ range_error ''requestTimeoutSeconds'' ''Request timeout must be between 0.05 and 60 s'' (5/100) 60
       (request_timeout_seconds p)
     @ range_error ''attemptsPerCycle'' ''Attempts per cycle must be between 1 and 10 attempts'' 1 10
       (Fin (of_nat (attempts_per_cycle p)))
     @ range_error ''initialBackoffSeconds'' ''Initial retry delay must be between 0.05 and 300 s'' (5/100) 300
       (initial_backoff_seconds p)
     @ range_error ''backoffMultiplier'' ''Retry multiplier must be between 1 and 10 '' 1 10
       (backoff_multiplier p)
     @ range_error ''backoffCapSeconds'' ''Maximum retry delay must be between 0.05 and 3600 s'' (5/100) 3600
       (backoff_cap_seconds p)"

definition validate_timing :: "poll_policy \<Rightarrow> field_error list" where
  "validate_timing p =
     poll_validate p
     @ (if f64_lt (backoff_cap_seconds p) (initial_backoff_seconds p)
        then [field_error_new ''backoffCapSeconds'' ''timing'' ''Retry cap must be at least the initial delay'']
        else [])"

record safety_policy =
  confirmation_seconds :: f64
  failed_cycles_to_unsafe :: nat
  unsafe_readings_to_unsafe :: nat
  safe_readings_to_safe :: nat
  maximum_safe_age_seconds :: f64
  return_to_safe_hold_seconds :: f64

definition default_safety_policy :: safety_policy where
  "default_safety_policy =
     \<lparr>confirmation_seconds = Fin 30, failed_cycles_to_unsafe = 3, unsafe_readings_to_unsafe = 1,
      safe_readings_to_safe = 3, maximum_safe_age_seconds = Fin 90,
      return_to_safe_hold_seconds = Fin 10\<rparr>"

definition safety_validate :: "safety_policy \<Rightarrow> field_error list" where
  "safety_validate p =
     range_error ''confirmationSeconds'' ''Confirmation interval must be between 0.1 and 3600 s'' (1/10) 3600
       (confirmation_seconds p)
     @ range_error ''failedCyclesToUnsafe'' ''Failed checks before unsafe must be between 1 and 1000 checks'' 1 1000
       (Fin (of_nat (failed_cycles_to_unsafe p)))
     @ range_error ''unsafeReadingsToUnsafe'' ''Unsafe readings before unsafe must be between 1 and 1000 readings'' 1 1000
       (Fin (of_nat (unsafe_readings_to_unsafe p)))
     @ range_error ''safeReadingsToSafe'' ''Safe readings before recovery must be between 1 and 1000 readings'' 1 1000
       (Fin (of_nat (safe_readings_to_safe p)))
     @ range_error ''maximumSafeAgeSeconds'' ''Maximum safe age must be between 0.1 and 3600 s'' (1/10) 3600
       (maximum_safe_age_seconds p)
     @ range_error ''returnToSafeHoldSeconds'' ''Recovery hold must be between 0 and 3600 s'' 0 3600
       (return_to_safe_hold_seconds p)"

text \<open>What an accepted policy guarantees its users: no duration conversion below can panic.\<close>

lemma safety_validateD:
  assumes "safety_validate p = []"
  shows "\<exists>r. confirmation_seconds p = Fin r \<and> 1/10 \<le> r \<and> r \<le> 3600"
    and "\<exists>r. maximum_safe_age_seconds p = Fin r \<and> 1/10 \<le> r \<and> r \<le> 3600"
    and "\<exists>r. return_to_safe_hold_seconds p = Fin r \<and> 0 \<le> r \<and> r \<le> 3600"
    and "1 \<le> failed_cycles_to_unsafe p \<and> failed_cycles_to_unsafe p \<le> 1000"
    and "1 \<le> unsafe_readings_to_unsafe p \<and> unsafe_readings_to_unsafe p \<le> 1000"
    and "1 \<le> safe_readings_to_safe p \<and> safe_readings_to_safe p \<le> 1000"
proof -
  have count: "range_error q m 1 1000 (Fin (of_nat n)) = [] \<Longrightarrow> 1 \<le> n \<and> n \<le> 1000" for q m n
    unfolding range_error_Nil using of_nat_le_iff [of n 1000, where 'a = rat]
      of_nat_le_iff [of 1 n, where 'a = rat] by auto
  note v = assms [unfolded safety_validate_def append_is_Nil_conv]
  from v show "\<exists>r. confirmation_seconds p = Fin r \<and> 1/10 \<le> r \<and> r \<le> 3600"
    and "\<exists>r. maximum_safe_age_seconds p = Fin r \<and> 1/10 \<le> r \<and> r \<le> 3600"
    and "\<exists>r. return_to_safe_hold_seconds p = Fin r \<and> 0 \<le> r \<and> r \<le> 3600"
    unfolding range_error_Nil by blast+
  from v show "1 \<le> failed_cycles_to_unsafe p \<and> failed_cycles_to_unsafe p \<le> 1000"
    and "1 \<le> unsafe_readings_to_unsafe p \<and> unsafe_readings_to_unsafe p \<le> 1000"
    and "1 \<le> safe_readings_to_safe p \<and> safe_readings_to_safe p \<le> 1000"
    using count by blast+
qed

lemma safety_validate_age_pos:
  "safety_validate p = [] \<Longrightarrow> 0 < from_secs_f64 (maximum_safe_age_seconds p)"
  using safety_validateD(2) [of p] from_secs_f64_pos by force

lemma default_safety_policy_valid: "safety_validate default_safety_policy = []"
  by (simp add: safety_validate_def default_safety_policy_def range_error_def)

lemma default_poll_policy_valid: "validate_timing default_poll_policy = []"
  by (simp add: validate_timing_def poll_validate_def default_poll_policy_def range_error_def)

end
