(* ===== verification/Ordered_Map.thy ===== *)
theory Ordered_Map imports Prelude begin

text \<open>
  \<open>std::collections::BTreeMap\<close>: an association list with strictly increasing keys, so that
  \<open>values()\<close> and \<open>iter()\<close> are the list itself, in key order. The interface the rest of the
  development uses is the locale \<open>ordered_map\<close>; it is interpreted at the end on the list
  operations of this theory.
\<close>

section \<open>The interface\<close>

locale ordered_map =
  fixes empty :: 'm
    and lookup :: "'m \<Rightarrow> 'k \<Rightarrow> 'v option"
    and insert :: "'k \<Rightarrow> 'v \<Rightarrow> 'm \<Rightarrow> 'm"
    and remove :: "'k \<Rightarrow> 'm \<Rightarrow> 'm"
    and keys :: "'m \<Rightarrow> 'k set"
    and wf :: "'m \<Rightarrow> bool"
  assumes wf_empty: "wf empty"
    and wf_insert: "wf m \<Longrightarrow> wf (insert k v m)"
    and wf_remove: "wf m \<Longrightarrow> wf (remove k m)"
    and lookup_empty: "lookup empty k = None"
    and lookup_insert: "wf m \<Longrightarrow> lookup (insert k v m) k' = (if k' = k then Some v else lookup m k')"
    and lookup_remove: "wf m \<Longrightarrow> lookup (remove k m) k' = (if k' = k then None else lookup m k')"
    and keys_lookup: "wf m \<Longrightarrow> k \<in> keys m \<longleftrightarrow> lookup m k \<noteq> None"
begin

lemma lookup_insert_same: "wf m \<Longrightarrow> lookup (insert k v m) k = Some v"
  by (simp add: lookup_insert)

lemma lookup_insert_other: "wf m \<Longrightarrow> k' \<noteq> k \<Longrightarrow> lookup (insert k v m) k' = lookup m k'"
  by (simp add: lookup_insert)

lemma insert_overwrites:
  "wf m \<Longrightarrow> lookup (insert k v (insert k u m)) = lookup (insert k v m)"
  by (rule ext) (simp add: lookup_insert wf_insert)

lemma insert_commutes:
  "wf m \<Longrightarrow> k \<noteq> l \<Longrightarrow> lookup (insert k v (insert l u m)) = lookup (insert l u (insert k v m))"
  by (rule ext) (auto simp: lookup_insert wf_insert)

lemma remove_after_insert:
  "wf m \<Longrightarrow> lookup m k = None \<Longrightarrow> lookup (remove k (insert k v m)) = lookup m"
  by (rule ext) (auto simp: lookup_insert lookup_remove wf_insert)

lemma keys_insert: "wf m \<Longrightarrow> keys (insert k v m) = Set.insert k (keys m)"
  by (auto simp: keys_lookup wf_insert lookup_insert split: if_splits)

end

section \<open>The implementation\<close>

type_synonym ('k, 'v) btree = "('k \<times> 'v) list"

definition bt_wf :: "('k::linorder, 'v) btree \<Rightarrow> bool" where
  "bt_wf m = sorted_wrt (<) (map fst m)"

fun bt_get :: "('k::linorder, 'v) btree \<Rightarrow> 'k \<Rightarrow> 'v option" where
  "bt_get [] k = None"
| "bt_get ((k', v) # m) k = (if k' = k then Some v else bt_get m k)"

fun bt_insert :: "'k::linorder \<Rightarrow> 'v \<Rightarrow> ('k, 'v) btree \<Rightarrow> ('k, 'v) btree" where
  "bt_insert k v [] = [(k, v)]"
| "bt_insert k v ((k', v') # m) =
     (if k < k' then (k, v) # (k', v') # m
      else if k = k' then (k, v) # m
      else (k', v') # bt_insert k v m)"

fun bt_remove :: "'k::linorder \<Rightarrow> ('k, 'v) btree \<Rightarrow> ('k, 'v) btree" where
  "bt_remove k [] = []"
| "bt_remove k ((k', v') # m) = (if k = k' then m else (k', v') # bt_remove k m)"

definition bt_keys :: "('k::linorder, 'v) btree \<Rightarrow> 'k set" where
  "bt_keys m = fst ` set m"

definition bt_contains :: "('k::linorder, 'v) btree \<Rightarrow> 'k \<Rightarrow> bool" where
  "bt_contains m k = (bt_get m k \<noteq> None)"

definition bt_values :: "('k::linorder, 'v) btree \<Rightarrow> 'v list" where
  "bt_values m = map snd m"

definition bt_of_list :: "('k::linorder \<times> 'v) list \<Rightarrow> ('k, 'v) btree" where
  "bt_of_list xs = fold (\<lambda>(k, v) m. bt_insert k v m) xs []"

text \<open>\<open>iter().map(|(k, v)| (k, f(v))).collect()\<close>, and \<open>values_mut()\<close>.\<close>

definition bt_map_values :: "('v \<Rightarrow> 'w) \<Rightarrow> ('k::linorder, 'v) btree \<Rightarrow> ('k, 'w) btree" where
  "bt_map_values f m = map (\<lambda>(k, v). (k, f v)) m"

lemma bt_wf_simps [simp]:
  "bt_wf []"
  "bt_wf ((k, v) # m) \<longleftrightarrow> (\<forall>x \<in> set m. k < fst x) \<and> bt_wf m"
  by (auto simp: bt_wf_def)

lemma set_bt_insert: "set (bt_insert k v m) \<subseteq> Set.insert (k, v) (set m)"
proof (induction m)
  case (Cons p m)
  then show ?case by (cases p) auto
qed simp

lemma bt_insert_keys_gt:
  assumes "\<forall>x \<in> set m. a < fst x" and "a < k"
  shows "\<forall>x \<in> set (bt_insert k v m). a < fst x"
  using assms set_bt_insert [of k v m] by auto

lemma bt_wf_insert: "bt_wf m \<Longrightarrow> bt_wf (bt_insert k v m)"
proof (induction m)
  case (Cons p m)
  then show ?case
    using bt_insert_keys_gt [of m "fst p" k v] by (cases p) (auto dest: less_trans)
qed simp

lemma set_bt_remove: "set (bt_remove k m) \<subseteq> set m"
proof (induction m)
  case (Cons p m)
  then show ?case by (cases p) auto
qed simp

lemma bt_wf_remove: "bt_wf m \<Longrightarrow> bt_wf (bt_remove k m)"
proof (induction m)
  case (Cons p m)
  then show ?case using set_bt_remove [of k m] by (cases p) auto
qed simp

lemma bt_get_None_if_less: "\<forall>x \<in> set m. k < fst x \<Longrightarrow> bt_get m k = None"
  by (induction m) auto

lemma bt_get_insert: "bt_wf m \<Longrightarrow> bt_get (bt_insert k v m) k' = (if k' = k then Some v else bt_get m k')"
  by (induction m) auto

lemma bt_get_remove: "bt_wf m \<Longrightarrow> bt_get (bt_remove k m) k' = (if k' = k then None else bt_get m k')"
  by (induction m) (auto simp: bt_get_None_if_less)

lemma bt_keys_get: "k \<in> bt_keys m \<longleftrightarrow> bt_get m k \<noteq> None"
  by (induction m) (auto simp: bt_keys_def)

lemma bt_get_in_set: "bt_get m k = Some v \<Longrightarrow> (k, v) \<in> set m"
  by (induction m) (auto split: if_splits)

lemma bt_get_of_set: "bt_wf m \<Longrightarrow> (k, v) \<in> set m \<Longrightarrow> bt_get m k = Some v"
proof (induction m)
  case (Cons p m)
  then show ?case by (cases p) fastforce
qed simp

lemma bt_get_iff: "bt_wf m \<Longrightarrow> bt_get m k = Some v \<longleftrightarrow> (k, v) \<in> set m"
  using bt_get_in_set bt_get_of_set by metis

lemma bt_get_map_values: "bt_get (bt_map_values f m) k = map_option f (bt_get m k)"
  by (induction m) (auto simp: bt_map_values_def)

lemma bt_map_values_keys [simp]: "map fst (bt_map_values f m) = map fst m"
  by (induction m) (auto simp: bt_map_values_def)

lemma bt_wf_map_values [simp]: "bt_wf (bt_map_values f m) = bt_wf m"
  by (simp add: bt_wf_def)

lemma bt_values_map_values [simp]: "bt_values (bt_map_values f m) = map f (bt_values m)"
  by (induction m) (auto simp: bt_map_values_def bt_values_def)

lemma bt_map_values_Nil [simp]: "bt_map_values f m = [] \<longleftrightarrow> m = []"
  by (simp add: bt_map_values_def)

lemma bt_values_insert: "x \<in> set (bt_values (bt_insert k v m)) \<Longrightarrow> x = v \<or> x \<in> set (bt_values m)"
  using set_bt_insert [of k v m] by (auto simp: bt_values_def image_iff)

lemma bt_wf_of_list: "bt_wf (bt_of_list xs)"
proof -
  have "bt_wf m \<Longrightarrow> bt_wf (fold (\<lambda>(k, v) m. bt_insert k v m) xs m)" for m
    by (induction xs arbitrary: m) (auto simp: bt_wf_insert)
  then show ?thesis by (simp add: bt_of_list_def)
qed

text \<open>The contract holds of the association list.\<close>

interpretation btm: ordered_map "[]" bt_get bt_insert bt_remove bt_keys bt_wf
  by unfold_locales
    (simp_all add: bt_wf_insert bt_wf_remove bt_get_insert bt_get_remove bt_keys_get)

lemma bt_get_fold_insert:
  "bt_wf m \<Longrightarrow> bt_get (fold (\<lambda>(k, v) m. bt_insert k v m) xs m) k
     = (case map_of (rev xs) k of None \<Rightarrow> bt_get m k | Some v \<Rightarrow> Some v)"
  by (induction xs arbitrary: m)
    (auto simp: bt_get_insert bt_wf_insert map_add_def split: option.splits)

lemma bt_get_of_list: "bt_get (bt_of_list xs) k = map_of (rev xs) k"
  by (simp add: bt_of_list_def bt_get_fold_insert split: option.split)

lemmas bt_simps = bt_get_insert bt_get_remove bt_wf_insert bt_wf_remove

end
