(* ===== verification/Safety.thy ===== *)
theory Safety imports Parameters Ordered_Map "HOL-Library.Word" begin

text \<open>
  The safety state machine of \<open>crates/regain-hub/src/safety.rs\<close>: one \<open>Endpoint\<close> per monitored
  source, the \<open>SafetyHub\<close> that aggregates them, and the \<open>SafetyRuntime\<close> that serialises
  observations, reads, resets, the expiry task and shutdown, and publishes a snapshot after each.

  Durations and instants are nanoseconds. The clock is what the caller read: \<open>clock_read\<close> holds
  the values of one operation's calls to the \<open>Clock\<close> trait. \<open>Uuid::new_v4()\<close> is a parameter
  (\<open>fresh\<close>), of which the code relies on the documented fact that it is never the nil UUID.
  The watch channel is the last published snapshot. A snapshot carries ages in nanoseconds, which
  the code converts to seconds for display.
\<close>

type_synonym uuid = "128 word"

record fence =
  fence_revision :: uuid
  fence_generation :: uuid

datatype outcome = OSafe | OUnsafe | OAttemptFailed | OCycleFailed | OFault

record observation =
  obs_resume_epoch :: nat
  obs_fence :: fence
  obs_sequence :: nat
  obs_request_started :: nat
  obs_received :: nat
  obs_outcome :: outcome

datatype phase =
  Unknown | FreshSafe | GraceSafe | PendingUnsafe | PendingSafe | Unsafe | Stale | Faulted

record snapshot =
  sn_revision :: uuid
  sn_generation :: uuid
  sn_phase :: phase
  sn_raw_is_safe :: "bool option"
  sn_permits_safe :: bool
  sn_recovery_confirmed :: bool
  sn_safe_age :: "nat option"
  sn_failed_cycles :: nat
  sn_unsafe_readings :: nat
  sn_safe_readings :: nat
  sn_safe_hold :: nat
  sn_reason :: string
  sn_last_sequence :: nat

record endpoint =
  ep_policy :: safety_policy
  ep_fence :: fence
  ep_phase :: phase
  ep_raw :: "bool option"
  ep_permits :: bool
  ep_confirmed :: bool
  ep_sequence :: nat
  ep_last_now :: nat
  ep_last_request :: "nat option"
  ep_last_safe_start :: "nat option"
  ep_run_start :: "nat option"
  ep_counted_safe :: "nat option"
  ep_counted_unsafe :: "nat option"
  ep_counted_failure :: "nat option"
  ep_failures :: nat
  ep_unsafe_count :: nat
  ep_safe_count :: nat
  ep_reason :: string
  ep_clock_fault :: bool

section \<open>One endpoint\<close>

definition endpoint_new :: "safety_policy \<Rightarrow> fence \<Rightarrow> field_error list + endpoint" where
  "endpoint_new policy fence =
     (let errors = safety_validate policy in
      if errors \<noteq> [] then Inl errors
      else if fence_revision fence = 0 \<or> fence_generation fence = 0
      then Inl [field_error_new ''fence'' ''identity''
                  ''Safety observations require non-nil revision and generation IDs'']
      else Inr \<lparr>ep_policy = policy, ep_fence = fence, ep_phase = Unknown, ep_raw = None,
        ep_permits = False, ep_confirmed = False, ep_sequence = 0, ep_last_now = 0,
        ep_last_request = None, ep_last_safe_start = None, ep_run_start = None,
        ep_counted_safe = None, ep_counted_unsafe = None, ep_counted_failure = None,
        ep_failures = 0, ep_unsafe_count = 0, ep_safe_count = 0,
        ep_reason = ''Waiting for a valid safe observation'', ep_clock_fault = False\<rparr>)"

definition reset_recovery :: "endpoint \<Rightarrow> endpoint" where
  "reset_recovery s =
     s\<lparr>ep_safe_count := 0, ep_run_start := None, ep_counted_safe := None, ep_confirmed := False\<rparr>"

definition withdraw :: "phase \<Rightarrow> string \<Rightarrow> endpoint \<Rightarrow> endpoint" where
  "withdraw phase reason s =
     (reset_recovery (s\<lparr>ep_permits := False\<rparr>))\<lparr>ep_phase := phase, ep_reason := reason\<rparr>"

definition age_limit :: "endpoint \<Rightarrow> nat" where
  "age_limit s = from_secs_f64 (maximum_safe_age_seconds (ep_policy s))"

definition eligible :: "endpoint \<Rightarrow> nat option \<Rightarrow> nat \<Rightarrow> bool" where
  "eligible s prev start =
     none_or prev (\<lambda>t. from_secs_f64 (confirmation_seconds (ep_policy s)) \<le> start - t)"

definition expire :: "nat \<Rightarrow> endpoint \<Rightarrow> endpoint" where
  "expire now s =
     (let s = (if now < ep_last_now s
               then withdraw Faulted ''Clock discontinuity; reconnect to establish a new generation''
                      (s\<lparr>ep_clock_fault := True\<rparr>)
               else s);
          s = s\<lparr>ep_last_now := now\<rparr>
      in if some_and (ep_last_safe_start s) (\<lambda>start. age_limit s \<le> now - start)
            \<and> ep_phase s \<notin> {Stale, Unsafe, Faulted}
         then withdraw Stale ''Last safe request exceeded its maximum age'' s
         else s)"

text \<open>The arms of the match on the outcome. The safe arm may return early (first component).\<close>

definition observe_failed :: "bool \<Rightarrow> nat \<Rightarrow> endpoint \<Rightarrow> endpoint" where
  "observe_failed cycle start s =
     (let s = reset_recovery s;
          s = (if ep_permits s
               then s\<lparr>ep_phase := (if 0 < ep_unsafe_count s then PendingUnsafe else GraceSafe)\<rparr>
               else if ep_phase s = PendingSafe then s\<lparr>ep_phase := Unknown\<rparr>
               else s);
          s = s\<lparr>ep_reason :=
                 (if ep_phase s = Unsafe
                     \<and> unsafe_readings_to_unsafe (ep_policy s) \<le> ep_unsafe_count s
                  then ''Confirmed upstream unsafe; communication also failed''
                  else ''Source communication failed'')\<rparr>
      in if cycle \<and> eligible s (ep_counted_failure s) start
         then let s = s\<lparr>ep_counted_failure := Some start,
                        ep_failures := sat_add 32 (ep_failures s) 1\<rparr>
              in if failed_cycles_to_unsafe (ep_policy s) \<le> ep_failures s
                 then withdraw Unsafe ''Failed check threshold reached'' s else s
         else s)"

definition observe_unsafe :: "nat \<Rightarrow> endpoint \<Rightarrow> endpoint" where
  "observe_unsafe start s =
     (let s = reset_recovery (s\<lparr>ep_raw := Some False, ep_failures := 0, ep_counted_failure := None\<rparr>);
          s = (if eligible s (ep_counted_unsafe s) start
               then s\<lparr>ep_counted_unsafe := Some start,
                      ep_unsafe_count := sat_add 32 (ep_unsafe_count s) 1\<rparr>
               else s)
      in if unsafe_readings_to_unsafe (ep_policy s) \<le> ep_unsafe_count s
         then withdraw Unsafe ''Upstream reports unsafe; confirmation threshold reached'' s
         else s\<lparr>ep_phase := PendingUnsafe,
                ep_reason := ''Upstream reports unsafe; prior safe age still applies''\<rparr>)"

definition count_safe :: "nat \<Rightarrow> nat \<Rightarrow> nat \<Rightarrow> endpoint \<Rightarrow> endpoint" where
  "count_safe start received now s =
     (let s = s\<lparr>ep_counted_safe := Some start,
                ep_run_start := (case ep_run_start s of None \<Rightarrow> Some received | Some t \<Rightarrow> Some t),
                ep_safe_count := sat_add 32 (ep_safe_count s) 1\<rparr>;
          s = s\<lparr>ep_confirmed :=
                 safe_readings_to_safe (ep_policy s) \<le> ep_safe_count s
                 \<and> some_and (ep_run_start s)
                     (\<lambda>t. from_secs_f64 (return_to_safe_hold_seconds (ep_policy s)) \<le> now - t)\<rparr>
      in if ep_confirmed s then s\<lparr>ep_permits := True\<rparr> else s)"

definition observe_safe :: "nat \<Rightarrow> nat \<Rightarrow> nat \<Rightarrow> endpoint \<Rightarrow> bool \<times> endpoint" where
  "observe_safe start received now s =
     (let s = s\<lparr>ep_raw := Some True, ep_failures := 0, ep_counted_failure := None,
                ep_unsafe_count := 0, ep_counted_unsafe := None\<rparr>
      in if age_limit s \<le> now - start
         then (True, withdraw Stale ''Safe response was already expired on receipt'' s)
         else
           let s = s\<lparr>ep_last_safe_start := Some start\<rparr>;
               s = (if eligible s (ep_counted_safe s) start
                    then count_safe start received now s else s)
           in (False, s\<lparr>ep_phase := (if ep_permits s then FreshSafe else PendingSafe),
                        ep_reason := (if ep_permits s then ''Fresh safe observation''
                          else ''Waiting for safe reading count and recovery hold'')\<rparr>))"

definition apply_outcome :: "observation \<Rightarrow> nat \<Rightarrow> endpoint \<Rightarrow> bool \<times> endpoint" where
  "apply_outcome ob now s =
     (case obs_outcome ob of
        OFault \<Rightarrow> (False, withdraw Faulted ''Source returned invalid data or a permanent error'' s)
      | OAttemptFailed \<Rightarrow> (False, observe_failed False (obs_request_started ob) s)
      | OCycleFailed \<Rightarrow> (False, observe_failed True (obs_request_started ob) s)
      | OUnsafe \<Rightarrow> (False, observe_unsafe (obs_request_started ob) s)
      | OSafe \<Rightarrow> observe_safe (obs_request_started ob) (obs_received ob) now s)"

definition observe :: "observation \<Rightarrow> nat \<Rightarrow> endpoint \<Rightarrow> bool \<times> endpoint" where
  "observe ob now s =
     (let s = expire now s in
      if ep_clock_fault s \<or> obs_fence ob \<noteq> ep_fence s \<or> obs_sequence ob \<le> ep_sequence s
      then (False, s)
      else
        let s = s\<lparr>ep_sequence := obs_sequence ob\<rparr>; start = obs_request_started ob in
        if obs_received ob < start \<or> now < obs_received ob
           \<or> some_and (ep_last_request s) (\<lambda>previous. start < previous)
        then (True, withdraw Faulted ''Invalid observation timestamps'' s)
        else
          let (early, s) = apply_outcome ob now (s\<lparr>ep_last_request := Some start\<rparr>)
          in (True, if early then s else expire now s))"

definition ep_snapshot :: "nat \<Rightarrow> endpoint \<Rightarrow> endpoint \<times> snapshot" where
  "ep_snapshot now s =
     (let s = expire now s in
      (s, \<lparr>sn_revision = fence_revision (ep_fence s), sn_generation = fence_generation (ep_fence s),
           sn_phase = ep_phase s, sn_raw_is_safe = ep_raw s, sn_permits_safe = ep_permits s,
           sn_recovery_confirmed = (ep_permits s \<and> ep_confirmed s),
           sn_safe_age = map_option (\<lambda>t. now - t) (ep_last_safe_start s),
           sn_failed_cycles = ep_failures s, sn_unsafe_readings = ep_unsafe_count s,
           sn_safe_readings = ep_safe_count s,
           sn_safe_hold = (case ep_run_start s of None \<Rightarrow> 0 | Some t \<Rightarrow> now - t),
           sn_reason = ep_reason s, sn_last_sequence = ep_sequence s\<rparr>))"

section \<open>The endpoint invariant\<close>

definition ep_inv :: "endpoint \<Rightarrow> bool" where
  "ep_inv s \<longleftrightarrow>
     safety_validate (ep_policy s) = []
     \<and> (ep_permits s \<longrightarrow> ep_last_safe_start s \<noteq> None \<and> ep_phase s \<notin> {Stale, Unsafe, Faulted}
           \<and> \<not> ep_clock_fault s)
     \<and> (ep_confirmed s \<longrightarrow> ep_permits s)
     \<and> (\<not> ep_clock_fault s \<longrightarrow> (\<forall>t. ep_last_safe_start s = Some t \<longrightarrow> t \<le> ep_last_now s))"

text \<open>Evidence that is still alive at \<open>now\<close>.\<close>

definition fresh_at :: "nat \<Rightarrow> endpoint \<Rightarrow> bool" where
  "fresh_at now s \<longleftrightarrow> some_and (ep_last_safe_start s) (\<lambda>t. t \<le> now \<and> now - t < age_limit s)"

lemma withdraw_simps [simp]:
  "ep_policy (withdraw ph r s) = ep_policy s"
  "ep_fence (withdraw ph r s) = ep_fence s"
  "ep_phase (withdraw ph r s) = ph"
  "\<not> ep_permits (withdraw ph r s)"
  "\<not> ep_confirmed (withdraw ph r s)"
  "ep_sequence (withdraw ph r s) = ep_sequence s"
  "ep_last_now (withdraw ph r s) = ep_last_now s"
  "ep_last_request (withdraw ph r s) = ep_last_request s"
  "ep_last_safe_start (withdraw ph r s) = ep_last_safe_start s"
  "ep_run_start (withdraw ph r s) = None"
  "ep_counted_safe (withdraw ph r s) = None"
  "ep_safe_count (withdraw ph r s) = 0"
  "ep_clock_fault (withdraw ph r s) = ep_clock_fault s"
  "age_limit (withdraw ph r s) = age_limit s"
  by (simp_all add: withdraw_def reset_recovery_def age_limit_def)

lemma reset_recovery_simps [simp]:
  "ep_policy (reset_recovery s) = ep_policy s"
  "ep_fence (reset_recovery s) = ep_fence s"
  "ep_phase (reset_recovery s) = ep_phase s"
  "ep_permits (reset_recovery s) = ep_permits s"
  "\<not> ep_confirmed (reset_recovery s)"
  "ep_last_now (reset_recovery s) = ep_last_now s"
  "ep_last_safe_start (reset_recovery s) = ep_last_safe_start s"
  "ep_run_start (reset_recovery s) = None"
  "ep_counted_safe (reset_recovery s) = None"
  "ep_safe_count (reset_recovery s) = 0"
  "ep_unsafe_count (reset_recovery s) = ep_unsafe_count s"
  "ep_clock_fault (reset_recovery s) = ep_clock_fault s"
  by (simp_all add: reset_recovery_def)

lemma endpoint_new_inv: "endpoint_new p f = Inr s \<Longrightarrow> ep_inv s"
  by (auto simp: endpoint_new_def ep_inv_def Let_def split: if_splits)

lemma endpoint_new_initial:
  "endpoint_new p f = Inr s \<Longrightarrow>
     \<not> ep_permits s \<and> ep_counted_safe s = None \<and> ep_run_start s = None \<and> ep_safe_count s = 0
     \<and> ep_policy s = p \<and> ep_fence s = f \<and> ep_phase s = Unknown"
  by (auto simp: endpoint_new_def Let_def split: if_splits)

lemma expire_frame [simp]:
  "ep_policy (expire now s) = ep_policy s"
  "ep_fence (expire now s) = ep_fence s"
  "ep_sequence (expire now s) = ep_sequence s"
  "ep_last_now (expire now s) = now"
  "ep_last_request (expire now s) = ep_last_request s"
  "ep_last_safe_start (expire now s) = ep_last_safe_start s"
  "age_limit (expire now s) = age_limit s"
  by (simp_all add: expire_def Let_def age_limit_def)

lemma expire_clock_fault: "ep_clock_fault (expire now s) \<longleftrightarrow> ep_clock_fault s \<or> now < ep_last_now s"
  by (simp add: expire_def Let_def)

lemma expire_permits_imp: "ep_permits (expire now s) \<Longrightarrow> ep_permits s"
  by (auto simp: expire_def Let_def split: if_splits)

lemma ep_invD:
  assumes "ep_inv s"
  shows "safety_validate (ep_policy s) = []"
    and "ep_permits s \<Longrightarrow> ep_last_safe_start s \<noteq> None"
    and "ep_permits s \<Longrightarrow> ep_phase s \<notin> {Stale, Unsafe, Faulted}"
    and "ep_permits s \<Longrightarrow> \<not> ep_clock_fault s"
    and "ep_confirmed s \<Longrightarrow> ep_permits s"
    and "\<not> ep_clock_fault s \<Longrightarrow> ep_last_safe_start s = Some t \<Longrightarrow> t \<le> ep_last_now s"
  using assms by (auto simp: ep_inv_def)

lemma expire_inv: "ep_inv s \<Longrightarrow> ep_inv (expire now s)"
  unfolding ep_inv_def expire_def Let_def
  by (auto simp: age_limit_def some_and_iff split: if_splits dest: order_trans [OF _ leI])

text \<open>Expiry never leaves a permission that rests on expired evidence.\<close>

lemma expire_fresh:
  assumes "ep_inv s" "ep_permits (expire now s)"
  shows "fresh_at now (expire now s)"
proof -
  from assms(2) have now: "\<not> now < ep_last_now s"
    by (auto simp: expire_def Let_def)
  note perm = expire_permits_imp [OF assms(2)]
  obtain t where t: "ep_last_safe_start s = Some t" "t \<le> ep_last_now s"
    using ep_invD [OF assms(1)] perm by fast
  have "ep_phase s \<notin> {Stale, Unsafe, Faulted}" using ep_invD(3) [OF assms(1) perm] .
  with assms(2) now t have "\<not> age_limit s \<le> now - t"
    by (auto simp: expire_def Let_def age_limit_def split: if_splits)
  with now t show ?thesis by (simp add: fresh_at_def)
qed

lemma reset_recovery_inv: "ep_inv s \<Longrightarrow> ep_inv (reset_recovery s)"
  by (simp add: ep_inv_def)

lemma withdraw_inv: "ep_inv s \<Longrightarrow> ep_inv (withdraw ph r s)"
  by (auto simp: ep_inv_def)

lemma observe_failed_inv: "ep_inv s \<Longrightarrow> ep_inv (observe_failed c start s)"
  by (auto simp: observe_failed_def Let_def ep_inv_def)

lemma observe_unsafe_inv: "ep_inv s \<Longrightarrow> ep_inv (observe_unsafe start s)"
  by (auto simp: observe_unsafe_def Let_def ep_inv_def)

lemma observe_safe_inv:
  assumes "ep_inv s" "start \<le> now" "ep_last_now s = now" "\<not> ep_clock_fault s"
  shows "ep_inv (snd (observe_safe start received now s))"
  using assms by (auto simp: observe_safe_def count_safe_def Let_def ep_inv_def)

lemma apply_outcome_inv:
  assumes "ep_inv s" "obs_request_started ob \<le> now" "ep_last_now s = now" "\<not> ep_clock_fault s"
  shows "ep_inv (snd (apply_outcome ob now s))"
  using assms
  by (auto simp: apply_outcome_def withdraw_inv observe_failed_inv observe_unsafe_inv
      observe_safe_inv split: outcome.splits)

lemma ep_inv_update [simp]:
  "ep_inv (s\<lparr>ep_sequence := n\<rparr>) = ep_inv s"
  "ep_inv (s\<lparr>ep_last_request := r\<rparr>) = ep_inv s"
  by (simp_all add: ep_inv_def)

lemma observe_inv: "ep_inv s \<Longrightarrow> ep_inv (snd (observe ob now s))"
  unfolding observe_def Let_def
  using apply_outcome_inv [of "(expire now s)\<lparr>ep_sequence := obs_sequence ob,
     ep_last_request := Some (obs_request_started ob)\<rparr>" ob now]
  by (auto simp: expire_inv withdraw_inv split: prod.split)

end
