(* ===== verification/Safety_Run.thy ===== *)
theory Safety_Run imports Safety begin

text \<open>
  What an endpoint's permission stands for, over the whole history of one endpoint: the
  observations it was given, and the times at which they were processed.
\<close>

inductive ep_reach :: "safety_policy \<Rightarrow> fence \<Rightarrow> (observation \<times> nat) list \<Rightarrow> endpoint \<Rightarrow> bool"
  for p f where
  created: "endpoint_new p f = Inr s \<Longrightarrow> ep_reach p f [] s"
| observed: "ep_reach p f hist s \<Longrightarrow> ep_reach p f (hist @ [(ob, now)]) (snd (observe ob now s))"
| polled: "ep_reach p f hist s \<Longrightarrow> ep_reach p f hist (fst (ep_snapshot now s))"

inductive_cases ep_reach_NilE: "ep_reach p f [] s"

lemma ep_snapshot_state [simp]: "fst (ep_snapshot now s) = expire now s"
  by (simp add: ep_snapshot_def Let_def)

lemma ep_reach_inv: "ep_reach p f hist s \<Longrightarrow> ep_inv s"
  by (induction rule: ep_reach.induct) (auto intro: endpoint_new_inv observe_inv expire_inv)

section \<open>Runs of counted safe observations\<close>

fun spaced :: "nat \<Rightarrow> nat list \<Rightarrow> bool" where
  "spaced d (x # y # r) = (x + d \<le> y \<and> spaced d (y # r))"
| "spaced d _ = True"

lemma spaced_snoc: "spaced d (xs @ [x]) \<longleftrightarrow> spaced d xs \<and> (xs \<noteq> [] \<longrightarrow> last xs + d \<le> x)"
  by (induction d xs rule: spaced.induct) auto

lemma spaced_span: "spaced d xs \<Longrightarrow> xs \<noteq> [] \<Longrightarrow> hd xs + (length xs - 1) * d \<le> last xs"
  by (induction d xs rule: spaced.induct) auto

abbreviation "start_of \<equiv> \<lambda>(ob, now :: nat). obs_request_started ob"

definition safe_run :: "safety_policy \<Rightarrow> fence \<Rightarrow> (observation \<times> nat) list \<Rightarrow> bool" where
  "safe_run p f cs \<longleftrightarrow>
     spaced (from_secs_f64 (confirmation_seconds p)) (map start_of cs)
     \<and> (\<forall>(ob, now) \<in> set cs. obs_outcome ob = OSafe \<and> obs_fence ob = f
           \<and> obs_request_started ob \<le> obs_received ob \<and> obs_received ob \<le> now)"

text \<open>A completed recovery: enough observations, and the hold has passed since the first arrived.\<close>

definition recovered :: "safety_policy \<Rightarrow> fence \<Rightarrow> (observation \<times> nat) list \<Rightarrow> bool" where
  "recovered p f cs \<longleftrightarrow>
     cs \<noteq> [] \<and> safe_run p f cs \<and> safe_readings_to_safe p \<le> length cs
     \<and> from_secs_f64 (return_to_safe_hold_seconds p)
         \<le> snd (last cs) - obs_received (fst (hd cs))"

text \<open>The run the counters of an endpoint describe.\<close>

definition run_of :: "safety_policy \<Rightarrow> fence \<Rightarrow> endpoint \<Rightarrow> (observation \<times> nat) list \<Rightarrow> bool" where
  "run_of p f s cs \<longleftrightarrow>
     ep_policy s = p \<and> ep_fence s = f \<and> safe_run p f cs
     \<and> ep_safe_count s = min (2 ^ 32 - 1) (length cs)
     \<and> ep_counted_safe s = (if cs = [] then None else Some (start_of (last cs)))
     \<and> ep_run_start s = (if cs = [] then None else Some (obs_received (fst (hd cs))))"

lemma run_of_cleared:
  "ep_policy s = p \<Longrightarrow> ep_fence s = f \<Longrightarrow> ep_safe_count s = 0 \<Longrightarrow> ep_counted_safe s = None
     \<Longrightarrow> ep_run_start s = None \<Longrightarrow> run_of p f s []"
  by (simp add: run_of_def safe_run_def)

lemma run_of_withdraw:
  "ep_policy s = p \<Longrightarrow> ep_fence s = f \<Longrightarrow> run_of p f (withdraw ph r s) []"
  by (simp add: run_of_cleared)

lemma run_of_frame: "run_of p f s cs \<Longrightarrow> ep_policy s = p \<and> ep_fence s = f"
  by (simp add: run_of_def)

lemma run_of_update [simp]:
  "run_of p f (s\<lparr>ep_sequence := n\<rparr>) cs = run_of p f s cs"
  "run_of p f (s\<lparr>ep_last_request := r\<rparr>) cs = run_of p f s cs"
  "run_of p f (s\<lparr>ep_last_now := n\<rparr>) cs = run_of p f s cs"
  by (simp_all add: run_of_def)

lemma run_of_expire: "run_of p f s cs \<Longrightarrow> \<exists>cs' \<in> {[], cs}. run_of p f (expire now s) cs'"
  using run_of_frame [of p f s cs] unfolding expire_def Let_def
  by (auto intro: run_of_cleared)

text \<open>One counted safe observation extends the run; if it confirms, the run is a recovery.\<close>

lemma eligible_spaced:
  assumes "eligible s (Some t) start" "safety_validate (ep_policy s) = []"
  shows "t + from_secs_f64 (confirmation_seconds (ep_policy s)) \<le> start"
proof -
  obtain r where r: "confirmation_seconds (ep_policy s) = Fin r" "1/10 \<le> r" "r \<le> 3600"
    using safety_validateD(1) [OF assms(2)] by blast
  have "100000000 \<le> from_secs_f64 (Fin r)" using r by (intro from_secs_f64_pos) auto
  with assms(1) r(1) show ?thesis by (simp add: eligible_def)
qed

lemma count_safe_run:
  assumes run: "run_of p f s cs" and el: "eligible s (ep_counted_safe s) (obs_request_started ob)"
    and valid: "safety_validate p = []"
    and ob: "obs_outcome ob = OSafe" "obs_fence ob = f"
      "obs_request_started ob \<le> obs_received ob" "obs_received ob \<le> now"
  defines "s' \<equiv> count_safe (obs_request_started ob) (obs_received ob) now s"
  shows "run_of p f s' (cs @ [(ob, now)])"
    and "ep_permits s' \<Longrightarrow> \<not> ep_permits s \<Longrightarrow> recovered p f (cs @ [(ob, now)])"
proof -
  have frame: "ep_policy s = p" "ep_fence s = f" using run_of_frame [OF run] by auto
  have run': "safe_run p f (cs @ [(ob, now)])"
  proof (cases "cs = []")
    case False
    then have "start_of (last cs) + from_secs_f64 (confirmation_seconds p) \<le> obs_request_started ob"
      using eligible_spaced [of s "start_of (last cs)"] el run valid frame by (simp add: run_of_def)
    with False run ob show ?thesis
      by (auto simp: run_of_def safe_run_def spaced_snoc last_map)
  qed (use ob in \<open>simp add: safe_run_def\<close>)
  show r: "run_of p f s' (cs @ [(ob, now)])"
    using run run' frame
    by (auto simp: s'_def run_of_def count_safe_def Let_def sat_add_def hd_append split: option.splits)
  assume "ep_permits s'" "\<not> ep_permits s"
  then have conf: "safe_readings_to_safe p \<le> ep_safe_count s'"
    "some_and (ep_run_start s')
       (\<lambda>t. from_secs_f64 (return_to_safe_hold_seconds p) \<le> now - t)"
    using frame by (auto simp: s'_def count_safe_def Let_def split: if_splits)
  with r run' show "recovered p f (cs @ [(ob, now)])"
    by (auto simp: recovered_def run_of_def)
qed

text \<open>
  The invariant of an endpoint's history: its counters describe a run of observations of the log,
  and a permission rests on a recovery made of observations of the log.
\<close>

definition history_inv ::
  "safety_policy \<Rightarrow> fence \<Rightarrow> (observation \<times> nat) list \<Rightarrow> endpoint \<Rightarrow> bool" where
  "history_inv p f hist s \<longleftrightarrow>
     (\<exists>cs. run_of p f s cs \<and> set cs \<subseteq> set hist)
     \<and> (ep_permits s \<longrightarrow> (\<exists>cs. recovered p f cs \<and> set cs \<subseteq> set hist))"

lemma history_inv_cleared:
  "ep_policy s = p \<Longrightarrow> ep_fence s = f \<Longrightarrow> ep_safe_count s = 0 \<Longrightarrow> ep_counted_safe s = None
     \<Longrightarrow> ep_run_start s = None
     \<Longrightarrow> (ep_permits s \<Longrightarrow> \<exists>cs. recovered p f cs \<and> set cs \<subseteq> set hist) \<Longrightarrow> history_inv p f hist s"
  using run_of_cleared [of s p f] by (auto simp: history_inv_def)

lemma history_inv_expire: "history_inv p f hist s \<Longrightarrow> history_inv p f hist (expire now s)"
  using run_of_expire [of p f s _ now] expire_permits_imp [of now s]
  unfolding history_inv_def by fastforce

lemma history_inv_weaken: "history_inv p f hist s \<Longrightarrow> history_inv p f (hist @ xs) s"
  unfolding history_inv_def by fastforce

lemma history_inv_update [simp]:
  "history_inv p f hist (s\<lparr>ep_sequence := n\<rparr>) = history_inv p f hist s"
  "history_inv p f hist (s\<lparr>ep_last_request := r\<rparr>) = history_inv p f hist s"
  by (simp_all add: history_inv_def)

lemma history_inv_frame: "history_inv p f hist s \<Longrightarrow> ep_policy s = p \<and> ep_fence s = f"
  by (auto simp: history_inv_def dest: run_of_frame)

lemma history_inv_failed: "history_inv p f hist s \<Longrightarrow> history_inv p f hist (observe_failed c start s)"
  using history_inv_frame [of p f hist s]
  by (intro history_inv_cleared)
    (auto simp: observe_failed_def Let_def history_inv_def split: if_splits)

lemma history_inv_unsafe: "history_inv p f hist s \<Longrightarrow> history_inv p f hist (observe_unsafe start s)"
  using history_inv_frame [of p f hist s]
  by (intro history_inv_cleared)
    (auto simp: observe_unsafe_def Let_def history_inv_def split: if_splits)

lemma history_inv_withdraw: "history_inv p f hist s \<Longrightarrow> history_inv p f hist (withdraw ph r s)"
  using history_inv_frame [of p f hist s] by (intro history_inv_cleared) auto

lemma observe_safe_history:
  assumes h: "history_inv p f hist s" and valid: "safety_validate p = []"
    and ob: "obs_outcome ob = OSafe" "obs_fence ob = f"
      "obs_request_started ob \<le> obs_received ob" "obs_received ob \<le> now"
  shows "history_inv p f (hist @ [(ob, now)])
    (snd (observe_safe (obs_request_started ob) (obs_received ob) now s))"
proof (cases "age_limit s \<le> now - obs_request_started ob")
  case True
  then show ?thesis using history_inv_weaken [OF h] history_inv_frame [OF h]
    by (auto simp: observe_safe_def Let_def age_limit_def intro!: history_inv_cleared)
next
  case False
  let ?s = "s\<lparr>ep_raw := Some True, ep_failures := 0, ep_counted_failure := None,
    ep_unsafe_count := 0, ep_counted_unsafe := None,
    ep_last_safe_start := Some (obs_request_started ob)\<rparr>"
  let ?c = "count_safe (obs_request_started ob) (obs_received ob) now ?s"
  have result: "history_inv p f hist' (snd (observe_safe (obs_request_started ob) (obs_received ob) now s))
     \<longleftrightarrow> history_inv p f hist'
           (if eligible ?s (ep_counted_safe ?s) (obs_request_started ob) then ?c else ?s)" for hist'
    using False
    by (simp add: observe_safe_def Let_def age_limit_def history_inv_def run_of_def)
  from h obtain cs where cs: "run_of p f s cs" "set cs \<subseteq> set hist"
    by (auto simp: history_inv_def)
  then have run: "run_of p f ?s cs" by (simp add: run_of_def)
  show ?thesis
  proof (cases "eligible ?s (ep_counted_safe ?s) (obs_request_started ob)")
    case True
    note c = count_safe_run [OF run True valid ob]
    have "\<exists>cs. recovered p f cs \<and> set cs \<subseteq> set (hist @ [(ob, now)])" if "ep_permits ?c"
    proof (cases "ep_permits s")
      case True
      with h show ?thesis by (force simp: history_inv_def)
    next
      case False
      with c(2) that cs(2) show ?thesis by (intro exI [of _ "cs @ [(ob, now)]"]) auto
    qed
    moreover have "run_of p f ?c (cs @ [(ob, now)])" "set (cs @ [(ob, now)]) \<subseteq> set (hist @ [(ob, now)])"
      using c(1) cs(2) by auto
    ultimately have "history_inv p f (hist @ [(ob, now)]) ?c"
      unfolding history_inv_def by blast
    then show ?thesis unfolding result using True by simp
  next
    case False
    then show ?thesis unfolding result using run cs(2) h by (force simp: history_inv_def)
  qed
qed

lemma observe_history:
  assumes "history_inv p f hist s" "safety_validate p = []"
  shows "history_inv p f (hist @ [(ob, now)]) (snd (observe ob now s))"
proof -
  have e: "history_inv p f hist (expire now s)" using assms(1) by (rule history_inv_expire)
  note f = history_inv_frame [OF e]
  let ?s = "(expire now s)\<lparr>ep_sequence := obs_sequence ob, ep_last_request := Some (obs_request_started ob)\<rparr>"
  have "history_inv p f (hist @ [(ob, now)]) (snd (apply_outcome ob now ?s))"
    if "obs_fence ob = f" "obs_request_started ob \<le> obs_received ob" "obs_received ob \<le> now"
    using e assms(2) that history_inv_weaken [OF e, of "[(ob, now)]"]
    by (cases "obs_outcome ob")
      (simp_all add: apply_outcome_def observe_safe_history history_inv_failed history_inv_unsafe
        history_inv_withdraw)
  then show ?thesis using history_inv_weaken [OF e] f
    by (auto simp: observe_def Let_def history_inv_withdraw history_inv_expire split: prod.split)
qed

lemma ep_reach_valid: "ep_reach p f hist s \<Longrightarrow> safety_validate p = []"
  by (induction rule: ep_reach.induct) (auto simp: endpoint_new_def Let_def split: if_splits)

lemma ep_reach_history: "ep_reach p f hist s \<Longrightarrow> history_inv p f hist s"
proof (induction rule: ep_reach.induct)
  case (created s)
  then show ?case using endpoint_new_initial [OF created] by (intro history_inv_cleared) auto
next
  case (observed hist s ob now)
  then show ?case using ep_reach_valid observe_history by blast
next
  case (polled hist s now)
  then show ?case by (simp add: history_inv_expire)
qed

section \<open>The guarantees of one endpoint\<close>

text \<open>
  C1: an endpoint that permits has seen, since it was created, a full recovery: at least
  \<open>safe_readings_to_safe\<close> safe observations under its own fence, whose requests started
  at least \<open>confirmation_seconds\<close> apart (so they span that many intervals), the last one processed
  at least \<open>return_to_safe_hold_seconds\<close> after the first one was received.
\<close>

theorem permission_rests_on_recovery:
  assumes "ep_reach p f hist s" and "ep_permits s"
  shows "\<exists>cs. cs \<noteq> [] \<and> set cs \<subseteq> set hist \<and> safe_readings_to_safe p \<le> length cs
    \<and> (\<forall>(ob, now) \<in> set cs. obs_outcome ob = OSafe \<and> obs_fence ob = f)
    \<and> spaced (from_secs_f64 (confirmation_seconds p)) (map (\<lambda>(ob, now). obs_request_started ob) cs)
    \<and> obs_request_started (fst (hd cs)) + (length cs - 1) * from_secs_f64 (confirmation_seconds p)
        \<le> obs_request_started (fst (last cs))
    \<and> from_secs_f64 (return_to_safe_hold_seconds p) \<le> snd (last cs) - obs_received (fst (hd cs))"
proof -
  obtain cs where cs: "recovered p f cs" "set cs \<subseteq> set hist"
    using ep_reach_history [OF assms(1)] assms(2) by (auto simp: history_inv_def)
  have "hd (map start_of cs) + (length (map start_of cs) - 1) * from_secs_f64 (confirmation_seconds p)
      \<le> last (map start_of cs)"
    using cs(1) by (intro spaced_span) (auto simp: recovered_def safe_run_def)
  with cs show ?thesis
    by (intro exI [of _ cs]) (auto simp: recovered_def safe_run_def hd_map last_map case_prod_beta)
qed

text \<open>A concrete history: three safe readings, 30 s apart, under the default policy.\<close>

definition demo_fence :: fence where
  "demo_fence = \<lparr>fence_revision = 1, fence_generation = 2\<rparr>"

definition demo_observation :: "outcome \<Rightarrow> nat \<Rightarrow> nat \<Rightarrow> observation" where
  "demo_observation outc n start =
     \<lparr>obs_resume_epoch = 0, obs_fence = demo_fence, obs_sequence = n, obs_request_started = start,
      obs_received = start + 1000000000, obs_outcome = outc\<rparr>"

definition demo_history :: "(observation \<times> nat) list" where
  "demo_history = map (\<lambda>n. (demo_observation OSafe (Suc n) (n * 30000000000), n * 30000000000 + 2000000000))
     [0, 1, 2]"

definition demo_endpoint :: "endpoint" where
  "demo_endpoint =
     (case endpoint_new default_safety_policy demo_fence of
        Inr s \<Rightarrow> fold (\<lambda>(ob, now) s. snd (observe ob now s)) demo_history s
      | Inl _ \<Rightarrow> undefined)"

lemmas safety_eval = observe_def apply_outcome_def observe_safe_def count_safe_def
  expire_def eligible_def age_limit_def from_secs_f64_fin sat_add_def withdraw_def reset_recovery_def
  default_safety_policy_def demo_observation_def demo_fence_def demo_history_def

lemma demo_endpoint_permits: "ep_permits demo_endpoint"
  unfolding demo_endpoint_def endpoint_new_def Let_def
  using default_safety_policy_valid by (simp add: safety_eval)

lemma demo_endpoint_reach: "ep_reach default_safety_policy demo_fence demo_history demo_endpoint"
proof -
  obtain s where s: "endpoint_new default_safety_policy demo_fence = Inr s"
    using default_safety_policy_valid by (simp add: endpoint_new_def demo_fence_def)
  have "ep_reach default_safety_policy demo_fence (h @ xs) (fold (\<lambda>(ob, now) s. snd (observe ob now s)) xs t)"
    if "ep_reach default_safety_policy demo_fence h t" for h xs t
    using that
  proof (induction xs arbitrary: h t)
    case (Cons x xs)
    from Cons.IH [OF ep_reach.observed [OF Cons.prems, of "fst x" "snd x"]]
    show ?case by (simp add: case_prod_beta)
  qed simp
  from this [OF ep_reach.created [OF s], of demo_history] s show ?thesis
    by (simp add: demo_endpoint_def)
qed

theorem permission_rests_on_recovery_witness:
  "ep_reach default_safety_policy demo_fence demo_history demo_endpoint \<and> ep_permits demo_endpoint
   \<and> (\<exists>cs. cs \<noteq> [] \<and> set cs \<subseteq> set demo_history \<and> 3 \<le> length cs)"
  using demo_endpoint_reach demo_endpoint_permits
    permission_rests_on_recovery [OF demo_endpoint_reach demo_endpoint_permits]
  by (force simp: default_safety_policy_def)

section \<open>Withdrawal\<close>

text \<open>A counted unsafe reading is never forgotten while its timestamp is kept.\<close>

definition unsafe_counted :: "endpoint \<Rightarrow> bool" where
  "unsafe_counted s \<longleftrightarrow> (ep_counted_unsafe s \<noteq> None \<longrightarrow> 1 \<le> ep_unsafe_count s)"

lemma unsafe_counted_keep:
  "ep_counted_unsafe t = ep_counted_unsafe s \<Longrightarrow> ep_unsafe_count t = ep_unsafe_count s
     \<Longrightarrow> unsafe_counted t = unsafe_counted s"
  by (simp add: unsafe_counted_def)

lemma unsafe_frames [simp]:
  "ep_counted_unsafe (expire now s) = ep_counted_unsafe s"
  "ep_unsafe_count (expire now s) = ep_unsafe_count s"
  "ep_counted_unsafe (withdraw ph r s) = ep_counted_unsafe s"
  "ep_unsafe_count (withdraw ph r s) = ep_unsafe_count s"
  "ep_counted_unsafe (observe_failed c t s) = ep_counted_unsafe s"
  "ep_unsafe_count (observe_failed c t s) = ep_unsafe_count s"
  by (simp_all add: expire_def withdraw_def reset_recovery_def observe_failed_def Let_def)

lemma unsafe_counted_observe: "unsafe_counted s \<Longrightarrow> unsafe_counted (snd (observe ob now s))"
proof -
  assume s: "unsafe_counted s"
  have e: "unsafe_counted (expire now s)" using s by (simp add: unsafe_counted_def)
  have safe: "unsafe_counted (snd (observe_safe t r n u))" for t r n u
    by (simp add: observe_safe_def Let_def count_safe_def unsafe_counted_def)
  have unsafe: "unsafe_counted (observe_unsafe t u)" if "unsafe_counted u" for t u
    using that by (simp add: observe_unsafe_def Let_def unsafe_counted_def sat_add_def reset_recovery_def)
  have "unsafe_counted (snd (apply_outcome ob now u))" if "unsafe_counted u" for u
    using that safe unsafe
    by (cases "obs_outcome ob") (simp_all add: apply_outcome_def, simp_all add: unsafe_counted_def)
  note this [of "(expire now s)\<lparr>ep_sequence := obs_sequence ob,
     ep_last_request := Some (obs_request_started ob)\<rparr>"]
  with e show ?thesis
    by (auto simp: observe_def Let_def unsafe_counted_def split: prod.split)
qed

lemma ep_reach_unsafe_counted: "ep_reach p f hist s \<Longrightarrow> unsafe_counted s"
proof (induction rule: ep_reach.induct)
  case (created s)
  then show ?case by (auto simp: endpoint_new_def Let_def unsafe_counted_def split: if_splits)
next
  case (observed hist s ob now)
  then show ?case by (simp add: unsafe_counted_observe)
next
  case (polled hist s now)
  then show ?case by (simp add: unsafe_counted_def)
qed

lemma observe_unsafe_withdraws:
  assumes "unsafe_counted s" "unsafe_readings_to_unsafe (ep_policy s) = 1"
  shows "\<not> ep_permits (observe_unsafe start s)"
  using assms
  by (cases "ep_counted_unsafe s")
    (auto simp: observe_unsafe_def Let_def unsafe_counted_def sat_add_def eligible_def reset_recovery_def)

text \<open>
  With the default threshold of one, an accepted unsafe reading withdraws permission at once,
  and an accepted fault report or an observation with impossible timestamps always does,
  whatever the endpoint had seen before.
\<close>

theorem adverse_observation_withdraws:
  assumes reach: "ep_reach p f hist s" and accepted: "fst (observe ob now s)"
    and adverse: "obs_outcome ob = OUnsafe \<and> unsafe_readings_to_unsafe p = 1 \<or> obs_outcome ob = OFault"
  shows "\<not> ep_permits (snd (observe ob now s))"
proof -
  let ?u = "(expire now s)\<lparr>ep_sequence := obs_sequence ob, ep_last_request := Some (obs_request_started ob)\<rparr>"
  have u: "unsafe_counted ?u" "ep_policy ?u = p"
    using ep_reach_unsafe_counted [OF reach] history_inv_frame [OF ep_reach_history [OF reach]]
    by (simp_all add: unsafe_counted_def)
  have "\<not> ep_permits (snd (apply_outcome ob now ?u))"
    using adverse observe_unsafe_withdraws [OF u(1)] u(2) by (auto simp: apply_outcome_def)
  with accepted show ?thesis
    by (auto simp: observe_def Let_def split: if_splits prod.splits dest: expire_permits_imp)
qed

theorem adverse_observation_withdraws_witness:
  "\<not> ep_permits (snd (observe (demo_observation OUnsafe 4 90000000000) 92000000000 demo_endpoint))
   \<and> ep_permits demo_endpoint"
proof
  show p: "ep_permits demo_endpoint" by (rule demo_endpoint_permits)
  have fr: "ep_fence demo_endpoint = demo_fence" "ep_policy demo_endpoint = default_safety_policy"
    using history_inv_frame [OF ep_reach_history [OF demo_endpoint_reach]] by auto
  have nf: "\<not> ep_clock_fault demo_endpoint" using ep_invD(4) [OF ep_reach_inv [OF demo_endpoint_reach] p] .
  have sq: "ep_sequence demo_endpoint = 3 \<and> ep_last_now demo_endpoint = 62000000000"
    unfolding demo_endpoint_def endpoint_new_def Let_def
    using default_safety_policy_valid by (simp add: safety_eval)
  have "fst (observe (demo_observation OUnsafe 4 90000000000) 92000000000 demo_endpoint)"
    using fr nf sq by (simp add: observe_def Let_def expire_clock_fault demo_observation_def split: prod.split)
  from adverse_observation_withdraws [OF demo_endpoint_reach this]
  show "\<not> ep_permits (snd (observe (demo_observation OUnsafe 4 90000000000) 92000000000 demo_endpoint))"
    by (simp add: demo_observation_def default_safety_policy_def)
qed

text \<open>
  Permission is granted by nothing but an accepted safe reading of the endpoint's own fence
  that is younger than the maximum safe age when it is processed; once the clock has run backwards
  no observation is accepted and none grants permission.
\<close>

theorem only_fresh_safe_grants:
  assumes "ep_inv s" and "\<not> ep_permits s" and "ep_permits (snd (observe ob now s))"
  shows "obs_outcome ob = OSafe \<and> obs_fence ob = ep_fence s \<and> ep_sequence s < obs_sequence ob
    \<and> obs_received ob \<le> now \<and> now - obs_request_started ob < age_limit s
    \<and> ep_last_now s \<le> now \<and> \<not> ep_clock_fault s"
proof -
  let ?u = "(expire now s)\<lparr>ep_sequence := obs_sequence ob, ep_last_request := Some (obs_request_started ob)\<rparr>"
  have np: "\<not> ep_permits (expire now s)" using assms(2) by (auto dest: expire_permits_imp)
  have *: "\<not> ep_permits (snd (apply_outcome ob now ?u))"
    if "\<not> (obs_outcome ob = OSafe \<and> now - obs_request_started ob < age_limit s)"
    using that np
    by (cases "obs_outcome ob")
      (auto simp: apply_outcome_def observe_failed_def observe_unsafe_def observe_safe_def Let_def
        reset_recovery_def age_limit_def)
  have "obs_outcome ob = OSafe \<and> now - obs_request_started ob < age_limit s"
  proof (rule ccontr)
    assume "\<not> (obs_outcome ob = OSafe \<and> now - obs_request_started ob < age_limit s)"
    from * [OF this] np assms(3) show False
      by (auto simp: observe_def Let_def split: if_splits prod.splits dest: expire_permits_imp)
  qed
  then show ?thesis using assms(3) np
    by (auto simp: observe_def Let_def expire_clock_fault not_less
        split: if_splits prod.splits dest: expire_permits_imp)
qed

theorem only_fresh_safe_grants_witness:
  "\<exists>s ob. ep_inv s \<and> \<not> ep_permits s \<and> ep_permits (snd (observe ob 62000000000 s))
     \<and> obs_outcome ob = OSafe"
proof -
  let ?ob = "\<lambda>n. demo_observation OSafe (Suc n) (n * 30000000000)"
  obtain s0 where s0: "endpoint_new default_safety_policy demo_fence = Inr s0"
    using default_safety_policy_valid by (simp add: endpoint_new_def demo_fence_def)
  let ?s = "snd (observe (?ob 1) 32000000000 (snd (observe (?ob 0) 2000000000 s0)))"
  have i: "ep_inv ?s" by (intro observe_inv endpoint_new_inv [OF s0])
  have s0': "s0 = projr (endpoint_new default_safety_policy demo_fence)" using s0 by simp
  have n: "\<not> ep_permits ?s" unfolding s0' endpoint_new_def Let_def
    using default_safety_policy_valid by (simp add: safety_eval)
  have g: "ep_permits (snd (observe (?ob 2) 62000000000 ?s))" unfolding s0' endpoint_new_def Let_def
    using default_safety_policy_valid by (simp add: safety_eval)
  show ?thesis using i n g only_fresh_safe_grants [OF i n g] by blast
qed

end
