(* ===== verification/Safety_Hub.thy ===== *)
theory Safety_Hub imports Safety_Run begin

text \<open>
  \<open>SafetyHub\<close> and \<open>SafetyRuntime\<close> of \<open>crates/regain-hub/src/safety.rs\<close>. The aggregate is safe
  only while every endpoint permits, and it becomes safe only when every endpoint is freshly safe
  with a confirmed recovery. The runtime's operations are the entry points of \<open>SafetyRuntime\<close>
  and one tick of its expiry task; each ends by publishing a snapshot to the watch channel.
\<close>

record hub_snapshot_data =
  hs_is_safe :: bool
  hs_endpoints :: "(uuid, snapshot) btree"
  hs_safe_observed_at :: "nat option"

record safety_hub =
  hub_endpoints :: "(uuid, endpoint) btree"
  hub_aggregate_safe :: bool
  hub_resume_epoch :: nat

definition hub_new :: "(uuid, endpoint) btree \<Rightarrow> safety_hub" where
  "hub_new eps = \<lparr>hub_endpoints = eps, hub_aggregate_safe = False, hub_resume_epoch = 0\<rparr>"

text \<open>What one operation read from its \<open>Clock\<close>: the second validity read is made after \<open>now\<close>.\<close>

record clock_read =
  cr_epoch :: nat
  cr_valid :: bool
  cr_now :: nat
  cr_valid_after :: bool

text \<open>
  A host resume replaces every endpoint, under a fresh generation. \<open>None\<close> is the panic of
  \<open>expect("Previously validated safety policy")\<close>.
\<close>

definition resumed_endpoint :: "uuid \<Rightarrow> endpoint \<Rightarrow> endpoint option" where
  "resumed_endpoint fresh s =
     (case endpoint_new (ep_policy s)
             \<lparr>fence_revision = fence_revision (ep_fence s), fence_generation = fresh\<rparr> of
        Inl _ \<Rightarrow> None
      | Inr t \<Rightarrow> Some (t\<lparr>ep_reason := ''Host resumed; waiting for new confirmed safe evidence''\<rparr>))"

fun resume_all :: "(uuid \<Rightarrow> uuid) \<Rightarrow> (uuid, endpoint) btree \<Rightarrow> (uuid, endpoint) btree option" where
  "resume_all fresh [] = Some []"
| "resume_all fresh ((k, s) # m) =
     (case (resumed_endpoint (fresh k) s, resume_all fresh m) of
        (Some t, Some m') \<Rightarrow> Some ((k, t) # m')
      | _ \<Rightarrow> None)"

definition sync_resume :: "(uuid \<Rightarrow> uuid) \<Rightarrow> nat \<Rightarrow> bool \<Rightarrow> safety_hub \<Rightarrow> safety_hub option" where
  "sync_resume fresh epoch valid h =
     (if hub_resume_epoch h = epoch \<and> valid then Some h
      else map_option (\<lambda>eps. h\<lparr>hub_resume_epoch := epoch, hub_endpoints := eps, hub_aggregate_safe := False\<rparr>)
             (resume_all fresh (hub_endpoints h)))"

fun renew_all :: "fence \<Rightarrow> (uuid, endpoint) btree \<Rightarrow> field_error list + (uuid, endpoint) btree" where
  "renew_all f [] = Inr []"
| "renew_all f ((k, s) # m) =
     (case endpoint_new (ep_policy s) f of
        Inl e \<Rightarrow> Inl e
      | Inr t \<Rightarrow> (case renew_all f m of Inl e \<Rightarrow> Inl e | Inr m' \<Rightarrow> Inr ((k, t) # m')))"

definition hub_reset_generation :: "fence \<Rightarrow> safety_hub \<Rightarrow> field_error list + safety_hub" where
  "hub_reset_generation f h =
     (case renew_all f (hub_endpoints h) of
        Inl e \<Rightarrow> Inl e
      | Inr eps \<Rightarrow> Inr (h\<lparr>hub_endpoints := eps, hub_aggregate_safe := False\<rparr>))"

definition hub_reset_source :: "uuid \<Rightarrow> fence \<Rightarrow> safety_hub \<Rightarrow> field_error list + safety_hub" where
  "hub_reset_source source f h =
     (case bt_get (hub_endpoints h) source of
        None \<Rightarrow> Inr h
      | Some previous \<Rightarrow>
          (case endpoint_new (ep_policy previous) f of
             Inl e \<Rightarrow> Inl e
           | Inr t \<Rightarrow> Inr (h\<lparr>hub_endpoints := bt_insert source t (hub_endpoints h),
                              hub_aggregate_safe := False\<rparr>)))"

definition hub_snapshot :: "nat \<Rightarrow> safety_hub \<Rightarrow> safety_hub \<times> hub_snapshot_data" where
  "hub_snapshot now h =
     (let eps = bt_map_values (\<lambda>s. fst (ep_snapshot now s)) (hub_endpoints h);
          snaps = bt_map_values (\<lambda>s. snd (ep_snapshot now s)) (hub_endpoints h);
          agg = (if snaps = [] \<or> (\<exists>s \<in> set (bt_values snaps). \<not> sn_permits_safe s) then False
                 else if \<not> hub_aggregate_safe h
                 then \<forall>s \<in> set (bt_values snaps). sn_phase s = FreshSafe \<and> sn_recovery_confirmed s
                 else hub_aggregate_safe h);
          starts = List.map_filter ep_last_safe_start (bt_values eps)
      in (h\<lparr>hub_endpoints := eps, hub_aggregate_safe := agg\<rparr>,
          \<lparr>hs_is_safe = agg, hs_endpoints = snaps,
           hs_safe_observed_at = (if agg then (if starts = [] then None else Some (Min (set starts)))
                                  else None)\<rparr>))"

definition hub_observe :: "uuid \<Rightarrow> observation \<Rightarrow> nat \<Rightarrow> safety_hub \<Rightarrow> bool \<times> safety_hub" where
  "hub_observe source ob now h =
     (let h = fst (hub_snapshot now h);
          (accepted, h) = (case bt_get (hub_endpoints h) source of
             None \<Rightarrow> (False, h)
           | Some s \<Rightarrow> (let (a, s) = observe ob now s
                       in (a, h\<lparr>hub_endpoints := bt_insert source s (hub_endpoints h)\<rparr>)));
          h = fst (hub_snapshot now h)
      in (accepted, h))"

section \<open>The runtime\<close>

record safety_runtime =
  rt_hub :: safety_hub
  rt_published :: hub_snapshot_data

definition publish :: "nat \<Rightarrow> safety_hub \<Rightarrow> safety_runtime" where
  "publish now h = (let (h, sn) = hub_snapshot now h in \<lparr>rt_hub = h, rt_published = sn\<rparr>)"

definition runtime_new :: "safety_hub \<Rightarrow> clock_read \<Rightarrow> safety_runtime" where
  "runtime_new h c = publish (cr_now c) (h\<lparr>hub_resume_epoch := cr_epoch c\<rparr>)"

text \<open>One iteration of the expiry task; also \<open>snapshot()\<close>, which does the same and returns it.\<close>

definition runtime_tick :: "(uuid \<Rightarrow> uuid) \<Rightarrow> clock_read \<Rightarrow> safety_runtime \<Rightarrow> safety_runtime option" where
  "runtime_tick fresh c r =
     map_option (publish (cr_now c)) (sync_resume fresh (cr_epoch c) (cr_valid c) (rt_hub r))"

definition runtime_observe ::
  "(uuid \<Rightarrow> uuid) \<Rightarrow> clock_read \<Rightarrow> uuid \<Rightarrow> observation \<Rightarrow> safety_runtime \<Rightarrow> (bool \<times> safety_runtime) option" where
  "runtime_observe fresh c source ob r =
     map_option (\<lambda>h.
       if obs_resume_epoch ob = hub_resume_epoch h \<and> cr_valid_after c
       then let (accepted, h) = hub_observe source ob (cr_now c) h in (accepted, publish (cr_now c) h)
       else (False, publish (cr_now c) h))
     (sync_resume fresh (cr_epoch c) (cr_valid c) (rt_hub r))"

text \<open>The resets return early on an error, with the resume already applied and nothing published.\<close>

definition runtime_reset_generation ::
  "(uuid \<Rightarrow> uuid) \<Rightarrow> clock_read \<Rightarrow> fence \<Rightarrow> safety_runtime \<Rightarrow> safety_runtime option" where
  "runtime_reset_generation fresh c f r =
     map_option (\<lambda>h. case hub_reset_generation f h of
         Inl e \<Rightarrow> r\<lparr>rt_hub := h\<rparr> | Inr h' \<Rightarrow> publish (cr_now c) h')
     (sync_resume fresh (cr_epoch c) (cr_valid c) (rt_hub r))"

definition runtime_reset_source ::
  "(uuid \<Rightarrow> uuid) \<Rightarrow> clock_read \<Rightarrow> uuid \<Rightarrow> fence \<Rightarrow> safety_runtime \<Rightarrow> safety_runtime option" where
  "runtime_reset_source fresh c source f r =
     map_option (\<lambda>h. case hub_reset_source source f h of
         Inl e \<Rightarrow> r\<lparr>rt_hub := h\<rparr> | Inr h' \<Rightarrow> publish (cr_now c) h')
     (sync_resume fresh (cr_epoch c) (cr_valid c) (rt_hub r))"

definition runtime_shutdown :: "clock_read \<Rightarrow> safety_runtime \<Rightarrow> safety_runtime" where
  "runtime_shutdown c r = publish (cr_now c) (hub_new [])"

text \<open>Any interleaving of the operations, under any clock.\<close>

inductive runtime_step :: "(uuid \<Rightarrow> uuid) \<Rightarrow> clock_read \<Rightarrow> safety_runtime \<Rightarrow> safety_runtime \<Rightarrow> bool" for fresh c where
  tick: "runtime_tick fresh c r = Some r' \<Longrightarrow> runtime_step fresh c r r'"
| observation: "runtime_observe fresh c source ob r = Some (a, r') \<Longrightarrow> runtime_step fresh c r r'"
| reset_generation: "runtime_reset_generation fresh c f r = Some r' \<Longrightarrow> runtime_step fresh c r r'"
| reset_source: "runtime_reset_source fresh c source f r = Some r' \<Longrightarrow> runtime_step fresh c r r'"
| shutdown: "runtime_step fresh c r (runtime_shutdown c r)"

text \<open>The endpoints a hub is built from: created by \<open>Endpoint::new\<close>, possibly observed already.\<close>

definition admissible_endpoints :: "(uuid, endpoint) btree \<Rightarrow> bool" where
  "admissible_endpoints eps \<longleftrightarrow>
     bt_wf eps \<and> (\<forall>s \<in> set (bt_values eps). \<exists>p f hist. ep_reach p f hist s)"

inductive runtime_reach :: "safety_runtime \<Rightarrow> bool" where
  start: "admissible_endpoints eps \<Longrightarrow> runtime_reach (runtime_new (hub_new eps) c)"
| step: "runtime_reach r \<Longrightarrow> (\<forall>k. fresh k \<noteq> 0) \<Longrightarrow> runtime_step fresh c r r' \<Longrightarrow> runtime_reach r'"

section \<open>The hub invariant\<close>

definition ep_ok :: "endpoint \<Rightarrow> bool" where
  "ep_ok s \<longleftrightarrow> ep_inv s \<and> fence_revision (ep_fence s) \<noteq> 0"

definition hub_inv :: "safety_hub \<Rightarrow> bool" where
  "hub_inv h \<longleftrightarrow> bt_wf (hub_endpoints h) \<and> (\<forall>s \<in> set (bt_values (hub_endpoints h)). ep_ok s)"

lemma outcome_fence:
  "ep_fence (observe_failed c t s) = ep_fence s"
  "ep_fence (observe_unsafe t s) = ep_fence s"
  "ep_fence (snd (observe_safe t rc now s)) = ep_fence s"
  by (simp_all add: observe_failed_def observe_unsafe_def observe_safe_def count_safe_def Let_def)

lemma observe_fence: "ep_fence (snd (observe ob now s)) = ep_fence s"
proof -
  have "ep_fence (snd (apply_outcome ob now u)) = ep_fence u" for u
    by (cases "obs_outcome ob") (simp_all add: apply_outcome_def outcome_fence)
  note f = this [of "(expire now s)\<lparr>ep_sequence := obs_sequence ob,
     ep_last_request := Some (obs_request_started ob)\<rparr>"]
  then show ?thesis by (auto simp: observe_def Let_def split: prod.split)
qed

lemma ep_ok_new: "endpoint_new p f = Inr s \<Longrightarrow> ep_ok s"
  using endpoint_new_inv by (auto simp: ep_ok_def endpoint_new_def Let_def split: if_splits)

lemma ep_ok_observe: "ep_ok s \<Longrightarrow> ep_ok (snd (observe ob now s))"
  by (simp add: ep_ok_def observe_inv observe_fence)

lemma ep_ok_expire: "ep_ok s \<Longrightarrow> ep_ok (expire now s)"
  by (simp add: ep_ok_def expire_inv)

lemma ep_reach_ok: "ep_reach p f hist s \<Longrightarrow> ep_ok s"
  by (induction rule: ep_reach.induct) (auto intro: ep_ok_new ep_ok_observe ep_ok_expire)

lemma hub_inv_values:
  "hub_inv h \<Longrightarrow> bt_get (hub_endpoints h) k = Some s \<Longrightarrow> ep_ok s"
  by (force simp: hub_inv_def bt_values_def dest: bt_get_in_set)

lemma hub_snapshot_endpoints:
  "hub_endpoints (fst (hub_snapshot now h)) = bt_map_values (expire now) (hub_endpoints h)"
  by (simp add: hub_snapshot_def Let_def)

lemma hub_inv_snapshot: "hub_inv h \<Longrightarrow> hub_inv (fst (hub_snapshot now h))"
  by (auto simp: hub_inv_def hub_snapshot_endpoints ep_ok_expire)

lemma hub_inv_insert:
  "hub_inv h \<Longrightarrow> ep_ok s \<Longrightarrow> hub_inv (h\<lparr>hub_endpoints := bt_insert k s (hub_endpoints h)\<rparr>)"
  by (auto simp: hub_inv_def bt_wf_insert dest!: bt_values_insert)

lemma hub_inv_flags [simp]:
  "hub_inv (h\<lparr>hub_aggregate_safe := a\<rparr>) = hub_inv h"
  "hub_inv (h\<lparr>hub_resume_epoch := e\<rparr>) = hub_inv h"
  by (simp_all add: hub_inv_def)

lemma hub_inv_observe: "hub_inv h \<Longrightarrow> hub_inv (snd (hub_observe source ob now h))"
  using hub_inv_snapshot [of h now]
    ep_ok_observe hub_inv_values [of "fst (hub_snapshot now h)" source]
  by (auto simp: hub_observe_def Let_def hub_inv_snapshot hub_inv_insert
      split: option.splits prod.splits) (metis ep_ok_observe hub_inv_insert hub_inv_snapshot snd_conv)

lemma resumed_endpoint_some:
  assumes "ep_ok s" "g \<noteq> 0"
  shows "\<exists>t. resumed_endpoint g s = Some t \<and> ep_ok t \<and> ep_phase t = Unknown \<and> \<not> ep_permits t
    \<and> ep_last_safe_start t = None"
  using assms
  by (auto simp: resumed_endpoint_def endpoint_new_def Let_def ep_ok_def ep_inv_def)

lemma resume_all_some:
  assumes "\<forall>k. fresh k \<noteq> 0" "\<forall>s \<in> set (bt_values m). ep_ok s"
  shows "\<exists>m'. resume_all fresh m = Some m' \<and> map fst m' = map fst m
    \<and> (\<forall>t \<in> set (bt_values m'). ep_ok t \<and> ep_phase t = Unknown \<and> \<not> ep_permits t
         \<and> ep_last_safe_start t = None)"
  using assms(2)
proof (induction m)
  case (Cons x m)
  obtain k s where x: "x = (k, s)" by (cases x)
  obtain t where "resumed_endpoint (fresh k) s = Some t" "ep_ok t" "ep_phase t = Unknown"
    "\<not> ep_permits t" "ep_last_safe_start t = None"
    using resumed_endpoint_some [of s "fresh k"] Cons.prems assms(1) x by (auto simp: bt_values_def)
  with Cons x show ?case by (auto simp: bt_values_def)
qed (simp add: bt_values_def)

lemma sync_resume_some:
  assumes "\<forall>k. fresh k \<noteq> 0" "hub_inv h"
  shows "\<exists>h'. sync_resume fresh e v h = Some h' \<and> hub_inv h'
    \<and> (if hub_resume_epoch h = e \<and> v then h' = h
       else \<not> hub_aggregate_safe h'
         \<and> (\<forall>t \<in> set (bt_values (hub_endpoints h')). ep_phase t = Unknown \<and> \<not> ep_permits t
              \<and> ep_last_safe_start t = None))"
proof -
  obtain m where "resume_all fresh (hub_endpoints h) = Some m" "map fst m = map fst (hub_endpoints h)"
    "\<forall>t \<in> set (bt_values m). ep_ok t \<and> ep_phase t = Unknown \<and> \<not> ep_permits t
       \<and> ep_last_safe_start t = None"
    using resume_all_some [OF assms(1)] assms(2) unfolding hub_inv_def by blast
  with assms(2) show ?thesis by (auto simp: sync_resume_def hub_inv_def bt_wf_def)
qed

lemma renew_all_inv:
  "renew_all f m = Inr m' \<Longrightarrow> map fst m' = map fst m \<and> (\<forall>t \<in> set (bt_values m'). ep_ok t)"
proof (induction f m arbitrary: m' rule: renew_all.induct)
  case (2 f k s m)
  then show ?case by (fastforce simp: bt_values_def ep_ok_new split: sum.splits)
qed (simp add: bt_values_def)

lemma hub_inv_reset_generation: "hub_inv h \<Longrightarrow> hub_reset_generation f h = Inr h' \<Longrightarrow> hub_inv h'"
  using renew_all_inv [of f "hub_endpoints h"]
  by (auto simp: hub_reset_generation_def hub_inv_def bt_wf_def split: sum.splits)

lemma hub_inv_reset_source: "hub_inv h \<Longrightarrow> hub_reset_source source f h = Inr h' \<Longrightarrow> hub_inv h'"
  using hub_inv_insert [of h _ source] ep_ok_new
  by (auto simp: hub_reset_source_def split: option.splits sum.splits)

section \<open>What an aggregate permission means\<close>

lemma age_limit_le: "ep_inv s \<Longrightarrow> age_limit s \<le> 3600000000000"
proof -
  assume "ep_inv s"
  then obtain r where r: "maximum_safe_age_seconds (ep_policy s) = Fin r" "1/10 \<le> r" "r \<le> 3600"
    using safety_validateD(2) ep_invD(1) by blast
  have "round_ties_even (r * 1000000000) \<le> round_ties_even 3600000000000"
    using r by (intro round_ties_even_mono) simp
  then show ?thesis using r by (simp add: age_limit_def from_secs_f64_fin)
qed

lemma hub_snapshot_safe:
  assumes "hs_is_safe (snd (hub_snapshot now h))"
  shows "hub_endpoints h \<noteq> []"
    and "\<forall>s \<in> set (bt_values (hub_endpoints h)). ep_permits (expire now s)"
  using assms by (auto simp: hub_snapshot_def Let_def ep_snapshot_def split: if_splits)

lemma hub_snapshot_observed_at:
  assumes "hs_is_safe (snd (hub_snapshot now h))"
  defines "starts \<equiv> List.map_filter ep_last_safe_start (bt_values (hub_endpoints (fst (hub_snapshot now h))))"
  shows "starts \<noteq> [] \<Longrightarrow> hs_safe_observed_at (snd (hub_snapshot now h)) = Some (Min (set starts))"
  using assms by (simp add: hub_snapshot_def Let_def split: if_splits)

lemma map_filter_member: "x \<in> set (List.map_filter f xs) \<longleftrightarrow> (\<exists>y \<in> set xs. f y = Some x)"
  by (force simp: List.map_filter_def)


definition demo_hub :: "safety_hub" where
  "demo_hub = \<lparr>hub_endpoints = [(7, demo_endpoint)], hub_aggregate_safe = False, hub_resume_epoch = 0\<rparr>"

lemma demo_endpoint_state:
  "ep_phase demo_endpoint = FreshSafe \<and> ep_confirmed demo_endpoint
   \<and> ep_last_safe_start demo_endpoint = Some 60000000000 \<and> ep_last_now demo_endpoint = 62000000000
   \<and> ep_fence demo_endpoint = demo_fence \<and> ep_policy demo_endpoint = default_safety_policy"
  unfolding demo_endpoint_def endpoint_new_def Let_def
  using default_safety_policy_valid by (simp add: safety_eval)

lemma demo_hub_inv: "hub_inv demo_hub"
  using ep_reach_inv [OF demo_endpoint_reach] demo_endpoint_state
  by (simp add: demo_hub_def hub_inv_def ep_ok_def bt_values_def demo_fence_def)

lemma demo_expire: "now = 62000000000 \<Longrightarrow> expire now demo_endpoint = demo_endpoint"
  using demo_endpoint_state
  by (simp add: expire_def age_limit_def default_safety_policy_def from_secs_f64_fin)

lemma demo_hub_safe: "hs_is_safe (snd (hub_snapshot 62000000000 demo_hub))"
  using demo_endpoint_permits demo_endpoint_state
  by (simp add: hub_snapshot_def demo_hub_def bt_map_values_def bt_values_def ep_snapshot_def demo_expire)


text \<open>
  An aggregate that was not safe becomes safe only when every endpoint is freshly safe with a
  confirmed recovery: a retained permission (grace, or a pending unsafe reading) never restores it.
\<close>

theorem aggregate_recovers_only_when_all_fresh:
  assumes "\<not> hub_aggregate_safe h" and "hs_is_safe (snd (hub_snapshot now h))"
  shows "\<forall>(k, s) \<in> set (hub_endpoints (fst (hub_snapshot now h))).
    ep_permits s \<and> ep_phase s = FreshSafe \<and> ep_confirmed s"
proof
  fix x assume "x \<in> set (hub_endpoints (fst (hub_snapshot now h)))"
  then obtain k s where x: "x = (k, expire now s)" "(k, s) \<in> set (hub_endpoints h)"
    by (auto simp: hub_snapshot_endpoints bt_map_values_def)
  have "\<forall>s \<in> set (bt_values (hub_endpoints h)).
      ep_permits (expire now s) \<and> ep_phase (expire now s) = FreshSafe \<and> ep_confirmed (expire now s)"
    using assms by (auto simp: hub_snapshot_def Let_def ep_snapshot_def split: if_splits)
  with x show "case x of (k, s) \<Rightarrow> ep_permits s \<and> ep_phase s = FreshSafe \<and> ep_confirmed s"
    by (force simp: bt_values_def)
qed

theorem aggregate_recovers_only_when_all_fresh_witness:
  "\<not> hub_aggregate_safe demo_hub \<and> hs_is_safe (snd (hub_snapshot 62000000000 demo_hub))
   \<and> ep_phase demo_endpoint = FreshSafe"
proof -
  have a: "\<not> hub_aggregate_safe demo_hub" by (simp add: demo_hub_def)
  have "(7, demo_endpoint) \<in> set (hub_endpoints (fst (hub_snapshot 62000000000 demo_hub)))"
    by (simp add: hub_snapshot_endpoints demo_hub_def bt_map_values_def demo_expire)
  with aggregate_recovers_only_when_all_fresh [OF a demo_hub_safe] a demo_hub_safe
  show ?thesis by blast
qed

section \<open>The runtime\<close>

definition published_ok :: "hub_snapshot_data \<Rightarrow> bool" where
  "published_ok sn \<longleftrightarrow>
     (hs_is_safe sn \<longrightarrow> hs_endpoints sn \<noteq> []
        \<and> (\<forall>s \<in> set (bt_values (hs_endpoints sn)). sn_permits_safe s
             \<and> (\<exists>age. sn_safe_age s = Some age \<and> age < 3600000000000)))"

lemma publish_simps [simp]:
  "rt_published (publish now h) = snd (hub_snapshot now h)"
  "rt_hub (publish now h) = fst (hub_snapshot now h)"
  by (simp_all add: publish_def split: prod.split)

lemma publish_ok:
  assumes "hub_inv h"
  shows "hub_inv (rt_hub (publish now h)) \<and> published_ok (rt_published (publish now h))"
proof -
  have "published_ok (snd (hub_snapshot now h))"
  proof (cases "hs_is_safe (snd (hub_snapshot now h))")
    case True
    have "sn_permits_safe (snd (ep_snapshot now s))
        \<and> (\<exists>age. sn_safe_age (snd (ep_snapshot now s)) = Some age \<and> age < 3600000000000)"
      if "s \<in> set (bt_values (hub_endpoints h))" for s
    proof -
      have i: "ep_inv s" "ep_permits (expire now s)"
        using that assms hub_snapshot_safe(2) [OF True] by (auto simp: hub_inv_def ep_ok_def)
      with expire_fresh [OF i] age_limit_le [OF i(1)] show ?thesis
        by (fastforce simp: ep_snapshot_def Let_def fresh_at_def some_and_iff)
    qed
    moreover have "hs_endpoints (snd (hub_snapshot now h))
        = bt_map_values (\<lambda>s. snd (ep_snapshot now s)) (hub_endpoints h)"
      by (simp add: hub_snapshot_def Let_def)
    ultimately show ?thesis using hub_snapshot_safe(1) [OF True] by (auto simp: published_ok_def)
  qed (simp add: published_ok_def)
  with hub_inv_snapshot [OF assms, of now] show ?thesis by simp
qed

lemma runtime_step_ok:
  assumes "runtime_step fresh c r r'" "hub_inv (rt_hub r)" "published_ok (rt_published r)" "\<forall>k. fresh k \<noteq> 0"
  shows "hub_inv (rt_hub r') \<and> published_ok (rt_published r')"
proof -
  obtain h where h: "sync_resume fresh (cr_epoch c) (cr_valid c) (rt_hub r) = Some h" "hub_inv h"
    using sync_resume_some [OF assms(4,2)] by blast
  from assms(1) show ?thesis
  proof cases
    case tick
    with h publish_ok show ?thesis by (auto simp: runtime_tick_def)
  next
    case (observation source ob a)
    with h publish_ok [OF h(2)] publish_ok [OF hub_inv_observe [OF h(2)]] show ?thesis
      by (auto simp: runtime_observe_def Let_def split: if_splits prod.splits) (metis snd_conv)+
  next
    case (reset_generation f)
    with h assms(3) publish_ok hub_inv_reset_generation [OF h(2)] show ?thesis
      by (auto simp: runtime_reset_generation_def split: sum.splits)
  next
    case (reset_source source f)
    with h assms(3) publish_ok hub_inv_reset_source [OF h(2)] show ?thesis
      by (auto simp: runtime_reset_source_def split: sum.splits)
  next
    case shutdown
    then show ?thesis using publish_ok [of "hub_new []"]
      by (simp add: runtime_shutdown_def hub_new_def hub_inv_def bt_values_def)
  qed
qed

lemma runtime_reach_ok: "runtime_reach r \<Longrightarrow> hub_inv (rt_hub r) \<and> published_ok (rt_published r)"
proof (induction rule: runtime_reach.induct)
  case (start eps c)
  then have "hub_inv ((hub_new eps)\<lparr>hub_resume_epoch := cr_epoch c\<rparr>)"
    by (auto simp: hub_inv_def hub_new_def admissible_endpoints_def intro: ep_reach_ok)
  then show ?case unfolding runtime_new_def by (rule publish_ok)
next
  case (step r fresh c r')
  then show ?case using runtime_step_ok by blast
qed

text \<open>
  C28: whatever the interleaving of observations, reads, resets, host resumes, expiry ticks and
  shutdown, a published snapshot that says safe has at least one endpoint, every endpoint of it
  permits, and no endpoint's evidence was as old as an hour when it was published.
\<close>

theorem published_safe_is_backed:
  assumes "runtime_reach r" and "hs_is_safe (rt_published r)"
  shows "hs_endpoints (rt_published r) \<noteq> []
    \<and> (\<forall>s \<in> set (bt_values (hs_endpoints (rt_published r))). sn_permits_safe s
         \<and> (\<exists>age. sn_safe_age s = Some age \<and> age < 3600 * nanos_per_sec))"
  using runtime_reach_ok [OF assms(1)] assms(2) by (simp add: published_ok_def)

definition demo_clock :: "nat \<Rightarrow> clock_read" where
  "demo_clock epoch = \<lparr>cr_epoch = epoch, cr_valid = True, cr_now = 62000000000, cr_valid_after = True\<rparr>"

definition demo_runtime :: "safety_runtime" where
  "demo_runtime = runtime_new (hub_new [(7, demo_endpoint)]) (demo_clock 0)"

lemma demo_runtime_reach: "runtime_reach demo_runtime"
  unfolding demo_runtime_def
  using demo_endpoint_reach
  by (intro runtime_reach.start) (auto simp: admissible_endpoints_def bt_values_def)

lemma demo_runtime_published: "rt_published demo_runtime = snd (hub_snapshot 62000000000 demo_hub)"
  and demo_runtime_epoch: "hub_resume_epoch (rt_hub demo_runtime) = 0"
  by (simp_all add: demo_runtime_def runtime_new_def publish_def demo_clock_def hub_new_def demo_hub_def
      hub_snapshot_def Let_def split: prod.split)

theorem published_safe_is_backed_witness:
  "runtime_reach demo_runtime \<and> hs_is_safe (rt_published demo_runtime)
   \<and> hs_endpoints (rt_published demo_runtime) \<noteq> []"
proof -
  have s: "hs_is_safe (rt_published demo_runtime)"
    using demo_hub_safe by (simp add: demo_runtime_published)
  show ?thesis using demo_runtime_reach s published_safe_is_backed [OF demo_runtime_reach s] by blast
qed



end
