(* ===== verification/Json.thy ===== *)
theory Json imports Ordered_Map "HOL-Library.Char_ord" "HOL-Library.List_Lexorder" begin

text \<open>
  \<open>serde_json::Value\<close> as the source uses it: the constructors, the \<open>as_*\<close> and \<open>is_*\<close> readers,
  indexing by key (\<open>Null\<close> for a missing key or a non-object) and assignment through an index.
  An object is a map ordered by key. Integers are kept apart from doubles, as \<open>Number\<close> does;
  \<open>as_f64\<close> reads an integer as the number it denotes.
\<close>

datatype json =
    JNull
  | JBool bool
  | JInt int
  | JFloat rat
  | JStr string
  | JArr "json list"
  | JObj "(string \<times> json) list"

fun as_u64 :: "json \<Rightarrow> nat option" where
  "as_u64 (JInt i) = (if 0 \<le> i \<and> i < 2 ^ 64 then Some (nat i) else None)"
| "as_u64 _ = None"

fun as_i64 :: "json \<Rightarrow> int option" where
  "as_i64 (JInt i) = (if - (2 ^ 63) \<le> i \<and> i < 2 ^ 63 then Some i else None)"
| "as_i64 _ = None"

fun as_f64 :: "json \<Rightarrow> rat option" where
  "as_f64 (JInt i) = Some (of_int i)"
| "as_f64 (JFloat r) = Some r"
| "as_f64 _ = None"

fun as_bool :: "json \<Rightarrow> bool option" where
  "as_bool (JBool b) = Some b"
| "as_bool _ = None"

fun as_str :: "json \<Rightarrow> string option" where
  "as_str (JStr s) = Some s"
| "as_str _ = None"

fun as_array :: "json \<Rightarrow> json list option" where
  "as_array (JArr xs) = Some xs"
| "as_array _ = None"

fun is_object :: "json \<Rightarrow> bool" where
  "is_object (JObj _) = True"
| "is_object _ = False"

fun is_number :: "json \<Rightarrow> bool" where
  "is_number (JInt _) = True"
| "is_number (JFloat _) = True"
| "is_number _ = False"

definition is_null :: "json \<Rightarrow> bool" where
  "is_null v \<longleftrightarrow> v = JNull"

fun jget :: "json \<Rightarrow> string \<Rightarrow> json option" where
  "jget (JObj m) k = bt_get m k"
| "jget _ k = None"

definition jindex :: "json \<Rightarrow> string \<Rightarrow> json" where
  "jindex v k = (case jget v k of None \<Rightarrow> JNull | Some x \<Rightarrow> x)"

text \<open>\<open>v[k] = x\<close>: \<open>Null\<close> turns into an object; \<open>None\<close> is the panic on any other non-object.\<close>

fun jset :: "string \<Rightarrow> json \<Rightarrow> json \<Rightarrow> json option" where
  "jset k x (JObj m) = Some (JObj (bt_insert k x m))"
| "jset k x JNull = Some (JObj [(k, x)])"
| "jset k x _ = None"

text \<open>\<open>as_object_mut().unwrap().remove(k)\<close> on a value known to be an object.\<close>

fun jremove :: "string \<Rightarrow> json \<Rightarrow> json" where
  "jremove k (JObj m) = JObj (bt_remove k m)"
| "jremove k v = v"

definition jobj :: "(string \<times> json) list \<Rightarrow> json" where
  "jobj xs = JObj (bt_of_list xs)"

fun jopt :: "('a \<Rightarrow> json) \<Rightarrow> 'a option \<Rightarrow> json" where
  "jopt f None = JNull"
| "jopt f (Some x) = f x"

definition jnat :: "nat \<Rightarrow> json" where
  "jnat n = JInt (int n)"

text \<open>Objects whose keys are in order, at every level.\<close>

fun jwf :: "json \<Rightarrow> bool" where
  "jwf (JObj m) \<longleftrightarrow> bt_wf m \<and> (\<forall>x \<in> snd ` set m. jwf x)"
| "jwf (JArr xs) \<longleftrightarrow> (\<forall>x \<in> set xs. jwf x)"
| "jwf _ \<longleftrightarrow> True"

lemma jindex_obj [simp]: "jindex (JObj m) k = (case bt_get m k of None \<Rightarrow> JNull | Some x \<Rightarrow> x)"
  by (simp add: jindex_def)

lemma jindex_jobj: "jindex (jobj xs) k = (case map_of (rev xs) k of None \<Rightarrow> JNull | Some x \<Rightarrow> x)"
  by (simp add: jobj_def bt_get_of_list)

lemma jindex_non_object [simp]: "\<not> is_object v \<Longrightarrow> jindex v k = JNull"
  by (cases v) (simp_all add: jindex_def)

lemma jset_some_iff: "(\<exists>w. jset k x v = Some w) \<longleftrightarrow> is_object v \<or> v = JNull"
  by (cases v) auto

lemma jindex_jset:
  "jwf v \<Longrightarrow> jset k x v = Some w \<Longrightarrow> jindex w k' = (if k' = k then x else jindex v k')"
  by (cases v) (auto simp: bt_get_insert split: option.splits)

lemma jset_object: "jset k x v = Some w \<Longrightarrow> is_object w"
  by (cases v) auto

lemma as_u64_nat [simp]: "n < 2 ^ 64 \<Longrightarrow> as_u64 (jnat n) = Some n"
  by (simp add: jnat_def)

end
