(* ===== verification/Camera_Model.thy ===== *)
theory Camera_Model imports Json begin

text \<open>
  The shared camera vocabulary of \<open>crates/regain-core/src/model.rs\<close>: failures and when they may be
  retried, exposures and their admission against the camera's capabilities, and the conservative
  time stamp of a control observation.

  An \<open>anyhow::Error\<close> is the failure it can be downcast to, a cooling error
  (\<open>crates/regain-core/src/cooling.rs\<close>), or any other error with its message. Messages are kept.
\<close>

datatype failure =
    Invalid string
  | Cancelled
  | Worker string "int option"
  | UncertainControl string "int option"

datatype cooling_error =
    Busy
  | Unavailable
  | Expired
  | CoolCancelled
  | CoolInvalid string
  | Uncertain string "int option"

datatype error =
    EFailure failure
  | ECooling cooling_error
  | EOther string

definition invalid :: "string \<Rightarrow> error" where
  "invalid message = EFailure (Invalid message)"

fun failure_display :: "failure \<Rightarrow> string" where
  "failure_display (Invalid message) = message"
| "failure_display (Worker message _) = message"
| "failure_display (UncertainControl message _) = message"
| "failure_display Cancelled = ''Exposure aborted''"

fun cooling_display :: "cooling_error \<Rightarrow> string" where
  "cooling_display Busy = ''Another cooler request is pending''"
| "cooling_display Unavailable = ''Camera controls are unavailable''"
| "cooling_display Expired = ''Cooler request expired before dispatch''"
| "cooling_display CoolCancelled = ''Cooler request was cancelled before dispatch''"
| "cooling_display (CoolInvalid message) = message"
| "cooling_display (Uncertain message _) = ''Cooler outcome is uncertain: '' @ message"

fun error_display :: "error \<Rightarrow> string" where
  "error_display (EFailure f) = failure_display f"
| "error_display (ECooling c) = cooling_display c"
| "error_display (EOther m) = m"

fun retryable :: "error \<Rightarrow> bool" where
  "retryable (EFailure (Invalid _)) = False"
| "retryable (EFailure Cancelled) = False"
| "retryable (EFailure (UncertainControl _ _)) = False"
| "retryable (EFailure (Worker _ (Some c))) = (c \<in> {1, 2, 4, 5, 11, 12, 15, 16})"
| "retryable _ = True"

section \<open>Exposures\<close>

text \<open>All fields are unsigned: 32 bits, \<open>microseconds\<close> 64 bits.\<close>

record exposure =
  ex_width :: nat
  ex_height :: nat
  ex_bin :: nat
  ex_x :: nat
  ex_y :: nat
  ex_microseconds :: nat
  ex_dark :: bool

definition exposure_wf :: "exposure \<Rightarrow> bool" where
  "exposure_wf e \<longleftrightarrow> ex_width e < 2 ^ 32 \<and> ex_height e < 2 ^ 32 \<and> ex_bin e < 2 ^ 32
     \<and> ex_x e < 2 ^ 32 \<and> ex_y e < 2 ^ 32 \<and> ex_microseconds e < 2 ^ 64"

definition frame_bytes :: "exposure \<Rightarrow> error + nat" where
  "frame_bytes e =
     (case Option.bind (checked_mul 64 (ex_width e) (ex_height e)) (\<lambda>pixels. checked_mul 64 pixels 2) of
        None \<Rightarrow> Inl (invalid ''Invalid frame size'')
      | Some count \<Rightarrow>
          if 0 < count \<and> count \<le> 512 * 1024 * 1024 then Inr count
          else Inl (EFailure (Invalid ''Invalid frame size'')))"

record control =
  ct_kind :: int
  ct_min :: int
  ct_max :: int
  ct_value :: int
  ct_writable :: bool

type_synonym controls = "(int, control) btree"

definition origin_alignment_x :: "json \<Rightarrow> nat" where
  "origin_alignment_x info =
     max 1 (case as_u64 (jindex info ''originAlignment'') of
              Some a \<Rightarrow> a
            | None \<Rightarrow> (case as_u64 (jindex info ''originAlignmentX'') of Some a \<Rightarrow> a | None \<Rightarrow> 1))"

definition origin_alignment_y :: "json \<Rightarrow> nat" where
  "origin_alignment_y info =
     max 1 (case as_u64 (jindex info ''originAlignmentY'') of
              Some a \<Rightarrow> a
            | None \<Rightarrow> if is_number (jindex info ''originAlignment'') then 2 else 1)"

definition u64_or :: "nat \<Rightarrow> json \<Rightarrow> nat" where
  "u64_or d v = (case as_u64 v of Some n \<Rightarrow> n | None \<Rightarrow> d)"

text \<open>\<open>u64\<close> arithmetic of a release build: products and sums wrap.\<close>

abbreviation u64_mul :: "nat \<Rightarrow> nat \<Rightarrow> nat" where "u64_mul a b \<equiv> (a * b) mod 2 ^ 64"
abbreviation u64_add :: "nat \<Rightarrow> nat \<Rightarrow> nat" where "u64_add a b \<equiv> (a + b) mod 2 ^ 64"

definition exposure_fits :: "json \<Rightarrow> json list \<Rightarrow> control \<Rightarrow> exposure \<Rightarrow> bool" where
  "exposure_fits info bins ex e \<longleftrightarrow>
     0 < ex_bin e
     \<and> (\<exists>b \<in> set bins. as_u64 b = Some (ex_bin e))
     \<and> ex_width e mod 8 = 0 \<and> ex_height e mod 2 = 0
     \<and> u64_mul (u64_add (ex_x e) (ex_width e)) (ex_bin e) \<le> u64_or 0 (jindex info ''width'')
     \<and> u64_mul (u64_add (ex_y e) (ex_height e)) (ex_bin e) \<le> u64_or 0 (jindex info ''height'')
     \<and> u64_or 8 (jindex info ''minimumWidth'') \<le> u64_mul (ex_width e) (ex_bin e)
     \<and> u64_or 2 (jindex info ''minimumHeight'') \<le> u64_mul (ex_height e) (ex_bin e)
     \<and> u64_mul (ex_x e) (ex_bin e) mod origin_alignment_x info = 0
     \<and> u64_mul (ex_y e) (ex_bin e) mod origin_alignment_y info = 0
     \<and> 0 < ex_microseconds e
     \<and> nat (max 0 (ct_min ex)) \<le> ex_microseconds e
     \<and> ex_microseconds e \<le> nat (max 0 (ct_max ex))"

definition validate_exposure :: "json \<Rightarrow> controls \<Rightarrow> exposure \<Rightarrow> error + unit" where
  "validate_exposure info cs e =
     (case frame_bytes e of
        Inl err \<Rightarrow> Inl err
      | Inr _ \<Rightarrow>
          (case as_array (jindex info ''bins'') of
             None \<Rightarrow> Inl (invalid ''Camera binning is unavailable'')
           | Some bins \<Rightarrow>
               (case bt_get cs 1 of
                  None \<Rightarrow> Inl (invalid ''Exposure control unavailable'')
                | Some ex \<Rightarrow>
                    if exposure_fits info bins ex e then Inr ()
                    else Inl (EFailure (Invalid ''Exposure or ROI is outside camera capabilities (width multiple of 8, height multiple of 2; see camera alignment)'')))))"

text \<open>With SDK fallback the ROI rules of the SDK replace the camera's; \<open>None\<close> is the indexing panic.\<close>

definition sdk_roi_info :: "json \<Rightarrow> json option" where
  "sdk_roi_info info =
     Option.bind (jset ''minimumWidth'' (JInt 8) info) (\<lambda>info.
     Option.bind (jset ''minimumHeight'' (JInt 2) info) (\<lambda>info.
     Option.bind (jset ''originAlignment'' (JInt 1) info) (\<lambda>info.
     Option.bind (jset ''originAlignmentX'' (JInt 1) info)
       (jset ''originAlignmentY'' (JInt 1)))))"

definition validate_capture :: "json \<Rightarrow> controls \<Rightarrow> exposure \<Rightarrow> bool \<Rightarrow> (error + unit) option" where
  "validate_capture info cs e sdk_fallback =
     (if \<not> sdk_fallback then Some (validate_exposure info cs e)
      else map_option (\<lambda>info. validate_exposure info cs e) (sdk_roi_info info))"

section \<open>Observation times\<close>

text \<open>
  Instants and durations in nanoseconds. \<open>checked_sub\<close> of an instant fails below the clock's
  origin, which is 0 here.
\<close>

record control_observation =
  co_value :: int
  co_observed_at :: nat

record observation_reply =
  or_value :: int
  or_age_seconds :: f64

definition observed_at :: "observation_reply \<Rightarrow> nat \<Rightarrow> error + nat" where
  "observed_at r request_started =
     (case try_from_secs_f64 (or_age_seconds r) of
        None \<Rightarrow> Inl (invalid ''Invalid control observation age'')
      | Some age \<Rightarrow>
          if age \<le> request_started then Inr (request_started - age)
          else Inl (invalid ''Unrepresentable control observation time''))"

definition normalize_observation :: "observation_reply \<Rightarrow> nat \<Rightarrow> error + control_observation" where
  "normalize_observation r request_started =
     (case observed_at r request_started of
        Inl err \<Rightarrow> Inl err
      | Inr t \<Rightarrow> Inr \<lparr>co_value = or_value r, co_observed_at = t\<rparr>)"

section \<open>What admission guarantees\<close>

lemma frame_bytes_Inr:
  "frame_bytes e = Inr n \<longleftrightarrow> n = ex_width e * ex_height e * 2 \<and> 0 < n \<and> n \<le> 512 * 1024 * 1024"
  by (auto simp: frame_bytes_def checked_mul_def invalid_def Option.bind_eq_Some_conv mult.commute
      split: option.splits if_splits)

lemma u64_roi_exact:
  assumes "a < 2 ^ 32" "b < 2 ^ 32" "c < 2 ^ 31"
  shows "u64_mul (u64_add a b) c = (a + b) * c" and "u64_mul b c = b * c"
proof -
  have ab: "a + b < 2 ^ 33" using assms by simp
  have "(a + b) * c < 2 ^ 33 * 2 ^ 31"
    using ab assms(3) by (intro mult_strict_mono) auto
  then show "u64_mul (u64_add a b) c = (a + b) * c" using ab by simp
  have "b * c < 2 ^ 32 * 2 ^ 31" using assms(2,3) by (intro mult_strict_mono) auto
  then show "u64_mul b c = b * c" by simp
qed

lemma validate_exposureD:
  assumes "validate_exposure info cs e = Inr u"
  shows "\<exists>bins ex. as_array (jindex info ''bins'') = Some bins \<and> bt_get cs 1 = Some ex
    \<and> exposure_fits info bins ex e \<and> frame_bytes e = Inr (ex_width e * ex_height e * 2)"
  using assms
  by (auto simp: validate_exposure_def frame_bytes_Inr split: sum.splits option.splits if_splits)

text \<open>
  An admitted exposure is one the camera can deliver. With a bin factor below \<open>2 ^ 31\<close>, none of
  the 64-bit products of the check wraps: the binned region lies inside the sensor, the bin factor
  is one the camera lists, the exposure time lies in the range of its exposure control, and the frame
  buffer is exactly two bytes per pixel and at most 512 MiB.
\<close>

theorem admitted_exposure_fits_sensor:
  assumes "validate_exposure info cs e = Inr ()" and "exposure_wf e" and "ex_bin e < 2 ^ 31"
  shows "(ex_x e + ex_width e) * ex_bin e \<le> u64_or 0 (jindex info ''width'')
    \<and> (ex_y e + ex_height e) * ex_bin e \<le> u64_or 0 (jindex info ''height'')
    \<and> origin_alignment_x info dvd ex_x e * ex_bin e
    \<and> origin_alignment_y info dvd ex_y e * ex_bin e
    \<and> (\<exists>bins. as_array (jindex info ''bins'') = Some bins \<and> JInt (int (ex_bin e)) \<in> set bins)
    \<and> (\<exists>ex. bt_get cs 1 = Some ex \<and> ct_min ex \<le> int (ex_microseconds e)
          \<and> int (ex_microseconds e) \<le> ct_max ex \<and> 0 < ex_microseconds e)
    \<and> frame_bytes e = Inr (2 * ex_width e * ex_height e)
    \<and> 2 * ex_width e * ex_height e \<le> 512 * 1024 * 1024"
proof -
  from validate_exposureD [OF assms(1)] obtain bins ex where
    b: "as_array (jindex info ''bins'') = Some bins" and ex: "bt_get cs 1 = Some ex"
    and fits: "exposure_fits info bins ex e" and fb: "frame_bytes e = Inr (ex_width e * ex_height e * 2)"
    by blast
  have exact:
    "u64_mul (u64_add (ex_x e) (ex_width e)) (ex_bin e) = (ex_x e + ex_width e) * ex_bin e"
    "u64_mul (u64_add (ex_y e) (ex_height e)) (ex_bin e) = (ex_y e + ex_height e) * ex_bin e"
    "u64_mul (ex_x e) (ex_bin e) = ex_x e * ex_bin e"
    "u64_mul (ex_y e) (ex_bin e) = ex_y e * ex_bin e"
    using assms(2,3) u64_roi_exact unfolding exposure_wf_def by blast+
  have bin: "JInt (int (ex_bin e)) \<in> set bins"
  proof -
    obtain v where v: "v \<in> set bins" "as_u64 v = Some (ex_bin e)"
      using fits by (auto simp: exposure_fits_def)
    from v(2) have "v = JInt (int (ex_bin e))" by (cases v) (auto split: if_splits)
    with v show ?thesis by simp
  qed
  from fits have f:
    "(ex_x e + ex_width e) * ex_bin e \<le> u64_or 0 (jindex info ''width'')"
    "(ex_y e + ex_height e) * ex_bin e \<le> u64_or 0 (jindex info ''height'')"
    "ex_x e * ex_bin e mod origin_alignment_x info = 0"
    "ex_y e * ex_bin e mod origin_alignment_y info = 0"
    "0 < ex_microseconds e" "nat (max 0 (ct_min ex)) \<le> ex_microseconds e"
    "ex_microseconds e \<le> nat (max 0 (ct_max ex))"
    unfolding exposure_fits_def exact by blast+
  have "2 * ex_width e * ex_height e \<le> 512 * 1024 * 1024" using fb frame_bytes_Inr by auto
  moreover have "frame_bytes e = Inr (2 * ex_width e * ex_height e)" using fb by (simp add: mult.commute)
  moreover have "ct_min ex \<le> int (ex_microseconds e)" "int (ex_microseconds e) \<le> ct_max ex"
    using f(5-7) by linarith+
  ultimately show ?thesis using f b ex bin by (auto simp: dvd_eq_mod_eq_0)
qed

definition demo_info :: json where
  "demo_info = JObj [(''bins'', JArr [JInt 1, JInt 2]), (''formats'', JArr [JInt 2]),
     (''height'', JInt 4176), (''name'', JStr ''ZWO ASI2600MM Pro''), (''originAlignment'', JInt 4),
     (''width'', JInt 6248)]"

definition demo_controls :: controls where
  "demo_controls = [(1, \<lparr>ct_kind = 1, ct_min = 32, ct_max = 2000000000, ct_value = 10000, ct_writable = True\<rparr>)]"

definition demo_exposure :: exposure where
  "demo_exposure = \<lparr>ex_width = 1024, ex_height = 768, ex_bin = 2, ex_x = 100, ex_y = 50,
     ex_microseconds = 30000000, ex_dark = False\<rparr>"

lemma demo_alignment: "origin_alignment_x demo_info = 4 \<and> origin_alignment_y demo_info = 2"
  by (simp add: origin_alignment_x_def origin_alignment_y_def demo_info_def)

theorem admitted_exposure_fits_sensor_witness:
  "(100 + 1024) * 2 \<le> u64_or 0 (jindex demo_info ''width'') \<and> frame_bytes demo_exposure = Inr 1572864"
proof -
  have v: "validate_exposure demo_info demo_controls demo_exposure = Inr ()"
    unfolding validate_exposure_def exposure_fits_def
      demo_alignment [THEN conjunct1] demo_alignment [THEN conjunct2]
    by (simp add: demo_info_def demo_controls_def demo_exposure_def frame_bytes_def checked_mul_def
        u64_or_def)
  have w: "exposure_wf demo_exposure" "ex_bin demo_exposure < 2 ^ 31"
    by (simp_all add: exposure_wf_def demo_exposure_def)
  from admitted_exposure_fits_sensor [OF v w] show ?thesis by (simp add: demo_exposure_def)
qed

end
