(* ===== verification/Double.thy ===== *)
theory Double imports Prelude begin

text \<open>
  Arithmetic of finite doubles: the exact result on the rationals, rounded to the nearest double
  (53 significant bits, ties to even, subnormals down to \<open>2 powi -1074\<close>). Overflow to infinity is
  not modelled: every value computed with these operations is a duration or a temperature, many
  orders of magnitude below it. The laws the components use are monotonicity and exactness on
  small integers.
\<close>

fun ilog2_nat :: "nat \<Rightarrow> nat" where
  "ilog2_nat n = (if n < 2 then 0 else Suc (ilog2_nat (n div 2)))"

declare ilog2_nat.simps [simp del]

lemma ilog2_nat_bounds: "0 < n \<Longrightarrow> 2 ^ ilog2_nat n \<le> n \<and> n < 2 ^ Suc (ilog2_nat n)"
proof (induction n rule: ilog2_nat.induct)
  case (1 n)
  show ?case
  proof (cases "n < 2")
    case True
    with 1(2) show ?thesis by (simp add: ilog2_nat.simps)
  next
    case False
    with 1 have "2 ^ ilog2_nat (n div 2) \<le> n div 2" "n div 2 < 2 ^ Suc (ilog2_nat (n div 2))" by auto
    then have "2 * 2 ^ ilog2_nat (n div 2) \<le> n" "n < 2 * 2 ^ Suc (ilog2_nat (n div 2))" by auto
    with False show ?thesis by (subst (1 2) ilog2_nat.simps) simp
  qed
qed

text \<open>The exponent of a positive rational: \<open>2 powi e \<le> x < 2 powi (e + 1)\<close>.\<close>

definition ilog2 :: "rat \<Rightarrow> int" where
  "ilog2 x =
     (if 1 \<le> x then int (ilog2_nat (nat \<lfloor>x\<rfloor>))
      else let k = ilog2_nat (nat \<lfloor>1 / x\<rfloor>) in if x * 2 ^ k = 1 then - int k else - int k - 1)"

lemma ilog2_nat_floor:
  assumes "1 \<le> (x :: rat)"
  shows "2 ^ ilog2_nat (nat \<lfloor>x\<rfloor>) \<le> x \<and> x < 2 ^ Suc (ilog2_nat (nat \<lfloor>x\<rfloor>))"
proof -
  define n where "n = nat \<lfloor>x\<rfloor>"
  have n: "of_nat n = (of_int \<lfloor>x\<rfloor> :: rat)" "0 < n" using assms by (simp_all add: n_def)
  have b: "2 ^ ilog2_nat n \<le> n" "n + 1 \<le> 2 ^ Suc (ilog2_nat n)" using ilog2_nat_bounds [OF n(2)] by auto
  have "(of_nat (2 ^ ilog2_nat n) :: rat) \<le> of_nat n" "(of_nat (n + 1) :: rat) \<le> of_nat (2 ^ Suc (ilog2_nat n))"
    using b by (simp_all only: of_nat_le_iff)
  then have "2 ^ ilog2_nat n \<le> (of_nat n :: rat)" "(of_nat n :: rat) + 1 \<le> 2 ^ Suc (ilog2_nat n)"
    by (simp_all only: of_nat_power of_nat_numeral of_nat_add of_nat_1)
  moreover have "of_nat n \<le> x" "x < of_nat n + 1" unfolding n(1) by linarith+
  ultimately show ?thesis unfolding n_def [symmetric] by linarith
qed

lemma powi_simps:
  "(2 :: rat) powi int k = 2 ^ k" "(2 :: rat) powi (int k + 1) = 2 ^ Suc k"
  "(2 :: rat) powi (- int k) = 1 / 2 ^ k" "(2 :: rat) powi (- int k - 1) = 1 / 2 ^ Suc k"
  "(2 :: rat) powi (- int k + 1) = 2 / 2 ^ k"
proof -
  show "(2 :: rat) powi int k = 2 ^ k" by (rule power_int_of_nat)
  have "(2 :: rat) powi int (Suc k) = 2 ^ Suc k" by (rule power_int_of_nat)
  then show "(2 :: rat) powi (int k + 1) = 2 ^ Suc k" by (simp only: of_nat_Suc add.commute)
  show m: "(2 :: rat) powi (- int n) = 1 / 2 ^ n" for n
    by (simp only: power_int_minus power_int_of_nat divide_inverse mult_1_left)
  have "- int k - 1 = - int (Suc k)" by simp
  then show "(2 :: rat) powi (- int k - 1) = 1 / 2 ^ Suc k" by (simp only: m)
  have "(2 :: rat) powi (- int k + 1) = 2 powi (- int k) * 2 powi 1"
    by (rule power_int_add) simp
  then show "(2 :: rat) powi (- int k + 1) = 2 / 2 ^ k" by (simp only: m power_int_1_right)
qed

lemma ilog2_bounds:
  assumes "0 < x"
  shows "2 powi ilog2 x \<le> x \<and> x < 2 powi (ilog2 x + 1)"
proof (cases "1 \<le> x")
  case True
  then have "ilog2 x = int (ilog2_nat (nat \<lfloor>x\<rfloor>))" by (simp add: ilog2_def)
  with ilog2_nat_floor [OF True] show ?thesis by (simp only: powi_simps)
next
  case False
  define k where "k = ilog2_nat (nat \<lfloor>1 / x\<rfloor>)"
  have "1 \<le> 1 / x" using False assms by simp
  from ilog2_nat_floor [OF this] have b: "2 ^ k \<le> 1 / x" "1 / x < 2 ^ Suc k" by (simp_all add: k_def)
  then have b': "x * 2 ^ k \<le> 1" "1 < x * 2 ^ Suc k" using assms by (simp_all add: field_simps)
  show ?thesis
  proof (cases "x * 2 ^ k = 1")
    case eq: True
    have i: "ilog2 x = - int k" using False eq by (simp add: ilog2_def k_def [symmetric])
    have "x = 1 / 2 ^ k" using eq by (simp add: field_simps)
    moreover have "(1 :: rat) / 2 ^ k < 2 / 2 ^ k" by (simp add: divide_strict_right_mono)
    ultimately show ?thesis unfolding i by (simp only: powi_simps order.refl simp_thms)
  next
    case ne: False
    have i: "ilog2 x = - int k - 1" using False ne by (simp add: ilog2_def k_def [symmetric])
    have i1: "- int k - 1 + 1 = - int k" by simp
    have "x * 2 ^ k < 1" using b'(1) ne by simp
    then have "x < 1 / 2 ^ k" by (simp add: pos_less_divide_eq)
    moreover have "1 / 2 ^ Suc k \<le> x" using b'(2) by (simp add: pos_divide_le_eq less_imp_le)
    ultimately show ?thesis unfolding i i1 by (simp only: powi_simps)
  qed
qed

lemma ilog2_mono:
  assumes "0 < x" "x \<le> y"
  shows "ilog2 x \<le> ilog2 y"
proof (rule ccontr)
  assume "\<not> ilog2 x \<le> ilog2 y"
  then have "ilog2 y + 1 \<le> ilog2 x" by simp
  then have "(2 :: rat) powi (ilog2 y + 1) \<le> 2 powi ilog2 x" by (rule power_int_increasing) simp
  with ilog2_bounds [OF assms(1)] ilog2_bounds [of y] assms show False by linarith
qed

text \<open>The weight of the last bit of a double near \<open>x > 0\<close>, and rounding.\<close>

definition ulp_exp :: "rat \<Rightarrow> int" where
  "ulp_exp x = max (ilog2 x - 52) (- 1074)"

definition round_pos :: "rat \<Rightarrow> rat" where
  "round_pos x = of_int (round_ties_even (x * 2 powi (- ulp_exp x))) * 2 powi (ulp_exp x)"

definition f64_round :: "rat \<Rightarrow> rat" where
  "f64_round x = (if x = 0 then 0 else if x < 0 then - round_pos (- x) else round_pos x)"

lemma powi_pos: "0 < (2 :: rat) powi e"
  by simp

lemma powi_cancel: "x * (2 :: rat) powi (- e) * 2 powi e = x"
  by (simp add: power_int_minus)

lemma round_pos_nonneg: "0 < x \<Longrightarrow> 0 \<le> round_pos x"
  using round_ties_even_nonneg [of "x * 2 powi (- ulp_exp x)"] by (simp add: round_pos_def)

lemma round_pos_mono:
  assumes "0 < x" "x \<le> y"
  shows "round_pos x \<le> round_pos y"
proof (cases "ulp_exp x = ulp_exp y")
  case True
  have "round_ties_even (x * 2 powi (- ulp_exp y)) \<le> round_ties_even (y * 2 powi (- ulp_exp y))"
    using assms by (intro round_ties_even_mono) (simp add: mult_right_mono)
  then show ?thesis by (simp add: round_pos_def True)
next
  case False
  let ?a = "ulp_exp x" and ?b = "ulp_exp y"
  have "?a \<le> ?b" using ilog2_mono [OF assms] by (simp add: ulp_exp_def)
  with False have b: "?b = ilog2 y - 52" and ab: "?a < ?b" by (auto simp: ulp_exp_def split: if_splits)
  have xy: "0 < y" using assms by simp
  have "x < 2 powi (ilog2 x + 1)" using ilog2_bounds [OF assms(1)] by simp
  also have "\<dots> \<le> 2 powi (?a + 53)" by (rule power_int_increasing) (auto simp: ulp_exp_def)
  finally have "x * 2 powi (- ?a) \<le> 2 powi (?a + 53) * 2 powi (- ?a)" by (simp add: mult_right_mono)
  also have "(2 :: rat) powi (?a + 53) * 2 powi (- ?a) = of_int (2 ^ 53)"
    by (simp flip: power_int_add)
  finally have "round_ties_even (x * 2 powi (- ?a)) \<le> round_ties_even (of_int (2 ^ 53))"
    by (rule round_ties_even_mono)
  then have "round_ties_even (x * 2 powi (- ?a)) \<le> 2 ^ 53" by (simp only: round_ties_even_of_int)
  then have "of_int (round_ties_even (x * 2 powi (- ?a))) \<le> (of_int (2 ^ 53) :: rat)"
    by (simp only: of_int_le_iff)
  then have 1: "round_pos x \<le> of_int (2 ^ 53) * 2 powi ?a"
    unfolding round_pos_def by (rule mult_right_mono) simp
  have "of_int (2 ^ 53) * (2 :: rat) powi ?a = 2 powi (?a + 53)" by (simp add: power_int_add)
  also have "\<dots> \<le> 2 powi (?b + 52)" using ab by (intro power_int_increasing) simp_all
  also have "\<dots> = of_int (2 ^ 52) * 2 powi ?b" by (simp add: power_int_add)
  finally have 2: "of_int (2 ^ 53) * (2 :: rat) powi ?a \<le> of_int (2 ^ 52) * 2 powi ?b" .
  have "2 powi ilog2 y * 2 powi (- ?b) \<le> y * 2 powi (- ?b)"
    using ilog2_bounds [OF xy] by (simp add: mult_right_mono)
  moreover have "(2 :: rat) powi ilog2 y * 2 powi (- ?b) = of_int (2 ^ 52)"
    by (simp add: b flip: power_int_add)
  ultimately have "round_ties_even (of_int (2 ^ 52)) \<le> round_ties_even (y * 2 powi (- ?b))"
    by (intro round_ties_even_mono) simp
  then have "(2 :: int) ^ 52 \<le> round_ties_even (y * 2 powi (- ?b))" by (simp only: round_ties_even_of_int)
  then have "(of_int (2 ^ 52) :: rat) \<le> of_int (round_ties_even (y * 2 powi (- ?b)))"
    by (simp only: of_int_le_iff)
  then have "of_int (2 ^ 52) * 2 powi ?b \<le> round_pos y"
    unfolding round_pos_def by (rule mult_right_mono) simp
  with 1 2 show ?thesis by linarith
qed

lemma f64_round_mono: "x \<le> y \<Longrightarrow> f64_round x \<le> f64_round y"
  using round_pos_mono [of x y] round_pos_mono [of "- y" "- x"] round_pos_nonneg [of y] round_pos_nonneg [of "- x"]
  by (auto simp: f64_round_def)

lemma f64_round_zero [simp]: "f64_round 0 = 0"
  by (simp add: f64_round_def)

lemma f64_round_nonneg: "0 \<le> x \<Longrightarrow> 0 \<le> f64_round x"
  using f64_round_mono [of 0 x] by simp

text \<open>Integers of up to 53 bits are doubles.\<close>

lemma f64_round_scaled_int:
  assumes "n < 2 ^ 53" "- 1074 \<le> j"
  shows "f64_round (of_nat n * 2 powi j) = of_nat n * 2 powi j"
proof (cases "0 < n")
  case True
  let ?x = "of_nat n * 2 powi j :: rat"
  have n: "0 < ?x" using True by simp
  have "(2 :: rat) powi ilog2 ?x \<le> ?x" using ilog2_bounds [OF n] ..
  also have "\<dots> < of_nat (2 ^ 53) * 2 powi j"
    using assms by (intro mult_strict_right_mono) (simp_all only: of_nat_less_iff powi_pos)
  also have "\<dots> = (2 :: rat) powi (53 + j)"
    using power_int_add [of "2 :: rat" 53 j] by simp
  finally have "ilog2 ?x < 53 + j"
    using power_int_increasing [of "53 + j" "ilog2 ?x" "2 :: rat"] by fastforce
  then have e: "ulp_exp ?x \<le> j" using assms(2) by (simp add: ulp_exp_def)
  define k where "k = nat (j - ulp_exp ?x)"
  have "- ulp_exp ?x = int k - j" using e by (simp add: k_def)
  then have "2 powi j * (2 :: rat) powi (- ulp_exp ?x) = 2 ^ k"
    using power_int_add [of "2 :: rat" j "int k - j"] power_int_of_nat [of "2 :: rat" k] by simp
  then have i: "?x * (2 :: rat) powi (- ulp_exp ?x) = of_int (int n * 2 ^ k)"
    by (simp add: mult.assoc)
  have "round_pos ?x = of_int (int n * 2 ^ k) * 2 powi (ulp_exp ?x)"
    by (simp only: round_pos_def i round_ties_even_of_int)
  also have "\<dots> = ?x" using powi_cancel [of ?x "ulp_exp ?x"] by (simp only: i)
  finally show ?thesis using n by (simp add: f64_round_def)
qed simp

lemma f64_round_scaled: "n < 2 ^ 53 \<Longrightarrow> f64_round (of_nat n * 2 ^ j) = of_nat n * 2 ^ j"
  using f64_round_scaled_int [of n "int j"] by (simp only: power_int_of_nat)

lemma f64_round_eighth: "f64_round (1 / 8) = 1 / 8"
  using f64_round_scaled_int [of 1 "- 3"] by (simp add: power_int_minus)

lemma round_ties_even_double: "0 \<le> x \<Longrightarrow> of_int (round_ties_even x) \<le> 2 * x"
proof (cases "1 / 2 < x")
  case True
  then show ?thesis by (auto simp: round_ties_even_def Let_def) linarith+
next
  case False
  moreover assume "0 \<le> x"
  ultimately have "\<lfloor>x\<rfloor> = 0" by linarith
  with False \<open>0 \<le> x\<close> show ?thesis by (auto simp: round_ties_even_def Let_def)
qed

lemma f64_round_double: "0 \<le> x \<Longrightarrow> f64_round x \<le> 2 * x"
proof -
  assume x: "0 \<le> x"
  have "of_int (round_ties_even (x * 2 powi (- ulp_exp x))) \<le> 2 * (x * 2 powi (- ulp_exp x))"
    using x by (intro round_ties_even_double) simp
  then have "round_pos x \<le> 2 * (x * 2 powi (- ulp_exp x)) * 2 powi (ulp_exp x)"
    unfolding round_pos_def by (rule mult_right_mono) simp
  also have "\<dots> = 2 * x" using powi_cancel [of x "ulp_exp x"] by (simp only: mult.assoc)
  finally show ?thesis using x by (simp add: f64_round_def)
qed

text \<open>Away from the subnormals the relative error is small; an eighth is more than enough here.\<close>

lemma f64_round_eighth_over:
  assumes "2 powi k \<le> x" "- 1000 \<le> k"
  shows "f64_round x \<le> 9 / 8 * x"
proof -
  have x: "0 < x" using assms(1) powi_pos [of k] by linarith
  let ?u = "ulp_exp x"
  have "(2 :: rat) powi k < 2 powi (ilog2 x + 1)"
    using assms(1) ilog2_bounds [OF x] by linarith
  then have "k < ilog2 x + 1"
    using power_int_increasing [of "ilog2 x + 1" k "2 :: rat"] by fastforce
  then have u: "?u + 3 \<le> ilog2 x" using assms(2) by (simp add: ulp_exp_def)
  have "(2 :: rat) powi (?u + 3) \<le> 2 powi ilog2 x" using u by (intro power_int_increasing) simp_all
  also have "\<dots> \<le> x" using ilog2_bounds [OF x] ..
  finally have "2 powi (?u + 3) * 2 powi (- ?u) \<le> x * 2 powi (- ?u)" by (rule mult_right_mono) simp
  moreover have "(2 :: rat) powi (?u + 3) * 2 powi (- ?u) = 8" by (simp flip: power_int_add)
  ultimately have big: "8 \<le> x * 2 powi (- ?u)" by simp
  have "of_int (round_ties_even y) \<le> y + 1" for y :: rat
    using round_ties_even_le [of y] by linarith
  from this [of "x * 2 powi (- ?u)"] big
  have "of_int (round_ties_even (x * 2 powi (- ?u))) \<le> 9 / 8 * (x * 2 powi (- ?u))" by linarith
  then have "round_pos x \<le> 9 / 8 * (x * 2 powi (- ?u)) * 2 powi ?u"
    unfolding round_pos_def by (rule mult_right_mono) simp
  also have "\<dots> = 9 / 8 * x" using powi_cancel [of x ?u] by (simp only: mult.assoc)
  finally show ?thesis using x by (simp add: f64_round_def)
qed

text \<open>A sum that passes a double by much less than its last place is rounded back to it.\<close>

lemma round_ties_even_near: "\<bar>d\<bar> < 1 / 2 \<Longrightarrow> round_ties_even (of_int n + d) = n"
proof -
  assume d: "\<bar>d\<bar> < 1 / 2"
  show ?thesis
  proof (cases "0 \<le> d")
    case True
    then have "\<lfloor>of_int n + d\<rfloor> = n" using d by linarith
    then show ?thesis using d True by (simp add: round_ties_even_def)
  next
    case False
    then have "\<lfloor>of_int n + d\<rfloor> = n - 1" using d by linarith
    then show ?thesis using d False by (simp add: round_ties_even_def)
  qed
qed

lemma ilog2_unique: "0 < x \<Longrightarrow> 2 powi k \<le> x \<Longrightarrow> x < 2 powi (k + 1) \<Longrightarrow> ilog2 x = k"
proof -
  assume x: "0 < x" "2 powi k \<le> x" "x < 2 powi (k + 1)"
  note b = ilog2_bounds [OF x(1)]
  have "(2 :: rat) powi k < 2 powi (ilog2 x + 1)" "(2 :: rat) powi ilog2 x < 2 powi (k + 1)"
    using x b by linarith+
  then have "k < ilog2 x + 1" "ilog2 x < k + 1"
    using power_int_increasing [of "ilog2 x + 1" k "2 :: rat"]
      power_int_increasing [of "k + 1" "ilog2 x" "2 :: rat"] by fastforce+
  then show ?thesis by simp
qed

lemma f64_round_above_8: "0 \<le> d \<Longrightarrow> d < 1 / 2 ^ 60 \<Longrightarrow> f64_round (8 + d) = 8"
proof -
  assume d: "0 \<le> d" "d < 1 / 2 ^ 60"
  then have "d < 8" by simp
  with d have "ilog2 (8 + d) = 3" by (intro ilog2_unique) (simp_all add: power_int_add)
  then have u: "ulp_exp (8 + d) = - 49" by (simp add: ulp_exp_def)
  have "(8 + d) * 2 powi 49 = of_int (2 ^ 52) + d * 2 ^ 49" by (simp add: field_simps)
  moreover have "\<bar>d * 2 ^ 49\<bar> < 1 / 2" using d by simp
  ultimately have "round_ties_even ((8 + d) * 2 powi 49) = 2 ^ 52"
    using round_ties_even_near [of "d * 2 ^ 49" "2 ^ 52"] by simp
  then show ?thesis using d by (simp add: f64_round_def round_pos_def u power_int_minus)
qed

lemma f64_round_below_eighth: "0 < d \<Longrightarrow> d < 1 / 2 ^ 60 \<Longrightarrow> f64_round (1 / 8 - d) = 1 / 8"
proof -
  assume d: "0 < d" "d < 1 / 2 ^ 60"
  then have p: "0 < 1 / 8 - d" "1 / 16 \<le> 1 / 8 - d" by simp_all
  have "ilog2 (1 / 8 - d) = - 4"
    using p d by (intro ilog2_unique) (simp_all add: power_int_minus)
  then have u: "ulp_exp (1 / 8 - d) = - 56" by (simp add: ulp_exp_def)
  have "(1 / 8 - d) * 2 powi 56 = of_int (2 ^ 53) + - (d * 2 ^ 56)" by (simp add: field_simps)
  moreover have "\<bar>- (d * 2 ^ 56)\<bar> < 1 / 2" using d by simp
  ultimately have "round_ties_even ((1 / 8 - d) * 2 powi 56) = 2 ^ 53"
    using round_ties_even_near [of "- (d * 2 ^ 56)" "2 ^ 53"] by simp
  then show ?thesis using p by (simp add: f64_round_def round_pos_def u power_int_minus)
qed

lemma f64_round_minus: "f64_round (- x) = - f64_round x"
  by (auto simp: f64_round_def)

lemma f64_round_of_nat: "n < 2 ^ 53 \<Longrightarrow> f64_round (of_nat n) = of_nat n"
  using f64_round_scaled [of n 0] by simp

lemma f64_round_near:
  assumes "n < 2 ^ 64"
  shows "of_nat n - 4096 \<le> f64_round (of_nat n) \<and> f64_round (of_nat n) \<le> of_nat n + 4096"
proof -
  define q where "q = n div 2 ^ 12"
  have q: "q + 1 < 2 ^ 53" using assms by (simp add: q_def less_mult_imp_div_less)
  have n: "q * 2 ^ 12 \<le> n" "n < (q + 1) * 2 ^ 12" by (simp_all add: q_def)
  then have "(of_nat (q * 2 ^ 12) :: rat) \<le> of_nat n" "(of_nat n :: rat) \<le> of_nat ((q + 1) * 2 ^ 12)"
    by (simp_all only: of_nat_le_iff less_imp_le)
  then have r: "(of_nat q :: rat) * 2 ^ 12 \<le> of_nat n" "(of_nat n :: rat) \<le> of_nat (q + 1) * 2 ^ 12"
    by (simp_all only: of_nat_mult of_nat_power of_nat_numeral)
  have "f64_round (of_nat q * 2 ^ 12) \<le> f64_round (of_nat n)" "f64_round (of_nat n) \<le> f64_round (of_nat (q + 1) * 2 ^ 12)"
    using r by (simp_all only: f64_round_mono)
  then have "of_nat q * 2 ^ 12 \<le> f64_round (of_nat n)" "f64_round (of_nat n) \<le> of_nat (q + 1) * 2 ^ 12"
    using q f64_round_scaled [of q 12] f64_round_scaled [of "q + 1" 12] by simp_all
  with r show ?thesis by simp
qed

definition fadd :: "rat \<Rightarrow> rat \<Rightarrow> rat" where "fadd x y = f64_round (x + y)"
definition fsub :: "rat \<Rightarrow> rat \<Rightarrow> rat" where "fsub x y = f64_round (x - y)"
definition fmul :: "rat \<Rightarrow> rat \<Rightarrow> rat" where "fmul x y = f64_round (x * y)"
definition fdiv :: "rat \<Rightarrow> rat \<Rightarrow> rat" where "fdiv x y = f64_round (x / y)"

lemma fadd_mono: "x \<le> x' \<Longrightarrow> y \<le> y' \<Longrightarrow> fadd x y \<le> fadd x' y'"
  by (simp add: fadd_def f64_round_mono)

lemma fadd_nonneg: "0 \<le> x \<Longrightarrow> 0 \<le> y \<Longrightarrow> 0 \<le> fadd x y"
  by (simp add: fadd_def f64_round_nonneg)

lemma fmul_mono: "0 \<le> x \<Longrightarrow> x \<le> x' \<Longrightarrow> 0 \<le> y \<Longrightarrow> y \<le> y' \<Longrightarrow> fmul x y \<le> fmul x' y'"
  by (simp add: fmul_def f64_round_mono mult_mono)

lemma fdiv_mono: "0 < y \<Longrightarrow> x \<le> x' \<Longrightarrow> fdiv x y \<le> fdiv x' y"
  by (simp add: fdiv_def f64_round_mono divide_right_mono)

text \<open>\<open>Duration::as_secs_f64\<close> and \<open>x as f64\<close>.\<close>

definition as_secs_f64 :: "nat \<Rightarrow> rat" where
  "as_secs_f64 d = fadd (of_nat (d div nanos_per_sec)) (fdiv (of_nat (d mod nanos_per_sec)) 1000000000)"

definition int_as_f64 :: "int \<Rightarrow> rat" where
  "int_as_f64 i = f64_round (of_int i)"

end
