(* ===== verification/White_Balance.thy ===== *)
theory White_Balance imports Camera_Model Double begin

text \<open>
  Software white balance of little-endian 16-bit Bayer frames,
  \<open>crates/regain-core/src/white_balance.rs\<close>. Gains are finite doubles (they arrive as JSON numbers
  or are computed from sums of samples), held as rationals and rounded as doubles. Pixel data are
  bytes.
\<close>

datatype wb_mode = WbOff | WbManual | WbOnce | WbContinuous | WbLocked
datatype wb_output = WbRaw | WbCorrected

record gains =
  ga_red :: rat
  ga_blue :: rat

record wb_settings =
  wb_mode :: wb_mode
  wb_gains :: gains
  wb_output :: wb_output

definition default_gains :: gains where
  "default_gains = \<lparr>ga_red = 1, ga_blue = 1\<rparr>"

definition default_wb :: wb_settings where
  "default_wb = \<lparr>wb_mode = WbOff, wb_gains = default_gains, wb_output = WbRaw\<rparr>"

definition gain_valid :: "rat \<Rightarrow> bool" where
  "gain_valid v \<longleftrightarrow> 1 / 8 \<le> v \<and> v \<le> 8"

definition gains_validate :: "gains \<Rightarrow> error + unit" where
  "gains_validate g = ensure (gain_valid (ga_red g) \<and> gain_valid (ga_blue g))
     (EOther ''white balance gains must be finite linear multipliers between 0.125 and 8'')"

definition wb_configure :: "wb_settings \<Rightarrow> wb_settings \<Rightarrow> (error + unit) \<times> wb_settings" where
  "wb_configure new current =
     (case gains_validate (wb_gains new) of
        Inl e \<Rightarrow> (Inl e, current)
      | Inr _ \<Rightarrow> (Inr (), new\<lparr>wb_gains :=
          (case wb_mode new of WbOff \<Rightarrow> default_gains | WbLocked \<Rightarrow> wb_gains current | _ \<Rightarrow> wb_gains new)\<rparr>))"

definition validate_geometry :: "bool \<Rightarrow> nat option \<Rightarrow> nat \<Rightarrow> error + unit" where
  "validate_geometry color bayer bin =
     and_then (ensure (color \<and> some_and bayer (\<lambda>b. b \<le> 3))
       (EOther ''white balance requires a known color Bayer camera'')) (\<lambda>_.
     ensure (bin = 1) (EOther ''managed white balance requires unbinned Bayer data (bin 1)''))"

record geometry =
  ge_width :: nat
  ge_height :: nat
  ge_x :: nat
  ge_y :: nat
  ge_bayer :: nat
  ge_dark :: bool

definition bayer_channels :: "nat list list" where
  "bayer_channels = [[0, 1, 1, 2], [2, 1, 1, 0], [1, 0, 2, 1], [1, 2, 0, 1]]"

definition bayer_channel :: "nat \<Rightarrow> nat \<Rightarrow> nat \<Rightarrow> nat" where
  "bayer_channel bayer x y = bayer_channels ! bayer ! (y mod 2 * 2 + x mod 2)"

definition u16_at :: "nat list \<Rightarrow> nat \<Rightarrow> nat" where
  "u16_at pixels index = pixels ! index + 256 * pixels ! (index + 1)"

section \<open>JSON\<close>

fun mode_name :: "wb_mode \<Rightarrow> string" where
  "mode_name WbOff = ''off''"
| "mode_name WbManual = ''manual''"
| "mode_name WbOnce = ''once''"
| "mode_name WbContinuous = ''continuous''"
| "mode_name WbLocked = ''locked''"

fun output_name :: "wb_output \<Rightarrow> string" where
  "output_name WbRaw = ''raw''"
| "output_name WbCorrected = ''corrected''"

definition name_value :: "('a \<Rightarrow> string) \<Rightarrow> 'a list \<Rightarrow> json \<Rightarrow> 'a option" where
  "name_value name xs v = Option.bind (as_str v) (\<lambda>s. find (\<lambda>x. name x = s) xs)"

definition gains_value :: "gains \<Rightarrow> json" where
  "gains_value g = JObj [(''blue'', JFloat (ga_blue g)), (''red'', JFloat (ga_red g))]"

definition gains_from_value :: "json \<Rightarrow> gains option" where
  "gains_from_value v =
     (case v of
        JObj m \<Rightarrow>
          if set (map fst m) \<subseteq> {''red'', ''blue''}
          then case (Option.bind (bt_get m ''red'') as_f64, Option.bind (bt_get m ''blue'') as_f64) of
              (Some r, Some b) \<Rightarrow> Some \<lparr>ga_red = r, ga_blue = b\<rparr>
            | _ \<Rightarrow> None
          else None
      | _ \<Rightarrow> None)"

definition wb_value :: "wb_settings \<Rightarrow> json" where
  "wb_value s = JObj [(''gains'', gains_value (wb_gains s)), (''mode'', JStr (mode_name (wb_mode s))),
     (''output'', JStr (output_name (wb_output s)))]"

text \<open>A missing field takes its default, an unknown one is an error.\<close>

definition field_or :: "'a \<Rightarrow> (json \<Rightarrow> 'a option) \<Rightarrow> json option \<Rightarrow> 'a option" where
  "field_or d parse v = (case v of None \<Rightarrow> Some d | Some x \<Rightarrow> parse x)"

definition wb_from_value :: "json \<Rightarrow> wb_settings option" where
  "wb_from_value v =
     (case v of
        JObj m \<Rightarrow>
          if set (map fst m) \<subseteq> {''mode'', ''gains'', ''output''}
          then case (field_or WbOff (name_value mode_name [WbOff, WbManual, WbOnce, WbContinuous, WbLocked]) (bt_get m ''mode''),
                     field_or default_gains gains_from_value (bt_get m ''gains''),
                     field_or WbRaw (name_value output_name [WbRaw, WbCorrected]) (bt_get m ''output'')) of
              (Some mode, Some gains, Some output) \<Rightarrow> Some \<lparr>wb_mode = mode, wb_gains = gains, wb_output = output\<rparr>
            | _ \<Rightarrow> None
          else None
      | _ \<Rightarrow> None)"

lemma wb_value_roundtrip: "wb_from_value (wb_value s) = Some s"
proof -
  have "name_value mode_name [WbOff, WbManual, WbOnce, WbContinuous, WbLocked] (JStr (mode_name m)) = Some m" for m
    by (cases m) (simp_all add: name_value_def)
  moreover have "name_value output_name [WbRaw, WbCorrected] (JStr (output_name m)) = Some m" for m
    by (cases m) (simp_all add: name_value_def)
  ultimately show ?thesis
    by (cases s) (simp add: wb_from_value_def wb_value_def gains_value_def gains_from_value_def field_or_def)
qed

section \<open>Estimation\<close>

text \<open>The cells \<open>(0..cells).step_by(stride)\<close>.\<close>

definition sampled_cells :: "nat \<Rightarrow> nat list" where
  "sampled_cells cells =
     (let stride = max 1 ((cells + 65535) div 65536)
      in map (\<lambda>k. k * stride) [0..<(cells + stride - 1) div stride])"

text \<open>One 2x2 cell: whether all four samples are usable, and the sums of its channels.\<close>

definition read_cell :: "nat list \<Rightarrow> geometry \<Rightarrow> nat \<Rightarrow> bool \<times> nat list" where
  "read_cell pixels g index =
     (let x = index mod (ge_width g div 2) * 2;
          y = index div (ge_width g div 2) * 2
      in foldl (\<lambda>(usable, cell) (dx, dy).
           let value = u16_at pixels (((y + dy) * ge_width g + x + dx) * 2);
               ch = bayer_channel (ge_bayer g) (ge_x g mod 2 + x + dx) (ge_y g mod 2 + y + dy)
           in (usable \<and> 1024 \<le> value \<and> value \<le> 58981, cell[ch := cell ! ch + value]))
         (True, [0, 0, 0]) [(0, 0), (1, 0), (0, 1), (1, 1)])"

record estimate_sums =
  es_sum :: "nat list"
  es_count :: nat
  es_attempted :: nat

definition accumulate_cell :: "nat list \<Rightarrow> geometry \<Rightarrow> estimate_sums \<Rightarrow> nat \<Rightarrow> estimate_sums" where
  "accumulate_cell pixels g es index =
     (let es = es\<lparr>es_attempted := es_attempted es + 1\<rparr>;
          (usable, cell) = read_cell pixels g index
      in if usable then es\<lparr>es_count := es_count es + 1, es_sum := map2 (+) (es_sum es) cell\<rparr> else es)"

definition wb_estimate :: "nat list \<Rightarrow> geometry \<Rightarrow> gains option \<times> nat \<times> string" where
  "wb_estimate pixels g =
     (let es = foldl (accumulate_cell pixels g) \<lparr>es_sum = [0, 0, 0], es_count = 0, es_attempted = 0\<rparr>
            (sampled_cells (ge_width g div 2 * (ge_height g div 2)))
      in if es_count es < 64 \<or> es_count es * 10 < es_attempted es
         then (None, es_count es, ''insufficient-signal'')
         else let green = fdiv (f64_round (of_nat (es_sum es ! 1))) 2;
                  gains = \<lparr>ga_red = fdiv green (f64_round (of_nat (es_sum es ! 0))),
                           ga_blue = fdiv green (f64_round (of_nat (es_sum es ! 2)))\<rparr>
              in if \<not> is_ok (gains_validate gains) then (None, es_count es, ''gain-out-of-range'')
                 else (Some gains, es_count es, ''updated''))"

section \<open>Processing a frame\<close>

definition wb_geometry_ok :: "nat list \<Rightarrow> geometry \<Rightarrow> bool" where
  "wb_geometry_ok pixels g \<longleftrightarrow>
     0 < ge_width g \<and> 0 < ge_height g \<and> even (ge_width g) \<and> even (ge_height g)
     \<and> Option.bind (checked_mul 64 (ge_width g) (ge_height g)) (\<lambda>n. checked_mul 64 n 2) = Some (length pixels)
     \<and> ge_bayer g \<le> 3"

definition follow_gain :: "rat \<Rightarrow> rat \<Rightarrow> rat" where
  "follow_gain current estimate = fadd current (fmul (f64_round (1 / 5)) (fsub estimate current))"

definition wb_update :: "nat list \<Rightarrow> geometry \<Rightarrow> wb_settings \<Rightarrow> (string \<times> nat) \<times> wb_settings" where
  "wb_update pixels g s =
     (if ge_dark g then ((''dark-frame'', 0), s)
      else if wb_mode s \<in> {WbOnce, WbContinuous}
      then case wb_estimate pixels g of
          (None, samples, reason) \<Rightarrow> ((reason, samples), s)
        | (Some gains, samples, reason) \<Rightarrow>
            ((reason, samples),
             if wb_mode s = WbOnce then s\<lparr>wb_gains := gains, wb_mode := WbLocked\<rparr>
             else s\<lparr>wb_gains := \<lparr>ga_red = follow_gain (ga_red (wb_gains s)) (ga_red gains),
                                 ga_blue = follow_gain (ga_blue (wb_gains s)) (ga_blue gains)\<rparr>\<rparr>)
      else ((''not-requested'', 0), s))"

definition wb_applies :: "geometry \<Rightarrow> wb_settings \<Rightarrow> bool" where
  "wb_applies g s \<longleftrightarrow> \<not> ge_dark g \<and> wb_output s = WbCorrected \<and> wb_mode s \<noteq> WbOff"

text \<open>\<open>f64::round\<close> (half away from zero) of a value that is not negative.\<close>

definition round_half_up :: "rat \<Rightarrow> nat" where
  "round_half_up x = nat \<lfloor>x + 1 / 2\<rfloor>"

definition wb_pixel :: "wb_settings \<Rightarrow> geometry \<Rightarrow> nat \<Rightarrow> nat \<Rightarrow> nat" where
  "wb_pixel s g index v =
     (let ch = bayer_channel (ge_bayer g) (ge_x g mod 2 + index mod ge_width g)
            (ge_y g mod 2 + index div ge_width g);
          gain = (if ch = 0 then ga_red (wb_gains s) else if ch = 2 then ga_blue (wb_gains s) else 1)
      in min 65535 (round_half_up (fmul (of_nat v) gain)))"

definition wb_correct :: "wb_settings \<Rightarrow> geometry \<Rightarrow> nat list \<Rightarrow> nat list" where
  "wb_correct s g pixels =
     concat (map (\<lambda>index. let v = wb_pixel s g index (u16_at pixels (2 * index)) in [v mod 256, v div 256])
       [0..<length pixels div 2])"

record wb_report =
  wr_settings :: wb_settings
  wr_applied :: bool
  wr_estimation :: string
  wr_samples :: nat

definition wb_process :: "nat list \<Rightarrow> geometry \<Rightarrow> wb_settings \<Rightarrow> (error + wb_report) \<times> nat list \<times> wb_settings" where
  "wb_process pixels g s =
     (if \<not> wb_geometry_ok pixels g then (Inl (EOther ''invalid white balance frame geometry''), pixels, s)
      else let ((estimation, samples), s) = wb_update pixels g s;
               applied = wb_applies g s
           in (Inr \<lparr>wr_settings = s, wr_applied = applied, wr_estimation = estimation, wr_samples = samples\<rparr>,
               if applied then wb_correct s g pixels else pixels, s))"

section \<open>Gains stay valid\<close>

text \<open>One fifth, rounded, of a rounded distance does not overshoot.\<close>

lemma fifth_small: "f64_round (1 / 5) \<le> 9 / 40" "0 \<le> f64_round (1 / 5)"
  using f64_round_eighth_over [of "- 3" "1 / 5"] by (simp_all add: power_int_minus f64_round_nonneg)

lemma fifth_step:
  assumes "0 \<le> x" "x \<le> d"
  shows "0 \<le> fmul (f64_round (1 / 5)) (f64_round x)"
    and "1 / 2 ^ 70 \<le> d \<Longrightarrow> fmul (f64_round (1 / 5)) (f64_round x) \<le> d"
    and "d < 1 / 2 ^ 70 \<Longrightarrow> fmul (f64_round (1 / 5)) (f64_round x) < 1 / 2 ^ 60"
proof -
  let ?w = "f64_round (1 / 5)"
  have r: "0 \<le> f64_round x" "f64_round x \<le> f64_round d" using assms by (simp_all add: f64_round_nonneg f64_round_mono)
  have d: "0 \<le> d" using assms by simp
  show "0 \<le> fmul ?w (f64_round x)" using r fifth_small by (simp add: fmul_def f64_round_nonneg)
  have m: "fmul ?w (f64_round x) \<le> f64_round (9 / 40 * f64_round d)"
    unfolding fmul_def by (rule f64_round_mono, rule mult_mono) (use r fifth_small in simp_all)
  show "fmul ?w (f64_round x) \<le> d" if "1 / 2 ^ 70 \<le> d"
  proof -
    have "(2 :: rat) powi (- 70) \<le> d" using that by (simp add: power_int_minus)
    then have "f64_round d \<le> 9 / 8 * d" by (rule f64_round_eighth_over) simp
    then have "f64_round (9 / 40 * f64_round d) \<le> f64_round (81 / 320 * d)"
      by (intro f64_round_mono) simp
    also have "\<dots> \<le> 2 * (81 / 320 * d)" using d by (intro f64_round_double) simp
    also have "\<dots> \<le> d" using d by simp
    finally show ?thesis using m by simp
  qed
  show "fmul ?w (f64_round x) < 1 / 2 ^ 60" if "d < 1 / 2 ^ 70"
  proof -
    have "f64_round d \<le> 2 * d" using d by (rule f64_round_double)
    moreover have "f64_round (9 / 40 * f64_round d) \<le> 2 * (9 / 40 * f64_round d)"
      using d by (intro f64_round_double) (simp add: f64_round_nonneg)
    ultimately show ?thesis using m that by simp
  qed
qed

lemma follow_gain_valid:
  assumes "gain_valid c" "gain_valid e"
  shows "gain_valid (follow_gain c e)"
proof -
  let ?w = "f64_round (1 / 5)"
  define step where "step = fmul ?w (fsub e c)"
  have b: "1 / 8 \<le> c" "c \<le> 8" "1 / 8 \<le> e" "e \<le> 8" using assms by (simp_all add: gain_valid_def)
  have eight: "f64_round 8 = 8" using f64_round_of_nat [of 8] by simp
  have "1 / 8 \<le> f64_round (c + step) \<and> f64_round (c + step) \<le> 8"
  proof (cases "c \<le> e")
    case True
    have p: "0 \<le> e - c" "e - c \<le> 8 - c" using True b by simp_all
    have s: "step = fmul ?w (f64_round (e - c))" by (simp add: step_def fsub_def)
    note q = fifth_step [OF p, folded s]
    have "f64_round (1 / 8) \<le> f64_round (c + step)" using q(1) b by (intro f64_round_mono) simp
    moreover have "f64_round (c + step) \<le> 8"
    proof (cases "1 / 2 ^ 70 \<le> 8 - c")
      case True
      then have "f64_round (c + step) \<le> f64_round 8" using q(2) by (intro f64_round_mono) linarith
      then show ?thesis by (simp add: eight)
    next
      case False
      then have "f64_round (c + step) \<le> f64_round (8 + step)" using b by (intro f64_round_mono) simp
      then show ?thesis using f64_round_above_8 [OF q(1)] q(3) False by simp
    qed
    ultimately show ?thesis by (simp add: f64_round_eighth)
  next
    case False
    have p: "0 \<le> c - e" "c - e \<le> c - 1 / 8" using False b by simp_all
    define down where "down = fmul ?w (f64_round (c - e))"
    have "fsub e c = - f64_round (c - e)" using f64_round_minus [of "c - e"] by (simp add: fsub_def)
    then have s: "step = - down"
      using f64_round_minus [of "?w * f64_round (c - e)"] by (simp add: step_def down_def fmul_def)
    note q = fifth_step [OF p, folded down_def]
    have "f64_round (c + step) \<le> f64_round 8" using q(1) b s by (intro f64_round_mono) simp
    moreover have "1 / 8 \<le> f64_round (c + step)"
    proof (cases "1 / 2 ^ 70 \<le> c - 1 / 8")
      case True
      then have "f64_round (1 / 8) \<le> f64_round (c + step)" using q(2) s by (intro f64_round_mono) linarith
      then show ?thesis by (simp add: f64_round_eighth)
    next
      case False
      then have "f64_round (1 / 8 - down) \<le> f64_round (c + step)" using b s by (intro f64_round_mono) simp
      moreover have "f64_round (1 / 8 - down) = 1 / 8"
        using f64_round_below_eighth [of down] q(1) q(3) False f64_round_eighth by (cases "down = 0") auto
      ultimately show ?thesis by simp
    qed
    ultimately show ?thesis by (simp add: eight)
  qed
  then show ?thesis by (simp add: gain_valid_def follow_gain_def fadd_def step_def)
qed

definition wb_valid :: "wb_settings \<Rightarrow> bool" where
  "wb_valid s \<longleftrightarrow> gain_valid (ga_red (wb_gains s)) \<and> gain_valid (ga_blue (wb_gains s))"

lemma wb_estimate_valid:
  "wb_estimate pixels g = (Some gains, n, r) \<Longrightarrow> gain_valid (ga_red gains) \<and> gain_valid (ga_blue gains)"
  by (auto simp: wb_estimate_def Let_def gains_validate_def is_ok_iff ensure_eq split: if_splits)

lemma wb_update_valid: "wb_valid s \<Longrightarrow> wb_update pixels g s = (r, s') \<Longrightarrow> wb_valid s' \<and> wb_output s' = wb_output s
    \<and> (wb_mode s = WbOff \<longleftrightarrow> wb_mode s' = WbOff)"
  using wb_estimate_valid [of pixels g]
  by (auto simp: wb_update_def wb_valid_def follow_gain_valid split: if_splits option.splits prod.splits)

lemma concat_pairs_length: "length (concat (map (\<lambda>i. let v = f i in [a v, b v]) xs)) = 2 * length xs"
  by (induction xs) (simp_all add: Let_def)

lemma wb_correct_length: "even (length pixels) \<Longrightarrow> length (wb_correct s g pixels) = length pixels"
  by (simp add: wb_correct_def concat_pairs_length)

lemma wb_correct_bytes: "x \<in> set (wb_correct s g pixels) \<Longrightarrow> x < 256"
  by (auto simp: wb_correct_def wb_pixel_def Let_def less_mult_imp_div_less min_def)

text \<open>
  Software white balance never leaves its range and never touches science data by itself. From
  valid gains, configuring and processing keep the gains between 1/8 and 8, whatever the frame and
  however the rounded tracking steps accumulate; a frame is only rewritten when corrected output was
  selected, the mode is not off and it is no dark frame, and then keeps its length in bytes.
\<close>

theorem white_balance_preserves_range_and_raw_data:
  assumes "wb_valid s"
  shows "wb_valid (snd (wb_configure new s))
    \<and> (case wb_process pixels g s of (r, pixels', s') \<Rightarrow>
         wb_valid s' \<and> wb_output s' = wb_output s
         \<and> length pixels' = length pixels
         \<and> (wb_output s = WbRaw \<or> wb_mode s = WbOff \<or> ge_dark g \<or> \<not> is_ok r \<longrightarrow> pixels' = pixels)
         \<and> (pixels' \<noteq> pixels \<longrightarrow> (\<forall>x \<in> set pixels'. x < 256)))"
proof -
  have c: "wb_valid (snd (wb_configure new s))"
    using assms
    by (auto simp: wb_configure_def wb_valid_def gains_validate_def default_gains_def gain_valid_def ensure_def
        split: wb_mode.splits)
  show ?thesis
  proof (cases "wb_geometry_ok pixels g")
    case False
    then show ?thesis using c assms by (simp add: wb_process_def)
  next
    case True
    then have "length pixels = ge_width g * ge_height g * 2"
      by (auto simp: wb_geometry_ok_def Option.bind_eq_Some_conv checked_mul_def split: if_splits)
    then have "even (length pixels)" by simp
    moreover obtain e n s' where u: "wb_update pixels g s = ((e, n), s')" by (metis prod.exhaust)
    ultimately show ?thesis
      using c True wb_update_valid [OF assms u] wb_correct_length [of pixels s' g] wb_correct_bytes [of _ s' g pixels]
      by (auto simp: wb_process_def wb_applies_def Let_def)
  qed
qed

theorem white_balance_preserves_range_and_raw_data_witness:
  "wb_valid default_wb \<and> wb_valid (snd (wb_configure default_wb default_wb))"
proof -
  have v: "wb_valid default_wb" by (simp add: wb_valid_def default_wb_def default_gains_def gain_valid_def)
  from white_balance_preserves_range_and_raw_data [OF v, of default_wb] v show ?thesis by blast
qed

end
