(* ===== verification/Camera_Status.thy ===== *)
theory Camera_Status imports Camera_Model White_Balance begin

text \<open>
  The status that a camera session shares with its frontends: \<open>Status\<close> and \<open>RetryStatus\<close> of
  \<open>crates/regain-core/src/model.rs\<close>. The mutex around it is held for single reads and updates only,
  so the status is a value of the session state here.
\<close>



record retry_status =
  rs_recaptures :: nat
  rs_downloads :: nat
  rs_usb_reads :: nat
  rs_last_failure :: "string option"

record status =
  st_filter_wheel :: json
  st_info :: json
  st_serial :: "string option"
  st_sdk_version :: string
  st_backend :: string
  st_sdk_fallback :: bool
  st_phase :: string
  st_error :: "string option"
  st_retry :: retry_status
  st_controls :: controls
  st_values :: "(int, int) btree"
  st_observations :: "(int, control_observation) btree"
  st_connected :: bool
  st_control_connection_available :: bool
  st_usb_peripheral_recovery_id :: "nat option"
  st_sdk_exposure_state :: "int option"
  st_sdk_error_code :: "int option"
  st_process_id :: "nat option"
  st_white_balance_capabilities :: json
  st_white_balance :: "wb_settings option"

definition default_status :: status where
  "default_status =
     \<lparr>st_filter_wheel = JNull, st_info = JNull, st_serial = None, st_sdk_version = [],
      st_backend = [], st_sdk_fallback = False, st_phase = [], st_error = None,
      st_retry = \<lparr>rs_recaptures = 0, rs_downloads = 0, rs_usb_reads = 0, rs_last_failure = None\<rparr>,
      st_controls = [], st_values = [], st_observations = [], st_connected = False,
      st_control_connection_available = False, st_usb_peripheral_recovery_id = None,
      st_sdk_exposure_state = None, st_sdk_error_code = None, st_process_id = None,
      st_white_balance_capabilities = JNull, st_white_balance = None\<rparr>"

end
