(* ===== verification/Cooling.thy ===== *)
theory Cooling imports Camera_Status Reachability begin

text \<open>
  The cooler command mailbox of \<open>crates/regain-core/src/cooling.rs\<close>: one slot, driven by the
  owner of the camera session (\<open>claim\<close>, \<open>dispatch\<close>, \<open>finish\<close>, \<open>retire\<close>, \<open>activate\<close>) while
  frontends submit, wait for and cancel requests.

  A request is shared by the slot, its receipt and its canceller (\<open>Arc\<close>), so requests live in a
  store indexed by their identity, and \<open>Arc::ptr_eq\<close> is equality of identities. The one-shot reply
  channel of a request is \<open>rq_reply\<close>: \<open>None\<close> while the sender is still held, then the outcome sent.
  Every operation holds the mailbox lock, so it is one atomic step; \<open>now\<close> is its clock reading.
\<close>

datatype request_phase = Queued | Claimed | Running | Finished

type_synonym cool_outcome = "cooling_error + int"

record request =
  rq_kind :: int
  rq_value :: int
  rq_deadline :: nat
  rq_phase :: request_phase
  rq_uncertain :: bool
  rq_reply :: "cool_outcome option"

record mailbox =
  mb_accepting :: bool
  mb_pending :: "nat option"
  mb_store :: "nat \<Rightarrow> request option"
  mb_next :: nat

definition mailbox_default :: mailbox where
  "mailbox_default = \<lparr>mb_accepting = False, mb_pending = None, mb_store = (\<lambda>_. None), mb_next = 0\<rparr>"

definition is_uncertain :: "cool_outcome \<Rightarrow> bool" where
  "is_uncertain r = (case r of Inl (Uncertain _ _) \<Rightarrow> True | _ \<Rightarrow> False)"

text \<open>\<open>if let Some(reply) = request.reply.take() { let _ = reply.send(result); }\<close>\<close>

definition send_reply :: "cool_outcome \<Rightarrow> request \<Rightarrow> request" where
  "send_reply r q = (case rq_reply q of None \<Rightarrow> q\<lparr>rq_reply := Some r\<rparr> | Some _ \<Rightarrow> q)"

definition finished :: "cool_outcome \<Rightarrow> request \<Rightarrow> request" where
  "finished r q = send_reply r (q\<lparr>rq_phase := Finished\<rparr>)"

definition put_request :: "nat \<Rightarrow> request \<Rightarrow> mailbox \<Rightarrow> mailbox" where
  "put_request i q m = m\<lparr>mb_store := (mb_store m)(i := Some q)\<rparr>"

section \<open>Submission\<close>

definition cooling_validate :: "status \<Rightarrow> int \<Rightarrow> int \<Rightarrow> cooling_error + unit" where
  "cooling_validate st kind v =
     (if kind \<notin> {16, 17} then Inl (CoolInvalid ''Only cooler target and enable are supported'')
      else if \<not> st_connected st \<or> \<not> st_control_connection_available st then Inl Unavailable
      else (case bt_get (st_controls st) kind of
              None \<Rightarrow> Inl (CoolInvalid ''Cooler control is unavailable'')
            | Some cap \<Rightarrow>
                if \<not> ct_writable cap \<or> v < ct_min cap \<or> ct_max cap < v
                then Inl (CoolInvalid (''Cooler control must be writable and between ''
                       @ show_int (ct_min cap) @ '' and '' @ show_int (ct_max cap)))
                else Inr ()))"

text \<open>\<open>Instant::checked_add\<close>: seconds are a signed 64-bit count.\<close>

definition instant_add :: "nat \<Rightarrow> nat \<Rightarrow> nat option" where
  "instant_add t d = (if t + d < 2 ^ 63 * nanos_per_sec then Some (t + d) else None)"

definition submit ::
  "status \<Rightarrow> int \<Rightarrow> int \<Rightarrow> nat \<Rightarrow> nat \<Rightarrow> mailbox \<Rightarrow> (cooling_error + nat) \<times> mailbox" where
  "submit st kind v timeout now m =
     (case cooling_validate st kind v of
        Inl e \<Rightarrow> (Inl e, m)
      | Inr _ \<Rightarrow>
          (case (if timeout = 0 then None else instant_add now timeout) of
             None \<Rightarrow> (Inl Expired, m)
           | Some deadline \<Rightarrow>
               if \<not> mb_accepting m then (Inl Unavailable, m)
               else if mb_pending m \<noteq> None then (Inl Busy, m)
               else
                 let i = mb_next m;
                     q = \<lparr>rq_kind = kind, rq_value = v, rq_deadline = deadline, rq_phase = Queued,
                          rq_uncertain = False, rq_reply = None\<rparr>
                 in (Inr i, (put_request i q m)\<lparr>mb_pending := Some i, mb_next := Suc i\<rparr>)))"

definition pending :: "mailbox \<Rightarrow> bool" where
  "pending m \<longleftrightarrow> mb_pending m \<noteq> None"

section \<open>The owner's side\<close>

definition retire :: "mailbox \<Rightarrow> mailbox" where
  "retire m =
     (let m1 = m\<lparr>mb_accepting := False, mb_pending := None\<rparr> in
      case mb_pending m of
        None \<Rightarrow> m1
      | Some i \<Rightarrow>
          (case mb_store m i of
             None \<Rightarrow> m1
           | Some q \<Rightarrow>
               let result = (if rq_phase q = Running
                     then Inl (Uncertain ''Camera owner retired during cooler dispatch'' None)
                     else Inl Unavailable)
               in put_request i (finished result q) m1))"

definition activate :: "mailbox \<Rightarrow> mailbox" where
  "activate m = (retire m)\<lparr>mb_accepting := True\<rparr>"

definition cancel_queued :: "nat \<Rightarrow> mailbox \<Rightarrow> mailbox" where
  "cancel_queued i m =
     (if mb_pending m \<noteq> Some i then m
      else (case mb_store m i of
              None \<Rightarrow> m
            | Some q \<Rightarrow>
                if rq_phase q \<in> {Queued, Claimed}
                then (put_request i (finished (Inl CoolCancelled) q) m)\<lparr>mb_pending := None\<rparr>
                else m))"

definition expire_request :: "nat \<Rightarrow> mailbox \<Rightarrow> cooling_error option \<times> mailbox" where
  "expire_request i m =
     (if mb_pending m \<noteq> Some i then (None, m)
      else (case mb_store m i of
              None \<Rightarrow> (None, m)
            | Some q \<Rightarrow>
                if rq_phase q \<in> {Queued, Claimed}
                then (Some Expired, (put_request i (finished (Inl Expired) q) m)\<lparr>mb_pending := None\<rparr>)
                else (Some (Uncertain ''Cooler acknowledgement exceeded its deadline'' None),
                      (put_request i (q\<lparr>rq_uncertain := True\<rparr>) m)\<lparr>mb_accepting := False\<rparr>)))"

definition claim :: "nat \<Rightarrow> mailbox \<Rightarrow> nat option \<times> mailbox" where
  "claim now m =
     (case mb_pending m of
        None \<Rightarrow> (None, m)
      | Some i \<Rightarrow>
          (case mb_store m i of
             None \<Rightarrow> (None, m)
           | Some q \<Rightarrow>
               if rq_phase q \<noteq> Queued then (None, m)
               else if rq_deadline q \<le> now
               then (None, (put_request i (finished (Inl Expired) q) m)\<lparr>mb_pending := None\<rparr>)
               else (Some i, put_request i (q\<lparr>rq_phase := Claimed\<rparr>) m)))"

definition dispatch :: "nat \<Rightarrow> nat \<Rightarrow> mailbox \<Rightarrow> bool \<times> mailbox" where
  "dispatch i now m =
     (if mb_pending m \<noteq> Some i then (False, m)
      else (case mb_store m i of
              None \<Rightarrow> (False, m)
            | Some q \<Rightarrow>
                if rq_phase q \<noteq> Claimed \<or> \<not> mb_accepting m then (False, m)
                else if rq_deadline q \<le> now
                then (False, (put_request i (finished (Inl Expired) q) m)\<lparr>mb_pending := None\<rparr>)
                else (True, put_request i (q\<lparr>rq_phase := Running\<rparr>) m)))"

text \<open>The verdict of \<open>finish\<close> on a request that still owns the slot.\<close>

definition finish_verdict :: "request \<Rightarrow> bool \<Rightarrow> nat \<Rightarrow> cool_outcome \<Rightarrow> cool_outcome" where
  "finish_verdict q accepting now r =
     (if \<not> is_uncertain r
         \<and> (rq_uncertain q \<or> \<not> accepting
             \<or> is_ok r \<and> (rq_phase q \<noteq> Running \<or> rq_deadline q < now))
      then Inl (Uncertain ''Cooler acknowledgement exceeded its deadline'' None)
      else r)"

text \<open>\<open>commit\<close> updates the session state \<open>s\<close>; it runs before the outcome is published.\<close>

definition finish ::
  "nat \<Rightarrow> nat \<Rightarrow> cool_outcome \<Rightarrow> ('s \<Rightarrow> 's) \<Rightarrow> mailbox \<Rightarrow> 's \<Rightarrow> cool_outcome \<times> mailbox \<times> 's" where
  "finish i now r commit m s =
     (case mb_store m i of
        None \<Rightarrow> (Inl (Uncertain ''Cooler owner changed before acknowledgement'' None), m, s)
      | Some q \<Rightarrow>
          if mb_pending m \<noteq> Some i \<or> rq_phase q \<notin> {Claimed, Running}
          then (Inl (Uncertain ''Cooler owner changed before acknowledgement'' None), m, s)
          else
            let r = finish_verdict q (mb_accepting m) now r;
                m = (if is_uncertain r then m\<lparr>mb_accepting := False\<rparr> else m);
                s = (if is_ok r then commit s else s)
            in (r, (put_request i (finished r q) m)\<lparr>mb_pending := None\<rparr>, s))"

section \<open>The receipt\<close>

text \<open>
  \<open>CoolingReceipt::wait\<close>: the reply if it has been sent, else at the deadline the request is
  expired. Dropping the receipt (also at the end of \<open>wait\<close>) cancels a request not yet dispatched.
  The result is \<open>None\<close> while the receipt has to go on waiting.
\<close>

definition receipt_wait :: "nat \<Rightarrow> bool \<Rightarrow> mailbox \<Rightarrow> cool_outcome option \<times> mailbox" where
  "receipt_wait i deadline_passed m =
     (case Option.bind (mb_store m i) rq_reply of
        Some r \<Rightarrow> (Some r, cancel_queued i m)
      | None \<Rightarrow>
          if \<not> deadline_passed then (None, m)
          else (case expire_request i m of
                  (Some e, m) \<Rightarrow> (Some (Inl e), cancel_queued i m)
                | (None, m) \<Rightarrow> (None, m)))"

section \<open>Steps and the invariant\<close>

inductive mailbox_step :: "mailbox \<Rightarrow> mailbox \<Rightarrow> bool" where
  "submit st kind v timeout now m = (r, m') \<Longrightarrow> mailbox_step m m'"
| "mailbox_step m (retire m)"
| "mailbox_step m (activate m)"
| "mailbox_step m (cancel_queued i m)"
| "expire_request i m = (e, m') \<Longrightarrow> mailbox_step m m'"
| "claim now m = (c, m') \<Longrightarrow> mailbox_step m m'"
| "dispatch i now m = (d, m') \<Longrightarrow> mailbox_step m m'"
| "finish i now r (\<lambda>s :: unit. s) m () = (r', m', s') \<Longrightarrow> mailbox_step m m'"
| "receipt_wait i b m = (w, m') \<Longrightarrow> mailbox_step m m'"

text \<open>
  Exactly the request in the slot is open: it is not finished and its sender is still held. Every
  other request is finished and has been answered. A request marked uncertain closes the mailbox.
\<close>

definition open_request :: "request \<Rightarrow> bool" where
  "open_request q \<longleftrightarrow> rq_phase q \<noteq> Finished \<and> rq_reply q = None"

definition answered :: "request \<Rightarrow> bool" where
  "answered q \<longleftrightarrow> rq_phase q = Finished \<and> rq_reply q \<noteq> None"

definition mailbox_inv :: "mailbox \<Rightarrow> bool" where
  "mailbox_inv m \<longleftrightarrow>
     (\<forall>i. mb_pending m = Some i \<longrightarrow> (\<exists>q. mb_store m i = Some q \<and> open_request q
            \<and> (rq_uncertain q \<longrightarrow> rq_phase q = Running \<and> \<not> mb_accepting m)))
     \<and> (\<forall>i q. mb_store m i = Some q \<longrightarrow> i < mb_next m \<and> (mb_pending m \<noteq> Some i \<longrightarrow> answered q))"

text \<open>Answers are final: a request that was answered keeps its answer, and none disappears.\<close>

definition answers_kept :: "mailbox \<Rightarrow> mailbox \<Rightarrow> bool" where
  "answers_kept m m' \<longleftrightarrow>
     (\<forall>i q. mb_store m i = Some q \<longrightarrow> (\<exists>q'. mb_store m' i = Some q'
        \<and> rq_kind q' = rq_kind q \<and> rq_value q' = rq_value q \<and> rq_deadline q' = rq_deadline q
        \<and> (answered q \<longrightarrow> q' = q)))"

lemma finished_answered:
  "open_request q \<Longrightarrow> answered (finished r q) \<and> rq_reply (finished r q) = Some r
     \<and> rq_kind (finished r q) = rq_kind q \<and> rq_value (finished r q) = rq_value q
     \<and> rq_deadline (finished r q) = rq_deadline q"
  by (simp add: open_request_def answered_def finished_def send_reply_def)

lemma open_not_answered: "open_request q \<Longrightarrow> \<not> answered q"
  by (simp add: open_request_def answered_def)

lemma put_request_simps [simp]:
  "mb_accepting (put_request i q m) = mb_accepting m"
  "mb_pending (put_request i q m) = mb_pending m"
  "mb_next (put_request i q m) = mb_next m"
  "mb_store (put_request i q m) j = (if j = i then Some q else mb_store m j)"
  by (simp_all add: put_request_def)

lemma mailbox_inv_pending:
  assumes "mailbox_inv m" "mb_pending m = Some i"
  obtains q where "mb_store m i = Some q" "open_request q"
    "rq_uncertain q \<Longrightarrow> rq_phase q = Running \<and> \<not> mb_accepting m"
  using assms unfolding mailbox_inv_def by blast

text \<open>The two moves of the mailbox: answering the request in the slot, and updating it in place.\<close>

lemma answer_slot:
  assumes "mailbox_inv m" "mb_pending m = Some i" "mb_store m i = Some q"
    and m': "mb_pending m' = None" "mb_next m' = mb_next m"
      "\<And>j. mb_store m' j = (if j = i then Some (finished r q) else mb_store m j)"
  shows "mailbox_inv m' \<and> answers_kept m m'"
proof -
  have o: "open_request q" using assms(1-3) by (auto elim: mailbox_inv_pending)
  have "mailbox_inv m'"
    using assms(1,2,3) m' finished_answered [OF o] unfolding mailbox_inv_def by auto
  moreover have "answers_kept m m'"
    using assms(3) m' finished_answered [OF o] open_not_answered [OF o]
    by (auto simp: answers_kept_def)
  ultimately show ?thesis by blast
qed

lemma update_slot:
  assumes "mailbox_inv m" "mb_pending m = Some i" "mb_store m i = Some q" "open_request q'"
    and "rq_kind q' = rq_kind q" "rq_value q' = rq_value q" "rq_deadline q' = rq_deadline q"
    and m': "mb_pending m' = Some i" "mb_next m' = mb_next m"
      "\<And>j. mb_store m' j = (if j = i then Some q' else mb_store m j)"
    and "rq_uncertain q' \<Longrightarrow> rq_phase q' = Running \<and> \<not> mb_accepting m'"
  shows "mailbox_inv m' \<and> answers_kept m m'"
proof -
  have o: "open_request q" using assms(1-3) by (auto elim: mailbox_inv_pending)
  have "mailbox_inv m'" using assms unfolding mailbox_inv_def by auto
  moreover have "answers_kept m m'"
    using assms open_not_answered [OF o] by (auto simp: answers_kept_def)
  ultimately show ?thesis by blast
qed

lemma answers_kept_refl: "answers_kept m m"
  by (simp add: answers_kept_def)

lemma answers_kept_trans: "answers_kept m n \<Longrightarrow> answers_kept n k \<Longrightarrow> answers_kept m k"
  unfolding answers_kept_def by fastforce

lemma submit_step:
  assumes "mailbox_inv m" "submit st kind v timeout now m = (r, m')"
  shows "mailbox_inv m' \<and> answers_kept m m'"
proof (cases "m' = m")
  case False
  then obtain d where d: "mb_pending m = None"
    "m' = (put_request (mb_next m) \<lparr>rq_kind = kind, rq_value = v, rq_deadline = d, rq_phase = Queued,
        rq_uncertain = False, rq_reply = None\<rparr> m)\<lparr>mb_pending := Some (mb_next m), mb_next := Suc (mb_next m)\<rparr>"
    using assms(2) by (auto simp: submit_def Let_def split: sum.splits option.splits if_splits)
  have unused: "mb_store m (mb_next m) = None"
    using assms(1) unfolding mailbox_inv_def by (metis less_irrefl option.exhaust)
  have "mailbox_inv m'"
    using assms(1) d(1) unfolding mailbox_inv_def d(2) by (auto simp: open_request_def less_Suc_eq)
  moreover have "answers_kept m m'"
    using unused unfolding d(2) by (auto simp: answers_kept_def)
  ultimately show ?thesis by blast
qed (use assms(1) answers_kept_refl in auto)

lemma mailbox_inv_flags: "mb_pending m = None \<Longrightarrow> mailbox_inv (m\<lparr>mb_accepting := b\<rparr>) = mailbox_inv m"
  by (simp add: mailbox_inv_def)

lemma retire_step:
  assumes "mailbox_inv m"
  shows "mailbox_inv (retire m) \<and> answers_kept m (retire m) \<and> mb_pending (retire m) = None
    \<and> \<not> mb_accepting (retire m)"
proof (cases "mb_pending m")
  case None
  then show ?thesis using assms answers_kept_refl
    by (auto simp: retire_def Let_def mailbox_inv_def answers_kept_def)
next
  case (Some i)
  then obtain q where q: "mb_store m i = Some q" using assms by (auto elim: mailbox_inv_pending)
  define r :: cool_outcome where "r = (if rq_phase q = Running
      then Inl (Uncertain ''Camera owner retired during cooler dispatch'' None) else Inl Unavailable)"
  have m': "retire m = put_request i (finished r q) (m\<lparr>mb_accepting := False, mb_pending := None\<rparr>)"
    using Some q by (simp add: retire_def Let_def r_def)
  show ?thesis using answer_slot [OF assms Some q, where m' = "retire m" and r = r]
    unfolding m' by simp
qed

lemma activate_step: "mailbox_inv m \<Longrightarrow> mailbox_inv (activate m) \<and> answers_kept m (activate m)"
  using retire_step [of m] mailbox_inv_flags [of "retire m"]
  by (auto simp: activate_def answers_kept_def)

lemma cancel_queued_step: "mailbox_inv m \<Longrightarrow> mailbox_inv (cancel_queued i m) \<and> answers_kept m (cancel_queued i m)"
  using answer_slot [of m i _ "cancel_queued i m" "Inl CoolCancelled"] answers_kept_refl
  by (auto simp: cancel_queued_def split: option.splits)

lemma expire_request_step:
  assumes "mailbox_inv m" "expire_request i m = (e, m')"
  shows "mailbox_inv m' \<and> answers_kept m m'"
proof (cases "mb_pending m = Some i")
  case True
  then obtain q where q: "mb_store m i = Some q" "open_request q"
    using assms(1) by (auto elim: mailbox_inv_pending)
  show ?thesis
  proof (cases "rq_phase q \<in> {Queued, Claimed}")
    case c: True
    with True q assms(2) have "m' = (put_request i (finished (Inl Expired) q) m)\<lparr>mb_pending := None\<rparr>"
      by (auto simp: expire_request_def)
    with answer_slot [OF assms(1) True q(1), where m' = m'] show ?thesis by simp
  next
    case False
    with q(2) have "rq_phase q = Running" by (cases "rq_phase q") (auto simp: open_request_def)
    moreover from False True q assms(2)
    have "m' = (put_request i (q\<lparr>rq_uncertain := True\<rparr>) m)\<lparr>mb_accepting := False\<rparr>"
      by (auto simp: expire_request_def)
    ultimately show ?thesis using q(2) True
      by (intro update_slot [OF assms(1) True q(1), of "q\<lparr>rq_uncertain := True\<rparr>"])
        (auto simp: open_request_def)
  qed
qed (use assms answers_kept_refl in \<open>auto simp: expire_request_def\<close>)

lemma claim_step:
  assumes "mailbox_inv m" "claim now m = (c, m')"
  shows "mailbox_inv m' \<and> answers_kept m m'"
proof (cases "m' = m")
  case False
  then obtain i q where q: "mb_pending m = Some i" "mb_store m i = Some q" "rq_phase q = Queued"
    and m': "m' = (if rq_deadline q \<le> now
        then (put_request i (finished (Inl Expired) q) m)\<lparr>mb_pending := None\<rparr>
        else put_request i (q\<lparr>rq_phase := Claimed\<rparr>) m)"
    using assms(2) by (auto simp: claim_def split: option.splits if_splits)
  have o: "open_request q" "\<not> rq_uncertain q" using assms(1) q by (auto elim: mailbox_inv_pending)
  show ?thesis
    using answer_slot [OF assms(1) q(1,2), where m' = m' and r = "Inl Expired"]
      update_slot [OF assms(1) q(1,2), of "q\<lparr>rq_phase := Claimed\<rparr>" m'] q o m'
    by (auto simp: open_request_def)
qed (use assms answers_kept_refl in auto)

lemma dispatch_step:
  assumes "mailbox_inv m" "dispatch i now m = (d, m')"
  shows "mailbox_inv m' \<and> answers_kept m m'"
proof (cases "m' = m")
  case False
  then obtain q where q: "mb_pending m = Some i" "mb_store m i = Some q" "rq_phase q = Claimed"
    and m': "m' = (if rq_deadline q \<le> now
        then (put_request i (finished (Inl Expired) q) m)\<lparr>mb_pending := None\<rparr>
        else put_request i (q\<lparr>rq_phase := Running\<rparr>) m)"
    using assms(2) by (auto simp: dispatch_def split: option.splits if_splits)
  have o: "open_request q" "\<not> rq_uncertain q" using assms(1) q by (auto elim: mailbox_inv_pending)
  show ?thesis
    using answer_slot [OF assms(1) q(1,2), where m' = m' and r = "Inl Expired"]
      update_slot [OF assms(1) q(1,2), of "q\<lparr>rq_phase := Running\<rparr>" m'] q o m'
    by (auto simp: open_request_def)
qed (use assms answers_kept_refl in auto)

lemma finish_cases:
  assumes "finish i now r commit m s = (r', m', s')"
  obtains (foreign) "m' = m" "s' = s" "is_uncertain r'" "\<not> is_ok r'"
      "\<not> (mb_pending m = Some i \<and> (\<exists>q. mb_store m i = Some q \<and> rq_phase q \<in> {Claimed, Running}))"
  | (own) q where "mb_pending m = Some i" "mb_store m i = Some q" "rq_phase q \<in> {Claimed, Running}"
      "r' = finish_verdict q (mb_accepting m) now r" "s' = (if is_ok r' then commit s else s)"
      "m' = (put_request i (finished r' q) (if is_uncertain r' then m\<lparr>mb_accepting := False\<rparr> else m))
              \<lparr>mb_pending := None\<rparr>"
proof (cases "\<exists>q. mb_pending m = Some i \<and> mb_store m i = Some q \<and> rq_phase q \<in> {Claimed, Running}")
  case True
  then obtain q where q: "mb_pending m = Some i" "mb_store m i = Some q" "rq_phase q \<in> {Claimed, Running}"
    by blast
  define v where "v = finish_verdict q (mb_accepting m) now r"
  have "\<not> (mb_pending m \<noteq> Some i \<or> rq_phase q \<notin> {Claimed, Running})" using q by blast
  then have f: "finish i now r commit m s = (v, (put_request i (finished v q)
      (if is_uncertain v then m\<lparr>mb_accepting := False\<rparr> else m))\<lparr>mb_pending := None\<rparr>,
      if is_ok v then commit s else s)"
    by (simp only: finish_def q(2) option.case if_False Let_def v_def)
  note e = trans [OF assms [symmetric] f, unfolded prod.inject]
  have r: "v = r'" using conjunct1 [OF e] by (rule sym)
  show thesis
    using e unfolding r by (elim conjE) (rule own [OF q r [symmetric, unfolded v_def]])
next
  case False
  then have f: "finish i now r commit m s
      = (Inl (Uncertain ''Cooler owner changed before acknowledgement'' None), m, s)"
    by (auto simp: finish_def split: option.split)
  show thesis
    by (rule foreign) (use assms f False in \<open>auto simp: is_uncertain_def\<close>)
qed

lemma finish_step:
  assumes "mailbox_inv m" "finish i now r commit m s = (r', m', s')"
  shows "mailbox_inv m' \<and> answers_kept m m'"
  using assms(2)
proof (cases rule: finish_cases)
  case foreign
  then show ?thesis using assms(1) answers_kept_refl by simp
next
  case (own q)
  have "mb_pending m' = None" "mb_next m' = mb_next m"
    "\<And>j. mb_store m' j = (if j = i then Some (finished r' q) else mb_store m j)"
    unfolding own(6) by simp_all
  then show ?thesis by (rule answer_slot [OF assms(1) own(1,2), where m' = m' and r = r'])
qed

lemma receipt_wait_step:
  assumes "mailbox_inv m" "receipt_wait i b m = (w, m')"
  shows "mailbox_inv m' \<and> answers_kept m m'"
proof -
  consider "m' = m" | "m' = cancel_queued i m"
    | e n where "expire_request i m = (e, n)" "m' = n"
    | e n where "expire_request i m = (e, n)" "m' = cancel_queued i n"
    using assms(2) by (auto simp: receipt_wait_def split: option.splits if_splits prod.splits)
  then show ?thesis
    using assms(1) cancel_queued_step expire_request_step answers_kept_refl answers_kept_trans
    by cases blast+
qed

lemma mailbox_step_keeps: "mailbox_step m m' \<Longrightarrow> mailbox_inv m \<Longrightarrow> mailbox_inv m' \<and> answers_kept m m'"
proof (induction rule: mailbox_step.induct)
  case (1 st kind v timeout now m r m')
  then show ?case by (rule submit_step [rotated])
next
  case (2 m)
  then show ?case using retire_step by blast
next
  case (3 m)
  then show ?case by (rule activate_step)
next
  case (4 m i)
  then show ?case by (rule cancel_queued_step)
next
  case (5 i m e m')
  then show ?case by (rule expire_request_step [rotated])
next
  case (6 now m c m')
  then show ?case by (rule claim_step [rotated])
next
  case (7 i now m d m')
  then show ?case by (rule dispatch_step [rotated])
next
  case (8 i now r m r' m' s')
  then show ?case by (rule finish_step [rotated])
next
  case (9 i b m w m')
  then show ?case by (rule receipt_wait_step [rotated])
qed

interpretation mail: monotone_system "\<lambda>m. m = mailbox_default" mailbox_step mailbox_inv answers_kept
  by unfold_locales
    (auto simp: mailbox_default_def mailbox_inv_def answers_kept_refl
      intro: answers_kept_trans dest: mailbox_step_keeps)

section \<open>Guarantees\<close>

lemma mailbox_reach_inv: "reachable (\<lambda>m. m = mailbox_default) mailbox_step m \<Longrightarrow> mailbox_inv m"
  by (rule mail.reachable_inv)

text \<open>
  C24: no cooler request is lost or answered twice. In every reachable mailbox each request ever
  submitted is either the one in the slot, still unanswered, or finished with an answer; and
  whatever happens afterwards, a request keeps its command and an answer once given.
\<close>

theorem requests_answered_once:
  assumes "reachable (\<lambda>m. m = mailbox_default) mailbox_step m" and "mb_store m i = Some q"
  shows "(rq_reply q = None \<longleftrightarrow> mb_pending m = Some i)
    \<and> (rq_phase q = Finished \<longleftrightarrow> mb_pending m \<noteq> Some i)
    \<and> (\<forall>m'. mailbox_step\<^sup>*\<^sup>* m m' \<longrightarrow>
         (\<exists>q'. mb_store m' i = Some q' \<and> rq_kind q' = rq_kind q \<and> rq_value q' = rq_value q
            \<and> (rq_reply q \<noteq> None \<longrightarrow> rq_reply q' = rq_reply q)))"
proof -
  have inv: "mailbox_inv m" using assms(1) by (rule mailbox_reach_inv)
  have here: "if mb_pending m = Some i then open_request q else answered q"
    using inv assms(2) unfolding mailbox_inv_def by fastforce
  have "answers_kept m m'" if "mailbox_step\<^sup>*\<^sup>* m m'" for m'
    using mail.reachable_steps_below [OF assms(1) that] .
  with assms(2) here show ?thesis
    unfolding answers_kept_def open_request_def answered_def
    by (fastforce split: if_splits)
qed

definition demo_cool_status :: status where
  "demo_cool_status = default_status\<lparr>st_connected := True, st_control_connection_available := True,
     st_controls := [(16, \<lparr>ct_kind = 16, ct_min = -40, ct_max = 30, ct_value = 0, ct_writable = True\<rparr>)]\<rparr>"

definition demo_mail :: mailbox where
  "demo_mail = snd (submit demo_cool_status 16 (-10) 15 100 (activate mailbox_default))"

lemma demo_submit:
  "submit demo_cool_status 16 (-10) 15 100 (activate mailbox_default) = (Inr 0, demo_mail)"
  "mb_pending demo_mail = Some 0" "mb_accepting demo_mail"
  "mb_store demo_mail 0 = Some \<lparr>rq_kind = 16, rq_value = -10, rq_deadline = 115, rq_phase = Queued,
     rq_uncertain = False, rq_reply = None\<rparr>"
  by (simp_all add: demo_mail_def submit_def cooling_validate_def demo_cool_status_def default_status_def
      instant_add_def activate_def retire_def mailbox_default_def Let_def)

lemma demo_mail_reach: "reachable (\<lambda>m. m = mailbox_default) mailbox_step demo_mail"
proof -
  have "reachable (\<lambda>m. m = mailbox_default) mailbox_step (activate mailbox_default)"
    by (rule reachable_step [of _ _ mailbox_default])
      (simp_all add: reachable_initial mailbox_step.intros(3))
  then show ?thesis using mailbox_step.intros(1) [OF demo_submit(1)] by (rule reachable_step)
qed

theorem requests_answered_once_witness:
  "\<exists>q. mb_store demo_mail 0 = Some q \<and> (rq_reply q = None \<longleftrightarrow> mb_pending demo_mail = Some 0)"
  by (rule exI, rule conjI, rule demo_submit(4),
      rule conjunct1 [OF requests_answered_once [OF demo_mail_reach demo_submit(4)]])

text \<open>
  C23: a cooler command is reported done, and the session state is changed, only if the worker
  acknowledged it, its request still owned the slot of an accepting mailbox, had been dispatched,
  had not been given up as uncertain by its receipt, and the deadline had not passed. In every
  other case the state is untouched; an acknowledgement that came too late is reported uncertain
  and closes the mailbox.
\<close>

theorem commit_only_acknowledged_in_time:
  assumes "finish i now r commit m s = (r', m', s')"
  shows "s' = (if is_ok r' then commit s else s)
    \<and> (is_ok r' \<longrightarrow> r' = r \<and> mb_pending m = Some i \<and> mb_accepting m
         \<and> (\<exists>q. mb_store m i = Some q \<and> rq_phase q = Running \<and> \<not> rq_uncertain q \<and> now \<le> rq_deadline q))
    \<and> (is_ok r \<longrightarrow> is_ok r' \<or> is_uncertain r')
    \<and> (is_uncertain r' \<and> mb_pending m = Some i \<and> (\<exists>q. mb_store m i = Some q \<and> rq_phase q \<in> {Claimed, Running})
         \<longrightarrow> \<not> mb_accepting m')"
  using assms
proof (cases rule: finish_cases)
  case foreign
  then show ?thesis by (cases r') auto
next
  case (own q)
  have v: "is_ok r' \<Longrightarrow> r' = r \<and> mb_accepting m \<and> rq_phase q = Running \<and> \<not> rq_uncertain q \<and> now \<le> rq_deadline q"
    unfolding own(4) by (auto simp: finish_verdict_def is_uncertain_def not_less split: if_splits sum.splits)
  have o: "is_ok r \<Longrightarrow> is_ok r' \<or> is_uncertain r'"
    unfolding own(4) by (auto simp: finish_verdict_def is_uncertain_def split: if_splits)
  have a: "is_uncertain r' \<Longrightarrow> \<not> mb_accepting m'" unfolding own(6) by simp
  from own(1,2,5) v o a show ?thesis by auto
qed

theorem commit_only_acknowledged_in_time_witness:
  "finish 0 200 (Inr (-10)) (\<lambda>n. n + 1) (snd (dispatch 0 104 (snd (claim 103 demo_mail)))) (5 :: nat)
     = (Inl (Uncertain ''Cooler acknowledgement exceeded its deadline'' None),
        fst (snd (finish 0 200 (Inr (-10)) (\<lambda>n. n + 1) (snd (dispatch 0 104 (snd (claim 103 demo_mail)))) (5 :: nat))), 5)
   \<and> snd (snd (finish 0 110 (Inr (-10)) (\<lambda>n. n + 1) (snd (dispatch 0 104 (snd (claim 103 demo_mail)))) (5 :: nat))) = 6"
proof -
  let ?m = "snd (dispatch 0 104 (snd (claim 103 demo_mail)))"
  have m: "mb_pending ?m = Some 0" "mb_accepting ?m" "mb_store ?m 0 = Some \<lparr>rq_kind = 16, rq_value = -10,
      rq_deadline = 115, rq_phase = Running, rq_uncertain = False, rq_reply = None\<rparr>"
    using demo_submit by (simp_all add: claim_def dispatch_def)
  obtain r' m' s' where late: "finish 0 200 (Inr (-10)) (\<lambda>n. n + 1) ?m (5 :: nat) = (r', m', s')"
    by (cases "finish 0 200 (Inr (-10)) (\<lambda>n. n + 1) ?m (5 :: nat)")
  have "r' = Inl (Uncertain ''Cooler acknowledgement exceeded its deadline'' None)"
    using late m by (auto simp: finish_def finish_verdict_def is_uncertain_def Let_def)
  moreover from this commit_only_acknowledged_in_time [OF late] have "s' = 5" by simp
  moreover have "snd (snd (finish 0 110 (Inr (-10)) (\<lambda>n. n + 1) ?m (5 :: nat))) = 6"
    using m by (simp add: finish_def finish_verdict_def is_uncertain_def Let_def)
  ultimately show ?thesis using late by simp
qed

text \<open>
  Once a request has been dispatched, neither cancelling, nor dropping or timing out its
  receipt, nor another submission takes the slot from it: it stays the pending, running request
  until the owner finishes it or retires.
\<close>

theorem dispatched_request_keeps_slot:
  assumes "mb_pending m = Some i" and "mb_store m i = Some q" and "rq_phase q = Running"
  shows "cancel_queued j m = m
    \<and> fst (submit st kind v timeout now m) \<notin> range Inr \<and> snd (submit st kind v timeout now m) = m
    \<and> claim now m = (None, m)
    \<and> (\<forall>b w m'. receipt_wait j b m = (w, m') \<longrightarrow> mb_pending m' = Some i
          \<and> (\<exists>q'. mb_store m' i = Some q' \<and> rq_phase q' = Running \<and> rq_reply q' = rq_reply q))"
proof -
  have e: "mb_pending m' = Some i \<and> (\<exists>q'. mb_store m' i = Some q' \<and> rq_phase q' = Running \<and> rq_reply q' = rq_reply q)
      \<and> cancel_queued j m' = m'"
    if "expire_request j m = (x, m')" for x m'
    using that assms by (auto simp: expire_request_def cancel_queued_def split: option.splits if_splits)
  have c: "cancel_queued j m = m" using assms by (auto simp: cancel_queued_def split: option.split)
  have "mb_pending m' = Some i \<and> (\<exists>q'. mb_store m' i = Some q' \<and> rq_phase q' = Running \<and> rq_reply q' = rq_reply q)"
    if "receipt_wait j b m = (w, m')" for b w m'
    using that assms e c
    by (auto simp: receipt_wait_def split: option.splits if_splits prod.splits)
  moreover have "fst (submit st kind v timeout now m) \<notin> range Inr \<and> snd (submit st kind v timeout now m) = m"
    using assms by (auto simp: submit_def Let_def split: sum.splits option.splits)
  moreover have "claim now m = (None, m)" using assms by (simp add: claim_def)
  ultimately show ?thesis using c by blast
qed

theorem dispatched_request_keeps_slot_witness:
  "cancel_queued 0 (snd (dispatch 0 104 (snd (claim 103 demo_mail)))) = snd (dispatch 0 104 (snd (claim 103 demo_mail)))"
proof -
  have "mb_pending (snd (dispatch 0 104 (snd (claim 103 demo_mail)))) = Some 0"
    "mb_store (snd (dispatch 0 104 (snd (claim 103 demo_mail)))) 0 = Some \<lparr>rq_kind = 16, rq_value = -10,
      rq_deadline = 115, rq_phase = Running, rq_uncertain = False, rq_reply = None\<rparr>"
    using demo_submit by (simp_all add: claim_def dispatch_def)
  from dispatched_request_keeps_slot [OF this] show ?thesis by simp
qed

end
