(* ===== verification/Recovery.thy ===== *)
theory Recovery imports Camera_Model Double begin

text \<open>
  The recovery settings of a native camera: \<open>crates/regain-core/src/recovery.rs\<close> (the options,
  their field table and validation), \<open>camera_options.rs\<close> (the settings that may change while
  connected) and \<open>timing.rs\<close> (how long a supervisor allows for each operation).

  Options are doubles read from JSON or defaults, hence finite: they are held as rationals. Of a
  field the label, description, units and step are display text and left out.
\<close>

section \<open>Options\<close>

datatype recovery_type =
    RInteger nat nat
  | RPowerOfTwo nat nat
  | RNumber rat bool rat
  | RBoolean
  | RChoice "string list"

record recovery_field =
  rf_key :: string
  rf_default :: json
  rf_type :: recovery_type

record recovery_options =
  ro_max_retries :: nat
  ro_pre_exposure_reconnect_attempts :: nat
  ro_maximum_retry_exposure_seconds :: rat
  ro_reconnect_delay_seconds :: rat
  ro_command_timeout_seconds :: rat
  ro_download_timeout_seconds :: rat
  ro_exposure_grace_seconds :: rat
  ro_cooling_timeout_seconds :: rat
  ro_temperature_tolerance_c :: rat
  ro_cooling_stable_samples :: nat
  ro_cooling_sample_seconds :: rat
  ro_ready_frame_download_retries :: nat
  ro_direct_read_retries :: nat
  ro_direct_read_chunk_kib :: nat
  ro_transfer_log_mode :: string
  ro_cooler_max_power_change_per_5_seconds :: rat
  ro_usb_reset_after_failures :: nat
  ro_usb_port_cycle :: bool

definition default_recovery :: recovery_options where
  "default_recovery = \<lparr>ro_max_retries = 3, ro_pre_exposure_reconnect_attempts = 3,
     ro_maximum_retry_exposure_seconds = 30, ro_reconnect_delay_seconds = 5,
     ro_command_timeout_seconds = 15, ro_download_timeout_seconds = 60,
     ro_exposure_grace_seconds = 30, ro_cooling_timeout_seconds = 300,
     ro_temperature_tolerance_c = 2, ro_cooling_stable_samples = 3, ro_cooling_sample_seconds = 2,
     ro_ready_frame_download_retries = 2, ro_direct_read_retries = 2,
     ro_direct_read_chunk_kib = 1024, ro_transfer_log_mode = ''circular'',
     ro_cooler_max_power_change_per_5_seconds = 25, ro_usb_reset_after_failures = 0,
     ro_usb_port_cycle = False\<rparr>"

definition power_of_two :: "nat \<Rightarrow> bool" where
  "power_of_two n \<longleftrightarrow> 0 < n \<and> n = 2 ^ ilog2_nat n"

fun accepts :: "recovery_type \<Rightarrow> json \<Rightarrow> bool" where
  "accepts RBoolean value \<longleftrightarrow> as_bool value \<noteq> None"
| "accepts (RChoice choices) value \<longleftrightarrow> some_and (as_str value) (\<lambda>v. v \<in> set choices)"
| "accepts (RPowerOfTwo lo hi) value \<longleftrightarrow> some_and (as_u64 value) (\<lambda>v. lo \<le> v \<and> v \<le> hi \<and> power_of_two v)"
| "accepts (RInteger lo hi) value \<longleftrightarrow> some_and (as_u64 value) (\<lambda>v. lo \<le> v \<and> v \<le> hi)"
| "accepts (RNumber minimum exclusive maximum) value \<longleftrightarrow>
     some_and (as_f64 value) (\<lambda>v. v \<le> maximum \<and> (if exclusive then minimum < v else minimum \<le> v))"

definition recovery_section :: "string \<Rightarrow> string" where
  "recovery_section key =
     (if key \<in> {''coolingTimeoutSeconds'', ''temperatureToleranceC'', ''coolingStableSamples'',
          ''coolingSampleSeconds'', ''coolerMaxPowerChangePer5Seconds''} then ''Cooling''
      else if key \<in> {''commandTimeoutSeconds'', ''downloadTimeoutSeconds'', ''exposureGraceSeconds'',
          ''directReadChunkKiB'', ''transferLogMode''} then ''Timeouts''
      else ''Recovery'')"

abbreviation positive_seconds :: recovery_type where
  "positive_seconds \<equiv> RNumber 0 True 3600"

definition recovery_fields :: "recovery_field list" where
  "recovery_fields =
    [\<lparr>rf_key = ''maxRetries'', rf_default = JInt 3, rf_type = RInteger 0 20\<rparr>,
     \<lparr>rf_key = ''preExposureReconnectAttempts'', rf_default = JInt 3, rf_type = RInteger 1 10\<rparr>,
     \<lparr>rf_key = ''maximumRetryExposureSeconds'', rf_default = JFloat 30, rf_type = RNumber 0 False 86400\<rparr>,
     \<lparr>rf_key = ''reconnectDelaySeconds'', rf_default = JFloat 5, rf_type = positive_seconds\<rparr>,
     \<lparr>rf_key = ''commandTimeoutSeconds'', rf_default = JFloat 15, rf_type = positive_seconds\<rparr>,
     \<lparr>rf_key = ''downloadTimeoutSeconds'', rf_default = JFloat 60, rf_type = positive_seconds\<rparr>,
     \<lparr>rf_key = ''exposureGraceSeconds'', rf_default = JFloat 30, rf_type = positive_seconds\<rparr>,
     \<lparr>rf_key = ''coolingTimeoutSeconds'', rf_default = JFloat 300, rf_type = positive_seconds\<rparr>,
     \<lparr>rf_key = ''temperatureToleranceC'', rf_default = JFloat 2, rf_type = positive_seconds\<rparr>,
     \<lparr>rf_key = ''coolingStableSamples'', rf_default = JInt 3, rf_type = RInteger 1 60\<rparr>,
     \<lparr>rf_key = ''coolingSampleSeconds'', rf_default = JFloat 2, rf_type = positive_seconds\<rparr>,
     \<lparr>rf_key = ''readyFrameDownloadRetries'', rf_default = JInt 2, rf_type = RInteger 0 5\<rparr>,
     \<lparr>rf_key = ''directReadRetries'', rf_default = JInt 2, rf_type = RInteger 0 5\<rparr>,
     \<lparr>rf_key = ''directReadChunkKiB'', rf_default = JInt 1024, rf_type = RPowerOfTwo 1 1024\<rparr>,
     \<lparr>rf_key = ''transferLogMode'', rf_default = JStr ''circular'',
       rf_type = RChoice [''circular'', ''verbose'', ''off'']\<rparr>,
     \<lparr>rf_key = ''coolerMaxPowerChangePer5Seconds'', rf_default = JFloat 25, rf_type = RNumber 1 False 100\<rparr>,
     \<lparr>rf_key = ''usbResetAfterFailures'', rf_default = JInt 0, rf_type = RInteger 0 20\<rparr>,
     \<lparr>rf_key = ''usbPortCycle'', rf_default = JBool False, rf_type = RBoolean\<rparr>]"

text \<open>\<open>serde_json::to_value(options)\<close>, with the renamed keys.\<close>

definition options_entries :: "recovery_options \<Rightarrow> (string \<times> json) list" where
  "options_entries ops =
    [(''maxRetries'', jnat (ro_max_retries ops)),
     (''preExposureReconnectAttempts'', jnat (ro_pre_exposure_reconnect_attempts ops)),
     (''maximumRetryExposureSeconds'', JFloat (ro_maximum_retry_exposure_seconds ops)),
     (''reconnectDelaySeconds'', JFloat (ro_reconnect_delay_seconds ops)),
     (''commandTimeoutSeconds'', JFloat (ro_command_timeout_seconds ops)),
     (''downloadTimeoutSeconds'', JFloat (ro_download_timeout_seconds ops)),
     (''exposureGraceSeconds'', JFloat (ro_exposure_grace_seconds ops)),
     (''coolingTimeoutSeconds'', JFloat (ro_cooling_timeout_seconds ops)),
     (''temperatureToleranceC'', JFloat (ro_temperature_tolerance_c ops)),
     (''coolingStableSamples'', jnat (ro_cooling_stable_samples ops)),
     (''coolingSampleSeconds'', JFloat (ro_cooling_sample_seconds ops)),
     (''readyFrameDownloadRetries'', jnat (ro_ready_frame_download_retries ops)),
     (''directReadRetries'', jnat (ro_direct_read_retries ops)),
     (''directReadChunkKiB'', jnat (ro_direct_read_chunk_kib ops)),
     (''transferLogMode'', JStr (ro_transfer_log_mode ops)),
     (''coolerMaxPowerChangePer5Seconds'', JFloat (ro_cooler_max_power_change_per_5_seconds ops)),
     (''usbResetAfterFailures'', jnat (ro_usb_reset_after_failures ops)),
     (''usbPortCycle'', JBool (ro_usb_port_cycle ops))]"

definition options_value :: "recovery_options \<Rightarrow> json" where
  "options_value ops = jobj (options_entries ops)"

definition check_field :: "json \<Rightarrow> recovery_field \<Rightarrow> error + unit" where
  "check_field values field =
     ensure (accepts (rf_type field) (jindex values (rf_key field)))
       (invalid (''Invalid camera recovery setting: '' @ rf_key field))"

fun check_all :: "('a \<Rightarrow> error + unit) \<Rightarrow> 'a list \<Rightarrow> error + unit" where
  "check_all f [] = Inr ()"
| "check_all f (x # xs) = and_then (f x) (\<lambda>_. check_all f xs)"

definition recovery_validate :: "recovery_options \<Rightarrow> error + unit" where
  "recovery_validate ops = (let values = options_value ops in check_all (check_field values) recovery_fields)"

section \<open>Settings that change while connected\<close>

record runtime_options =
  rt_transfer_log_mode :: string
  rt_cooler_max_power_change_per_5_seconds :: rat

definition from_recovery :: "recovery_options \<Rightarrow> runtime_options" where
  "from_recovery ops = \<lparr>rt_transfer_log_mode = ro_transfer_log_mode ops,
     rt_cooler_max_power_change_per_5_seconds = ro_cooler_max_power_change_per_5_seconds ops\<rparr>"

definition apply_runtime :: "runtime_options \<Rightarrow> recovery_options \<Rightarrow> recovery_options" where
  "apply_runtime r ops = ops\<lparr>ro_transfer_log_mode := rt_transfer_log_mode r,
     ro_cooler_max_power_change_per_5_seconds := rt_cooler_max_power_change_per_5_seconds r\<rparr>"

definition runtime_validate :: "runtime_options \<Rightarrow> error + unit" where
  "runtime_validate r = recovery_validate (apply_runtime r default_recovery)"

text \<open>\<open>CameraRuntimeHandle::update\<close>: the shared cell keeps its value unless the new one is valid.\<close>

definition update_runtime :: "runtime_options \<Rightarrow> runtime_options \<Rightarrow> (error + unit) \<times> runtime_options" where
  "update_runtime new cell =
     (case runtime_validate new of Inl e \<Rightarrow> (Inl e, cell) | Inr _ \<Rightarrow> (Inr (), new))"

definition runtime_value :: "runtime_options \<Rightarrow> json" where
  "runtime_value r = jobj [(''transferLogMode'', JStr (rt_transfer_log_mode r)),
     (''coolerMaxPowerChangePer5Seconds'', JFloat (rt_cooler_max_power_change_per_5_seconds r))]"

section \<open>Selection and replacement policy\<close>

record selection =
  sl_name :: string
  sl_serial :: "string option"
  sl_direct :: bool
  sl_sdk_fallback :: bool
  sl_recovery :: recovery_options

definition vendor :: "selection \<Rightarrow> string" where
  "vendor s = (if take 3 (sl_name s) = ''QHY'' then ''qhy'' else ''zwo'')"

definition exposure_seconds :: "nat \<Rightarrow> rat" where
  "exposure_seconds microseconds = fdiv (f64_round (of_nat microseconds)) 1000000"

definition replacement_exposures :: "recovery_options \<Rightarrow> nat \<Rightarrow> nat" where
  "replacement_exposures ops microseconds =
     (if exposure_seconds microseconds \<le> ro_maximum_retry_exposure_seconds ops then ro_max_retries ops else 0)"


section \<open>Constants of the camera session\<close>

definition persistent_controls :: "int list" where
  "persistent_controls = [0, 2, 3, 4, 5, 6, 7, 9, 13, 14, 16, 17, 18, 19, 20, 21, 22, 23]"

definition acknowledged_controls :: "int list" where
  "acknowledged_controls = [0, 5, 16, 17]"

abbreviation simulation_setup_seconds :: rat where "simulation_setup_seconds \<equiv> 5"
abbreviation usb_bind_seconds :: rat where "usb_bind_seconds \<equiv> 30"
abbreviation usb_reset_seconds_limit :: rat where "usb_reset_seconds_limit \<equiv> 80"
abbreviation usb_rebind_pause_seconds :: rat where "usb_rebind_pause_seconds \<equiv> 1 / 2"
abbreviation close_command_seconds :: rat where "close_command_seconds \<equiv> 2"
abbreviation max_read_retry_overhead_seconds :: rat where "max_read_retry_overhead_seconds \<equiv> 15"
abbreviation supervisor_margin_seconds :: rat where "supervisor_margin_seconds \<equiv> 5"
abbreviation peripheral_wait_seconds :: rat where "peripheral_wait_seconds \<equiv> 120"

section \<open>What validation accepts\<close>

lemma check_all_ok: "check_all f xs = Inr () \<longleftrightarrow> (\<forall>x \<in> set xs. f x = Inr ())"
  by (induction xs) (auto simp: result_eqs)

text \<open>The ranges that validation enforces.\<close>

definition positive_span :: "rat \<Rightarrow> bool" where
  "positive_span x \<longleftrightarrow> 0 < x \<and> x \<le> 3600"

definition recovery_ranges :: "recovery_options \<Rightarrow> bool" where
  "recovery_ranges ops \<longleftrightarrow>
     ro_max_retries ops \<le> 20
     \<and> 1 \<le> ro_pre_exposure_reconnect_attempts ops \<and> ro_pre_exposure_reconnect_attempts ops \<le> 10
     \<and> 0 \<le> ro_maximum_retry_exposure_seconds ops \<and> ro_maximum_retry_exposure_seconds ops \<le> 86400
     \<and> positive_span (ro_reconnect_delay_seconds ops) \<and> positive_span (ro_command_timeout_seconds ops)
     \<and> positive_span (ro_download_timeout_seconds ops) \<and> positive_span (ro_exposure_grace_seconds ops)
     \<and> positive_span (ro_cooling_timeout_seconds ops) \<and> positive_span (ro_temperature_tolerance_c ops)
     \<and> 1 \<le> ro_cooling_stable_samples ops \<and> ro_cooling_stable_samples ops \<le> 60
     \<and> positive_span (ro_cooling_sample_seconds ops)
     \<and> ro_ready_frame_download_retries ops \<le> 5 \<and> ro_direct_read_retries ops \<le> 5
     \<and> power_of_two (ro_direct_read_chunk_kib ops) \<and> ro_direct_read_chunk_kib ops \<le> 1024
     \<and> ro_transfer_log_mode ops \<in> {''circular'', ''verbose'', ''off''}
     \<and> 1 \<le> ro_cooler_max_power_change_per_5_seconds ops \<and> ro_cooler_max_power_change_per_5_seconds ops \<le> 100
     \<and> ro_usb_reset_after_failures ops \<le> 20"

text \<open>The integers of the options are unsigned 32-bit in the code.\<close>

definition recovery_wf :: "recovery_options \<Rightarrow> bool" where
  "recovery_wf ops \<longleftrightarrow> (\<forall>n \<in> {ro_max_retries ops, ro_pre_exposure_reconnect_attempts ops,
     ro_cooling_stable_samples ops, ro_ready_frame_download_retries ops, ro_direct_read_retries ops,
     ro_direct_read_chunk_kib ops, ro_usb_reset_after_failures ops}. n < 2 ^ 32)"

lemma as_u64_jnat: "as_u64 (jnat n) = (if n < 2 ^ 64 then Some n else None)"
  by (auto simp: jnat_def)

lemma accepts_integer: "n < 2 ^ 32 \<Longrightarrow> accepts (RInteger lo hi) (jnat n) \<longleftrightarrow> lo \<le> n \<and> n \<le> hi"
  by (simp add: as_u64_jnat)

lemma accepts_power: "n < 2 ^ 32 \<Longrightarrow>
    accepts (RPowerOfTwo lo hi) (jnat n) \<longleftrightarrow> lo \<le> n \<and> n \<le> hi \<and> power_of_two n"
  by (simp add: as_u64_jnat)

lemma options_index:
  "jindex (options_value ops) ''maxRetries'' = jnat (ro_max_retries ops)"
  "jindex (options_value ops) ''preExposureReconnectAttempts'' = jnat (ro_pre_exposure_reconnect_attempts ops)"
  "jindex (options_value ops) ''maximumRetryExposureSeconds'' = JFloat (ro_maximum_retry_exposure_seconds ops)"
  "jindex (options_value ops) ''reconnectDelaySeconds'' = JFloat (ro_reconnect_delay_seconds ops)"
  "jindex (options_value ops) ''commandTimeoutSeconds'' = JFloat (ro_command_timeout_seconds ops)"
  "jindex (options_value ops) ''downloadTimeoutSeconds'' = JFloat (ro_download_timeout_seconds ops)"
  "jindex (options_value ops) ''exposureGraceSeconds'' = JFloat (ro_exposure_grace_seconds ops)"
  "jindex (options_value ops) ''coolingTimeoutSeconds'' = JFloat (ro_cooling_timeout_seconds ops)"
  "jindex (options_value ops) ''temperatureToleranceC'' = JFloat (ro_temperature_tolerance_c ops)"
  "jindex (options_value ops) ''coolingStableSamples'' = jnat (ro_cooling_stable_samples ops)"
  "jindex (options_value ops) ''coolingSampleSeconds'' = JFloat (ro_cooling_sample_seconds ops)"
  "jindex (options_value ops) ''readyFrameDownloadRetries'' = jnat (ro_ready_frame_download_retries ops)"
  "jindex (options_value ops) ''directReadRetries'' = jnat (ro_direct_read_retries ops)"
  "jindex (options_value ops) ''directReadChunkKiB'' = jnat (ro_direct_read_chunk_kib ops)"
  "jindex (options_value ops) ''transferLogMode'' = JStr (ro_transfer_log_mode ops)"
  "jindex (options_value ops) ''coolerMaxPowerChangePer5Seconds'' = JFloat (ro_cooler_max_power_change_per_5_seconds ops)"
  "jindex (options_value ops) ''usbResetAfterFailures'' = jnat (ro_usb_reset_after_failures ops)"
  "jindex (options_value ops) ''usbPortCycle'' = JBool (ro_usb_port_cycle ops)"
  by (simp_all add: options_value_def options_entries_def jindex_jobj)

lemma recovery_validate_iff:
  assumes "recovery_wf ops"
  shows "recovery_validate ops = Inr () \<longleftrightarrow> recovery_ranges ops"
proof -
  have wf: "ro_max_retries ops < 2 ^ 32" "ro_pre_exposure_reconnect_attempts ops < 2 ^ 32"
    "ro_cooling_stable_samples ops < 2 ^ 32" "ro_ready_frame_download_retries ops < 2 ^ 32"
    "ro_direct_read_retries ops < 2 ^ 32" "ro_direct_read_chunk_kib ops < 2 ^ 32"
    "ro_usb_reset_after_failures ops < 2 ^ 32"
    using assms by (simp_all add: recovery_wf_def)
  have p: "0 < ro_direct_read_chunk_kib ops" if "power_of_two (ro_direct_read_chunk_kib ops)"
    using that by (simp add: power_of_two_def)
  have "recovery_validate ops = Inr () \<longleftrightarrow>
      (\<forall>fd \<in> set recovery_fields. accepts (rf_type fd) (jindex (options_value ops) (rf_key fd)))"
    by (simp add: recovery_validate_def Let_def check_all_ok check_field_def ensure_eq)
  also have "\<dots> \<longleftrightarrow> recovery_ranges ops"
    unfolding recovery_fields_def recovery_ranges_def positive_span_def
    using p by (simp add: options_index accepts_integer [OF wf(1)] accepts_integer [OF wf(2)]
        accepts_integer [OF wf(3)] accepts_integer [OF wf(4)] accepts_integer [OF wf(5)]
        accepts_power [OF wf(6)] accepts_integer [OF wf(7)]
        del: accepts.simps(3,4)) (auto simp: Suc_le_eq)
  finally show ?thesis .
qed

lemma default_recovery_wf: "recovery_wf default_recovery"
  by (simp add: recovery_wf_def default_recovery_def)

lemma default_recovery_ranges: "recovery_ranges default_recovery"
proof -
  have "power_of_two 1024" by (simp add: power_of_two_def ilog2_nat.simps)
  then show ?thesis by (simp add: recovery_ranges_def positive_span_def default_recovery_def)
qed

text \<open>What a live update may change keeps valid settings valid.\<close>

lemma runtime_update_keeps_ranges:
  assumes "recovery_ranges ops" "runtime_validate r = Inr ()"
  shows "recovery_ranges (apply_runtime r ops)"
proof -
  have "recovery_wf (apply_runtime r default_recovery)"
    by (simp add: recovery_wf_def apply_runtime_def default_recovery_def)
  with assms(2) have "recovery_ranges (apply_runtime r default_recovery)"
    by (simp add: runtime_validate_def recovery_ranges_def recovery_validate_iff [unfolded recovery_ranges_def])
  then show ?thesis using assms(1) by (simp add: recovery_ranges_def apply_runtime_def)
qed

text \<open>
  Validation of the camera recovery settings accepts exactly the documented ranges: at most 20
  replacement exposures, 1 to 10 preparation attempts, every delay and timeout positive and at most
  an hour, a read size that is a power of two up to 1024 KiB, and so on for each of the 18 settings.
  An update of the live settings either fails and leaves them unchanged or installs values with
  which valid settings stay valid.
\<close>

theorem recovery_validate_exact:
  assumes "recovery_wf ops"
  shows "(recovery_validate ops = Inr () \<longleftrightarrow> recovery_ranges ops)
    \<and> (case update_runtime new cell of
         (Inl _, cell') \<Rightarrow> cell' = cell
       | (Inr _, cell') \<Rightarrow> cell' = new \<and> (recovery_ranges ops \<longrightarrow> recovery_ranges (apply_runtime cell' ops)))"
  using recovery_validate_iff [OF assms] runtime_update_keeps_ranges [of ops new]
  by (auto simp: update_runtime_def split: sum.split)

theorem recovery_validate_exact_witness:
  "recovery_validate default_recovery = Inr ()
   \<and> recovery_validate (default_recovery\<lparr>ro_max_retries := 21\<rparr>) \<noteq> Inr ()"
proof -
  have "recovery_wf (default_recovery\<lparr>ro_max_retries := 21\<rparr>)"
    by (simp add: recovery_wf_def default_recovery_def)
  from recovery_validate_exact [OF this] recovery_validate_exact [OF default_recovery_wf]
  have "recovery_validate (default_recovery\<lparr>ro_max_retries := 21\<rparr>) = Inr ()
      \<longleftrightarrow> recovery_ranges (default_recovery\<lparr>ro_max_retries := 21\<rparr>)"
    "recovery_validate default_recovery = Inr () \<longleftrightarrow> recovery_ranges default_recovery" by blast+
  then show ?thesis using default_recovery_ranges by (simp add: recovery_ranges_def)
qed

end
