(* ===== verification/Timing.thy ===== *)
theory Timing imports Recovery begin

text \<open>
  Outer supervision allowances, \<open>crates/regain-core/src/timing.rs\<close>: how long a supervisor waits for
  each native camera operation. The sums are sums of doubles, rounded after every operation in the
  order of the source. The result is a duration in nanoseconds, or the error of a value that is not
  representable (the source unwraps three of the four results).
\<close>

record native_timing =
  nt_options :: recovery_options
  nt_direct :: bool
  nt_sdk_fallback :: bool
  nt_wait_for_usb_peripherals :: bool

definition timing_new :: "selection \<Rightarrow> error + native_timing" where
  "timing_new s = and_then (recovery_validate (sl_recovery s)) (\<lambda>_.
     Inr \<lparr>nt_options = sl_recovery s, nt_direct = sl_direct s,
       nt_sdk_fallback = (sl_direct s \<and> sl_sdk_fallback s), nt_wait_for_usb_peripherals = False\<rparr>)"

definition with_usb_peripheral_wait :: "bool \<Rightarrow> native_timing \<Rightarrow> native_timing" where
  "with_usb_peripheral_wait b t = t\<lparr>nt_wait_for_usb_peripherals := b\<rparr>"

text \<open>A chain \<open>x + y + z\<close> of doubles, added from the left.\<close>

definition fsum :: "rat list \<Rightarrow> rat" where
  "fsum xs = foldl fadd (hd xs) (tl xs)"

definition command_seconds :: "native_timing \<Rightarrow> rat" where
  "command_seconds t = ro_command_timeout_seconds (nt_options t)"

definition open_seconds :: "native_timing \<Rightarrow> rat" where
  "open_seconds t = fsum [simulation_setup_seconds, fmul 3 (command_seconds t)]"

definition restore_seconds :: "native_timing \<Rightarrow> rat" where
  "restore_seconds t =
     fmul (of_nat (2 * length persistent_controls - length acknowledged_controls)) (command_seconds t)"

definition close_seconds :: "native_timing \<Rightarrow> rat" where
  "close_seconds t = fsum [close_command_seconds,
     if nt_direct t
     then fsum [ro_reconnect_delay_seconds (nt_options t), open_seconds t, command_seconds t, close_command_seconds]
     else 0]"

definition usb_reset_seconds :: "native_timing \<Rightarrow> rat" where
  "usb_reset_seconds t = fsum [usb_reset_seconds_limit, fmul 2 usb_bind_seconds, usb_rebind_pause_seconds,
     if nt_wait_for_usb_peripherals t then peripheral_wait_seconds else 0]"

definition cleanup_seconds :: "native_timing \<Rightarrow> rat" where
  "cleanup_seconds t = fsum [fmul 4 (close_seconds t), command_seconds t,
     if 0 < ro_usb_reset_after_failures (nt_options t) then usb_reset_seconds_limit else 0,
     supervisor_margin_seconds]"

definition timing_duration :: "rat \<Rightarrow> error + nat" where
  "timing_duration seconds =
     ok_or (try_from_secs_f64 (Fin seconds)) (invalid ''Native timing is not representable'')"

definition cleanup_allowance :: "native_timing \<Rightarrow> error + nat" where
  "cleanup_allowance t = timing_duration (cleanup_seconds t)"

definition connection_allowance :: "native_timing \<Rightarrow> error + nat" where
  "connection_allowance t =
     (let usb = 0 < ro_usb_reset_after_failures (nt_options t);
          opens = 1 + of_bool (nt_sdk_fallback t) + of_bool usb :: nat
      in timing_duration (fsum
        [cleanup_seconds t,
         fmul 3 (close_seconds t),
         fmul (of_nat opens) (open_seconds t),
         if nt_sdk_fallback t then ro_reconnect_delay_seconds (nt_options t) else 0,
         if usb then usb_bind_seconds else 0,
         restore_seconds t,
         fmul 2 (command_seconds t),
         supervisor_margin_seconds]))"

definition control_allowance :: "native_timing \<Rightarrow> error + nat" where
  "control_allowance t = timing_duration (fsum
     [ro_reconnect_delay_seconds (nt_options t), open_seconds t, restore_seconds t,
      fmul 5 (command_seconds t), supervisor_margin_seconds])"

definition capture_settle :: "native_timing \<Rightarrow> rat" where
  "capture_settle t = fsum [ro_cooling_timeout_seconds (nt_options t), fmul 3 (command_seconds t),
     ro_cooling_sample_seconds (nt_options t)]"

definition capture_ready :: "native_timing \<Rightarrow> nat \<Rightarrow> rat" where
  "capture_ready t microseconds =
     (let ops = nt_options t in
      fsum [exposure_seconds microseconds, ro_exposure_grace_seconds ops,
        if nt_direct t
        then fsum [fmul (of_nat (1 + ro_direct_read_retries ops)) (ro_download_timeout_seconds ops),
                   fmul (of_nat (ro_direct_read_retries ops)) max_read_retry_overhead_seconds]
        else 0])"

definition capture_download :: "native_timing \<Rightarrow> rat" where
  "capture_download t =
     (let ops = nt_options t; reads = 1 + ro_ready_frame_download_retries ops in
      fsum [fmul (of_nat reads) (fadd (ro_download_timeout_seconds ops) (command_seconds t)),
            fmul (of_nat (ro_ready_frame_download_retries ops)) (ro_reconnect_delay_seconds ops)])"

definition capture_fallback :: "native_timing \<Rightarrow> rat" where
  "capture_fallback t =
     (if nt_sdk_fallback t
      then fsum [command_seconds t, ro_reconnect_delay_seconds (nt_options t), open_seconds t,
                 restore_seconds t, capture_settle t]
      else 0)"

definition capture_attempt :: "native_timing \<Rightarrow> nat \<Rightarrow> rat" where
  "capture_attempt t microseconds =
     fsum [ro_reconnect_delay_seconds (nt_options t), open_seconds t, restore_seconds t, capture_settle t,
       capture_fallback t, capture_ready t microseconds, capture_download t, fmul 10 (command_seconds t),
       f64_round (25 / 1000)]"

definition capture_preparation :: "native_timing \<Rightarrow> rat" where
  "capture_preparation t =
     fmul (of_nat (ro_pre_exposure_reconnect_attempts (nt_options t) - 1))
       (fsum [ro_reconnect_delay_seconds (nt_options t), open_seconds t, restore_seconds t,
          capture_settle t, capture_fallback t, fmul 4 (command_seconds t)])"

definition capture_allowance :: "native_timing \<Rightarrow> nat \<Rightarrow> error + nat" where
  "capture_allowance t microseconds =
     and_then (ensure (0 < microseconds) (invalid ''Invalid native exposure duration'')) (\<lambda>_.
     let replacements = replacement_exposures (nt_options t) microseconds in
     timing_duration (fsum
       [fmul (of_nat (1 + replacements)) (capture_attempt t microseconds),
        capture_preparation t,
        if 0 < ro_usb_reset_after_failures (nt_options t) then usb_reset_seconds t else 0,
        supervisor_margin_seconds]))"

section \<open>Bounds through rounded sums\<close>

text \<open>\<open>spans lo hi x\<close>: a double between two integers of at most 53 bits.\<close>

definition spans :: "nat \<Rightarrow> nat \<Rightarrow> rat \<Rightarrow> bool" where
  "spans lo hi x \<longleftrightarrow> of_nat lo \<le> x \<and> x \<le> of_nat hi \<and> hi < 9007199254740992"

lemma spans_round:
  assumes "of_nat lo \<le> x" "x \<le> of_nat hi" "hi < 9007199254740992"
  shows "spans lo hi (f64_round x)"
proof -
  have "(of_nat lo :: rat) \<le> of_nat hi" using assms(1,2) by (rule order_trans)
  then have "lo < 9007199254740992" using assms(3) by simp
  from f64_round_of_nat [of lo] this f64_round_of_nat [of hi] assms
    f64_round_mono [OF assms(1)] f64_round_mono [OF assms(2)]
  show ?thesis by (simp add: spans_def)
qed

lemma spans_add: "spans a b x \<Longrightarrow> spans c d y \<Longrightarrow> b + d < 9007199254740992 \<Longrightarrow> spans (a + c) (b + d) (fadd x y)"
  unfolding fadd_def by (rule spans_round) (auto simp: spans_def intro: add_mono)

lemma spans_mul:
  "spans a b x \<Longrightarrow> n * b < 9007199254740992 \<Longrightarrow> spans (n * a) (n * b) (fmul (of_nat n) x)"
  unfolding fmul_def by (rule spans_round) (auto simp: spans_def intro: mult_left_mono)

lemma spans_weaken: "spans a b x \<Longrightarrow> a' \<le> a \<Longrightarrow> b \<le> b' \<Longrightarrow> b' < 9007199254740992 \<Longrightarrow> spans a' b' x"
  unfolding spans_def by (meson of_nat_le_iff order_trans)

lemma spans_if: "(c \<Longrightarrow> spans a b x) \<Longrightarrow> spans 0 b 0 \<Longrightarrow> spans 0 b (if c then x else 0)"
  by (auto simp: spans_def)

lemma spans_duration:
  assumes "spans lo hi x"
  shows "\<exists>n. timing_duration x = Inr n \<and> lo * nanos_per_sec \<le> n"
proof -
  have x: "of_nat lo \<le> x" "x \<le> of_nat hi" "hi < 9007199254740992" "0 \<le> x"
    using assms of_nat_0_le_iff [of lo] by (auto simp: spans_def intro: order_trans)
  have "(of_nat hi :: rat) \<le> of_nat (9007199254740992)" using x(3) by (simp only: of_nat_le_iff less_imp_le)
  then have "x * 1000000000 \<le> of_int (9007199254740992 * 1000000000)" using x(2) by simp
  then have "round_ties_even (x * 1000000000) \<le> round_ties_even (of_int (9007199254740992 * 1000000000))"
    by (rule round_ties_even_mono)
  then have hi: "round_ties_even (x * 1000000000) \<le> 9007199254740992 * 1000000000"
    by (simp only: round_ties_even_of_int)
  have "round_ties_even (of_int (int lo * 1000000000)) \<le> round_ties_even (x * 1000000000)"
    using x(1) by (intro round_ties_even_mono) simp
  then have lo: "int lo * 1000000000 \<le> round_ties_even (x * 1000000000)"
    by (simp only: round_ties_even_of_int)
  have "try_from_secs_f64 (Fin x) = Some (nat (round_ties_even (x * 1000000000)))"
    using x(4) hi by (simp add: Let_def not_le)
  then show ?thesis using lo by (simp add: timing_duration_def)
qed


lemma spans_num:
  "spans 0 1 0" "spans 2 2 2" "spans 5 5 5" "spans 30 30 30" "spans 80 80 80" "spans 15 15 15"
  "spans 120 120 120" "spans 0 1 (1 / 2)" "spans 0 1 (f64_round (25 / 1000))"
  using spans_round [of 0 "25 / 1000" 1] by (simp_all add: spans_def)

lemma spans_positive: "positive_span x \<Longrightarrow> spans 0 3600 x"
  by (auto simp: spans_def positive_span_def)

lemma spans_cond:
  assumes "spans a b x" "spans a' b' y"
  shows "spans (min a a') (max b b') (if c then x else y)"
proof -
  have "max b b' < 9007199254740992" using assms by (simp add: spans_def)
  with assms show ?thesis
    by (auto intro: spans_weaken)
qed

lemma spans_fsum1: "spans a b x \<Longrightarrow> spans a b (fsum [x])"
  by (simp add: fsum_def)

lemma spans_fsum: "spans a b (fsum (fadd x y # r)) \<Longrightarrow> spans a b (fsum (x # y # r))"
  by (simp add: fsum_def)

lemma spans_mul_numeral:
  "spans a b x \<Longrightarrow> numeral n * b < 9007199254740992 \<Longrightarrow> spans (numeral n * a) (numeral n * b) (fmul (numeral n) x)"
  using spans_mul [of a b x "numeral n"] by simp

lemma spans_mul_le:
  assumes "spans a b x" "n \<le> k" "k * b < 9007199254740992"
  shows "spans (n * a) (k * b) (fmul (of_nat n) x)"
proof -
  have "n * b \<le> k * b" using assms(2) by simp
  with assms(3) have "n * b < 9007199254740992" by linarith
  from spans_mul [OF assms(1) this] show ?thesis
    by (rule spans_weaken) (use assms \<open>n * b \<le> k * b\<close> in simp_all)
qed

lemmas spans_rules = spans_fsum spans_fsum1 spans_add spans_mul_numeral spans_cond spans_num

lemma exposure_seconds_spans:
  assumes "n < 2 ^ 64"
  shows "spans (n div 1000000 - 1) (n div 1000000 + 2) (exposure_seconds n)"
proof -
  define q where "q = n div 1000000"
  have q: "q < 35184372088832" using assms by (simp add: q_def less_mult_imp_div_less)
  have "1000000 * q \<le> n" "n \<le> 1000000 * q + 1000000" by (simp_all add: q_def)
  then have n: "1000000 * (of_nat q :: rat) \<le> of_nat n" "(of_nat n :: rat) \<le> 1000000 * of_nat q + 1000000"
    by (metis of_nat_le_iff of_nat_mult of_nat_numeral of_nat_add)+
  have l: "(of_nat (q - 1) :: rat) \<le> f64_round (of_nat n) / 1000000"
    using n(1) f64_round_near [OF assms] f64_round_nonneg [of "of_nat n"]
    by (cases q) (simp_all add: field_simps)
  show ?thesis unfolding exposure_seconds_def fdiv_def q_def [symmetric]
    by (rule spans_round) (use l n(2) f64_round_near [OF assms] q in \<open>simp_all add: field_simps\<close>)
qed

section \<open>Every allowance is representable and long enough\<close>

lemma timing_parts:
  assumes "recovery_ranges (nt_options t)"
  shows "spans 0 3600 (command_seconds t)" "spans 5 10805 (open_seconds t)"
    "spans 0 115200 (restore_seconds t)" "spans 2 18009 (close_seconds t)"
    "spans 140 261 (usb_reset_seconds t)" "spans 5 76000 (cleanup_seconds t)"
    "spans 0 18000 (capture_settle t)" "spans 0 152000 (capture_fallback t)"
    "spans 0 62000 (capture_download t)"
    "spans 0 3000000 (capture_preparation t)"
proof -
  have p: "spans 0 3600 (ro_reconnect_delay_seconds (nt_options t))"
    "spans 0 3600 (ro_command_timeout_seconds (nt_options t))"
    "spans 0 3600 (ro_download_timeout_seconds (nt_options t))"
    "spans 0 3600 (ro_cooling_timeout_seconds (nt_options t))"
    "spans 0 3600 (ro_cooling_sample_seconds (nt_options t))"
    using assms by (simp_all add: recovery_ranges_def spans_positive)
  show c: "spans 0 3600 (command_seconds t)" using p(2) by (simp add: command_seconds_def)
  show ops: "spans 5 10805 (open_seconds t)" unfolding open_seconds_def
    by (rule spans_weaken, (rule spans_rules c | simp)+)
  show r: "spans 0 115200 (restore_seconds t)"
    unfolding restore_seconds_def persistent_controls_def acknowledged_controls_def
    by (rule spans_weaken, rule spans_mul, rule c) simp_all
  show cl: "spans 2 18009 (close_seconds t)" unfolding close_seconds_def
    by (rule spans_weaken, (rule spans_rules c p(1) ops | simp)+)
  show "spans 140 261 (usb_reset_seconds t)" unfolding usb_reset_seconds_def
    by (rule spans_weaken, (rule spans_rules | simp)+)
  show "spans 5 76000 (cleanup_seconds t)" unfolding cleanup_seconds_def
    by (rule spans_weaken, (rule spans_rules c cl | simp)+)
  show s: "spans 0 18000 (capture_settle t)" unfolding capture_settle_def
    by (rule spans_weaken, (rule spans_rules c p | simp)+)
  show f: "spans 0 152000 (capture_fallback t)" unfolding capture_fallback_def
    by (rule spans_weaken, (rule spans_rules c p(1) ops r s | simp)+)
  have rd: "ro_ready_frame_download_retries (nt_options t) \<le> 5"
    and pr: "ro_pre_exposure_reconnect_attempts (nt_options t) - 1 \<le> 9"
    using assms unfolding recovery_ranges_def by linarith+
  have "spans 0 43200 (fmul (of_nat (1 + ro_ready_frame_download_retries (nt_options t)))
      (fadd (ro_download_timeout_seconds (nt_options t)) (command_seconds t)))"
    by (rule spans_weaken [OF spans_mul_le [OF spans_add [OF p(3) c], of _ 6]]) (use rd in simp_all)
  moreover have "spans 0 18000 (fmul (of_nat (ro_ready_frame_download_retries (nt_options t)))
      (ro_reconnect_delay_seconds (nt_options t)))"
    using spans_mul_le [OF p(1) rd] by simp
  ultimately show "spans 0 62000 (capture_download t)" unfolding capture_download_def Let_def
    by - (rule spans_weaken, (rule spans_rules | assumption | simp)+)
  have "spans 0 330000 (fsum [ro_reconnect_delay_seconds (nt_options t), open_seconds t, restore_seconds t,
          capture_settle t, capture_fallback t, fmul 4 (command_seconds t)])"
    by (rule spans_weaken, (rule spans_rules c p(1) ops r s f | simp)+)
  from spans_mul_le [OF this pr] show "spans 0 3000000 (capture_preparation t)"
    unfolding capture_preparation_def by (simp add: spans_weaken)
qed


lemma capture_attempt_spans:
  assumes "recovery_ranges (nt_options t)" "n < 2 ^ 64"
  shows "spans (n div 1000000 - 1) (n div 1000000 + 500000) (capture_attempt t n)"
proof -
  define q where "q = n div 1000000"
  note e = exposure_seconds_spans [OF assms(2), folded q_def]
  note p = timing_parts [OF assms(1)]
  have o: "spans 0 3600 (ro_reconnect_delay_seconds (nt_options t))"
    "spans 0 3600 (ro_download_timeout_seconds (nt_options t))"
    "spans 0 3600 (ro_exposure_grace_seconds (nt_options t))"
    using assms(1) by (simp_all add: recovery_ranges_def spans_positive)
  have dr: "ro_direct_read_retries (nt_options t) \<le> 5"
    using assms(1) unfolding recovery_ranges_def by linarith
  have q: "q < 35184372088832" using assms(2) by (simp add: q_def less_mult_imp_div_less)
  have a: "spans 0 21600 (fmul (of_nat (1 + ro_direct_read_retries (nt_options t)))
      (ro_download_timeout_seconds (nt_options t)))"
    by (rule spans_weaken [OF spans_mul_le [OF o(2), of _ 6]]) (use dr in simp_all)
  have b: "spans 0 75 (fmul (of_nat (ro_direct_read_retries (nt_options t))) max_read_retry_overhead_seconds)"
    by (rule spans_weaken [OF spans_mul_le [OF spans_num(6) dr]]) simp_all
  have "spans 0 22000 (if nt_direct t
      then fsum [fmul (of_nat (1 + ro_direct_read_retries (nt_options t))) (ro_download_timeout_seconds (nt_options t)),
        fmul (of_nat (ro_direct_read_retries (nt_options t))) max_read_retry_overhead_seconds] else 0)"
    by (rule spans_weaken, (rule spans_rules a b | simp)+)
  then have r: "spans (q - 1) (q + 30000) (capture_ready t n)"
    unfolding capture_ready_def Let_def
    by - (rule spans_weaken, (assumption | rule spans_rules e o
        | (use q in \<open>simp; fail\<close>))+)
  show ?thesis unfolding capture_attempt_def q_def [symmetric]
    by (rule spans_weaken, (rule spans_rules p o r | (use q in \<open>simp; fail\<close>))+)
qed


definition demo_selection :: selection where
  "demo_selection = \<lparr>sl_name = ''ZWO ASI2600MM Duo'', sl_serial = Some ''01'', sl_direct = True,
     sl_sdk_fallback = True, sl_recovery = default_recovery\<rparr>"


end
