(* ===== verification/Worker.thy ===== *)
theory Worker imports Camera_Model begin

text \<open>
  The client side of the camera worker protocol, \<open>crates/regain-core/src/worker.rs\<close>: how a command
  is framed, how its reply is read, and how a failure of the exchange is classified.

  Bytes are naturals below 256. The JSON encoder and parser (\<open>serde_json\<close>) and the memory
  allocator are parameters. What the pipe, the deadline timer and the cancellation token do during
  one call is an input of type \<open>call_env\<close>.
\<close>

section \<open>Frames\<close>

definition le32 :: "nat \<Rightarrow> nat list" where
  "le32 n = [n mod 256, n div 256 mod 256, n div 65536 mod 256, n div 16777216 mod 256]"

fun of_le32 :: "nat list \<Rightarrow> nat" where
  "of_le32 [a, b, c, d] = a + 256 * b + 65536 * c + 16777216 * d"
| "of_le32 _ = 0"

text \<open>\<open>read_exact\<close> on a stream that delivers these bytes and then ends.\<close>

definition take_exact :: "nat \<Rightarrow> nat list \<Rightarrow> error + (nat list \<times> nat list)" where
  "take_exact n input =
     (if length input < n then Inl (EOther ''early eof'') else Inr (take n input, drop n input))"

definition image_method :: "string \<Rightarrow> bool" where
  "image_method m \<longleftrightarrow> m \<in> {''download'', ''stream-download'', ''stream-poll''}"

definition max_image :: nat where
  "max_image = 512 * 1024 * 1024"

definition sdk_code :: "json \<Rightarrow> int option" where
  "sdk_code reply = Option.bind (as_i64 (jindex reply ''sdkCode''))
     (\<lambda>v. if - (2 ^ 31) \<le> v \<and> v < 2 ^ 31 then Some v else None)"

definition reply_error :: "json \<Rightarrow> failure" where
  "reply_error reply =
     (let message = (case as_str (jindex reply ''error'') of Some s \<Rightarrow> s | None \<Rightarrow> ''Worker error'')
      in if as_bool (jindex reply ''controlUncertain'') = Some True
         then UncertainControl message (sdk_code reply)
         else Worker message (sdk_code reply))"

definition check_reply :: "string \<Rightarrow> nat \<Rightarrow> nat \<Rightarrow> json \<Rightarrow> error + nat" where
  "check_reply method rid maximum reply =
     and_then (ensure (as_u64 (jindex reply ''id'') = Some rid \<and> as_i64 (jindex reply ''version'') = Some 1)
        (invalid ''Stale worker response'')) (\<lambda>_.
     and_then (ok_or (as_u64 (jindex reply ''binaryLength'')) (invalid ''Missing frame length'')) (\<lambda>count.
     and_then (ensure (count \<le> maximum \<and> count \<le> max_image \<and> (image_method method \<or> count = 0))
        (invalid ''Invalid worker image length'')) (\<lambda>_.
     if as_bool (jindex reply ''ok'') = Some False
     then and_then (ensure (count = 0) (invalid ''Error response contains pixels''))
            (\<lambda>_. Inl (EFailure (reply_error reply)))
     else and_then (ensure (as_bool (jindex reply ''ok'') = Some True) (invalid ''Missing worker status''))
            (\<lambda>_. Inr count))))"

definition read_reply ::
  "(nat list \<Rightarrow> json option) \<Rightarrow> (nat \<Rightarrow> bool) \<Rightarrow> string \<Rightarrow> nat \<Rightarrow> nat \<Rightarrow> nat list
     \<Rightarrow> error + (json \<times> nat list)" where
  "read_reply from_slice can_allocate method rid maximum input =
     and_then (take_exact 4 input) (\<lambda>(prefix, input).
     let len = of_le32 prefix in
     and_then (ensure (1 \<le> len \<and> len \<le> 65536) (invalid ''Invalid worker response length'')) (\<lambda>_.
     and_then (take_exact len input) (\<lambda>(header, input).
     and_then (ok_or (from_slice header) (invalid ''Malformed worker JSON'')) (\<lambda>reply.
     and_then (check_reply method rid maximum reply) (\<lambda>count.
     and_then (ensure (can_allocate count) (EOther ''Worker image allocation failed'')) (\<lambda>_.
     and_then (take_exact count input) (\<lambda>(pixels, _).
     Inr (jindex reply ''result'', pixels))))))))"

section \<open>Diagnostics of the worker\<close>

text \<open>A versioned record on the worker's standard error, \<open>from_str\<close> being the JSON parser.\<close>

definition strip_prefix :: "string \<Rightarrow> string \<Rightarrow> string option" where
  "strip_prefix p s = (if take (length p) s = p then Some (drop (length p) s) else None)"

definition diagnostic_record :: "(string \<Rightarrow> json option) \<Rightarrow> string \<Rightarrow> json option" where
  "diagnostic_record from_str line =
     (case Option.bind (strip_prefix ''REGAIN_DIAGNOSTIC '' line) from_str of
        None \<Rightarrow> None
      | Some record \<Rightarrow>
          if is_object record \<and> as_u64 (jindex record ''version'') = Some 1
             \<and> as_str (jindex record ''event'') \<noteq> None \<and> as_str (jindex record ''message'') \<noteq> None
          then Some record else None)"

definition diagnostic_message :: "(string \<Rightarrow> json option) \<Rightarrow> string \<Rightarrow> string" where
  "diagnostic_message from_str line =
     (case Option.bind (diagnostic_record from_str line) (\<lambda>record. as_str (jindex record ''message'')) of
        Some message \<Rightarrow> message
      | None \<Rightarrow> line)"

section \<open>A call\<close>

record worker =
  wk_id :: nat
  wk_alive :: bool
  wk_sent :: "nat list"

text \<open>What happens to a call once its frame is on its way.\<close>

datatype wire =
    WriteFails string
  | Delivers "nat list"
  | TimesOut
  | IsCancelled

record call_env =
  ce_cancelled :: bool
  ce_now :: nat
  ce_wire :: wire

definition command_json :: "nat \<Rightarrow> string \<Rightarrow> json \<Rightarrow> json" where
  "command_json rid method params =
     JObj [(''id'', jnat rid), (''method'', JStr method), (''params'', params), (''version'', JInt 1)]"

text \<open>The part of \<open>exchange\<close> before the first byte is written: the new command id and the frame.\<close>

definition admit_command ::
  "(json \<Rightarrow> nat list) \<Rightarrow> string \<Rightarrow> json \<Rightarrow> nat \<Rightarrow> nat \<Rightarrow> worker \<Rightarrow> error + (nat \<times> nat list)" where
  "admit_command to_vec method params now deadline w =
     and_then (ok_or (checked_add 64 (wk_id w) 1) (invalid ''Worker command counter exhausted'')) (\<lambda>rid.
     let bytes = to_vec (command_json rid method params) in
     and_then (ensure (length bytes \<le> 65536) (invalid ''Command too large'')) (\<lambda>_.
     and_then (ensure (now < deadline) (ECooling Expired)) (\<lambda>_.
     Inr (rid, bytes))))"

definition timeout_error :: "bool \<Rightarrow> bool \<Rightarrow> string \<Rightarrow> error" where
  "timeout_error control dispatched method =
     (if control \<and> \<not> dispatched then ECooling Expired
      else EOther (''Worker '' @ method @ '' acknowledgement timed out''))"

text \<open>
  \<open>exchange\<close> raced against the token (checked first) and the deadline. The middle component is
  \<open>dispatched\<close>.
\<close>

definition race_exchange ::
  "(nat list \<Rightarrow> json option) \<Rightarrow> (json \<Rightarrow> nat list) \<Rightarrow> (nat \<Rightarrow> bool) \<Rightarrow> string \<Rightarrow> json \<Rightarrow> nat \<Rightarrow> nat
     \<Rightarrow> bool \<Rightarrow> call_env \<Rightarrow> worker \<Rightarrow> (error + (json \<times> nat list)) \<times> bool \<times> worker" where
  "race_exchange from_slice to_vec can_allocate method params deadline maximum control env w =
     (if ce_cancelled env then (Inl (EFailure Cancelled), False, w)
      else case admit_command to_vec method params (ce_now env) deadline w of
        Inl e \<Rightarrow> (Inl e, False, w)
      | Inr (rid, bytes) \<Rightarrow>
          let w = w\<lparr>wk_id := rid, wk_sent := wk_sent w @ le32 (length bytes) @ bytes\<rparr> in
          (case ce_wire env of
             WriteFails message \<Rightarrow> Inl (EOther message)
           | Delivers input \<Rightarrow> read_reply from_slice can_allocate method rid maximum input
           | TimesOut \<Rightarrow> Inl (timeout_error control True method)
           | IsCancelled \<Rightarrow> Inl (EFailure Cancelled),
           True, w))"

definition control_method :: "string \<Rightarrow> json \<Rightarrow> bool" where
  "control_method method params \<longleftrightarrow>
     method \<in> {''set'', ''set-control-state'', ''resume-cooling''}
     \<or> method = ''white-balance'' \<and> \<not> is_null params"

fun is_uncertain_control :: "error \<Rightarrow> bool" where
  "is_uncertain_control (EFailure (UncertainControl _ _)) = True"
| "is_uncertain_control _ = False"

fun is_worker_failure :: "error \<Rightarrow> bool" where
  "is_worker_failure (EFailure (Worker _ _)) = True"
| "is_worker_failure _ = False"

definition classify :: "bool \<Rightarrow> bool \<Rightarrow> error \<Rightarrow> error" where
  "classify control dispatched e =
     (if control \<and> dispatched \<and> \<not> is_uncertain_control e
      then EFailure (UncertainControl (error_display e) None) else e)"

definition retires_worker :: "bool \<Rightarrow> error \<Rightarrow> bool" where
  "retires_worker dispatched e \<longleftrightarrow>
     \<not> (\<not> dispatched \<and> e = ECooling Expired) \<and> \<not> is_worker_failure e"

definition call_until ::
  "(nat list \<Rightarrow> json option) \<Rightarrow> (json \<Rightarrow> nat list) \<Rightarrow> (nat \<Rightarrow> bool) \<Rightarrow> string \<Rightarrow> json \<Rightarrow> nat \<Rightarrow> nat
     \<Rightarrow> call_env \<Rightarrow> worker \<Rightarrow> (error + (json \<times> nat list)) \<times> worker" where
  "call_until from_slice to_vec can_allocate method params deadline maximum env w =
     (let control = control_method method params in
      case race_exchange from_slice to_vec can_allocate method params deadline maximum control env w of
        (Inr r, _, w) \<Rightarrow> (Inr r, w)
      | (Inl e, dispatched, w) \<Rightarrow>
          let e = classify control dispatched e in
          (Inl e, if retires_worker dispatched e then w\<lparr>wk_alive := False\<rparr> else w))"

text \<open>The bounds the callers of \<open>call_until\<close> pass: JSON-only, image and control calls.\<close>

definition call_json ::
  "(nat list \<Rightarrow> json option) \<Rightarrow> (json \<Rightarrow> nat list) \<Rightarrow> (nat \<Rightarrow> bool) \<Rightarrow> string \<Rightarrow> json \<Rightarrow> nat
     \<Rightarrow> call_env \<Rightarrow> worker \<Rightarrow> (error + json) \<times> worker" where
  "call_json from_slice to_vec can_allocate method params deadline env w =
     (case call_until from_slice to_vec can_allocate method params deadline 0 env w of
        (r, w) \<Rightarrow> (map_sum id fst r, w))"

definition control_call ::
  "(nat list \<Rightarrow> json option) \<Rightarrow> (json \<Rightarrow> nat list) \<Rightarrow> (nat \<Rightarrow> bool) \<Rightarrow> string \<Rightarrow> json \<Rightarrow> nat
     \<Rightarrow> call_env \<Rightarrow> worker \<Rightarrow> (error + (json \<times> nat list)) \<times> worker" where
  "control_call from_slice to_vec can_allocate method params deadline env w =
     call_until from_slice to_vec can_allocate method params deadline 0 env w"

definition call_image ::
  "(nat list \<Rightarrow> json option) \<Rightarrow> (json \<Rightarrow> nat list) \<Rightarrow> (nat \<Rightarrow> bool) \<Rightarrow> string \<Rightarrow> json \<Rightarrow> nat \<Rightarrow> nat
     \<Rightarrow> call_env \<Rightarrow> worker \<Rightarrow> (error + (json \<times> nat list)) \<times> worker" where
  "call_image from_slice to_vec can_allocate method params deadline maximum env w =
     (if image_method method \<and> 1 \<le> maximum \<and> maximum \<le> max_image
      then call_until from_slice to_vec can_allocate method params deadline maximum env w
      else (Inl (invalid ''Invalid worker image admission''), w))"

section \<open>Reading a reply\<close>

lemma of_le32_le32:
  assumes "n < 2 ^ 32"
  shows "of_le32 (le32 n) = n"
proof -
  define a b c where "a = n div 256" and "b = a div 256" and "c = b div 256"
  have d: "n div 65536 = b" "n div 16777216 = c"
    unfolding a_def b_def c_def by (simp_all add: div_mult2_eq [symmetric])
  have "c < 256" using assms unfolding d(2) [symmetric] by (simp add: less_mult_imp_div_less)
  moreover have "n = n mod 256 + 256 * a" "a = a mod 256 + 256 * b" "b = b mod 256 + 256 * c"
    unfolding a_def b_def c_def by simp_all
  ultimately have "n = n mod 256 + 256 * (a mod 256) + 65536 * (b mod 256) + 16777216 * (c mod 256)"
    by simp
  then show ?thesis by (simp add: le32_def d a_def [symmetric])
qed

lemma le32_length [simp]: "length (le32 n) = 4"
  by (simp add: le32_def)

lemma take_exact_append [simp]: "length xs = n \<Longrightarrow> take_exact n (xs @ ys) = Inr (xs, ys)"
  by (simp add: take_exact_def)

lemma take_exact_eq: "take_exact n input = Inr (xs, ys) \<longleftrightarrow> input = xs @ ys \<and> length xs = n"
  by (auto simp: take_exact_def)

lemma check_reply_Inr:
  "check_reply method rid maximum reply = Inr count \<longleftrightarrow>
     as_u64 (jindex reply ''id'') = Some rid \<and> as_i64 (jindex reply ''version'') = Some 1
     \<and> as_u64 (jindex reply ''binaryLength'') = Some count
     \<and> count \<le> maximum \<and> count \<le> max_image \<and> (image_method method \<or> count = 0)
     \<and> as_bool (jindex reply ''ok'') = Some True"
  by (auto simp: check_reply_def result_eqs)

text \<open>
  C25: what the client accepts as a reply is a whole frame: a four byte length between 1 and 65536,
  a header of that length that parses to an acknowledgement of this very command id, and exactly
  the announced number of pixel bytes, which is within the caller's bound and zero for a command
  that carries no image. Conversely every such frame is accepted, whatever follows it.
\<close>

theorem reply_accepted_iff_whole_frame:
  "read_reply from_slice can_allocate method rid maximum input = Inr (result, pixels) \<longleftrightarrow>
     (\<exists>prefix header rest reply.
        input = prefix @ header @ pixels @ rest
        \<and> length prefix = 4 \<and> of_le32 prefix = length header
        \<and> 1 \<le> length header \<and> length header \<le> 65536
        \<and> from_slice header = Some reply
        \<and> as_u64 (jindex reply ''id'') = Some rid \<and> as_i64 (jindex reply ''version'') = Some 1
        \<and> as_bool (jindex reply ''ok'') = Some True
        \<and> as_u64 (jindex reply ''binaryLength'') = Some (length pixels)
        \<and> length pixels \<le> maximum \<and> length pixels \<le> max_image
        \<and> (image_method method \<or> pixels = []) \<and> can_allocate (length pixels)
        \<and> result = jindex reply ''result'')" (is "?L \<longleftrightarrow> ?R")
proof
  assume ?L
  then obtain prefix i1 header i2 reply count rest
    where *: "take_exact 4 input = Inr (prefix, i1)"
      "1 \<le> of_le32 prefix" "of_le32 prefix \<le> 65536"
      "take_exact (of_le32 prefix) i1 = Inr (header, i2)" "from_slice header = Some reply"
      "check_reply method rid maximum reply = Inr count" "can_allocate count"
      "take_exact count i2 = Inr (pixels, rest)" "result = jindex reply ''result''"
    by (auto simp: read_reply_def Let_def result_eqs split: prod.splits)
  have i: "input = prefix @ header @ pixels @ rest" "length prefix = 4"
    "length header = of_le32 prefix" "length pixels = count"
    using *(1,4,8) by (auto simp: take_exact_eq)
  from *(6) have c: "as_u64 (jindex reply ''id'') = Some rid" "as_i64 (jindex reply ''version'') = Some 1"
    "as_u64 (jindex reply ''binaryLength'') = Some count" "count \<le> maximum" "count \<le> max_image"
    "image_method method \<or> count = 0" "as_bool (jindex reply ''ok'') = Some True"
    by (simp_all add: check_reply_Inr)
  show ?R
    by (intro exI conjI, rule i(1), rule i(2), rule i(3) [symmetric])
      (use * i c in auto)
next
  assume ?R
  then obtain prefix header rest reply where *: "input = prefix @ header @ pixels @ rest"
    "length prefix = 4" "of_le32 prefix = length header" "1 \<le> length header" "length header \<le> 65536"
    "from_slice header = Some reply" "can_allocate (length pixels)" "result = jindex reply ''result''"
    and "check_reply method rid maximum reply = Inr (length pixels)"
    by (auto simp: check_reply_Inr)
  then show ?L by (simp add: read_reply_def)
qed

section \<open>Classification of failures\<close>

lemma uncertain_not_retryable: "is_uncertain_control e \<Longrightarrow> \<not> retryable e"
  by (cases e rule: is_uncertain_control.cases) auto

lemma uncertain_not_worker: "is_uncertain_control e \<Longrightarrow> \<not> is_worker_failure e \<and> e \<noteq> ECooling Expired"
  by (cases e rule: is_uncertain_control.cases) auto

lemma classified_uncertain: "is_uncertain_control (classify True True e)"
  by (simp add: classify_def)

lemma race_dispatched:
  assumes "race_exchange from_slice to_vec can_allocate method params deadline maximum control env w = (r, d, w')"
  shows "wk_alive w' = wk_alive w
    \<and> (if d then wk_id w' = wk_id w + 1 \<and> wk_id w' < 2 ^ 64 \<and> ce_now env < deadline \<and> \<not> ce_cancelled env
          \<and> length (to_vec (command_json (wk_id w') method params)) \<le> 65536
          \<and> wk_sent w' = wk_sent w @ le32 (length (to_vec (command_json (wk_id w') method params)))
              @ to_vec (command_json (wk_id w') method params)
        else w' = w)"
  using assms
  by (auto simp: race_exchange_def admit_command_def Let_def result_eqs checked_add_Some
      split: if_splits sum.splits prod.splits)


definition demo_worker :: worker where
  "demo_worker = \<lparr>wk_id = 6, wk_alive = True, wk_sent = []\<rparr>"


text \<open>
  A command is put on the wire at most once per call and only while it is worth it: before its
  deadline, with the token not cancelled, with the next command id, in a frame of at most 65536
  bytes whose length prefix reads back. A worker survives exactly a success, a failure it reported
  itself, and an expiry before dispatch.
\<close>

theorem call_sends_one_admitted_frame:
  assumes "call_until from_slice to_vec can_allocate method params deadline maximum env w = (r, w')"
  shows "(wk_sent w' = wk_sent w \<and> wk_id w' = wk_id w
      \<or> (\<exists>frame. wk_sent w' = wk_sent w @ le32 (length frame) @ frame
           \<and> frame = to_vec (command_json (wk_id w') method params)
           \<and> length frame \<le> 65536 \<and> of_le32 (le32 (length frame)) = length frame
           \<and> wk_id w' = wk_id w + 1 \<and> wk_id w' < 2 ^ 64
           \<and> ce_now env < deadline \<and> \<not> ce_cancelled env))
    \<and> (wk_alive w' \<longleftrightarrow> wk_alive w \<and> (\<forall>e. r = Inl e \<longrightarrow>
          is_worker_failure e \<or> e = ECooling Expired \<and> wk_sent w' = wk_sent w))"
proof -
  let ?c = "control_method method params"
  obtain r0 d w0 where race: "race_exchange from_slice to_vec can_allocate method params deadline
      maximum ?c env w = (r0, d, w0)"
    by (cases "race_exchange from_slice to_vec can_allocate method params deadline maximum ?c env w")
  note q = race_dispatched [OF race]
  have f: "of_le32 (le32 n) = n" if "n \<le> 65536" for n
    by (rule of_le32_le32) (use that in simp)
  have w': "wk_sent w' = wk_sent w0 \<and> wk_id w' = wk_id w0
      \<and> (wk_alive w' \<longleftrightarrow> wk_alive w \<and> (\<forall>e. r = Inl e \<longrightarrow> is_worker_failure e \<or> \<not> d \<and> e = ECooling Expired))"
    using assms race q
    by (auto simp: call_until_def Let_def retires_worker_def split: sum.splits if_splits)
  have s: "wk_sent w0 = wk_sent w \<longleftrightarrow> \<not> d"
    using q by (auto simp: le32_def split: if_splits)
  have alive: "wk_alive w' \<longleftrightarrow> wk_alive w \<and> (\<forall>e. r = Inl e \<longrightarrow>
      is_worker_failure e \<or> e = ECooling Expired \<and> wk_sent w' = wk_sent w)"
    using w' s by auto
  show ?thesis
  proof (cases d)
    case True
    define frame where "frame = to_vec (command_json (wk_id w0) method params)"
    from True q have "wk_sent w0 = wk_sent w @ le32 (length frame) @ frame" "length frame \<le> 65536"
      "wk_id w0 = wk_id w + 1" "wk_id w0 < 2 ^ 64" "ce_now env < deadline" "\<not> ce_cancelled env"
      unfolding frame_def by metis+
    then have "\<exists>frame. wk_sent w' = wk_sent w @ le32 (length frame) @ frame
           \<and> frame = to_vec (command_json (wk_id w') method params)
           \<and> length frame \<le> 65536 \<and> of_le32 (le32 (length frame)) = length frame
           \<and> wk_id w' = wk_id w + 1 \<and> wk_id w' < 2 ^ 64
           \<and> ce_now env < deadline \<and> \<not> ce_cancelled env"
      using w' f [of "length frame"]
      by (intro exI [of _ frame]) (simp add: frame_def)
    with alive show ?thesis by blast
  next
    case False
    then show ?thesis using q w' alive by auto
  qed
qed

theorem call_sends_one_admitted_frame_witness:
  "\<exists>r w'. call_until (\<lambda>_. None) (\<lambda>_. [123, 125]) (\<lambda>_. True) ''get'' (JObj []) 10 0
       \<lparr>ce_cancelled = False, ce_now = 10, ce_wire = TimesOut\<rparr> demo_worker = (r, w')
     \<and> wk_sent w' = []"
proof -
  obtain r w' where c: "call_until (\<lambda>_. None) (\<lambda>_. [123, 125]) (\<lambda>_. True) ''get'' (JObj []) 10 0
       \<lparr>ce_cancelled = False, ce_now = 10, ce_wire = TimesOut\<rparr> demo_worker = (r, w')"
    by (cases "call_until (\<lambda>_. None) (\<lambda>_. [123, 125]) (\<lambda>_. True) ''get'' (JObj []) 10 0
       \<lparr>ce_cancelled = False, ce_now = 10, ce_wire = TimesOut\<rparr> demo_worker")
  from call_sends_one_admitted_frame [OF c] have "wk_sent w' = wk_sent demo_worker" by simp
  with c show ?thesis by (auto simp: demo_worker_def)
qed

end
