(* ===== verification/Usb_Peripherals.thy ===== *)
theory Usb_Peripherals imports Camera_Model Reachability begin

text \<open>
  The confirmation fence after a camera USB reset, \<open>crates/regain-core/src/usb_peripherals.rs\<close>. A
  reset may disconnect the peripherals behind the camera's hub, so the next exposure waits until
  the frontend has acknowledged this very recovery episode.

  All operations hold the mutex of the shared state and are atomic steps. \<open>Recovery::wait\<close> is two
  of them: arming the deadline, and the return of its \<open>select!\<close>. What was sent through the one-shot
  channel of an episode is kept in \<open>pe_sent\<close>. The process-wide id counter is \<open>pe_next_id\<close>, the
  published status field \<open>pe_status_id\<close>.
\<close>

abbreviation wait_seconds :: nat where "wait_seconds \<equiv> 120"

record acknowledgement =
  ak_id :: nat
  ak_success :: bool
  ak_error :: "string option"

record pending_recovery =
  pr_id :: nat
  pr_deadline :: "nat option"
  pr_reply :: bool
  pr_listening :: bool

record peripherals =
  pe_enabled :: bool
  pe_retired :: bool
  pe_pending :: "pending_recovery option"
  pe_blocked :: "string option"
  pe_status_id :: "nat option"
  pe_next_id :: nat
  pe_sent :: "nat \<Rightarrow> acknowledgement option"

definition peripherals_new :: "nat \<Rightarrow> peripherals" where
  "peripherals_new counter = \<lparr>pe_enabled = False, pe_retired = False, pe_pending = None, pe_blocked = None,
     pe_status_id = None, pe_next_id = counter, pe_sent = (\<lambda>_. None)\<rparr>"

text \<open>\<open>next_id\<close>: the compare-and-swap loop succeeds on the current value of the counter.\<close>

definition next_id :: "int \<Rightarrow> peripherals \<Rightarrow> error + nat" where
  "next_id utc_micros s =
     ok_or (checked_add 64 (max (pe_next_id s) (nat (max utc_micros 1))) 1)
       (invalid ''USB peripheral recovery ID space exhausted'')"

definition per_enable :: "bool \<Rightarrow> peripherals \<Rightarrow> (error + unit) \<times> peripherals" where
  "per_enable b s =
     (if \<not> pe_retired s \<and> pe_pending s = None \<and> pe_blocked s = None
      then (Inr (), s\<lparr>pe_enabled := b\<rparr>)
      else (Inl (invalid ''Cannot change USB peripheral recovery during or after recovery''), s))"

definition ensure_ready :: "peripherals \<Rightarrow> error + unit" where
  "ensure_ready s =
     (if pe_retired s then Inl (invalid ''Camera disconnected'')
      else case pe_blocked s of
        Some message \<Rightarrow> Inl (invalid message)
      | None \<Rightarrow>
          if pe_pending s \<noteq> None then Inl (invalid ''USB peripheral recovery is still pending'') else Inr ())"

definition reconnect_after_close :: "peripherals \<Rightarrow> (error + unit) \<times> peripherals" where
  "reconnect_after_close s =
     (let s = (if pe_retired s then s\<lparr>pe_retired := False, pe_blocked := None\<rparr> else s)
      in (ensure_ready s, s))"

definition per_begin :: "int \<Rightarrow> peripherals \<Rightarrow> (error + nat option) \<times> peripherals" where
  "per_begin utc_micros s =
     (case ensure_ready s of
        Inl e \<Rightarrow> (Inl e, s)
      | Inr _ \<Rightarrow>
          if \<not> pe_enabled s then (Inr None, s)
          else case next_id utc_micros s of
            Inl e \<Rightarrow> (Inl e, s)
          | Inr i \<Rightarrow> (Inr (Some i), s\<lparr>pe_next_id := i,
              pe_pending := Some \<lparr>pr_id = i, pr_deadline = None, pr_reply = True, pr_listening = True\<rparr>\<rparr>))"

definition valid_error_text :: "string \<Rightarrow> bool" where
  "valid_error_text e \<longleftrightarrow> length e \<le> 2048
     \<and> list_all (\<lambda>c. \<not> ((of_char c :: nat) < 32 \<or> 127 \<le> (of_char c :: nat) \<and> (of_char c :: nat) < 160)) e"

definition check_acknowledgement :: "acknowledgement \<Rightarrow> error + unit" where
  "check_acknowledgement a =
     and_then (ensure (0 < ak_id a) (invalid ''Invalid USB peripheral recovery ID'')) (\<lambda>_.
     case ak_error a of
       None \<Rightarrow> Inr ()
     | Some e \<Rightarrow>
         and_then (ensure (valid_error_text e) (invalid ''Invalid USB peripheral recovery error'')) (\<lambda>_.
         ensure (\<not> ak_success a) (invalid ''Successful USB peripheral recovery cannot include an error'')))"

definition acknowledge :: "nat \<Rightarrow> acknowledgement \<Rightarrow> peripherals \<Rightarrow> (error + unit) \<times> peripherals" where
  "acknowledge now a s =
     (case check_acknowledgement a of
        Inl e \<Rightarrow> (Inl e, s)
      | Inr _ \<Rightarrow>
     (case pe_pending s of
        None \<Rightarrow> (Inl (invalid ''No USB peripheral recovery acknowledgement is pending''), s)
      | Some p \<Rightarrow>
          if pr_id p \<noteq> ak_id a
          then (Inl (invalid ''USB peripheral recovery acknowledgement does not match the pending episode''), s)
          else if \<not> some_and (pr_deadline p) (\<lambda>deadline. now < deadline)
          then (Inl (invalid ''USB peripheral recovery is not awaiting acknowledgement or has expired''), s)
          else if \<not> pr_reply p
          then (Inl (invalid ''USB peripheral recovery was already acknowledged''), s)
          else
            let s = s\<lparr>pe_pending := Some (p\<lparr>pr_reply := False\<rparr>)\<rparr> in
            if \<not> pr_listening p
            then (Inl (invalid ''USB peripheral recovery is no longer waiting''), s)
            else (Inr (), s\<lparr>pe_sent := (pe_sent s)(ak_id a := Some a)\<rparr>)))"

definition per_retire :: "peripherals \<Rightarrow> peripherals" where
  "per_retire s = s\<lparr>pe_retired := True, pe_pending := None, pe_status_id := None\<rparr>"

section \<open>The waiting side\<close>

text \<open>\<open>Recovery::finish\<close> of the episode \<open>i\<close>.\<close>

definition per_finish :: "nat \<Rightarrow> string option \<Rightarrow> peripherals \<Rightarrow> peripherals" where
  "per_finish i failure s =
     (if some_and (pe_pending s) (\<lambda>p. pr_id p = i)
      then s\<lparr>pe_pending := None,
        pe_blocked := map_option (\<lambda>message. ''USB peripheral recovery was not confirmed ('' @ message
          @ ''); disconnect and reconnect the camera before another exposure'') failure,
        pe_status_id := None\<rparr>
      else s)"

text \<open>Dropping an unfinished \<open>Recovery\<close>.\<close>

definition per_drop :: "nat \<Rightarrow> peripherals \<Rightarrow> peripherals" where
  "per_drop i s = per_finish i (Some ''recovery did not complete'') s"

definition wait_begin :: "nat \<Rightarrow> nat \<Rightarrow> peripherals \<Rightarrow> (error + nat) \<times> peripherals" where
  "wait_begin i now s =
     (let deadline = now + wait_seconds * nanos_per_sec in
      case pe_pending s of
        Some p \<Rightarrow>
          if pr_id p = i
          then (Inr deadline, s\<lparr>pe_pending := Some (p\<lparr>pr_deadline := Some deadline\<rparr>), pe_status_id := Some i\<rparr>)
          else (Inl (invalid ''USB peripheral recovery was retired''), per_drop i s)
      | None \<Rightarrow> (Inl (invalid ''USB peripheral recovery was retired''), per_drop i s))"

definition reply_result :: "acknowledgement \<Rightarrow> error + unit" where
  "reply_result a =
     (if ak_success a then Inr ()
      else Inl (invalid (''NINA peripheral recovery failed: ''
        @ (case ak_error a of Some e \<Rightarrow> e | None \<Rightarrow> ''peripherals were not confirmed ready''))))"

text \<open>\<open>None\<close>: none of the three futures is ready yet. They are polled in this order (\<open>biased\<close>).\<close>

definition wait_result :: "nat \<Rightarrow> bool \<Rightarrow> nat \<Rightarrow> nat \<Rightarrow> peripherals \<Rightarrow> (error + unit) option" where
  "wait_result i cancelled now deadline s =
     (if cancelled then Some (Inl (EFailure Cancelled))
      else if deadline \<le> now then Some (Inl (invalid ''NINA peripheral recovery confirmation timed out''))
      else case pe_sent s i of
        Some a \<Rightarrow> Some (reply_result a)
      | None \<Rightarrow>
          if some_and (pe_pending s) (\<lambda>p. pr_id p = i) then None
          else Some (Inl (invalid ''USB peripheral recovery was retired'')))"

text \<open>
  When the \<open>select!\<close> returns, the receiver is dropped: an acknowledgement that arrives before
  \<open>finish\<close> takes the lock finds nobody listening.
\<close>

definition wait_select :: "nat \<Rightarrow> bool \<Rightarrow> nat \<Rightarrow> nat \<Rightarrow> peripherals \<Rightarrow> (error + unit) option \<times> peripherals" where
  "wait_select i cancelled now deadline s =
     (case wait_result i cancelled now deadline s of
        None \<Rightarrow> (None, s)
      | Some r \<Rightarrow> (Some r, s\<lparr>pe_pending := map_option
            (\<lambda>p. if pr_id p = i then p\<lparr>pr_listening := False\<rparr> else p) (pe_pending s)\<rparr>))"

definition wait_end :: "nat \<Rightarrow> bool \<Rightarrow> nat \<Rightarrow> nat \<Rightarrow> peripherals \<Rightarrow> (error + unit) option \<times> peripherals" where
  "wait_end i cancelled now deadline s =
     (case wait_select i cancelled now deadline s of
        (None, s) \<Rightarrow> (None, s)
      | (Some r, s) \<Rightarrow> (Some r, per_finish i (case r of Inl e \<Rightarrow> Some (error_display e) | Inr _ \<Rightarrow> None) s))"

section \<open>Steps\<close>

datatype per_label = LOther | LConfirmed nat | LRetire | LReconnect

inductive per_step :: "peripherals \<Rightarrow> per_label \<Rightarrow> peripherals \<Rightarrow> bool" where
  per_enable: "per_enable b s = (r, s') \<Longrightarrow> per_step s LOther s'"
| per_reconnect: "reconnect_after_close s = (r, s') \<Longrightarrow> per_step s LReconnect s'"
| per_begin: "per_begin now s = (r, s') \<Longrightarrow> per_step s LOther s'"
| per_acknowledge: "acknowledge now a s = (r, s') \<Longrightarrow> per_step s LOther s'"
| per_retire: "per_step s LRetire (per_retire s)"
| per_wait_begin: "wait_begin i now s = (r, s') \<Longrightarrow> per_step s LOther s'"
| per_wait_end: "wait_end i cancelled now deadline s = (r, s')
    \<Longrightarrow> per_step s (if r = Some (Inr ()) then LConfirmed i else LOther) s'"
| per_wait_select: "wait_select i cancelled now deadline s = (r, s') \<Longrightarrow> per_step s LOther s'"
| per_drop: "per_step s LOther (per_drop i s)"

inductive per_run :: "peripherals \<Rightarrow> per_label list \<Rightarrow> peripherals \<Rightarrow> bool" where
  per_run_nil: "per_run s [] s"
| per_run_cons: "per_step s l s' \<Longrightarrow> per_run s' ls s'' \<Longrightarrow> per_run s (l # ls) s''"

text \<open>Blocked means that no episode is open.\<close>

definition per_inv :: "peripherals \<Rightarrow> bool" where
  "per_inv s \<longleftrightarrow> (pe_blocked s \<noteq> None \<longrightarrow> pe_pending s = None)
     \<and> (\<forall>p. pe_pending s = Some p \<longrightarrow> pr_id p \<le> pe_next_id s)
     \<and> (\<forall>i a. pe_sent s i = Some a \<longrightarrow> ak_id a = i \<and> i \<le> pe_next_id s)"

lemma next_id_greater: "next_id now s = Inr i \<Longrightarrow> pe_next_id s < i \<and> i < 2 ^ 64"
  by (auto simp: next_id_def ok_or_eq checked_add_Some)

lemma per_step_inv: "per_step s l s' \<Longrightarrow> per_inv s \<Longrightarrow> per_inv s' \<and> pe_next_id s \<le> pe_next_id s'"
proof (induction rule: per_step.induct)
  case (per_begin now s r s')
  then show ?case
    using next_id_greater [of now s]
    by (fastforce simp: per_begin_def per_inv_def ensure_ready_def split: sum.splits option.splits if_splits)
next
  case (per_acknowledge now a s r s')
  then show ?case
    by (auto simp: acknowledge_def per_inv_def Let_def split: sum.splits option.splits if_splits)
qed (auto simp: per_enable_def reconnect_after_close_def per_retire_def wait_begin_def wait_end_def
    wait_select_def per_drop_def per_finish_def per_inv_def Let_def split: option.splits if_splits)


text \<open>An episode, or its failure, stands between a connected camera and the next exposure.\<close>

definition fenced :: "nat \<Rightarrow> peripherals \<Rightarrow> bool" where
  "fenced i s \<longleftrightarrow> \<not> pe_retired s \<and> (pe_blocked s \<noteq> None \<or> some_and (pe_pending s) (\<lambda>p. pr_id p = i))"

lemma fenced_not_ready: "fenced i s \<Longrightarrow> \<not> is_ok (ensure_ready s)"
  by (auto simp: fenced_def ensure_ready_def some_and_iff split: option.split)

lemma per_finish_fenced:
  "per_inv s \<Longrightarrow> fenced i s \<Longrightarrow> failure \<noteq> None \<or> j \<noteq> i \<Longrightarrow> fenced i (per_finish j failure s)"
  by (auto simp: fenced_def per_finish_def per_inv_def some_and_def split: option.splits)

lemma wait_select_fenced: "fenced i s \<Longrightarrow> wait_select j c now d s = (r, s') \<Longrightarrow> fenced i s'"
  by (cases "pe_pending s") (auto simp: wait_select_def fenced_def split: option.splits if_splits)

lemma wait_select_inv: "per_inv s \<Longrightarrow> wait_select j c now d s = (r, s') \<Longrightarrow> per_inv s'"
  by (auto simp: wait_select_def per_inv_def split: option.splits)

lemma per_step_fenced:
  "per_step s l s' \<Longrightarrow> per_inv s \<Longrightarrow> fenced i s \<Longrightarrow> l \<noteq> LConfirmed i \<Longrightarrow> l \<noteq> LRetire \<Longrightarrow> fenced i s'"
proof (induction rule: per_step.induct)
  case (per_begin now s r s')
  then show ?case
    using fenced_not_ready [OF per_begin.prems(2)]
    by (auto simp: per_begin_def split: sum.splits)
next
  case (per_acknowledge now a s r s')
  then show ?case
    by (auto simp: acknowledge_def fenced_def some_and_def Let_def split: sum.splits option.splits if_splits)
next
  case (per_wait_begin j now s r s')
  then show ?case using per_finish_fenced [of s i "Some ''recovery did not complete''" j]
    by (auto simp: wait_begin_def per_drop_def fenced_def some_and_def Let_def split: option.splits if_splits)
next
  case (per_wait_end j cancelled now deadline s r s')
  obtain q s0 where q: "wait_select j cancelled now deadline s = (q, s0)" by fastforce
  note s0 = wait_select_inv [OF per_wait_end.prems(1) q] wait_select_fenced [OF per_wait_end.prems(2) q]
  show ?case
  proof (cases q)
    case None
    then show ?thesis using per_wait_end.hyps q s0 by (simp add: wait_end_def)
  next
    case (Some o')
    then have "r = q" "s' = per_finish j (case o' of Inl e \<Rightarrow> Some (error_display e) | Inr _ \<Rightarrow> None) s0"
      using per_wait_end.hyps q by (simp_all add: wait_end_def)
    then show ?thesis using per_finish_fenced [OF s0] Some per_wait_end.prems(3)
      by (cases o') auto
  qed
next
  case (per_wait_select j cancelled now deadline s r s')
  then show ?case using wait_select_fenced by blast
next
  case (per_drop s j)
  then show ?case using per_finish_fenced [of s i "Some ''recovery did not complete''" j]
    by (simp add: per_drop_def)
qed (auto simp: per_enable_def reconnect_after_close_def fenced_def Let_def split: if_splits)

lemma per_run_fenced:
  "per_run s ls s' \<Longrightarrow> per_inv s \<Longrightarrow> fenced i s \<Longrightarrow> LConfirmed i \<notin> set ls \<Longrightarrow> LRetire \<notin> set ls \<Longrightarrow> fenced i s'"
proof (induction rule: per_run.induct)
  case (per_run_cons s l s' ls s'')
  have "per_inv s'" using per_step_inv [OF per_run_cons.hyps(1)] per_run_cons.prems(1) by blast
  moreover have "fenced i s'" using per_step_fenced [OF per_run_cons.hyps(1)] per_run_cons.prems by auto
  ultimately show ?case using per_run_cons by auto
qed

lemma per_begin_fences: "per_begin now s = (Inr (Some i), s') \<Longrightarrow> per_inv s \<Longrightarrow> per_inv s' \<and> fenced i s'"
  using per_step_inv [OF per_step.per_begin [of now s "Inr (Some i)" s']]
  by (auto simp: per_begin_def fenced_def ensure_ready_def split: sum.splits option.splits if_splits)


lemma peripherals_new_inv: "per_inv (peripherals_new n)"
  by (simp add: per_inv_def peripherals_new_def)

definition demo_peripherals :: peripherals where
  "demo_peripherals = (peripherals_new 7)\<lparr>pe_enabled := True\<rparr>"

definition demo_episode :: peripherals where
  "demo_episode = demo_peripherals\<lparr>pe_next_id := 101,
     pe_pending := Some \<lparr>pr_id = 101, pr_deadline = None, pr_reply = True, pr_listening = True\<rparr>\<rparr>"

lemma demo_begin: "per_begin 100 demo_peripherals = (Inr (Some 101), demo_episode)"
  by (simp add: per_begin_def ensure_ready_def next_id_def checked_add_def demo_peripherals_def
      demo_episode_def peripherals_new_def)

lemma demo_peripherals_inv: "per_inv demo_peripherals"
  by (simp add: per_inv_def demo_peripherals_def peripherals_new_def)


text \<open>
  An acknowledgement is accepted at most once, only for the episode that is pending, only while
  the recovery is waiting and before its deadline, and a success only without an error text; and
  the wait ends successfully only through such an accepted success, in time and not cancelled.
  Accepting one episode's acknowledgement never confirms another.
\<close>

theorem confirmation_needs_matching_acknowledgement:
  assumes "per_inv s"
  shows "(acknowledge now a s = (Inr (), s') \<longrightarrow>
        (\<exists>p d. pe_pending s = Some p \<and> pr_id p = ak_id a \<and> pr_deadline p = Some d \<and> now < d)
        \<and> (ak_success a \<longrightarrow> ak_error a = None)
        \<and> (\<forall>b later. \<not> is_ok (fst (acknowledge later b s'))))
    \<and> (wait_end i cancelled now deadline s = (Some (Inr ()), s') \<longrightarrow>
        \<not> cancelled \<and> now < deadline
        \<and> (\<exists>a. pe_sent s i = Some a \<and> ak_id a = i \<and> ak_success a))"
proof (intro conjI impI)
  assume a: "acknowledge now a s = (Inr (), s')"
  then obtain p where p: "pe_pending s = Some p" "pr_id p = ak_id a"
      "some_and (pr_deadline p) (\<lambda>deadline. now < deadline)" "check_acknowledgement a = Inr ()"
      "pe_pending s' = Some (p\<lparr>pr_reply := False\<rparr>)"
    by (auto simp: acknowledge_def Let_def split: sum.splits option.splits if_splits)
  show "\<exists>p d. pe_pending s = Some p \<and> pr_id p = ak_id a \<and> pr_deadline p = Some d \<and> now < d"
    using p by (auto simp: some_and_iff)
  show "ak_error a = None" if "ak_success a"
    using p(4) that by (auto simp: check_acknowledgement_def result_eqs split: option.splits)
  show "\<forall>b later. \<not> is_ok (fst (acknowledge later b s'))"
    using p(5) by (auto simp: acknowledge_def Let_def split: sum.splits option.splits)
next
  assume w: "wait_end i cancelled now deadline s = (Some (Inr ()), s')"
  then have r: "wait_result i cancelled now deadline s = Some (Inr ())"
    by (auto simp: wait_end_def wait_select_def split: option.splits prod.splits)
  then show "\<not> cancelled" "now < deadline" by (auto simp: wait_result_def split: if_splits)
  from r obtain a where "pe_sent s i = Some a" "reply_result a = Inr ()"
    by (auto simp: wait_result_def split: if_splits option.splits)
  then show "\<exists>a. pe_sent s i = Some a \<and> ak_id a = i \<and> ak_success a"
    using assms by (auto simp: per_inv_def reply_result_def split: if_splits)
qed

theorem confirmation_needs_matching_acknowledgement_witness:
  "\<exists>s2. acknowledge 9 \<lparr>ak_id = 101, ak_success = True, ak_error = None\<rparr> (snd (wait_begin 101 5 demo_episode))
      = (Inr (), s2)
    \<and> \<not> is_ok (fst (acknowledge 10 \<lparr>ak_id = 101, ak_success = True, ak_error = None\<rparr> s2))"
proof -
  have i: "per_inv (snd (wait_begin 101 5 demo_episode))"
    by (simp add: wait_begin_def demo_episode_def per_inv_def demo_peripherals_def peripherals_new_def)
  obtain s2 where "acknowledge 9 \<lparr>ak_id = 101, ak_success = True, ak_error = None\<rparr>
      (snd (wait_begin 101 5 demo_episode)) = (Inr (), s2)"
    by (simp add: acknowledge_def check_acknowledgement_def wait_begin_def demo_episode_def)
  with confirmation_needs_matching_acknowledgement [OF i] show ?thesis by blast
qed

end
