(* ===== verification/Usb_Target.thy ===== *)
theory Usb_Target imports Camera_Model begin

text \<open>
  The token that binds a USB recovery to one physical camera, \<open>Target\<close> of
  \<open>crates/regain-transport/src/usb.rs\<close>: validation, and its transport as hexadecimal text on the
  command line of the recovery helper. The JSON encoder and parser of the structure (derived by
  serde) are parameters, on bytes below 256.
\<close>

record usb_target =
  tg_vendor :: nat
  tg_product :: nat
  tg_serial :: string
  tg_location :: string
  tg_address :: "nat option"
  tg_generation :: "nat option"

definition char_code :: "char \<Rightarrow> nat" where
  "char_code c = of_char c"

definition is_hex_digit :: "char \<Rightarrow> bool" where
  "is_hex_digit c \<longleftrightarrow> (let n = char_code c in 48 \<le> n \<and> n \<le> 57 \<or> 65 \<le> n \<and> n \<le> 70 \<or> 97 \<le> n \<and> n \<le> 102)"

definition is_alphanumeric :: "char \<Rightarrow> bool" where
  "is_alphanumeric c \<longleftrightarrow> (let n = char_code c in 48 \<le> n \<and> n \<le> 57 \<or> 65 \<le> n \<and> n \<le> 90 \<or> 97 \<le> n \<and> n \<le> 122)"

definition location_char :: "char \<Rightarrow> bool" where
  "location_char c \<longleftrightarrow> is_alphanumeric c \<or> c \<in> {CHR 0x5C, CHR ''&'', CHR ''_'', CHR ''.'', CHR ''-''}"

definition serial_valid :: "string \<Rightarrow> bool" where
  "serial_valid s \<longleftrightarrow> length s = 16 \<and> list_all is_hex_digit s \<and> s \<noteq> ''0000000000000000''"

definition target_validate :: "usb_target \<Rightarrow> error + unit" where
  "target_validate t =
     and_then (ensure (tg_vendor t = 0x03c3
         \<and> tg_product t \<in> {0x585e, 0x676d, 0x662b, 0x2601, 0x2209, 0x620b, 0x260e})
       (EOther ''USB recovery is limited to cameras with verified serial binding'')) (\<lambda>_.
     and_then (ensure (serial_valid (tg_serial t)) (EOther ''Invalid camera serial for USB recovery'')) (\<lambda>_.
     ensure (tg_location t \<noteq> [] \<and> length (tg_location t) \<le> 512 \<and> list_all location_char (tg_location t))
       (EOther ''Invalid USB recovery location'')))"

definition hex_char :: "nat \<Rightarrow> char" where
  "hex_char d = char_of (if d < 10 then 48 + d else 87 + d)"

definition hex_value :: "char \<Rightarrow> nat" where
  "hex_value c = (let n = char_code c in if n \<le> 57 then n - 48 else if n \<le> 70 then n - 55 else n - 87)"

definition hex_byte :: "nat \<Rightarrow> string" where
  "hex_byte b = [hex_char (b div 16), hex_char (b mod 16)]"

fun unhex :: "string \<Rightarrow> nat list" where
  "unhex (a # b # r) = (16 * hex_value a + hex_value b) # unhex r"
| "unhex _ = []"

definition target_encode :: "(usb_target \<Rightarrow> nat list) \<Rightarrow> usb_target \<Rightarrow> error + string" where
  "target_encode to_vec t = and_then (target_validate t) (\<lambda>_. Inr (concat (map hex_byte (to_vec t))))"

definition target_decode :: "(nat list \<Rightarrow> usb_target option) \<Rightarrow> string \<Rightarrow> error + usb_target" where
  "target_decode from_slice token =
     and_then (ensure (length token \<le> 4096 \<and> even (length token) \<and> list_all is_hex_digit token)
       (EOther ''Invalid USB recovery token'')) (\<lambda>_.
     and_then (ok_or (from_slice (unhex token)) (EOther ''Malformed USB recovery token'')) (\<lambda>t.
     and_then (target_validate t) (\<lambda>_. Inr t)))"

lemma hex_char_code: "d < 16 \<Longrightarrow> char_code (hex_char d) = (if d < 10 then 48 + d else 87 + d)"
  by (auto simp: char_code_def hex_char_def)

lemma hex_char_value: "d < 16 \<Longrightarrow> hex_value (hex_char d) = d \<and> is_hex_digit (hex_char d)"
  by (auto simp: hex_value_def is_hex_digit_def hex_char_code Let_def)

lemma unhex_hex:
  "list_all (\<lambda>b. b < 256) bs \<Longrightarrow>
     unhex (concat (map hex_byte bs)) = bs \<and> list_all is_hex_digit (concat (map hex_byte bs))
     \<and> length (concat (map hex_byte bs)) = 2 * length bs"
  by (induction bs) (auto simp: hex_byte_def hex_char_value less_mult_imp_div_less)

text \<open>
  A recovery token reads back to the target it was made of, as long as its JSON fits in 2048
  bytes and the JSON parser inverts the encoder; and every token that decodes at all names a camera
  of a verified model with a real 16 digit serial and a plain location.
\<close>

theorem usb_target_roundtrip:
  assumes "target_encode to_vec t = Inr token"
    and "from_slice (to_vec t) = Some t"
    and "list_all (\<lambda>b. b < 256) (to_vec t)" and "length (to_vec t) \<le> 2048"
  shows "target_decode from_slice token = Inr t
    \<and> (\<forall>token' t'. target_decode from_slice token' = Inr t' \<longrightarrow>
         tg_vendor t' = 0x03c3 \<and> serial_valid (tg_serial t') \<and> tg_location t' \<noteq> []
         \<and> list_all location_char (tg_location t'))"
proof -
  have "token = concat (map hex_byte (to_vec t))" "target_validate t = Inr ()"
    using assms(1) by (auto simp: target_encode_def result_eqs)
  with unhex_hex [OF assms(3)] assms(2,4) have "target_decode from_slice token = Inr t"
    by (simp add: target_decode_def)
  moreover have "tg_vendor t' = 0x03c3 \<and> serial_valid (tg_serial t') \<and> tg_location t' \<noteq> []
      \<and> list_all location_char (tg_location t')" if "target_decode from_slice token' = Inr t'" for token' t'
    using that by (auto simp: target_decode_def target_validate_def result_eqs)
  ultimately show ?thesis by blast
qed

definition demo_target :: usb_target where
  "demo_target = \<lparr>tg_vendor = 0x03c3, tg_product = 0x2601, tg_serial = ''0123456789abcdef'',
     tg_location = ''1-2.3'', tg_address = Some 7, tg_generation = None\<rparr>"

theorem usb_target_roundtrip_witness:
  "target_decode (\<lambda>bs. if bs = [123, 125] then Some demo_target else None) ''7b7d'' = Inr demo_target"
proof -
  have "target_validate demo_target = Inr ()"
    by (simp add: target_validate_def demo_target_def serial_valid_def is_hex_digit_def char_code_def
        location_char_def is_alphanumeric_def)
  moreover have "hex_byte 123 = ''7b''" "hex_byte 125 = ''7d''" by code_simp+
  ultimately have "target_encode (\<lambda>_. [123, 125]) demo_target = Inr ''7b7d''"
    by (simp add: target_encode_def)
  from usb_target_roundtrip [OF this, of "\<lambda>bs. if bs = [123, 125] then Some demo_target else None"]
  show ?thesis by simp
qed

end
