(* ===== verification/Action.thy ===== *)
theory Action imports Camera_Model begin

text \<open>
  Operations with effects: an action is a state transformer that returned a value, failed with an
  error (what \<open>?\<close> propagates), or was still looping when its loop bound was used up. The rules here
  are the ones every operation of the session and of the streaming owner is reasoned with: what an
  action preserves, what the values it returns satisfy, and that it finishes.
\<close>

datatype ('e, 'a) result = Returned 'a | Failed 'e | Unfinished

type_synonym ('s, 'e, 'a) effect = "'s \<Rightarrow> ('e, 'a) result \<times> 's"

text \<open>The actions of the camera core fail with its own errors.\<close>

type_synonym ('s, 'a) action = "('s, error, 'a) effect"

section \<open>Actions\<close>

definition ret :: "'a \<Rightarrow> ('s, 'e, 'a) effect" where
  "ret x s = (Returned x, s)"

definition throw :: "'e \<Rightarrow> ('s, 'e, 'a) effect" where
  "throw e s = (Failed e, s)"

definition bnd :: "('s, 'e, 'a) effect \<Rightarrow> ('a \<Rightarrow> ('s, 'e, 'b) effect) \<Rightarrow> ('s, 'e, 'b) effect" where
  "bnd m f s = (case m s of
      (Returned x, s) \<Rightarrow> f x s
    | (Failed e, s) \<Rightarrow> (Failed e, s)
    | (Unfinished, s) \<Rightarrow> (Unfinished, s))"

text \<open>The result of an operation as a value, for code that matches on it.\<close>

definition outcome_of :: "('s, 'e, 'a) effect \<Rightarrow> ('s, 'e, 'e + 'a) effect" where
  "outcome_of m s = (case m s of
      (Returned x, s) \<Rightarrow> (Returned (Inr x), s)
    | (Failed e, s) \<Rightarrow> (Returned (Inl e), s)
    | (Unfinished, s) \<Rightarrow> (Unfinished, s))"

definition lift :: "'e + 'a \<Rightarrow> ('s, 'e, 'a) effect" where
  "lift r = (case r of Inl e \<Rightarrow> throw e | Inr x \<Rightarrow> ret x)"

definition get :: "('s \<Rightarrow> 'a) \<Rightarrow> ('s, 'e, 'a) effect" where
  "get f s = (Returned (f s), s)"

definition upd :: "('s \<Rightarrow> 's) \<Rightarrow> ('s, 'e, unit) effect" where
  "upd f s = (Returned (), f s)"

definition whenever :: "bool \<Rightarrow> ('s, 'e, unit) effect \<Rightarrow> ('s, 'e, unit) effect" where
  "whenever b m = (if b then m else ret ())"

definition check :: "bool \<Rightarrow> 'e \<Rightarrow> ('s, 'e, unit) effect" where
  "check b e = (if b then ret () else throw e)"

fun each :: "('a \<Rightarrow> ('s, 'e, unit) effect) \<Rightarrow> 'a list \<Rightarrow> ('s, 'e, unit) effect" where
  "each f [] = ret ()"
| "each f (x # xs) = bnd (f x) (\<lambda>_. each f xs)"

text \<open>A loop whose body continues with \<open>Inl\<close> and leaves with \<open>Inr\<close>.\<close>

fun iterate :: "nat \<Rightarrow> ('a \<Rightarrow> ('s, 'e, 'a + 'b) effect) \<Rightarrow> 'a \<Rightarrow> ('s, 'e, 'b) effect" where
  "iterate 0 body x = (\<lambda>s. (Unfinished, s))"
| "iterate (Suc n) body x =
     bnd (body x) (\<lambda>r. case r of Inl y \<Rightarrow> iterate n body y | Inr z \<Rightarrow> ret z)"

section \<open>What actions preserve\<close>

definition preserves :: "('s \<Rightarrow> bool) \<Rightarrow> ('s, 'e, 'a) effect \<Rightarrow> bool" where
  "preserves P m \<longleftrightarrow> (\<forall>s. P s \<longrightarrow> P (snd (m s)))"

named_theorems quiet \<open>rules and operations known to preserve a property\<close>

lemma preservesI: "(\<And>s. P s \<Longrightarrow> P (snd (m s))) \<Longrightarrow> preserves P m"
  by (simp add: preserves_def)

lemma preservesD: "preserves P m \<Longrightarrow> P s \<Longrightarrow> m s = (r, s') \<Longrightarrow> P s'"
  unfolding preserves_def by (metis snd_conv)

lemma preserves_bnd [quiet]: "preserves P m \<Longrightarrow> (\<And>x. preserves P (f x)) \<Longrightarrow> preserves P (bnd m f)"
  unfolding preserves_def bnd_def by (auto split: prod.split result.split)

lemma preserves_outcome [quiet]: "preserves P m \<Longrightarrow> preserves P (outcome_of m)"
  unfolding preserves_def outcome_of_def by (auto split: prod.split result.split)

lemma preserves_simple [quiet]: "preserves P (ret x)" "preserves P (throw e)" "preserves P (get g)"
  by (simp_all add: preserves_def ret_def throw_def get_def)

lemma preserves_lift [quiet]: "preserves P (lift r)"
  by (cases r) (simp_all add: lift_def quiet)

lemma preserves_check [quiet]: "preserves P (check b e)"
  by (simp add: check_def quiet)

lemma preserves_whenever [quiet]: "preserves P m \<Longrightarrow> preserves P (whenever b m)"
  by (simp add: whenever_def quiet)

lemma preserves_if [quiet]: "preserves P m \<Longrightarrow> preserves P n \<Longrightarrow> preserves P (if b then m else n)"
  by simp

lemma preserves_prod [quiet]: "(\<And>a b. preserves P (f a b)) \<Longrightarrow> preserves P (case p of (a, b) \<Rightarrow> f a b)"
  by (cases p) simp

lemma preserves_option [quiet]:
  "preserves P m \<Longrightarrow> (\<And>a. preserves P (f a)) \<Longrightarrow> preserves P (case x of None \<Rightarrow> m | Some a \<Rightarrow> f a)"
  by (cases x) simp_all

lemma preserves_sum [quiet]:
  "(\<And>a. preserves P (f a)) \<Longrightarrow> (\<And>b. preserves P (g b)) \<Longrightarrow> preserves P (case x of Inl a \<Rightarrow> f a | Inr b \<Rightarrow> g b)"
  by (cases x) simp_all

lemma preserves_let [quiet]: "(\<And>x. preserves P (f x)) \<Longrightarrow> preserves P (let x = e in f x)"
  by simp

lemma preserves_upd: "(\<And>s. P s \<Longrightarrow> P (g s)) \<Longrightarrow> preserves P (upd g)"
  by (simp add: preserves_def upd_def)

lemma preserves_each [quiet]: "(\<And>x. preserves P (f x)) \<Longrightarrow> preserves P (each f xs)"
  by (induction xs) (simp_all add: quiet)

lemma preserves_iterate: "(\<And>x. preserves P (body x)) \<Longrightarrow> preserves P (iterate n body x)"
  by (induction n arbitrary: x) (simp add: preserves_def, simp add: quiet)

text \<open>From a precondition to a postcondition, which holds when the action fails as well.\<close>

definition sends :: "('s \<Rightarrow> bool) \<Rightarrow> ('s, 'e, 'a) effect \<Rightarrow> ('s \<Rightarrow> bool) \<Rightarrow> bool" where
  "sends P m Q \<longleftrightarrow> (\<forall>s. P s \<longrightarrow> Q (snd (m s)))"

lemma sendsI: "(\<And>s. P s \<Longrightarrow> Q (snd (m s))) \<Longrightarrow> sends P m Q"
  by (simp add: sends_def)

lemma sendsD: "sends P m Q \<Longrightarrow> P s \<Longrightarrow> Q (snd (m s))"
  by (simp add: sends_def)

lemma preserves_iff_sends: "preserves P m \<longleftrightarrow> sends P m P"
  by (simp add: sends_def preserves_def)

lemma sends_weaken: "sends P' m Q' \<Longrightarrow> (\<And>s. P s \<Longrightarrow> P' s) \<Longrightarrow> (\<And>s. Q' s \<Longrightarrow> Q s) \<Longrightarrow> sends P m Q"
  by (simp add: sends_def)

lemma sends_bnd:
  assumes "preserves P m" "\<And>s. P s \<Longrightarrow> Q s" "\<And>x. sends P (f x) Q"
  shows "sends P (bnd m f) Q"
  using assms unfolding sends_def preserves_def bnd_def
  by (auto split: prod.split result.split; metis snd_conv)

lemma sends_outcome:
  assumes "sends P m R" "\<And>s. R s \<Longrightarrow> Q s" "\<And>x. sends R (f x) Q"
  shows "sends P (bnd (outcome_of m) f) Q"
  using assms unfolding sends_def outcome_of_def bnd_def
  by (auto split: prod.split result.split; metis snd_conv)

lemma sends_got:
  "(\<And>x. sends (\<lambda>s. P s \<and> h s = x) (f x) Q) \<Longrightarrow> sends P (bnd (get h) f) Q"
  by (auto simp: sends_def bnd_def get_def)

lemma sends_upd: "(\<And>s. P s \<Longrightarrow> R (g s)) \<Longrightarrow> (\<And>x. sends R (f x) Q) \<Longrightarrow> sends P (bnd (upd g) f) Q"
  by (auto simp: sends_def bnd_def upd_def)

lemma sends_if: "sends (\<lambda>s. P s \<and> b) m Q \<Longrightarrow> sends (\<lambda>s. P s \<and> \<not> b) n Q \<Longrightarrow> sends P (if b then m else n) Q"
  by (simp add: sends_def)

lemma sends_either: "sends P m Q \<Longrightarrow> sends P n Q \<Longrightarrow> sends P (if b then m else n) Q"
  by simp

lemma sends_prod: "(\<And>a b. sends P (f a b) Q) \<Longrightarrow> sends P (case p of (a, b) \<Rightarrow> f a b) Q"
  by (cases p) simp

lemma sends_option:
  "(x = None \<Longrightarrow> sends P m Q) \<Longrightarrow> (\<And>a. x = Some a \<Longrightarrow> sends P (f a) Q)
   \<Longrightarrow> sends P (case x of None \<Rightarrow> m | Some a \<Rightarrow> f a) Q"
  by (cases x) simp_all

lemma sends_ret: "(\<And>s. P s \<Longrightarrow> Q s) \<Longrightarrow> sends P (ret x) Q"
  by (simp add: sends_def ret_def)

section \<open>What actions return\<close>

text \<open>What every value an action returns satisfies.\<close>

definition yields :: "('a \<Rightarrow> bool) \<Rightarrow> ('s, 'e, 'a) effect \<Rightarrow> bool" where
  "yields Q m \<longleftrightarrow> (\<forall>s x t. m s = (Returned x, t) \<longrightarrow> Q x)"

named_theorems returns \<open>rules for the values an action returns\<close>

lemma yieldsD: "yields Q m \<Longrightarrow> m s = (Returned x, t) \<Longrightarrow> Q x"
  by (auto simp: yields_def)

lemma yields_after: "yields R m \<Longrightarrow> (\<And>x. R x \<Longrightarrow> yields Q (f x)) \<Longrightarrow> yields Q (bnd m f)"
  unfolding yields_def bnd_def by (fastforce split: prod.splits result.splits)

lemma yields_bnd [returns]: "(\<And>x. yields Q (f x)) \<Longrightarrow> yields Q (bnd m f)"
  by (rule yields_after [of "\<lambda>_. True"]) (simp_all add: yields_def)

lemma yields_simple [returns]: "Q x \<Longrightarrow> yields Q (ret x)" "yields Q (throw e)" "(\<And>s. Q (h s)) \<Longrightarrow> yields Q (get h)"
  by (simp_all add: yields_def ret_def throw_def get_def)

lemma yields_check: "yields (\<lambda>_. b) (check b e)"
  by (simp add: check_def returns)

lemma yields_lift: "yields (\<lambda>x. r = Inr x) (lift r)"
  by (cases r) (simp_all add: lift_def returns)

lemma yields_if [returns]: "(b \<Longrightarrow> yields Q m) \<Longrightarrow> (\<not> b \<Longrightarrow> yields Q n) \<Longrightarrow> yields Q (if b then m else n)"
  by simp

lemma yields_prod [returns]: "(\<And>a b. yields Q (f a b)) \<Longrightarrow> yields Q (case p of (a, b) \<Rightarrow> f a b)"
  by (cases p) simp

lemma yields_sum [returns]:
  "(\<And>a. yields Q (g a)) \<Longrightarrow> (\<And>b. yields Q (h b)) \<Longrightarrow> yields Q (case x of Inl a \<Rightarrow> g a | Inr b \<Rightarrow> h b)"
  by (cases x) simp_all

lemma yields_outcome: "yields Q m \<Longrightarrow> yields (\<lambda>r. \<forall>x. r = Inr x \<longrightarrow> Q x) (outcome_of m)"
  unfolding yields_def outcome_of_def by (fastforce split: prod.splits result.splits)

lemma yields_sum_of:
  "(\<And>a. x = Inl a \<Longrightarrow> yields Q (g a)) \<Longrightarrow> (\<And>b. x = Inr b \<Longrightarrow> yields Q (h b))
   \<Longrightarrow> yields Q (case x of Inl a \<Rightarrow> g a | Inr b \<Rightarrow> h b)"
  by (cases x) simp_all

lemma yields_never: "yields (\<lambda>_. False) m \<Longrightarrow> yields Q m"
  by (simp add: yields_def)

section \<open>Running actions\<close>

lemma bnd_runs:
  "bnd (ret x) fa s = fa x s" "bnd (get h) fb s = fb (h s) s" "bnd (upd g) fc s = fc () (g s)"
  "bnd (lift (Inr y)) fd s = fd y s" "bnd (lift (Inl e)) fe s = (Failed e, s)" "bnd (throw e) ff s = (Failed e, s)"
  by (simp_all add: bnd_def ret_def get_def upd_def lift_def throw_def)

lemma bnd_step:
  "m s = (Returned x, t) \<Longrightarrow> bnd m f s = f x t"
  "m s = (Failed e, t) \<Longrightarrow> bnd m f s = (Failed e, t)"
  "m s = (Failed e, t) \<Longrightarrow> bnd (outcome_of m) g s = g (Inl e) t"
  "m s = (Returned x, t) \<Longrightarrow> bnd (outcome_of m) g s = g (Inr x) t"
  by (simp_all add: bnd_def outcome_of_def)

lemma bnd_returned: "bnd m f s = (Returned y, u) \<longleftrightarrow> (\<exists>x t. m s = (Returned x, t) \<and> f x t = (Returned y, u))"
  by (auto simp: bnd_def split: prod.split result.split)

lemma lift_returned: "lift r s = (Returned x, t) \<longleftrightarrow> r = Inr x \<and> t = s"
  by (cases r) (auto simp: lift_def throw_def ret_def)

lemma check_returned: "check b e s = (Returned x, t) \<longleftrightarrow> b \<and> t = s"
  by (auto simp: check_def throw_def ret_def)

lemma get_returned: "get h s = (Returned x, t) \<longleftrightarrow> x = h s \<and> t = s"
  by (auto simp: get_def)

lemma ret_returned: "ret y s = (Returned x, t) \<longleftrightarrow> x = y \<and> t = s"
  by (auto simp: ret_def)

lemma outcome_returned_Inr: "outcome_of m s = (Returned (Inr x), t) \<longleftrightarrow> m s = (Returned x, t)"
  by (auto simp: outcome_of_def split: prod.split result.split)

section \<open>Actions that always finish\<close>

definition finishes :: "('s, 'e, 'a) effect \<Rightarrow> bool" where
  "finishes m \<longleftrightarrow> (\<forall>s. fst (m s) \<noteq> Unfinished)"

named_theorems finishing \<open>actions that never stop for want of loop rounds\<close>

lemma finishesI: "(\<And>s. fst (m s) \<noteq> Unfinished) \<Longrightarrow> finishes m"
  by (simp add: finishes_def)

lemma finishesD: "finishes m \<Longrightarrow> fst (m s) \<noteq> Unfinished"
  by (simp add: finishes_def)

lemma finishes_simple [finishing]:
  "finishes (ret x)" "finishes (throw e)" "finishes (get h)" "finishes (upd g)"
  by (simp_all add: finishes_def ret_def throw_def get_def upd_def)

lemma finishes_bnd [finishing]: "finishes m \<Longrightarrow> (\<And>x. finishes (f x)) \<Longrightarrow> finishes (bnd m f)"
  unfolding finishes_def bnd_def by (auto split: prod.split result.split) (metis fst_conv)

lemma finishes_outcome [finishing]: "finishes m \<Longrightarrow> finishes (outcome_of m)"
  unfolding finishes_def outcome_of_def by (auto split: prod.split result.split) (metis fst_conv)

lemma finishes_lift [finishing]: "finishes (lift r)"
  by (cases r) (simp_all add: lift_def finishing)

lemma finishes_check [finishing]: "finishes (check b e)"
  by (simp add: check_def finishing)

lemma finishes_if [finishing]: "finishes m \<Longrightarrow> finishes n \<Longrightarrow> finishes (if b then m else n)"
  by simp

lemma finishes_whenever [finishing]: "finishes m \<Longrightarrow> finishes (whenever b m)"
  by (simp add: whenever_def finishing)

lemma finishes_prod [finishing]: "(\<And>a b. finishes (f a b)) \<Longrightarrow> finishes (case p of (a, b) \<Rightarrow> f a b)"
  by (cases p) simp

lemma finishes_sum [finishing]:
  "(\<And>a. finishes (g a)) \<Longrightarrow> (\<And>b. finishes (h b)) \<Longrightarrow> finishes (case x of Inl a \<Rightarrow> g a | Inr b \<Rightarrow> h b)"
  by (cases x) simp_all

end
