(* ===== verification/Session_Core.thy ===== *)
theory Session_Core imports Action Recovery Cooling Usb_Peripherals Usb_Target Worker begin

text \<open>
  The state of a camera session (\<open>Session\<close> of \<open>crates/regain-core/src/session.rs\<close>) and the actions
  its operations are made of.

  An operation is a state transformer with three outcomes: it returned a value, it failed with an
  error (what \<open>?\<close> propagates), or it was still looping when the loop bound of the environment was
  used up. The environment is a script indexed by a step counter: clock readings, cancellation of
  the caller's token, worker replies, spawned process ids, outputs of the USB helper, and what the
  frontends do between two steps of the owner (queued controls, cooler requests, live options,
  acknowledgements, transfer records on the worker's standard error). Everything the session makes
  happen outside is recorded in \<open>ss_trace\<close>. Log messages are not modelled.

  The mutable variables that \<open>capture\<close> lends to the operations below it (\<open>settings\<close>, \<open>prior\<close>, \<open>power\<close>,
  \<open>usb_resets\<close>, \<open>start_dispatched\<close>) are the fields \<open>lc_...\<close>, since they keep their updates when an
  operation fails.
\<close>

datatype session_event =
    EvSpawn bool
  | EvCall string json
  | EvKill
  | EvUsbCommand "string list"

datatype frontend_op =
    FQueueControl int int
  | FSubmitCooling int int nat
  | FCancelCooling nat
  | FReceiptDeadline nat
  | FRuntimeOptions runtime_options
  | FAcknowledge acknowledgement
  | FTransferRecord string string

record environment =
  en_now :: "nat \<Rightarrow> nat"
  en_utc :: "nat \<Rightarrow> int"
  en_cancelled :: "nat \<Rightarrow> bool"
  en_reply :: "nat \<Rightarrow> error + (json \<times> nat list)"
  en_spawn :: "nat \<Rightarrow> error + nat option"
  en_usb_command :: "nat \<Rightarrow> error + string"
  en_frontend :: "nat \<Rightarrow> frontend_op list"
  en_target :: "nat list \<Rightarrow> usb_target option"
  en_from_str :: "string \<Rightarrow> json option"
  en_simulate :: bool
  en_windows :: bool
  en_loop_bound :: nat

record session =
  ss_env :: environment
  ss_tick :: nat
  ss_trace :: "session_event list"
  ss_wheel_expected :: "json option"
  ss_status :: status
  ss_selection :: selection
  ss_worker :: "nat option option"
  ss_direct :: bool
  ss_ever_opened :: bool
  ss_applied :: "(int, int) btree"
  ss_recovery_temperature :: "rat option"
  ss_recovery_power :: "int option"
  ss_recovery_target :: "int option"
  ss_settle_required :: bool
  ss_cooling_seeded :: bool
  ss_usb_target :: "string option"
  ss_cooling :: mailbox
  ss_runtime_options :: runtime_options
  ss_applied_runtime_options :: "runtime_options option"
  ss_reconnect_not_before :: "nat option"
  ss_connection_failures :: nat
  ss_outage_usb_reset :: bool
  ss_peripherals :: peripherals
  lc_settings :: "(int, int) btree"
  lc_prior :: "rat option"
  lc_power :: "int option"
  lc_usb_resets :: nat
  lc_start_dispatched :: bool

text \<open>\<open>Session::new\<close>; \<open>g\<close> is the generation number of the peripheral fence.\<close>

definition session_new :: "environment \<Rightarrow> nat \<Rightarrow> selection \<Rightarrow> error + session" where
  "session_new env g sel = and_then (recovery_validate (sl_recovery sel)) (\<lambda>_. Inr
     \<lparr>ss_env = env, ss_tick = 0, ss_trace = [], ss_wheel_expected = None, ss_status = default_status,
      ss_selection = sel, ss_worker = None, ss_direct = sl_direct sel, ss_ever_opened = False, ss_applied = [],
      ss_recovery_temperature = None, ss_recovery_power = None, ss_recovery_target = None,
      ss_settle_required = False, ss_cooling_seeded = False, ss_usb_target = None,
      ss_cooling = mailbox_default, ss_runtime_options = from_recovery (sl_recovery sel),
      ss_applied_runtime_options = None, ss_reconnect_not_before = None, ss_connection_failures = 0,
      ss_outage_usb_reset = False, ss_peripherals = peripherals_new g,
      lc_settings = [], lc_prior = None, lc_power = None, lc_usb_resets = 0, lc_start_dispatched = False\<rparr>)"

type_synonym 'a act = "(session, 'a) action"

text \<open>Loops of the session may run the number of rounds its environment grants.\<close>

definition looping :: "('a \<Rightarrow> ('a + 'b) act) \<Rightarrow> 'a \<Rightarrow> 'b act" where
  "looping body x = bnd (get (\<lambda>s. en_loop_bound (ss_env s))) (\<lambda>n. iterate n body x)"

section \<open>Frontends between the steps\<close>

definition queue_control :: "int \<Rightarrow> int \<Rightarrow> status \<Rightarrow> (error + unit) \<times> status" where
  "queue_control kind v st =
     (if st_white_balance st \<noteq> None \<and> kind \<in> {3, 4, 9}
      then (Inl (invalid ''WB and flip controls are owned by managed white balance''), st)
      else case bt_get (st_controls st) kind of
        None \<Rightarrow> (Inl (invalid (''Control '' @ show_int kind @ '' unavailable'')), st)
      | Some cap \<Rightarrow>
          if \<not> (ct_writable cap \<and> ct_min cap \<le> v \<and> v \<le> ct_max cap)
          then (Inl (invalid (''Control '' @ show_int kind @ '' must be writable and between ''
                  @ show_int (ct_min cap) @ '' and '' @ show_int (ct_max cap))), st)
          else if kind \<notin> set persistent_controls
          then (Inl (invalid ''Control is not a persistent imaging setting''), st)
          else (Inr (), st\<lparr>st_values := bt_insert kind v (st_values st)\<rparr>))"

definition set_last_failure :: "string \<Rightarrow> status \<Rightarrow> status" where
  "set_last_failure message st = st\<lparr>st_retry := (st_retry st)\<lparr>rs_last_failure := Some message\<rparr>\<rparr>"

text \<open>The log callback that \<open>Session::new\<close> installs: transfer retries show up in the status.\<close>

definition observe_record :: "(string \<Rightarrow> json option) \<Rightarrow> string \<Rightarrow> string \<Rightarrow> status \<Rightarrow> status" where
  "observe_record from_str event message st =
     (if event \<in> {''transfer.retry'', ''transfer.exhausted''}
         \<and> none_or (diagnostic_record from_str message) (\<lambda>r. jget r ''flightRecorderBatch'' = None)
         \<and> st_phase st \<in> {''Starting exposure'', ''Exposing'', ''Downloading''}
      then
        let st = (if event = ''transfer.retry''
              then st\<lparr>st_retry := (st_retry st)\<lparr>rs_usb_reads := sat_add 32 (rs_usb_reads (st_retry st)) 1\<rparr>\<rparr>
              else st)
        in set_last_failure (diagnostic_message from_str message) st
      else st)"

definition frontend_step :: "nat \<Rightarrow> frontend_op \<Rightarrow> session \<Rightarrow> session" where
  "frontend_step now op s =
     (case op of
        FQueueControl kind v \<Rightarrow> s\<lparr>ss_status := snd (queue_control kind v (ss_status s))\<rparr>
      | FSubmitCooling kind v timeout \<Rightarrow>
          s\<lparr>ss_cooling := snd (submit (ss_status s) kind v timeout now (ss_cooling s))\<rparr>
      | FCancelCooling i \<Rightarrow> s\<lparr>ss_cooling := cancel_queued i (ss_cooling s)\<rparr>
      | FReceiptDeadline i \<Rightarrow> s\<lparr>ss_cooling := snd (receipt_wait i True (ss_cooling s))\<rparr>
      | FRuntimeOptions r \<Rightarrow> s\<lparr>ss_runtime_options := snd (update_runtime r (ss_runtime_options s))\<rparr>
      | FAcknowledge a \<Rightarrow> s\<lparr>ss_peripherals := snd (acknowledge now a (ss_peripherals s))\<rparr>
      | FTransferRecord event message \<Rightarrow>
          s\<lparr>ss_status := observe_record (en_from_str (ss_env s)) event message (ss_status s)\<rparr>)"

text \<open>One step of the script: its index, after the frontends have acted.\<close>

definition tick :: "nat act" where
  "tick s = (let n = ss_tick s; env = ss_env s in
     (Returned n, fold (frontend_step (en_now env n)) (en_frontend env n) (s\<lparr>ss_tick := Suc n\<rparr>)))"

definition now :: "nat act" where
  "now = bnd tick (\<lambda>n. get (\<lambda>s. en_now (ss_env s) n))"

definition utc :: "int act" where
  "utc = bnd tick (\<lambda>n. get (\<lambda>s. en_utc (ss_env s) n))"

text \<open>\<open>tok\<close> tells the caller's token from a fresh one, which nobody can cancel.\<close>

definition is_cancelled :: "bool \<Rightarrow> bool act" where
  "is_cancelled tok = (if tok then bnd tick (\<lambda>n. get (\<lambda>s. en_cancelled (ss_env s) n)) else ret False)"

definition emit :: "session_event \<Rightarrow> unit act" where
  "emit e = upd (\<lambda>s. s\<lparr>ss_trace := ss_trace s @ [e]\<rparr>)"

definition cancelled_error :: error where
  "cancelled_error = EFailure Cancelled"

definition pause :: "bool \<Rightarrow> rat \<Rightarrow> unit act" where
  "pause tok seconds =
     bnd (is_cancelled tok) (\<lambda>c. if c then throw cancelled_error else bnd tick (\<lambda>_. ret ()))"

definition disconnected :: error where
  "disconnected = EOther ''Camera worker is disconnected''"

text \<open>A command handed to the worker process.\<close>

definition worker_call :: "string \<Rightarrow> json \<Rightarrow> (json \<times> nat list) act" where
  "worker_call method params =
     bnd (get ss_worker) (\<lambda>w.
     bnd (check (w \<noteq> None) disconnected) (\<lambda>_.
     bnd (emit (EvCall method params)) (\<lambda>_.
     bnd tick (\<lambda>n.
     bnd (get (\<lambda>s. en_reply (ss_env s) n)) lift))))"

definition usb_command :: "string list \<Rightarrow> string act" where
  "usb_command args =
     bnd (get (\<lambda>s. en_simulate (ss_env s))) (\<lambda>sim.
     bnd (check (\<not> sim) (EOther ''Simulation must not launch USB recovery helpers'')) (\<lambda>_.
     bnd (emit (EvUsbCommand args)) (\<lambda>_.
     bnd tick (\<lambda>n.
     bnd (get (\<lambda>s. en_usb_command (ss_env s) n)) lift))))"

section \<open>Status updates\<close>

definition on_status :: "(status \<Rightarrow> status) \<Rightarrow> unit act" where
  "on_status f = upd (\<lambda>s. s\<lparr>ss_status := f (ss_status s)\<rparr>)"

definition set_phase :: "string \<Rightarrow> unit act" where
  "set_phase p = on_status (\<lambda>st. st\<lparr>st_phase := p\<rparr>)"

definition recovery :: "session \<Rightarrow> recovery_options" where
  "recovery s = sl_recovery (ss_selection s)"

end
