(* ===== verification/Session_Control.thy ===== *)
theory Session_Control imports Session_Core begin

text \<open>
  The controls of a camera session (\<open>crates/regain-core/src/session.rs\<close>): calls to the worker with
  live options, retiring the worker, writing a control with its readback, the cooler mailbox served
  by the owner, desired settings, environment readings, managed white balance, the shared filter
  wheel. Deadlines are instants in nanoseconds, as in the rest of the development.
\<close>

section \<open>Calls\<close>

definition sync_runtime_options :: "unit act" where
  "sync_runtime_options =
     bnd (get ss_runtime_options) (\<lambda>options.
     bnd (get ss_applied_runtime_options) (\<lambda>applied.
     whenever (applied \<noteq> Some options)
       (bnd (worker_call ''runtime-options'' (runtime_value options)) (\<lambda>_.
        upd (\<lambda>s. s\<lparr>ss_selection := (ss_selection s)\<lparr>sl_recovery := apply_runtime options (recovery s)\<rparr>,
                   ss_applied_runtime_options := Some options\<rparr>)))))"

definition session_call :: "string \<Rightarrow> json \<Rightarrow> (json \<times> nat list) act" where
  "session_call method params =
     bnd (whenever (method \<noteq> ''open'') sync_runtime_options) (\<lambda>_. worker_call method params)"

section \<open>Retiring the worker\<close>

definition tenth :: "int \<Rightarrow> rat" where
  "tenth v = fdiv (int_as_f64 v) 10"

definition lost_wheel :: json where
  "lost_wheel = JObj [(''moving'', JBool True), (''position'', JInt (- 1)), (''verified'', JBool False)]"

definition first_some :: "'a option \<Rightarrow> 'a option \<Rightarrow> 'a option" where
  "first_some a b = (case a of Some x \<Rightarrow> Some x | None \<Rightarrow> b)"

text \<open>What a lost worker leaves behind for the restoration: last temperature, power and target.\<close>

definition remember_cooling :: "session \<Rightarrow> session" where
  "remember_cooling s =
     (if ss_ever_opened s \<and> \<not> ss_settle_required s
      then s\<lparr>ss_recovery_temperature := map_option tenth (bt_get (st_values (ss_status s)) 8),
             ss_recovery_power := bt_get (st_values (ss_status s)) 15,
             ss_recovery_target := first_some (bt_get (ss_applied s) 16) (bt_get (st_values (ss_status s)) 16),
             ss_settle_required := True\<rparr>
      else s)"

definition invalidate :: "unit act" where
  "invalidate =
     bnd (upd (\<lambda>s. s\<lparr>ss_cooling := retire (ss_cooling s)\<rparr>)) (\<lambda>_.
     bnd (upd remember_cooling) (\<lambda>_.
     bnd (on_status (\<lambda>st. st\<lparr>st_control_connection_available := False\<rparr>)) (\<lambda>_.
     bnd (get (\<lambda>s. ss_wheel_expected s \<noteq> None)) (\<lambda>wheel.
     bnd (whenever wheel (on_status (\<lambda>st. st\<lparr>st_filter_wheel := lost_wheel\<rparr>))) (\<lambda>_.
     bnd (get ss_worker) (\<lambda>w.
     bnd (whenever (w \<noteq> None)
        (bnd (upd (\<lambda>s. s\<lparr>ss_worker := None\<rparr>)) (\<lambda>_. bnd (emit EvKill) (\<lambda>_. bnd tick (\<lambda>_. ret ()))))) (\<lambda>_.
     on_status (\<lambda>st. st\<lparr>st_process_id := None\<rparr>))))))))"

definition connection_failed :: "unit act" where
  "connection_failed =
     bnd now (\<lambda>t.
     upd (\<lambda>s. s\<lparr>ss_connection_failures := sat_add 32 (ss_connection_failures s) 1,
                ss_reconnect_not_before := Some (t + from_secs_f64 (Fin (ro_reconnect_delay_seconds (recovery s))))\<rparr>))"

definition reconnect_delay :: "bool \<Rightarrow> unit act" where
  "reconnect_delay tok =
     bnd (set_phase ''Reconnect delay'') (\<lambda>_.
     bnd now (\<lambda>t.
     bnd (get (\<lambda>s. case ss_reconnect_not_before s of
             Some until \<Rightarrow> as_secs_f64 (until - t)
           | None \<Rightarrow> ro_reconnect_delay_seconds (recovery s))) (\<lambda>seconds.
     pause tok seconds)))"

definition fall_back :: "string \<Rightarrow> bool \<Rightarrow> unit act" where
  "fall_back reason tok =
     bnd (on_status (set_last_failure reason)) (\<lambda>_.
     bnd invalidate (\<lambda>_.
     bnd (upd (\<lambda>s. s\<lparr>ss_direct := False\<rparr>)) (\<lambda>_.
     bnd (set_phase ''SDK fallback reconnect delay'') (\<lambda>_.
     bnd (get (\<lambda>s. ro_reconnect_delay_seconds (recovery s))) (pause tok)))))"

section \<open>Writing a control\<close>

text \<open>\<open>serde_json::from_value::<ControlObservationReply>\<close>: exactly the two fields.\<close>

definition observation_from_value :: "json \<Rightarrow> observation_reply option" where
  "observation_from_value v =
     (case v of
        JObj m \<Rightarrow>
          (if set (map fst m) \<subseteq> {''value'', ''ageSeconds''}
           then case (Option.bind (bt_get m ''value'') as_i64, Option.bind (bt_get m ''ageSeconds'') as_f64) of
               (Some value, Some age) \<Rightarrow> Some \<lparr>or_value = value, or_age_seconds = Fin age\<rparr>
             | _ \<Rightarrow> None
           else None)
      | _ \<Rightarrow> None)"

definition write_params :: "int \<Rightarrow> int \<Rightarrow> json" where
  "write_params kind v = JObj [(''control'', JInt kind), (''value'', JInt v)]"

definition control_params :: "int \<Rightarrow> json" where
  "control_params kind = JObj [(''control'', JInt kind)]"

definition readback_observation :: "int \<Rightarrow> nat \<Rightarrow> json \<Rightarrow> error + control_observation" where
  "readback_observation kind request_started reply =
     (if kind \<in> set acknowledged_controls
      then and_then (ok_or (observation_from_value reply) (invalid ''Invalid control readback''))
             (\<lambda>r. normalize_observation r request_started)
      else and_then (ok_or (as_i64 reply) (invalid ''Invalid control readback''))
             (\<lambda>v. Inr \<lparr>co_value = v, co_observed_at = request_started\<rparr>))"

text \<open>A readback that differs is only accepted as the offset clamp of the SDK.\<close>

definition readback_accepted :: "bool \<Rightarrow> bool \<Rightarrow> int \<Rightarrow> int \<Rightarrow> control option \<Rightarrow> int \<Rightarrow> bool" where
  "readback_accepted allow_clamp direct kind v cap actual \<longleftrightarrow>
     actual = v
     \<or> allow_clamp \<and> \<not> direct \<and> kind = 5 \<and> some_and cap (\<lambda>c. ct_min c \<le> actual \<and> actual \<le> ct_max c)"

text \<open>The part of \<open>write_control\<close> after the write was acknowledged.\<close>

definition read_back :: "int \<Rightarrow> int \<Rightarrow> nat \<Rightarrow> bool \<Rightarrow> control_observation act" where
  "read_back kind v deadline allow_clamp =
     bnd now (\<lambda>t.
     bnd (check (0 < as_secs_f64 (deadline - t)) (EOther ''Control deadline expired before readback'')) (\<lambda>_.
     bnd now (\<lambda>request_started.
     bnd (worker_call (if kind \<in> set acknowledged_controls then ''get-observation'' else ''get'')
            (control_params kind)) (\<lambda>(reply, _).
     bnd (lift (readback_observation kind request_started reply)) (\<lambda>observation.
     bnd (get (\<lambda>s. readback_accepted allow_clamp (ss_direct s) kind v
            (bt_get (st_controls (ss_status s)) kind) (co_value observation))) (\<lambda>accepted.
     bnd (check accepted (EOther ''Control readback differs from request'')) (\<lambda>_.
     bnd now (\<lambda>t.
     bnd (check (t < deadline) (EOther ''Control readback exceeded its deadline'')) (\<lambda>_.
     ret observation)))))))))"

definition failure_code :: "error \<Rightarrow> int option" where
  "failure_code e = (case e of
       EFailure (Worker _ code) \<Rightarrow> code
     | EFailure (UncertainControl _ code) \<Rightarrow> code
     | _ \<Rightarrow> None)"

definition write_error :: "bool \<Rightarrow> error \<Rightarrow> cooling_error" where
  "write_error set_acknowledged e =
     (if \<not> set_acknowledged \<and> e = ECooling Expired then Expired
      else if \<not> set_acknowledged \<and> e = EFailure Cancelled then CoolCancelled
      else Uncertain (error_display e) (failure_code e))"

definition write_control :: "int \<Rightarrow> int \<Rightarrow> nat \<Rightarrow> bool \<Rightarrow> (cooling_error + control_observation) act" where
  "write_control kind v deadline allow_clamp =
     bnd (outcome_of (worker_call ''set'' (write_params kind v))) (\<lambda>r. case r of
         Inl e \<Rightarrow> ret (Inl (write_error False e))
       | Inr _ \<Rightarrow>
           bnd (outcome_of (read_back kind v deadline allow_clamp)) (\<lambda>r.
           ret (map_sum (write_error True) id r)))"

definition control_result :: "cooling_error + control_observation \<Rightarrow> control_observation act" where
  "control_result r = (case r of
       Inl (Uncertain message code) \<Rightarrow> bnd invalidate (\<lambda>_. throw (EFailure (UncertainControl message code)))
     | Inl CoolCancelled \<Rightarrow> bnd invalidate (\<lambda>_. throw cancelled_error)
     | Inl e \<Rightarrow> throw (ECooling e)
     | Inr observation \<Rightarrow> ret observation)"

section \<open>The cooler mailbox\<close>

definition command_deadline :: "nat \<Rightarrow> nat act" where
  "command_deadline deadline =
     bnd now (\<lambda>t. get (\<lambda>s. min deadline (t + from_secs_f64 (Fin (ro_command_timeout_seconds (recovery s))))))"

text \<open>\<open>mailbox.finish\<close> with a commit that changes the rest of the session.\<close>

definition finish_request :: "nat \<Rightarrow> cool_outcome \<Rightarrow> (session \<Rightarrow> session) \<Rightarrow> cool_outcome act" where
  "finish_request i r commit =
     bnd now (\<lambda>t s. case finish i t r commit (ss_cooling s) s of
        (r', m', s') \<Rightarrow> (Returned r', s'\<lparr>ss_cooling := m'\<rparr>))"

definition commit_cooling :: "int \<Rightarrow> int \<Rightarrow> control_observation option \<Rightarrow> session \<Rightarrow> session" where
  "commit_cooling kind v observation s =
     (let st = ss_status s;
          st = st\<lparr>st_values := bt_insert kind v (st_values st)\<rparr>;
          st = (case observation of None \<Rightarrow> st
                | Some o' \<Rightarrow> st\<lparr>st_observations := bt_insert kind o' (st_observations st)\<rparr>)
      in s\<lparr>ss_applied := bt_insert kind v (ss_applied s),
           lc_settings := bt_insert kind v (lc_settings s), ss_status := st\<rparr>)"

definition ok_option :: "'e + 'a \<Rightarrow> 'a option" where
  "ok_option r = (case r of Inl _ \<Rightarrow> None | Inr x \<Rightarrow> Some x)"

definition serve_request :: "nat \<Rightarrow> int \<Rightarrow> int \<Rightarrow> nat \<Rightarrow> unit act" where
  "serve_request i kind v deadline =
     bnd now (\<lambda>t s. case dispatch i t (ss_cooling s) of (d, m) \<Rightarrow>
       (if \<not> d then ret () else
        bnd (write_control kind v deadline False) (\<lambda>r.
        bnd (finish_request i (map_sum id co_value r) (commit_cooling kind v (ok_option r))) (\<lambda>r.
        case r of
          Inl (Uncertain m c) \<Rightarrow> bnd (control_result (Inl (Uncertain m c))) (\<lambda>_. ret ())
        | Inl CoolCancelled \<Rightarrow> throw cancelled_error
        | _ \<Rightarrow> ret ()))) (s\<lparr>ss_cooling := m\<rparr>))"

definition service_cooling :: "bool \<Rightarrow> unit act" where
  "service_cooling tok =
     bnd now (\<lambda>t.
     bnd (\<lambda>s. case claim t (ss_cooling s) of (c, m) \<Rightarrow>
            (Returned (Option.bind c (\<lambda>i. map_option (Pair i) (mb_store m i))), s\<lparr>ss_cooling := m\<rparr>)) (\<lambda>claimed.
     case claimed of
       None \<Rightarrow> ret ()
     | Some (i, q) \<Rightarrow>
         bnd (command_deadline (rq_deadline q)) (\<lambda>deadline.
         bnd (get (\<lambda>s. cooling_validate (ss_status s) (rq_kind q) (rq_value q))) (\<lambda>valid. case valid of
           Inl e \<Rightarrow> bnd (finish_request i (Inl e) id) (\<lambda>_. ret ())
         | Inr _ \<Rightarrow>
             bnd (is_cancelled tok) (\<lambda>c.
             if c then bnd (finish_request i (Inl CoolCancelled) id) (\<lambda>_. throw cancelled_error)
             else
               bnd now (\<lambda>t.
               if as_secs_f64 (deadline - t) = 0
               then bnd (finish_request i (Inl Expired) id) (\<lambda>_. ret ())
               else serve_request i (rq_kind q) (rq_value q) deadline))))))"

section \<open>Settings\<close>

text \<open>The desired persistent controls, in order of their kind.\<close>

definition session_settings :: "session \<Rightarrow> (int, int) btree" where
  "session_settings s =
     (let st = ss_status s in
      filter (\<lambda>(k, _).
          (st_white_balance st = None \<or> k \<notin> {3, 4, 9})
          \<and> some_and (bt_get (st_controls st) k) (\<lambda>c. ct_writable c \<or> k = 6)
          \<and> k \<in> set persistent_controls)
        (st_values st))"

text \<open>\<open>service_cooling\<close> on its own temporary settings.\<close>

definition service_cooling_idle :: "bool \<Rightarrow> unit act" where
  "service_cooling_idle tok =
     bnd (upd (\<lambda>s. s\<lparr>lc_settings := session_settings s\<rparr>)) (\<lambda>_. service_cooling tok)"

definition record_applied :: "int \<Rightarrow> control_observation \<Rightarrow> session \<Rightarrow> session" where
  "record_applied kind observation s =
     s\<lparr>ss_applied := bt_insert kind (co_value observation) (ss_applied s),
       ss_status := (ss_status s)\<lparr>st_observations := bt_insert kind observation (st_observations (ss_status s))\<rparr>\<rparr>"

definition adopt_clamped :: "int \<Rightarrow> int \<Rightarrow> int \<Rightarrow> session \<Rightarrow> session" where
  "adopt_clamped kind v actual s =
     (let s = s\<lparr>lc_settings := bt_insert kind actual (lc_settings s)\<rparr>; st = ss_status s in
      if bt_get (st_values st) kind = Some v
      then s\<lparr>ss_status := st\<lparr>st_values := bt_insert kind actual (st_values st)\<rparr>\<rparr> else s)"

definition apply_one :: "int \<times> int \<Rightarrow> unit act" where
  "apply_one = (\<lambda>(kind, v).
     bnd (get (\<lambda>s. st_white_balance (ss_status s) \<noteq> None \<and> kind \<in> {3, 4, 9}
              \<or> bt_get (ss_applied s) kind = Some v)) (\<lambda>done.
     whenever (\<not> done)
       (bnd (get (\<lambda>s. bt_get (st_controls (ss_status s)) kind)) (\<lambda>cap.
        bnd (lift (ok_or cap (invalid (''Control '' @ show_int kind @ '' disappeared after reconnect'')))) (\<lambda>cap.
        if \<not> ct_writable cap
        then bnd (check (ct_value cap = v) (invalid (''Read-only control '' @ show_int kind @ '' changed'')))
               (\<lambda>_. upd (\<lambda>s. s\<lparr>ss_applied := bt_insert kind v (ss_applied s)\<rparr>))
        else
          bnd now (\<lambda>t.
          bnd (get (\<lambda>s. t + from_secs_f64 (Fin (ro_command_timeout_seconds (recovery s))))) (\<lambda>deadline.
          bnd (write_control kind v deadline True) (\<lambda>r.
          bnd (control_result r) (\<lambda>observation.
          let actual = co_value observation in
          bnd (whenever (actual \<noteq> v)
            (bnd (get ss_direct) (\<lambda>direct.
             bnd (check (\<not> direct \<and> kind = 5 \<and> ct_min cap \<le> actual \<and> actual \<le> ct_max cap)
               (EOther (''Control '' @ show_int kind @ '' readback '' @ show_int actual
                  @ '' differs from requested '' @ show_int v))) (\<lambda>_.
             upd (adopt_clamped kind v actual))))) (\<lambda>_.
          upd (record_applied kind observation)))))))))))"

definition resume_params :: "int \<Rightarrow> rat \<Rightarrow> int \<Rightarrow> json" where
  "resume_params demand temperature previous_target =
     JObj [(''power'', JInt demand), (''previousTarget'', JInt previous_target), (''temperature'', JFloat temperature)]"

definition resume_cooling :: "unit act" where
  "resume_cooling =
     bnd (get (\<lambda>s.
        if (ss_direct s \<or> as_bool (jindex (st_info (ss_status s)) ''hostRegulatedCooling'') = Some True)
           \<and> ss_settle_required s \<and> \<not> ss_cooling_seeded s
           \<and> some_and (bt_get (lc_settings s) 17) (\<lambda>v. v \<noteq> 0)
        then case (ss_recovery_power s, ss_recovery_temperature s) of
            (Some demand, Some temperature) \<Rightarrow> Some (resume_params demand temperature
               (case first_some (ss_recovery_target s) (bt_get (lc_settings s) 16) of Some v \<Rightarrow> v | None \<Rightarrow> 0))
          | _ \<Rightarrow> None
        else None)) (\<lambda>params. case params of
       None \<Rightarrow> ret ()
     | Some params \<Rightarrow>
         bnd (session_call ''resume-cooling'' params) (\<lambda>_. upd (\<lambda>s. s\<lparr>ss_cooling_seeded := True\<rparr>)))"

text \<open>Every known setting is restored, the cooler switch last.\<close>

definition apply_settings :: "unit act" where
  "apply_settings =
     bnd (get (\<lambda>s. sort_key (\<lambda>(k, _). if k = 17 then 100 else k) (lc_settings s))) (\<lambda>ordered.
     bnd (each apply_one ordered) (\<lambda>_. resume_cooling))"

section \<open>Environment readings\<close>

definition observe_control :: "int \<Rightarrow> control_observation act" where
  "observe_control kind =
     bnd now (\<lambda>request_started.
     bnd (session_call ''get-observation'' (control_params kind)) (\<lambda>(reply, pixels).
     bnd (check (pixels = []) (invalid ''Unexpected observation image payload'')) (\<lambda>_.
     bnd (lift (ok_or (observation_from_value reply) (invalid ''Invalid control observation''))) (\<lambda>r.
     lift (normalize_observation r request_started)))))"

definition record_observation :: "int \<Rightarrow> control_observation \<Rightarrow> status \<Rightarrow> status" where
  "record_observation kind observation st =
     st\<lparr>st_values := bt_insert kind (co_value observation) (st_values st),
        st_observations := bt_insert kind observation (st_observations st)\<rparr>"

definition read_environment_one :: "int \<Rightarrow> unit act" where
  "read_environment_one kind =
     bnd (get (\<lambda>s. bt_contains (st_controls (ss_status s)) kind)) (\<lambda>known.
     whenever known
       (bnd (observe_control kind) (\<lambda>observation. on_status (record_observation kind observation))))"

definition read_environment :: "(rat option \<times> int option) act" where
  "read_environment =
     bnd (each read_environment_one [8, 15]) (\<lambda>_.
     get (\<lambda>s. (map_option tenth (bt_get (st_values (ss_status s)) 8), bt_get (st_values (ss_status s)) 15)))"

text \<open>The error path of idle telemetry: it counts towards the outage and retires the worker.\<close>

definition telemetry_failed :: "bool \<Rightarrow> error \<Rightarrow> unit act" where
  "telemetry_failed tok e =
     bnd (is_cancelled tok) (\<lambda>c.
     bnd (whenever (retryable e \<and> \<not> c) connection_failed) (\<lambda>_.
     bnd invalidate (\<lambda>_. throw e)))"

definition controls_available :: "session \<Rightarrow> bool" where
  "controls_available s \<longleftrightarrow> st_connected (ss_status s) \<and> st_control_connection_available (ss_status s)
     \<and> ss_worker s \<noteq> None"

definition refresh_environment :: "bool \<Rightarrow> unit act" where
  "refresh_environment tok =
     bnd (get controls_available) (\<lambda>ready.
     bnd (check ready (invalid ''Camera controls are unavailable'')) (\<lambda>_.
     bnd (outcome_of read_environment) (\<lambda>r. case r of
       Inr _ \<Rightarrow> ret ()
     | Inl e \<Rightarrow> telemetry_failed tok e)))"

definition refresh :: "bool \<Rightarrow> unit act" where
  "refresh tok =
     bnd (get (\<lambda>s. ss_worker s \<noteq> None)) (\<lambda>ready.
     bnd (check ready (invalid ''Camera controls are unavailable; reconnection is deferred until capture'')) (\<lambda>_.
     bnd (outcome_of
        (bnd (upd (\<lambda>s. s\<lparr>lc_settings := session_settings s\<rparr>)) (\<lambda>_.
         bnd apply_settings (\<lambda>_. bnd read_environment (\<lambda>_. ret ()))))) (\<lambda>r. case r of
       Inr _ \<Rightarrow> ret ()
     | Inl e \<Rightarrow>
         bnd (is_cancelled tok) (\<lambda>c.
         bnd (whenever (\<not> c) (on_status (set_last_failure (error_display e)))) (\<lambda>_.
         telemetry_failed tok e)))))"

section \<open>Gain and offset while idle\<close>

definition set_imaging_control :: "int \<Rightarrow> int \<Rightarrow> nat \<Rightarrow> bool \<Rightarrow> int act" where
  "set_imaging_control kind v deadline tok =
     bnd (check (kind \<in> {0, 5}) (invalid ''Only gain and offset are supported'')) (\<lambda>_.
     bnd (get controls_available) (\<lambda>ready.
     bnd (check ready (invalid ''Camera controls are unavailable'')) (\<lambda>_.
     bnd (get (\<lambda>s. pending (ss_cooling s))) (\<lambda>busy.
     bnd (check (\<not> busy) (invalid ''A cooler command is pending'')) (\<lambda>_.
     bnd (get (\<lambda>s. bt_get (st_controls (ss_status s)) kind)) (\<lambda>cap.
     bnd (lift (ok_or cap (invalid ''Control is unavailable''))) (\<lambda>cap.
     bnd (check (ct_kind cap = kind \<and> ct_writable cap \<and> ct_min cap \<le> ct_max cap
            \<and> ct_min cap \<le> v \<and> v \<le> ct_max cap)
          (invalid ''Control value is outside writable capabilities'')) (\<lambda>_.
     bnd (is_cancelled tok) (\<lambda>c.
     bnd (check (\<not> c) cancelled_error) (\<lambda>_.
     bnd now (\<lambda>t.
     bnd (check (t < deadline) (ECooling Expired)) (\<lambda>_.
     bnd (command_deadline deadline) (\<lambda>deadline.
     bnd (write_control kind v deadline True) (\<lambda>r.
     bnd (control_result r) (\<lambda>observation.
     bnd (upd (\<lambda>s. s\<lparr>ss_applied := bt_insert kind (co_value observation) (ss_applied s),
                    ss_status := record_observation kind observation (ss_status s)\<rparr>)) (\<lambda>_.
     ret (co_value observation)))))))))))))))))"

section \<open>Managed white balance\<close>

definition set_white_balance :: "wb_settings \<Rightarrow> unit act" where
  "set_white_balance settings =
     bnd (lift (gains_validate (wb_gains settings))) (\<lambda>_.
     bnd (session_call ''white-balance'' (wb_value settings)) (\<lambda>(reply, _).
     bnd (lift (ok_or (wb_from_value (jindex reply ''settings'')) (EOther ''invalid settings''))) (\<lambda>effective.
     upd (\<lambda>s. s\<lparr>ss_status := (ss_status s)\<lparr>st_white_balance := Some effective\<rparr>,
                ss_applied := fold bt_remove [3, 4, 9] (ss_applied s)\<rparr>))))"

section \<open>Recovery seeds\<close>

definition seed_recovery :: "f64 option \<Rightarrow> int option \<Rightarrow> session \<Rightarrow> session" where
  "seed_recovery temperature demand s =
     s\<lparr>ss_recovery_temperature := Option.bind temperature (\<lambda>t. if f64_finite t then Some (f64_val t) else None),
       ss_recovery_power := demand, ss_settle_required := True\<rparr>"

definition seed_recovery_target :: "int option \<Rightarrow> session \<Rightarrow> session" where
  "seed_recovery_target target s =
     s\<lparr>ss_recovery_target := Option.bind target (\<lambda>v. if - 40 \<le> v \<and> v \<le> 30 then Some v else None)\<rparr>"

section \<open>The shared filter wheel\<close>

definition wheel_state :: "nat \<Rightarrow> nat \<Rightarrow> json" where
  "wheel_state slots position = JObj [(''position'', jnat position), (''slots'', jnat slots)]"

definition u64_where :: "(nat \<Rightarrow> bool) \<Rightarrow> json \<Rightarrow> nat option" where
  "u64_where p v = Option.bind (as_u64 v) (\<lambda>n. if p n then Some n else None)"

definition seed_filter_wheel :: "json \<Rightarrow> session \<Rightarrow> (error + unit) \<times> session" where
  "seed_filter_wheel expected s =
     (case and_then (ok_or (u64_where (\<lambda>n. 2 \<le> n \<and> n \<le> 16) (jindex expected ''slots''))
               (invalid ''Invalid wheel slot count'')) (\<lambda>slots.
           and_then (ok_or (u64_where (\<lambda>n. n < slots) (jindex expected ''position''))
               (invalid ''Invalid expected wheel position'')) (\<lambda>position.
           and_then (ensure (vendor (ss_selection s) = ''qhy'')
               (invalid ''Camera does not support a shared filter wheel'')) (\<lambda>_.
           Inr (wheel_state slots position)))) of
        Inl e \<Rightarrow> (Inl e, s)
      | Inr w \<Rightarrow> (Inr (), s\<lparr>ss_wheel_expected := Some w\<rparr>))"

definition serial_json :: "session \<Rightarrow> json" where
  "serial_json s = jopt JStr (sl_serial (ss_selection s))"

definition put_key :: "string \<Rightarrow> json \<Rightarrow> json \<Rightarrow> json" where
  "put_key k x v = (case jset k x v of Some w \<Rightarrow> w | None \<Rightarrow> v)"

text \<open>The validated geometry and position of a wheel reply (an object: its \<open>slots\<close> is a number).\<close>

definition wheel_geometry :: "json \<Rightarrow> error + (nat \<times> int)" where
  "wheel_geometry reply =
     and_then (ok_or (u64_where (\<lambda>n. 2 \<le> n \<and> n \<le> 16) (jindex reply ''slots'')) (invalid ''Invalid wheel geometry''))
       (\<lambda>slots.
     and_then (ok_or (Option.bind (as_i64 (jindex reply ''position''))
          (\<lambda>v. if - 1 \<le> v \<and> v < int slots then Some v else None)) (invalid ''Invalid wheel position''))
       (\<lambda>position. Inr (slots, position)))"

definition wheel_expectation :: "nat \<Rightarrow> int \<Rightarrow> json \<Rightarrow> json option \<Rightarrow> error + json" where
  "wheel_expectation slots position reply expected =
     (case expected of
        Some e \<Rightarrow> and_then (ensure (as_u64 (jindex e ''slots'') = Some slots)
                   (invalid ''Wheel geometry changed during recovery'')) (\<lambda>_. Inr e)
      | None \<Rightarrow> and_then (ensure (0 \<le> position \<and> as_bool (jindex reply ''moving'') = Some False)
                   (invalid ''Wheel must be stationary before connecting'')) (\<lambda>_. Inr (wheel_state slots (nat position))))"

definition wheel_moving :: json where
  "wheel_moving = JObj [(''moving'', JBool True), (''position'', JInt (- 1)), (''verified'', JBool False)]"

end
