(* ===== verification/Session_Connect.thy ===== *)
theory Session_Connect imports Session_Control begin

text \<open>
  Connecting, USB recovery and disconnecting of a camera session
  (\<open>crates/regain-core/src/session.rs\<close>): binding the physical device, the USB reset with its
  confirmation fence, opening a worker with its identity and geometry checks, connect, close, and
  the shared filter wheel that needs an open worker.
\<close>

section \<open>Binding the USB device\<close>

definition lower_char :: "char \<Rightarrow> char" where
  "lower_char c = (let n = char_code c in if 65 \<le> n \<and> n \<le> 90 then char_of (n + 32) else c)"

definition eq_ignore_case :: "string \<Rightarrow> string \<Rightarrow> bool" where
  "eq_ignore_case a b \<longleftrightarrow> map lower_char a = map lower_char b"

definition helper_lifetime :: "json \<Rightarrow> nat \<Rightarrow> bool" where
  "helper_lifetime status now_seconds =
     (case (jget status ''sessionScoped'', jget status ''expiresAtUnixSeconds'') of
        (None, Some expiry) \<Rightarrow>
          some_and (as_u64 expiry) (\<lambda>t. now_seconds < t \<and> t \<le> 253402300799)
      | (Some scoped, Some expiry) \<Rightarrow>
          if scoped = JBool True \<and> expiry = JNull then True
          else scoped = JBool False \<and> some_and (as_u64 expiry) (\<lambda>t. now_seconds < t \<and> t \<le> 253402300799)
      | _ \<Rightarrow> False)"

definition validate_usb_helper_status :: "json \<Rightarrow> nat \<Rightarrow> error + unit" where
  "validate_usb_helper_status status now_seconds =
     ensure (as_i64 (jindex status ''protocolVersion'') = Some 1
         \<and> as_bool (jindex status ''running'') = Some True
         \<and> as_bool (jindex status ''elevated'') = Some True
         \<and> as_bool (jindex status ''approved'') = Some True
         \<and> helper_lifetime status now_seconds)
       (EOther ''USB recovery helper is not ready for this camera. Disconnect and prepare the helper in camera setup before imaging; automatic recovery never requests elevation.'')"

definition check_usb_helper :: "string \<Rightarrow> unit act" where
  "check_usb_helper encoded =
     bnd (usb_command [''usb'', ''helper'', ''status'', encoded]) (\<lambda>reply.
     bnd (get (\<lambda>s. en_from_str (ss_env s) reply)) (\<lambda>status.
     bnd (lift (ok_or status (EOther ''Invalid USB helper status''))) (\<lambda>status.
     bnd utc (\<lambda>micros.
     lift (validate_usb_helper_status status (nat (max (micros div 1000000) 0)))))))"

definition bind_usb :: "bool \<Rightarrow> unit act" where
  "bind_usb tok =
     bnd (get (\<lambda>s. vendor (ss_selection s) = ''zwo'')) (\<lambda>zwo.
     bnd (check zwo (invalid ''Privileged USB reset is not yet validated for QHY; disable camera USB reset in setup'')) (\<lambda>_.
     bnd (is_cancelled tok) (\<lambda>c.
     bnd (check (\<not> c) cancelled_error) (\<lambda>_.
     bnd (get (\<lambda>s. en_simulate (ss_env s))) (\<lambda>sim.
     if sim then upd (\<lambda>s. s\<lparr>ss_usb_target := Some ''simulation''\<rparr>)
     else
       bnd (get ss_selection) (\<lambda>sel.
       bnd (lift (ok_or (sl_serial sel) (EOther ''USB recovery requires a camera serial''))) (\<lambda>serial.
       bnd (usb_command [''zwo'', ''camera-direct'', ''--usb-target'', sl_name sel, serial]) (\<lambda>encoded.
       bnd (get (\<lambda>s. target_decode (en_target (ss_env s)) encoded)) (\<lambda>target.
       bnd (lift target) (\<lambda>target.
       bnd (check (eq_ignore_case (tg_serial target) serial) (EOther ''USB recovery serial mismatch'')) (\<lambda>_.
       bnd (get (\<lambda>s. en_windows (ss_env s))) (\<lambda>windows.
       bnd (whenever windows (check_usb_helper encoded)) (\<lambda>_.
       upd (\<lambda>s. s\<lparr>ss_usb_target := Some encoded\<rparr>))))))))))))))"

section \<open>Resetting the USB device\<close>

definition with_peripherals :: "(peripherals \<Rightarrow> 'a \<times> peripherals) \<Rightarrow> 'a act" where
  "with_peripherals f s = (case f (ss_peripherals s) of (x, p) \<Rightarrow> (Returned x, s\<lparr>ss_peripherals := p\<rparr>))"

text \<open>\<open>Recovery::wait\<close>: arm the deadline, then poll until one of its three futures is ready.\<close>

definition peripheral_wait :: "nat \<Rightarrow> bool \<Rightarrow> unit act" where
  "peripheral_wait i tok =
     bnd now (\<lambda>t.
     bnd (with_peripherals (wait_begin i t)) (\<lambda>armed.
     bnd (lift armed) (\<lambda>deadline.
     bnd (looping (\<lambda>_.
        bnd (is_cancelled tok) (\<lambda>c.
        bnd now (\<lambda>t.
        bnd (with_peripherals (wait_end i c t deadline)) (\<lambda>r.
        ret (case r of None \<Rightarrow> Inl () | Some r \<Rightarrow> Inr r))))) ()) lift)))"

text \<open>The reset itself and the wait for the camera to return; \<open>usb_target\<close> is bound anew.\<close>

definition rebind_usb :: "bool \<Rightarrow> unit act" where
  "rebind_usb tok =
     bnd now (\<lambda>t. let deadline = t + 30 * nanos_per_sec in
     looping (\<lambda>_.
       bnd (outcome_of (bind_usb tok)) (\<lambda>r. case r of
         Inr _ \<Rightarrow> ret (Inr ())
       | Inl e \<Rightarrow>
           bnd (is_cancelled tok) (\<lambda>c.
           bnd now (\<lambda>t.
           if c \<or> deadline \<le> t then throw e
           else bnd (pause tok usb_rebind_pause_seconds) (\<lambda>_. ret (Inl ())))))) ())"

definition dispatch_reset :: "string \<Rightarrow> bool \<Rightarrow> unit act" where
  "dispatch_reset target tok =
     bnd (set_phase ''USB recovery'') (\<lambda>_.
     bnd (get (\<lambda>s. en_simulate (ss_env s))) (\<lambda>sim.
     bnd (get (\<lambda>s. ro_usb_port_cycle (recovery s))) (\<lambda>cycle.
     bnd (whenever (\<not> sim)
        (bnd (usb_command [''usb'', if cycle then ''cycle'' else ''reset'', target]) (\<lambda>_. ret ()))) (\<lambda>_.
     bnd (upd (\<lambda>s. s\<lparr>ss_usb_target := None\<rparr>)) (\<lambda>_.
     bnd (is_cancelled tok) (\<lambda>c.
     bnd (check (\<not> c) cancelled_error) (\<lambda>_.
     bnd (set_phase ''Waiting for USB camera'') (\<lambda>_.
     rebind_usb tok))))))))"

text \<open>An episode whose reset failed is dropped unfinished, which blocks further captures.\<close>

definition reset_usb :: "bool \<Rightarrow> unit act" where
  "reset_usb tok =
     bnd (is_cancelled tok) (\<lambda>c.
     bnd (check (\<not> c) cancelled_error) (\<lambda>_.
     bnd (get ss_usb_target) (\<lambda>target.
     bnd (lift (ok_or target (EOther ''No verified USB recovery target''))) (\<lambda>target.
     bnd (get (\<lambda>s. ss_worker s = None)) (\<lambda>closed.
     bnd (check closed (EOther ''Close the camera worker before USB recovery'')) (\<lambda>_.
     bnd utc (\<lambda>micros.
     bnd (with_peripherals (per_begin micros)) (\<lambda>episode.
     bnd (lift episode) (\<lambda>episode.
     bnd (outcome_of (dispatch_reset target tok)) (\<lambda>r. case (r, episode) of
       (Inl e, None) \<Rightarrow> throw e
     | (Inl e, Some i) \<Rightarrow> bnd (with_peripherals (\<lambda>p. ((), per_drop i p))) (\<lambda>_. throw e)
     | (Inr _, None) \<Rightarrow> ret ()
     | (Inr _, Some i) \<Rightarrow>
         bnd (set_phase ''Waiting for NINA peripherals'') (\<lambda>_. peripheral_wait i tok)))))))))))"

section \<open>Opening a worker\<close>

datatype open_purpose = Acquisition | ThermalShutdown

definition int_field :: "string \<Rightarrow> int \<Rightarrow> (string \<times> json) list \<Rightarrow> int option" where
  "int_field k limit m = Option.bind (Option.bind (bt_get m k) as_i64)
     (\<lambda>v. if - limit \<le> v \<and> v < limit then Some v else None)"

definition control_from_value :: "json \<Rightarrow> control option" where
  "control_from_value v =
     (case v of
        JObj m \<Rightarrow>
          (case (int_field ''type'' (2 ^ 31) m, int_field ''min'' (2 ^ 63) m, int_field ''max'' (2 ^ 63) m,
                 int_field ''value'' (2 ^ 63) m, Option.bind (bt_get m ''writable'') as_bool) of
             (Some kind, Some lo, Some hi, Some v, Some w) \<Rightarrow>
               Some \<lparr>ct_kind = kind, ct_min = lo, ct_max = hi, ct_value = v, ct_writable = w\<rparr>
           | _ \<Rightarrow> None)
      | _ \<Rightarrow> None)"

definition controls_from_value :: "json \<Rightarrow> control list option" where
  "controls_from_value v = Option.bind (as_array v)
     (\<lambda>xs. let cs = map control_from_value xs in if None \<in> set cs then None else Some (map the cs))"

definition raise_exposure_limit :: "control list \<Rightarrow> control list" where
  "raise_exposure_limit cs =
     (case List.extract (\<lambda>c. ct_kind c = 1) cs of
        None \<Rightarrow> cs
      | Some (before, c, after) \<Rightarrow> before @ c\<lparr>ct_max := 2000000000\<rparr> # after)"

text \<open>The identity, geometry and capability checks on the reply of \<open>open\<close>, in order.\<close>

definition admit_open :: "session \<Rightarrow> json \<Rightarrow> error + (string option \<times> control list)" where
  "admit_open s reply =
     (let serial = as_str (jindex reply ''serial''); info = jindex reply ''info'';
          sel = ss_selection s; previous = st_info (ss_status s) in
      and_then (ensure (sl_serial sel = None \<or> sl_serial sel = serial) (invalid ''Camera identity changed'')) (\<lambda>_.
      and_then (ensure (as_str (jindex info ''name'') = Some (sl_name sel)
           \<and> some_and (as_array (jindex info ''formats'')) (\<lambda>a. JInt 2 \<in> set a))
        (invalid ''Camera identity or RAW16 support changed'')) (\<lambda>_.
      and_then (ensure (\<not> ss_ever_opened s
           \<or> jindex previous ''width'' = jindex info ''width'' \<and> jindex previous ''height'' = jindex info ''height'')
        (invalid ''Camera geometry changed'')) (\<lambda>_.
      and_then (ok_or (controls_from_value (jindex reply ''controls'')) (invalid ''Invalid camera controls'')) (\<lambda>controls.
      let controls = (if ss_direct s \<and> sl_sdk_fallback sel
            \<and> sl_name sel \<in> {''ZWO ASI2600MM Duo'', ''ZWO ASI220MM Mini''}
            then raise_exposure_limit controls else controls) in
      and_then (ensure (\<exists>c \<in> set controls. ct_kind c = 1) (invalid ''Exposure control unavailable'')) (\<lambda>_.
      and_then (ensure (as_bool (jindex info ''cooled'') = Some True
           \<longrightarrow> list_all (\<lambda>k. \<exists>c \<in> set controls. ct_kind c = k) [8, 16, 17])
        (invalid ''Required cooling controls unavailable'')) (\<lambda>_.
      Inr (serial, controls))))))))"

text \<open>Desired values of persistent controls survive; all others take what the worker reports.\<close>

definition merge_value :: "control \<Rightarrow> (int, int) btree \<Rightarrow> (int, int) btree" where
  "merge_value c values =
     (if (ct_writable c \<or> ct_kind c = 6) \<and> ct_kind c \<in> set persistent_controls
      then (case bt_get values (ct_kind c) of None \<Rightarrow> bt_insert (ct_kind c) (ct_value c) values | Some _ \<Rightarrow> values)
      else bt_insert (ct_kind c) (ct_value c) values)"

definition adopt_open :: "open_purpose \<Rightarrow> json \<Rightarrow> string option \<Rightarrow> control list \<Rightarrow> session \<Rightarrow> session" where
  "adopt_open purpose reply serial controls s =
     (let st = ss_status s; caps = bt_of_list (map (\<lambda>c. (ct_kind c, c)) controls) in
      s\<lparr>ss_selection := (ss_selection s)\<lparr>sl_serial := serial\<rparr>,
        ss_status := st\<lparr>st_info := jindex reply ''info'', st_serial := serial,
          st_sdk_version := (case as_str (jindex reply ''sdkVersion'') of Some v \<Rightarrow> v | None \<Rightarrow> ''unknown''),
          st_backend := (if ss_direct s then ''direct'' else ''sdk''),
          st_sdk_fallback := sl_direct (ss_selection s) \<and> \<not> ss_direct s,
          st_controls := caps,
          st_values := fold merge_value (bt_values caps) (st_values st),
          st_control_connection_available := (purpose = Acquisition),
          st_process_id := Option.bind (ss_worker s) id,
          st_white_balance_capabilities := jindex reply ''whiteBalance''\<rparr>\<rparr>)"

definition restore_white_balance :: "wb_settings option \<Rightarrow> unit act" where
  "restore_white_balance previous =
     (case previous of
        None \<Rightarrow> ret ()
      | Some settings \<Rightarrow>
          bnd (whenever (wb_mode settings = WbLocked) (set_white_balance (settings\<lparr>wb_mode := WbManual\<rparr>))) (\<lambda>_.
          set_white_balance settings))"

definition open_params :: "session \<Rightarrow> json" where
  "open_params s = JObj [(''name'', JStr (sl_name (ss_selection s))),
     (''recovery'', options_value (recovery s)), (''serial'', serial_json s)]"

definition spawn_worker :: "unit act" where
  "spawn_worker =
     bnd (get ss_direct) (\<lambda>direct.
     bnd (emit (EvSpawn direct)) (\<lambda>_.
     bnd tick (\<lambda>n.
     bnd (get (\<lambda>s. en_spawn (ss_env s) n)) (\<lambda>r.
     bnd (lift r) (\<lambda>pid. upd (\<lambda>s. s\<lparr>ss_worker := Some pid\<rparr>))))))"

definition open_worker :: "open_purpose \<Rightarrow> unit act" where
  "open_worker purpose =
     bnd (upd (\<lambda>s. s\<lparr>ss_selection := (ss_selection s)\<lparr>sl_recovery := apply_runtime (ss_runtime_options s) (recovery s)\<rparr>,
                    ss_applied_runtime_options := None\<rparr>)) (\<lambda>_.
     bnd (get (\<lambda>s. ss_ever_opened s \<and> sl_serial (ss_selection s) = None)) (\<lambda>anonymous.
     bnd (check (\<not> anonymous) (invalid ''Automatic recovery requires a camera serial number'')) (\<lambda>_.
     bnd (set_phase (if purpose = ThermalShutdown then ''Closing camera'' else ''Opening'')) (\<lambda>_.
     bnd spawn_worker (\<lambda>_.
     bnd (upd (\<lambda>s. s\<lparr>ss_applied := [], ss_status := (ss_status s)\<lparr>st_observations := []\<rparr>,
                    ss_cooling_seeded := False\<rparr>)) (\<lambda>_.
     bnd (get open_params) (\<lambda>params.
     bnd (session_call ''open'' params) (\<lambda>(reply, _).
     bnd (get (\<lambda>s. admit_open s reply)) (\<lambda>admitted.
     bnd (lift admitted) (\<lambda>(serial, controls).
     bnd (get (\<lambda>s. st_white_balance (ss_status s))) (\<lambda>previous.
     bnd (upd (adopt_open purpose reply serial controls)) (\<lambda>_.
     bnd (whenever (purpose = Acquisition) (restore_white_balance previous)) (\<lambda>_.
     whenever (purpose = Acquisition) (upd (\<lambda>s. s\<lparr>ss_cooling := activate (ss_cooling s)\<rparr>)))))))))))))))"

definition open_session :: "unit act" where
  "open_session = open_worker Acquisition"

section \<open>Connecting\<close>

definition connect_steps :: "bool \<Rightarrow> unit act" where
  "connect_steps tok =
     bnd (outcome_of open_session) (\<lambda>r.
     bnd (get (\<lambda>s. ss_direct s \<and> sl_sdk_fallback (ss_selection s))) (\<lambda>may_fall_back.
     bnd (case r of
            Inr _ \<Rightarrow> ret ()
          | Inl e \<Rightarrow>
              if may_fall_back \<and> retryable e
              then bnd (fall_back (error_display e) tok) (\<lambda>_. open_session)
              else throw e) (\<lambda>_.
     bnd (get (\<lambda>s. 0 < ro_usb_reset_after_failures (recovery s) \<and> ss_usb_target s = None)) (\<lambda>unbound.
     bnd (whenever unbound
            (bnd invalidate (\<lambda>_. bnd (bind_usb tok) (\<lambda>_. open_session)))) (\<lambda>_.
     bnd (upd (\<lambda>s. s\<lparr>ss_ever_opened := True, ss_status := (ss_status s)\<lparr>st_connected := True\<rparr>,
                    ss_connection_failures := 0, ss_reconnect_not_before := None, ss_outage_usb_reset := False\<rparr>)) (\<lambda>_.
     set_phase ''Idle''))))))"

definition connect :: "bool \<Rightarrow> unit act" where
  "connect tok =
     bnd (with_peripherals reconnect_after_close) (\<lambda>ready.
     bnd (lift ready) (\<lambda>_.
     bnd (outcome_of (connect_steps tok)) (\<lambda>r. case r of
       Inr _ \<Rightarrow> ret ()
     | Inl e \<Rightarrow>
         bnd (is_cancelled tok) (\<lambda>c.
         bnd (whenever (\<not> c) (on_status (set_last_failure (error_display e)))) (\<lambda>_.
         bnd invalidate (\<lambda>_. throw e))))))"

section \<open>Disconnecting\<close>

definition thermal_outputs :: "session \<Rightarrow> bool" where
  "thermal_outputs s \<longleftrightarrow>
     (\<exists>c \<in> set (bt_values (st_controls (ss_status s))). ct_writable c \<and> ct_kind c \<in> {17, 21})"

definition close_worker :: "bool act" where
  "close_worker =
     bnd (get (\<lambda>s. ss_worker s \<noteq> None)) (\<lambda>there.
     if \<not> there then ret False
     else bnd (outcome_of (session_call ''close'' JNull)) (\<lambda>r. case r of
         Inr _ \<Rightarrow> ret True
       | Inl e \<Rightarrow>
           bnd (on_status (\<lambda>st. st\<lparr>st_error := Some (''Camera close or settings restoration failed: '' @ error_display e)\<rparr>))
             (\<lambda>_. ret False)))"

text \<open>The second chance to switch cooler and dew heater off when the worker could not be closed.\<close>

definition thermal_cleanup :: "unit act" where
  "thermal_cleanup =
     bnd (outcome_of
        (bnd (get (\<lambda>s. ro_reconnect_delay_seconds (recovery s))) (\<lambda>seconds.
         bnd (pause False seconds) (\<lambda>_.
         bnd (open_worker ThermalShutdown) (\<lambda>_.
         bnd (session_call ''close'' JNull) (\<lambda>_. ret ())))))) (\<lambda>_. invalidate)"

definition close_session :: "unit act" where
  "close_session =
     bnd (upd (\<lambda>s. s\<lparr>ss_peripherals := per_retire (ss_peripherals s), ss_cooling := retire (ss_cooling s),
                    ss_status := (ss_status s)\<lparr>st_connected := False\<rparr>\<rparr>)) (\<lambda>_.
     bnd close_worker (\<lambda>closed.
     bnd invalidate (\<lambda>_.
     bnd (get (\<lambda>s. \<not> closed \<and> ss_ever_opened s \<and> thermal_outputs s \<and> sl_serial (ss_selection s) \<noteq> None)) (\<lambda>retry.
     bnd (whenever retry thermal_cleanup) (\<lambda>_.
     bnd (upd (\<lambda>s. s\<lparr>ss_status := (ss_status s)\<lparr>st_connected := False\<rparr>, ss_cooling := retire (ss_cooling s),
                    ss_usb_target := None\<rparr>)) (\<lambda>_.
     set_phase ''Disconnected''))))))"

text \<open>Cooler and dew heater are switched off through the mailbox, in that order.\<close>

definition disable_thermal_output :: "bool \<Rightarrow> int \<Rightarrow> unit act" where
  "disable_thermal_output tok kind =
     bnd (get (\<lambda>s. some_and (bt_get (st_controls (ss_status s)) kind) ct_writable)) (\<lambda>present.
     whenever present
       (bnd now (\<lambda>t.
        bnd (\<lambda>s. case submit (ss_status s) kind 0 (15 * nanos_per_sec) t (ss_cooling s) of
               (r, m) \<Rightarrow> (Returned r, s\<lparr>ss_cooling := m\<rparr>)) (\<lambda>r.
        bnd (lift (map_sum ECooling id r)) (\<lambda>i.
        bnd (service_cooling_idle tok) (\<lambda>_.
        bnd (looping (\<lambda>_.
           bnd now (\<lambda>t' s. case receipt_wait i (t + 15 * nanos_per_sec \<le> t') (ss_cooling s) of
             (None, m) \<Rightarrow> (Returned (Inl ()), s\<lparr>ss_cooling := m\<rparr>)
           | (Some r, m) \<Rightarrow> (Returned (Inr r), s\<lparr>ss_cooling := m\<rparr>))) ()) (\<lambda>r.
        bnd (lift (map_sum ECooling id r)) (\<lambda>_. ret ()))))))))"

definition disable_thermal_outputs :: "bool \<Rightarrow> unit act" where
  "disable_thermal_outputs tok = each (disable_thermal_output tok) [17, 21]"

section \<open>The shared filter wheel\<close>

definition filter_wheel_status :: "json act" where
  "filter_wheel_status =
     bnd (get (\<lambda>s. vendor (ss_selection s) = ''qhy'')) (\<lambda>qhy.
     bnd (check qhy (invalid ''Camera has no supported attached wheel'')) (\<lambda>_.
     bnd (on_status (\<lambda>st. st\<lparr>st_filter_wheel := wheel_moving\<rparr>)) (\<lambda>_.
     bnd (get (\<lambda>s. ss_worker s = None)) (\<lambda>closed.
     bnd (whenever closed open_session) (\<lambda>_.
     bnd (session_call ''wheel-status'' JNull) (\<lambda>(reply, _).
     bnd (lift (wheel_geometry reply)) (\<lambda>(slots, position).
     bnd (get (\<lambda>s. jindex reply ''parentSerial'' = serial_json s)) (\<lambda>same.
     bnd (check same (invalid ''Wheel parent identity changed'')) (\<lambda>_.
     bnd (get ss_wheel_expected) (\<lambda>expected.
     bnd (lift (wheel_expectation slots position reply expected)) (\<lambda>expected.
     let verified = (as_bool (jindex reply ''moving'') = Some False
           \<and> jindex reply ''position'' = jindex expected ''position'');
         state = put_key ''verified'' (JBool verified)
           (put_key ''expectedPosition'' (jindex expected ''position'') reply)
     in bnd (upd (\<lambda>s. s\<lparr>ss_wheel_expected := Some expected,
                       ss_status := (ss_status s)\<lparr>st_filter_wheel := state\<rparr>\<rparr>)) (\<lambda>_.
        ret state))))))))))))"

definition filter_wheel_move :: "nat \<Rightarrow> json act" where
  "filter_wheel_move position =
     bnd filter_wheel_status (\<lambda>state.
     bnd (check (some_and (as_u64 (jindex state ''slots'')) (\<lambda>n. position < n))
        (invalid ''Filter position outside carousel'')) (\<lambda>_.
     bnd (check (as_bool (jindex state ''moving'') = Some False)
        (invalid ''Wheel is moving or position is unknown'')) (\<lambda>_.
     bnd (upd (\<lambda>s. s\<lparr>ss_wheel_expected := Some (JObj [(''position'', jnat position), (''slots'', jindex state ''slots'')]),
        ss_status := (ss_status s)\<lparr>st_filter_wheel := JObj [(''expectedPosition'', jnat position), (''moving'', JBool True),
          (''position'', JInt (- 1)), (''slots'', jindex state ''slots''), (''verified'', JBool False)]\<rparr>\<rparr>)) (\<lambda>_.
     bnd (session_call ''wheel-move'' (JObj [(''position'', jnat position)])) (\<lambda>_.
     get (\<lambda>s. st_filter_wheel (ss_status s)))))))"

section \<open>Smaller operations\<close>

text \<open>Opting into the peripheral fence is only possible before the first connection.\<close>

definition wait_for_usb_peripherals :: "bool \<Rightarrow> unit act" where
  "wait_for_usb_peripherals enabled =
     bnd (get ss_ever_opened) (\<lambda>opened.
     bnd (check (\<not> opened) (invalid ''Configure USB peripheral recovery before connecting'')) (\<lambda>_.
     bnd (with_peripherals (per_enable enabled)) lift))"

definition simulate_read_failures :: "nat \<Rightarrow> unit act" where
  "simulate_read_failures count =
     bnd (get (\<lambda>s. en_simulate (ss_env s) \<and> ss_direct s)) (\<lambda>simulated.
     bnd (check simulated (EOther ''Read fault injection requires a simulated direct camera'')) (\<lambda>_.
     bnd (session_call ''simulate-read-failures'' (JObj [(''count'', jnat count)])) (\<lambda>_. ret ())))"

definition dump_diagnostics :: "unit act" where
  "dump_diagnostics = bnd (session_call ''diagnostics-dump'' JNull) (\<lambda>_. ret ())"

text \<open>\<open>Drop\<close> of a session: waiting frontends get their answers.\<close>

definition drop_session :: "session \<Rightarrow> session" where
  "drop_session s = s\<lparr>ss_peripherals := per_retire (ss_peripherals s), ss_cooling := retire (ss_cooling s)\<rparr>"

end
