(* ===== verification/Session_Capture.thy ===== *)
theory Session_Capture imports Session_Connect begin

text \<open>
  One capture of a camera session (\<open>crates/regain-core/src/session.rs\<close>): preparation with cooling
  recovery, the exposure and its download, and the policy that decides on replacement exposures,
  USB resets and the fallback to the SDK. Seconds are doubles, rounded as the code computes them.
\<close>

section \<open>Cooling recovery\<close>

record cooling_hold =
  ho_since :: "rat option"
  ho_first :: rat
  ho_last :: "rat option"

definition cooling_hold_default :: cooling_hold where
  "cooling_hold_default = \<lparr>ho_since = None, ho_first = 0, ho_last = None\<rparr>"

definition hold_valid :: "rat option \<Rightarrow> int option \<Rightarrow> rat \<Rightarrow> rat \<Rightarrow> bool" where
  "hold_valid temperature demand target tolerance \<longleftrightarrow>
     some_and temperature (\<lambda>t. \<bar>fsub t target\<bar> \<le> min tolerance 1)
     \<and> some_and demand (\<lambda>p. 0 \<le> p \<and> p \<le> 100 \<and> (0 < p \<or> some_and temperature (\<lambda>t. t \<le> target)))"

definition hold_observe ::
  "rat option \<Rightarrow> int option \<Rightarrow> rat \<Rightarrow> rat \<Rightarrow> rat \<Rightarrow> rat \<Rightarrow> cooling_hold \<Rightarrow> bool \<times> cooling_hold" where
  "hold_observe temperature demand target tolerance sample elapsed h =
     (if \<not> hold_valid temperature demand target tolerance
      then (False, h\<lparr>ho_since := None, ho_last := None\<rparr>)
      else
        let t = (case temperature of Some t \<Rightarrow> t | None \<Rightarrow> 0);
            restart = (ho_since h = None
              \<or> some_and (ho_last h) (\<lambda>l. elapsed < l \<or> max 5 (fmul sample 2) < fsub elapsed l)
              \<or> fadd (ho_first h) (f64_round (1 / 5)) < t);
            h = (if restart then h\<lparr>ho_since := Some elapsed, ho_first := t\<rparr> else h);
            h = h\<lparr>ho_last := Some elapsed\<rparr>
        in (30 \<le> fsub elapsed (case ho_since h of Some x \<Rightarrow> x | None \<Rightarrow> elapsed), h))"

definition near_prior :: "rat \<Rightarrow> rat \<Rightarrow> rat \<Rightarrow> rat option \<Rightarrow> bool" where
  "near_prior prior target tolerance temperature =
     some_and temperature (\<lambda>t. fsub (min prior target) tolerance \<le> t \<and> t \<le> fadd prior tolerance)"

definition output_restored :: "int option \<Rightarrow> int option \<Rightarrow> bool" where
  "output_restored prior_power demand = none_or prior_power (\<lambda>p. p \<le> 10 \<or> some_and demand (\<lambda>v. p - 10 \<le> v))"

definition cooler_on :: "session \<Rightarrow> bool" where
  "cooler_on s \<longleftrightarrow> some_and (bt_get (lc_settings s) 17) (\<lambda>v. v \<noteq> 0)"

text \<open>One round of \<open>settle\<close>; the loop carries the stable count and the hold.\<close>

definition settle_round ::
  "recovery_options \<Rightarrow> rat \<Rightarrow> int option \<Rightarrow> bool \<Rightarrow> nat \<Rightarrow> nat \<times> cooling_hold \<Rightarrow> ((nat \<times> cooling_hold) + unit) act" where
  "settle_round ops prior prior_power tok clock = (\<lambda>(stable, hold).
     bnd now (\<lambda>t.
     if \<not> as_secs_f64 (t - clock) < ro_cooling_timeout_seconds ops
     then throw (EOther ''Camera did not recover its prior cooling temperature and output'')
     else
       bnd (service_cooling tok) (\<lambda>_.
       bnd (get cooler_on) (\<lambda>on.
       if \<not> on then ret (Inr ())
       else
         bnd (get (\<lambda>s. int_as_f64 (case bt_get (lc_settings s) 16 of Some v \<Rightarrow> v | None \<Rightarrow> 0))) (\<lambda>target.
         bnd read_environment (\<lambda>(temperature, demand).
         bnd now (\<lambda>t.
         let near = near_prior prior target (ro_temperature_tolerance_c ops) temperature;
             (held, hold) = hold_observe temperature demand target (ro_temperature_tolerance_c ops)
                (ro_cooling_sample_seconds ops) (as_secs_f64 (t - clock)) hold;
             stable = (if near \<and> output_restored prior_power demand \<or> held then stable + 1 else 0)
         in if ro_cooling_stable_samples ops \<le> stable then ret (Inr ())
            else bnd (pause tok (ro_cooling_sample_seconds ops)) (\<lambda>_. ret (Inl (stable, hold))))))))))"

text \<open>\<open>{x:.1}\<close>\<close>

definition show_tenths :: "rat \<Rightarrow> string" where
  "show_tenths x = (let n = nat (round_ties_even (\<bar>x\<bar> * 10)) in
     (if x < 0 then ''-'' else []) @ show_nat (n div 10) @ ''.'' @ show_nat (n mod 10))"

definition settle :: "rat \<Rightarrow> int option \<Rightarrow> bool \<Rightarrow> unit act" where
  "settle prior prior_power tok =
     bnd (get recovery) (\<lambda>ops.
     bnd now (\<lambda>clock.
     bnd (set_phase (''Restoring cooling near '' @ show_tenths prior @ '' C'')) (\<lambda>_.
     looping (settle_round ops prior prior_power tok clock) (0, cooling_hold_default))))"

section \<open>Preparation\<close>

text \<open>At most one USB reset per outage and capture, also before the first exposure.\<close>

definition reset_before_open :: "bool \<Rightarrow> unit act" where
  "reset_before_open tok =
     bnd (get (\<lambda>s. \<not> ss_outage_usb_reset s \<and> lc_usb_resets s = 0
          \<and> 0 < ro_usb_reset_after_failures (recovery s)
          \<and> ro_usb_reset_after_failures (recovery s) \<le> ss_connection_failures s)) (\<lambda>due.
     whenever due
       (bnd (upd (\<lambda>s. s\<lparr>ss_outage_usb_reset := True, lc_usb_resets := lc_usb_resets s + 1\<rparr>)) (\<lambda>_.
        reset_usb tok)))"

definition reopen :: "bool \<Rightarrow> unit act" where
  "reopen tok =
     bnd (get (\<lambda>s. ss_worker s = None)) (\<lambda>closed.
     whenever closed
       (bnd (reconnect_delay tok) (\<lambda>_.
        bnd (reset_before_open tok) (\<lambda>_. open_session))))"

definition settle_if :: "(session \<Rightarrow> bool) \<Rightarrow> bool \<Rightarrow> unit act" where
  "settle_if p tok =
     bnd (get (\<lambda>s. if p s \<and> cooler_on s then map_option (\<lambda>t. (t, lc_power s)) (lc_prior s) else None)) (\<lambda>w.
     case w of None \<Rightarrow> ret () | Some (t, demand) \<Rightarrow> settle t demand tok)"

definition exposure_value :: "exposure \<Rightarrow> json" where
  "exposure_value e = JObj [(''bin'', jnat (ex_bin e)), (''dark'', JBool (ex_dark e)), (''height'', jnat (ex_height e)),
     (''microseconds'', jnat (ex_microseconds e)), (''width'', jnat (ex_width e)), (''x'', jnat (ex_x e)),
     (''y'', jnat (ex_y e))]"

definition validate_direct :: "exposure \<Rightarrow> bool \<Rightarrow> unit act" where
  "validate_direct e tok =
     bnd (get (\<lambda>s. ss_direct s \<and> sl_sdk_fallback (ss_selection s))) (\<lambda>direct.
     whenever direct
       (bnd (outcome_of (session_call ''validate'' (exposure_value e))) (\<lambda>r. case r of
          Inr _ \<Rightarrow> ret ()
        | Inl err \<Rightarrow>
            (case err of
               EFailure (Worker message (Some code)) \<Rightarrow>
                 if code = 8
                 then bnd (fall_back (error_display err) tok) (\<lambda>_.
                      bnd open_session (\<lambda>_.
                      bnd apply_settings (\<lambda>_.
                      settle_if (\<lambda>_. True) tok)))
                 else throw err
             | _ \<Rightarrow> throw err))))"

definition prepare_exposure :: "exposure \<Rightarrow> bool \<Rightarrow> unit act" where
  "prepare_exposure e tok =
     bnd (reopen tok) (\<lambda>_.
     bnd (service_cooling tok) (\<lambda>_.
     bnd apply_settings (\<lambda>_.
     bnd (settle_if ss_settle_required tok) (\<lambda>_.
     bnd read_environment (\<lambda>(temperature, demand).
     bnd (upd (\<lambda>s. s\<lparr>lc_prior := first_some temperature (lc_prior s), lc_power := first_some demand (lc_power s)\<rparr>)) (\<lambda>_.
     validate_direct e tok))))))"

text \<open>The preparations of one attempt, \<open>k\<close> of them left: a retryable failure reconnects.\<close>

fun prepare_attempts :: "nat \<Rightarrow> exposure \<Rightarrow> bool \<Rightarrow> unit act" where
  "prepare_attempts 0 e tok = ret ()"
| "prepare_attempts (Suc k) e tok =
     bnd (outcome_of (prepare_exposure e tok)) (\<lambda>r. case r of
       Inr _ \<Rightarrow> ret ()
     | Inl err \<Rightarrow>
         bnd (is_cancelled tok) (\<lambda>c.
         if retryable err \<and> \<not> c \<and> 0 < k
         then bnd connection_failed (\<lambda>_. bnd invalidate (\<lambda>_. prepare_attempts k e tok))
         else throw err))"

section \<open>Exposing\<close>

definition retained :: "session \<Rightarrow> bool" where
  "retained s \<longleftrightarrow> ss_direct s \<and> as_bool (jindex (st_info (ss_status s)) ''retainedFrameReads'') = Some True"

definition read_retries :: "rat \<Rightarrow> session \<Rightarrow> nat" where
  "read_retries seconds s =
     (if retained s \<or> seconds \<le> ro_maximum_retry_exposure_seconds (recovery s)
      then ro_direct_read_retries (recovery s) else 0)"

definition ready_timeout :: "rat \<Rightarrow> session \<Rightarrow> rat" where
  "ready_timeout seconds s =
     (let ops = recovery s in
      fadd (fadd seconds (ro_exposure_grace_seconds ops))
        (if ss_direct s
         then fadd (fmul (of_nat (1 + read_retries seconds s)) (ro_download_timeout_seconds ops))
                (fmul (of_nat (ro_direct_read_retries ops))
                   (max 0 (min max_read_retry_overhead_seconds
                      (case as_f64 (jindex (st_info (ss_status s)) ''readRetryOverheadSeconds'') of
                         Some x \<Rightarrow> x | None \<Rightarrow> 0))))
         else 0))"

definition start_params :: "exposure \<Rightarrow> recovery_options \<Rightarrow> session \<Rightarrow> json" where
  "start_params e ops s =
     (let seconds = exposure_seconds (ex_microseconds e);
          p = exposure_value e;
          p = (case ss_wheel_expected s of None \<Rightarrow> p | Some w \<Rightarrow> put_key ''wheelExpected'' w p)
      in if ss_direct s
         then put_key ''readChunkKiB'' (jnat (ro_direct_read_chunk_kib ops))
               (put_key ''transferTimeoutSeconds'' (JFloat (ro_download_timeout_seconds ops))
               (put_key ''captureTimeoutSeconds'' (JFloat (fadd (ready_timeout seconds s) (ro_command_timeout_seconds ops)))
               (put_key ''readRetries'' (jnat (if retained s \<or> seconds \<le> ro_maximum_retry_exposure_seconds ops
                  then ro_direct_read_retries ops else 0)) p)))
         else p)"

definition poll_state :: "string \<Rightarrow> int act" where
  "poll_state message =
     bnd (session_call ''status'' JNull) (\<lambda>(reply, _).
     bnd (lift (ok_or (as_i64 reply) (invalid message))) (\<lambda>state.
     bnd (on_status (\<lambda>st. st\<lparr>st_sdk_exposure_state := Some state\<rparr>)) (\<lambda>_. ret state)))"

text \<open>One poll of the running exposure; the loop carries the time of the last environment sample.\<close>

definition exposure_round :: "rat \<Rightarrow> bool \<Rightarrow> nat \<Rightarrow> nat \<Rightarrow> (nat + unit) act" where
  "exposure_round seconds tok clock sampled =
     bnd (is_cancelled tok) (\<lambda>c.
     bnd (check (\<not> c) cancelled_error) (\<lambda>_.
     bnd (service_cooling tok) (\<lambda>_.
     bnd (poll_state ''Invalid exposure state'') (\<lambda>state.
     if state = 2 then ret (Inr ())
     else
       bnd (check (state = 1) (EOther (''Exposure ended in camera state '' @ show_int state))) (\<lambda>_.
       bnd now (\<lambda>t.
       bnd (get (\<lambda>s. as_secs_f64 (t - clock) \<le> ready_timeout seconds s)) (\<lambda>in_time.
       bnd (check in_time (EOther ''Exposure readiness timed out'')) (\<lambda>_.
       bnd now (\<lambda>t.
       let due = 2 * nanos_per_sec \<le> t - sampled in
       bnd (whenever due (bnd read_environment (\<lambda>_. ret ()))) (\<lambda>_.
       bnd (if due then now else ret sampled) (\<lambda>sampled.
       bnd (pause tok (25 / 1000)) (\<lambda>_. ret (Inl sampled)))))))))))))"

text \<open>One download; the loop carries the number of rereads of the ready frame.\<close>

definition download_image :: "nat \<Rightarrow> (json \<times> nat list) act" where
  "download_image n =
     bnd (check (1 \<le> n \<and> n \<le> max_image) (invalid ''Invalid worker image admission'')) (\<lambda>_.
     worker_call ''download'' JNull)"

definition download_round :: "exposure \<Rightarrow> recovery_options \<Rightarrow> bool \<Rightarrow> nat \<Rightarrow> (nat + (nat \<times> json \<times> nat list)) act" where
  "download_round e ops tok reads =
     bnd (get (\<lambda>s. ss_worker s \<noteq> None)) (\<lambda>there.
     bnd (check there disconnected) (\<lambda>_.
     bnd (lift (frame_bytes e)) (\<lambda>n.
     bnd (outcome_of (download_image n)) (\<lambda>r. case r of
       Inr (metadata, pixels) \<Rightarrow> ret (Inr (reads, metadata, pixels))
     | Inl err \<Rightarrow>
         bnd (get retained) (\<lambda>kept.
         bnd (is_cancelled tok) (\<lambda>c.
         if \<not> kept \<and> retryable err \<and> \<not> c
         then
           bnd (on_status (set_last_failure (error_display err))) (\<lambda>_.
           bnd (poll_state ''Invalid post-transfer state'') (\<lambda>state.
           if ro_ready_frame_download_retries ops \<le> reads \<or> state \<noteq> 2 then throw err
           else
             bnd (on_status (\<lambda>st. st\<lparr>st_retry := (st_retry st)\<lparr>rs_downloads := rs_downloads (st_retry st) + 1\<rparr>,
                    st_phase := ''Rereading ready frame ('' @ show_nat (reads + 1) @ ''/''
                      @ show_nat (ro_ready_frame_download_retries ops) @ '')''\<rparr>)) (\<lambda>_.
             bnd (pause tok (ro_reconnect_delay_seconds ops)) (\<lambda>_. ret (Inl (reads + 1))))))
         else throw err))))))"

section \<open>The frame\<close>

record frame =
  fr_exposure :: exposure
  fr_pixels :: "nat list"
  fr_metadata :: json

definition u32_or_zero :: "json \<Rightarrow> nat" where
  "u32_or_zero v = min (case as_u64 v of Some n \<Rightarrow> n | None \<Rightarrow> 0) (2 ^ 32 - 1)"

definition read_failure :: "json \<Rightarrow> string option" where
  "read_failure metadata =
     Option.bind (first_some (as_array (jindex metadata ''readErrors'')) (as_array (jindex metadata ''readoutErrors'')))
       (\<lambda>errors. if errors = [] then None else as_str (last errors))"

text \<open>What the frame's metadata say about rereads and cleanup, taken over into the status.\<close>

definition note_read_failures :: "json \<Rightarrow> status \<Rightarrow> status" where
  "note_read_failures metadata st =
     (let st = (case read_failure metadata of
            Some failure \<Rightarrow> set_last_failure failure st
          | None \<Rightarrow>
              if 0 < u32_or_zero (jindex metadata ''readRecoveries'') \<and> rs_usb_reads (st_retry st) = 0
              then set_last_failure ''USB frame read failed; frame recovered (worker supplied no failure detail)'' st
              else st)
      in case as_str (jindex metadata ''cleanupError'') of
           Some failure \<Rightarrow> set_last_failure failure st
         | None \<Rightarrow> st)"

definition check_frame :: "exposure \<Rightarrow> json \<Rightarrow> nat list \<Rightarrow> error + unit" where
  "check_frame e metadata pixels =
     and_then (frame_bytes e) (\<lambda>n.
     and_then (ensure (length pixels = n) (invalid ''Image length differs from requested ROI'')) (\<lambda>_.
     and_then (ensure (as_u64 (jindex metadata ''width'') = Some (ex_width e)) (invalid ''Frame width differs from request'')) (\<lambda>_.
     ensure (as_u64 (jindex metadata ''height'') = Some (ex_height e)) (invalid ''Frame height differs from request''))))"

definition settings_value :: "(int, int) btree \<Rightarrow> json" where
  "settings_value m = jobj (map (\<lambda>(k, v). (show_int k, JInt v)) m)"

definition adopt_frame_white_balance :: "json \<Rightarrow> unit act" where
  "adopt_frame_white_balance metadata =
     bnd (get (\<lambda>s. st_white_balance (ss_status s) \<noteq> None)) (\<lambda>managed.
     whenever managed
       (bnd (lift (ok_or (wb_from_value (jindex (jindex metadata ''whiteBalance'') ''settings''))
          (invalid ''Missing or invalid managed white balance frame metadata''))) (\<lambda>settings.
        on_status (\<lambda>st. st\<lparr>st_white_balance := Some settings\<rparr>))))"

definition frame_metadata :: "exposure \<Rightarrow> int \<Rightarrow> int \<Rightarrow> nat \<Rightarrow> json \<Rightarrow> session \<Rightarrow> json" where
  "frame_metadata e started ended reads metadata s =
     put_key ''downloadRetries'' (jnat reads)
       (put_key ''sdkFallback'' (JBool (sl_direct (ss_selection s) \<and> \<not> ss_direct s))
       (put_key ''backend'' (JStr (if ss_direct s then ''direct'' else ''sdk''))
       (put_key ''controls'' (settings_value (lc_settings s))
       (put_key ''exposure'' (exposure_value e)
       (put_key ''endedUtc'' (JInt ended)
       (put_key ''startedUtc'' (JInt started) metadata))))))"

text \<open>From the downloaded image to the frame: what is checked, and the cleanup it may announce.\<close>

definition accept_image :: "exposure \<Rightarrow> bool \<Rightarrow> int \<Rightarrow> nat \<Rightarrow> json \<Rightarrow> nat list \<Rightarrow> frame act" where
  "accept_image e tok started reads metadata pixels =
     bnd (is_cancelled tok) (\<lambda>c.
     bnd (check (\<not> c) cancelled_error) (\<lambda>_.
     bnd (on_status (note_read_failures metadata)) (\<lambda>_.
     bnd (lift (check_frame e metadata pixels)) (\<lambda>_.
     bnd (if as_str (jindex metadata ''cleanupError'') \<noteq> None
          then bnd connection_failed (\<lambda>_. invalidate) else service_cooling tok) (\<lambda>_.
     bnd (adopt_frame_white_balance metadata) (\<lambda>_.
     bnd utc (\<lambda>ended.
     bnd (get (frame_metadata e started ended reads metadata)) (\<lambda>metadata.
     ret \<lparr>fr_exposure = e, fr_pixels = pixels, fr_metadata = metadata\<rparr>))))))))"

section \<open>One attempt\<close>

text \<open>From here on the sensor may have been armed, whether or not the start is acknowledged.\<close>

definition start_exposure :: "exposure \<Rightarrow> recovery_options \<Rightarrow> nat \<Rightarrow> bool \<Rightarrow> unit act" where
  "start_exposure e ops attempt tok =
     bnd (get (start_params e ops)) (\<lambda>params.
     bnd (is_cancelled tok) (\<lambda>c.
     bnd (check (\<not> c) cancelled_error) (\<lambda>_.
     bnd (upd (\<lambda>s. s\<lparr>lc_start_dispatched := True,
        ss_status := (ss_status s)\<lparr>st_retry := (st_retry (ss_status s))\<lparr>rs_recaptures := attempt\<rparr>\<rparr>\<rparr>)) (\<lambda>_.
     bnd (session_call ''start'' params) (\<lambda>_. ret ())))))"

definition expose_and_download :: "exposure \<Rightarrow> recovery_options \<Rightarrow> bool \<Rightarrow> int \<Rightarrow> frame act" where
  "expose_and_download e ops tok started =
     bnd (set_phase ''Exposing'') (\<lambda>_.
     bnd now (\<lambda>clock.
     bnd now (\<lambda>sampled.
     bnd (looping (exposure_round (exposure_seconds (ex_microseconds e)) tok clock) sampled) (\<lambda>_.
     bnd (service_cooling tok) (\<lambda>_.
     bnd (set_phase ''Downloading'') (\<lambda>_.
     bnd (looping (download_round e ops tok) 0) (\<lambda>(reads, metadata, pixels).
     accept_image e tok started reads metadata pixels)))))))"

definition attempt_exposure :: "exposure \<Rightarrow> nat \<Rightarrow> bool \<Rightarrow> frame act" where
  "attempt_exposure e attempt tok =
     bnd (get recovery) (\<lambda>ops.
     bnd (is_cancelled tok) (\<lambda>c.
     bnd (check (\<not> c) cancelled_error) (\<lambda>_.
     bnd (prepare_attempts (if attempt = 0 then ro_pre_exposure_reconnect_attempts ops else 1) e tok) (\<lambda>_.
     bnd (upd (\<lambda>s. s\<lparr>ss_settle_required := False, ss_recovery_temperature := None, ss_recovery_power := None,
                    ss_recovery_target := None\<rparr>)) (\<lambda>_.
     bnd (set_phase ''Starting exposure'') (\<lambda>_.
     bnd utc (\<lambda>started.
     bnd (start_exposure e ops attempt tok) (\<lambda>_.
     expose_and_download e ops tok started))))))))"

section \<open>The capture\<close>

text \<open>A frame was taken: reconcile the retry counters and complete its metadata.\<close>

definition complete_frame :: "nat \<Rightarrow> nat \<Rightarrow> frame \<Rightarrow> frame act" where
  "complete_frame attempt usb_reads_before frame =
     bnd (get (\<lambda>s. ss_worker s \<noteq> None)) (\<lambda>restored.
     bnd (get ss_connection_failures) (\<lambda>failures.
     bnd (whenever restored (upd (\<lambda>s. s\<lparr>ss_connection_failures := 0, ss_reconnect_not_before := None,
            ss_outage_usb_reset := False\<rparr>))) (\<lambda>_.
     bnd (on_status (\<lambda>st. st\<lparr>st_retry := (st_retry st)\<lparr>rs_usb_reads :=
              sat_add 32 usb_reads_before (u32_or_zero (jindex (fr_metadata frame) ''readRecoveries''))\<rparr>,
            st_phase := ''Idle''\<rparr>)) (\<lambda>_.
     bnd (get (\<lambda>s.
        put_key ''downloadRetriesTotal'' (jnat (rs_downloads (st_retry (ss_status s))))
       (put_key ''retainedReadRetries'' (jnat (rs_usb_reads (st_retry (ss_status s))))
       (put_key ''usbResets'' (jnat (lc_usb_resets s))
       (put_key ''recoveries'' (jnat attempt)
       (put_key ''connectionFailuresRecovered'' (jnat (if restored then failures else 0)) (fr_metadata frame))))))) (\<lambda>metadata.
     bnd (set_phase ''Idle'') (\<lambda>_.
     ret (frame\<lparr>fr_metadata := metadata\<rparr>)))))))"

text \<open>The client cancelled: stop the camera, and retire the worker unless the stop is acknowledged.\<close>

definition abort_capture :: "frame act" where
  "abort_capture =
     bnd (outcome_of (session_call ''stop'' JNull)) (\<lambda>stopped.
     bnd (case stopped of
            Inl e \<Rightarrow>
              (let message = ''Stop was not acknowledged; retiring worker: '' @ error_display e in
               bnd (on_status (\<lambda>st. set_last_failure message (st\<lparr>st_error := Some message\<rparr>))) (\<lambda>_. invalidate))
          | Inr _ \<Rightarrow> on_status (\<lambda>st. st\<lparr>st_error := None\<rparr>)) (\<lambda>_.
     bnd (set_phase ''Aborted'') (\<lambda>_. throw cancelled_error)))"

text \<open>Bookkeeping of a failed attempt; the result tells whether a replacement is permitted.\<close>

definition note_failure :: "error \<Rightarrow> nat \<Rightarrow> nat \<Rightarrow> bool \<Rightarrow> bool act" where
  "note_failure e attempt retries tok =
     bnd (is_cancelled tok) (\<lambda>c.
     bnd (on_status (\<lambda>st.
        let st = st\<lparr>st_error := Some (error_display e), st_sdk_error_code := failure_code e\<rparr>
        in if \<not> c then set_last_failure (error_display e) st else st)) (\<lambda>_.
     bnd (is_cancelled tok) (\<lambda>c.
     bnd (get (\<lambda>s. lc_start_dispatched s \<and> retryable e \<and> attempt < retries \<and> \<not> c)) (\<lambda>can_retry.
     bnd (whenever (retryable e) connection_failed) (\<lambda>_.
     bnd invalidate (\<lambda>_.
     bnd (on_status (set_last_failure (error_display e))) (\<lambda>_.
     ret can_retry)))))))"

text \<open>The USB reset between two attempts; its failure ends the capture.\<close>

definition reset_between :: "recovery_options \<Rightarrow> nat \<Rightarrow> bool \<Rightarrow> (error + unit) act" where
  "reset_between ops attempt tok =
     bnd (get (\<lambda>s. lc_usb_resets s = 0 \<and> \<not> ss_outage_usb_reset s \<and> 0 < ro_usb_reset_after_failures ops
          \<and> ro_usb_reset_after_failures ops \<le> attempt + 1)) (\<lambda>due.
     if \<not> due then ret (Inr ())
     else
       bnd (upd (\<lambda>s. s\<lparr>lc_usb_resets := lc_usb_resets s + 1, ss_outage_usb_reset := True\<rparr>)) (\<lambda>_.
       outcome_of (reset_usb tok)))"

definition capture_failed :: "bool \<Rightarrow> error \<Rightarrow> frame act" where
  "capture_failed tok e =
     bnd (is_cancelled tok) (\<lambda>c.
     bnd (set_phase (if c then ''Aborted'' else ''Error'')) (\<lambda>_. throw e))"

text \<open>The attempts \<open>attempt..retries\<close> of a capture, \<open>k\<close> of them left.\<close>

fun capture_attempts :: "nat \<Rightarrow> exposure \<Rightarrow> recovery_options \<Rightarrow> nat \<Rightarrow> nat \<Rightarrow> bool \<Rightarrow> error \<Rightarrow> frame act" where
  "capture_attempts 0 e ops retries attempt tok last_error = capture_failed tok last_error"
| "capture_attempts (Suc k) e ops retries attempt tok last_error =
     bnd (upd (\<lambda>s. s\<lparr>lc_start_dispatched := False\<rparr>)) (\<lambda>_.
     bnd (get (\<lambda>s. rs_usb_reads (st_retry (ss_status s)))) (\<lambda>usb_reads_before.
     bnd (outcome_of (attempt_exposure e attempt tok)) (\<lambda>r. case r of
       Inr frame \<Rightarrow> complete_frame attempt usb_reads_before frame
     | Inl err \<Rightarrow>
         bnd (is_cancelled tok) (\<lambda>c.
         if c then abort_capture
         else
           bnd (note_failure err attempt retries tok) (\<lambda>can_retry.
           if \<not> can_retry then capture_failed tok err
           else
             bnd (reset_between ops attempt tok) (\<lambda>reset. case reset of
               Inl reset_error \<Rightarrow> capture_failed tok reset_error
             | Inr _ \<Rightarrow>
                 bnd (upd (\<lambda>s. if ss_direct s \<and> sl_sdk_fallback (ss_selection s) then s\<lparr>ss_direct := False\<rparr> else s)) (\<lambda>_.
                 capture_attempts k e ops retries (attempt + 1) tok err)))))))"

definition admit_capture :: "exposure \<Rightarrow> session \<Rightarrow> error + unit" where
  "admit_capture e s =
     (let st = ss_status s in
      and_then (ensure_ready (ss_peripherals s)) (\<lambda>_.
      and_then (if st_white_balance st = None then Inr ()
                else map_sum (\<lambda>err. invalid (error_display err)) id
                  (validate_geometry (as_bool (jindex (st_info st) ''color'') = Some True)
                     (as_u64 (jindex (st_info st) ''bayer'')) (ex_bin e))) (\<lambda>_.
      case validate_capture (st_info st) (st_controls st) e (ss_direct s \<and> sl_sdk_fallback (ss_selection s)) of
        Some r \<Rightarrow> r
      | None \<Rightarrow> Inl (EOther ''panic: camera information is not an object''))))"

definition begin_capture :: "session \<Rightarrow> session" where
  "begin_capture s =
     (let st = ss_status s in
      s\<lparr>lc_settings := session_settings s,
        lc_prior := first_some (ss_recovery_temperature s) (map_option tenth (bt_get (st_values st) 8)),
        lc_power := first_some (ss_recovery_power s) (bt_get (st_values st) 15),
        lc_usb_resets := 0,
        ss_status := st\<lparr>st_retry := (st_retry st)\<lparr>rs_recaptures := 0, rs_downloads := 0, rs_usb_reads := 0\<rparr>\<rparr>\<rparr>)"

definition capture :: "exposure \<Rightarrow> bool \<Rightarrow> frame act" where
  "capture e tok =
     bnd (get (admit_capture e)) (\<lambda>admitted.
     bnd (lift admitted) (\<lambda>_.
     bnd (get recovery) (\<lambda>ops.
     let retries = replacement_exposures ops (ex_microseconds e) in
     bnd (upd begin_capture) (\<lambda>_.
     capture_attempts (Suc retries) e ops retries 0 tok (invalid ''Capture failed'')))))"

end
