(* ===== verification/Session_Quiet.thy ===== *)
theory Session_Quiet imports Session_Capture begin

text \<open>
  What the operations of a session leave alone. A property of the session that depends only on the
  outside effects recorded so far and on the capture's reset counter, and that is not disturbed by
  the harmless effects (any worker command but \<open>start\<close>, spawning, killing, binding), is preserved by
  every operation below \<open>capture\<close> that neither starts an exposure nor resets the USB device. The
  locales state this interface; the counting arguments of the capture policy are its instances.
\<close>

lemma preserves_looping [quiet]: "(\<And>x. preserves P (body x)) \<Longrightarrow> preserves P (looping body x)"
  by (simp add: looping_def quiet preserves_iterate)

lemma frontend_step_frame:
  "ss_trace (frontend_step t op s) = ss_trace s \<and> lc_usb_resets (frontend_step t op s) = lc_usb_resets s"
  by (simp add: frontend_step_def split: frontend_op.split)

lemma frontend_steps_frame:
  "ss_trace (fold (frontend_step t) ops s) = ss_trace s
   \<and> lc_usb_resets (fold (frontend_step t) ops s) = lc_usb_resets s"
  by (induction ops arbitrary: s) (simp_all add: frontend_step_frame)

text \<open>The USB commands that are not a reset.\<close>

fun is_reset :: "session_event \<Rightarrow> bool" where
  "is_reset (EvUsbCommand args) \<longleftrightarrow> take 2 args = [''usb'', ''reset''] \<or> take 2 args = [''usb'', ''cycle'']"
| "is_reset _ \<longleftrightarrow> False"

fun is_start :: "session_event \<Rightarrow> bool" where
  "is_start (EvCall method _) \<longleftrightarrow> method = ''start''"
| "is_start _ \<longleftrightarrow> False"

locale quiet_view =
  fixes P :: "session \<Rightarrow> bool"
  assumes same: "P s \<Longrightarrow> ss_trace s' = ss_trace s \<Longrightarrow> lc_usb_resets s' = lc_usb_resets s \<Longrightarrow> P s'"
    and harmless: "P s \<Longrightarrow> \<not> is_start ev \<Longrightarrow> \<not> is_reset ev \<Longrightarrow> P (s\<lparr>ss_trace := ss_trace s @ [ev]\<rparr>)"
begin

lemma upd_quiet [quiet]:
  "(\<And>s. ss_trace (g s) = ss_trace s \<and> lc_usb_resets (g s) = lc_usb_resets s) \<Longrightarrow> preserves P (upd g)"
  by (rule preserves_upd) (auto intro: same)

lemma on_status_quiet [quiet]: "preserves P (on_status g)"
  by (simp add: on_status_def quiet)

lemma set_phase_quiet [quiet]: "preserves P (set_phase p)"
  by (simp add: set_phase_def quiet)

lemma tick_quiet [quiet]: "preserves P tick"
  by (rule preservesI) (auto simp: tick_def Let_def frontend_steps_frame intro: same)

lemma now_quiet [quiet]: "preserves P now"
  by (simp add: now_def quiet)

lemma utc_quiet [quiet]: "preserves P utc"
  by (simp add: utc_def quiet)

lemma is_cancelled_quiet [quiet]: "preserves P (is_cancelled tok)"
  by (simp add: is_cancelled_def quiet)

lemma pause_quiet [quiet]: "preserves P (pause tok x)"
  by (simp add: pause_def quiet)

lemma emit_quiet: "\<not> is_start ev \<Longrightarrow> \<not> is_reset ev \<Longrightarrow> preserves P (emit ev)"
  unfolding emit_def by (rule preserves_upd) (rule harmless)

lemma worker_call_quiet: "method \<noteq> ''start'' \<Longrightarrow> preserves P (worker_call method params)"
  unfolding worker_call_def by (intro quiet emit_quiet) simp_all

lemma usb_command_quiet:
  "take 2 args \<noteq> [''usb'', ''reset''] \<Longrightarrow> take 2 args \<noteq> [''usb'', ''cycle''] \<Longrightarrow> preserves P (usb_command args)"
  unfolding usb_command_def by (intro quiet emit_quiet) simp_all

lemma sync_quiet [quiet]: "preserves P sync_runtime_options"
  unfolding sync_runtime_options_def by (intro quiet worker_call_quiet) simp_all

lemma session_call_quiet: "method \<noteq> ''start'' \<Longrightarrow> preserves P (session_call method params)"
  unfolding session_call_def by (intro quiet worker_call_quiet)

lemma invalidate_quiet [quiet]: "preserves P invalidate"
  unfolding invalidate_def
  by (intro quiet emit_quiet) (simp_all add: remember_cooling_def)

lemma connection_failed_quiet [quiet]: "preserves P connection_failed"
  unfolding connection_failed_def by (intro quiet) simp

lemma reconnect_delay_quiet [quiet]: "preserves P (reconnect_delay tok)"
  unfolding reconnect_delay_def by (intro quiet)

lemma fall_back_quiet [quiet]: "preserves P (fall_back reason tok)"
  unfolding fall_back_def by (intro quiet) simp

lemma read_back_quiet [quiet]: "preserves P (read_back kind x deadline clamp)"
  unfolding read_back_def by (intro quiet worker_call_quiet) simp

lemma write_control_quiet [quiet]: "preserves P (write_control kind x deadline clamp)"
  unfolding write_control_def by (intro quiet worker_call_quiet) simp

lemma control_result_quiet [quiet]: "preserves P (control_result r)"
proof (cases r)
  case (Inl e)
  then show ?thesis by (cases e) (auto simp: control_result_def intro!: quiet)
qed (simp add: control_result_def quiet)

lemma finish_request_quiet:
  assumes "\<And>s. ss_trace (commit s) = ss_trace s \<and> lc_usb_resets (commit s) = lc_usb_resets s"
  shows "preserves P (finish_request i r commit)"
  unfolding finish_request_def
proof (intro quiet preservesI)
  fix t s assume "P s"
  moreover obtain r' m' s' where f: "finish i t r commit (ss_cooling s) s = (r', m', s')"
    by (cases "finish i t r commit (ss_cooling s) s")
  then have "s' = s \<or> s' = commit s"
    by (auto simp: finish_def Let_def split: option.splits if_splits)
  ultimately show "P (snd (case finish i t r commit (ss_cooling s) s of
      (r', m', s') \<Rightarrow> (Returned r', s'\<lparr>ss_cooling := m'\<rparr>)))"
    using assms [of s] unfolding f by (auto intro: same)
qed

lemma commit_frame:
  "ss_trace (commit_cooling kind x obs s) = ss_trace s \<and> lc_usb_resets (commit_cooling kind x obs s) = lc_usb_resets s"
  by (simp add: commit_cooling_def Let_def)

lemma serve_request_quiet [quiet]: "preserves P (serve_request i kind x deadline)"
  unfolding serve_request_def
proof (intro quiet preservesI)
  fix t s assume p: "P s"
  obtain d m where dm: "dispatch i t (ss_cooling s) = (d, m)" by (cases "dispatch i t (ss_cooling s)")
  let ?served = "bnd (write_control kind x deadline False) (\<lambda>r.
        bnd (finish_request i (map_sum id co_value r) (commit_cooling kind x (ok_option r))) (\<lambda>r.
        case r of
          Inl (Uncertain m c) \<Rightarrow> bnd (control_result (Inl (Uncertain m c))) (\<lambda>_. ret ())
        | Inl CoolCancelled \<Rightarrow> throw cancelled_error
        | _ \<Rightarrow> ret ()))"
  have "preserves P ?served"
  proof (intro quiet finish_request_quiet commit_frame)
    fix e show "preserves P (case e of Uncertain m c \<Rightarrow> bnd (control_result (Inl (Uncertain m c))) (\<lambda>_. ret ())
        | CoolCancelled \<Rightarrow> throw cancelled_error | _ \<Rightarrow> ret ())"
      by (cases e) (auto intro!: quiet)
  qed
  moreover have "P (s\<lparr>ss_cooling := m\<rparr>)" using p by (rule same) simp_all
  ultimately show "P (snd ((case dispatch i t (ss_cooling s) of (d, m) \<Rightarrow>
       (if \<not> d then ret () else ?served) (s\<lparr>ss_cooling := m\<rparr>))))"
    by (auto simp: dm ret_def preserves_def)
qed

lemma service_cooling_quiet [quiet]: "preserves P (service_cooling tok)"
proof -
  have c: "preserves P (\<lambda>s. case claim t (ss_cooling s) of (c, m) \<Rightarrow>
      (Returned (Option.bind c (\<lambda>i. map_option (Pair i) (mb_store m i))), s\<lparr>ss_cooling := m\<rparr>))" for t
    by (rule preservesI) (auto split: prod.split intro: same)
  show ?thesis
    unfolding service_cooling_def command_deadline_def
    by (intro quiet c finish_request_quiet) simp_all
qed

lemma adopt_clamped_frame:
  "ss_trace (adopt_clamped kind x a s) = ss_trace s \<and> lc_usb_resets (adopt_clamped kind x a s) = lc_usb_resets s"
  by (simp add: adopt_clamped_def Let_def)

lemma apply_one_quiet [quiet]: "preserves P (apply_one kv)"
  unfolding apply_one_def
  by (intro quiet) (simp_all add: adopt_clamped_frame record_applied_def)

lemma resume_cooling_quiet [quiet]: "preserves P resume_cooling"
  unfolding resume_cooling_def by (intro quiet session_call_quiet) simp_all

lemma apply_settings_quiet [quiet]: "preserves P apply_settings"
  unfolding apply_settings_def by (intro quiet)

lemma observe_control_quiet [quiet]: "preserves P (observe_control kind)"
  unfolding observe_control_def by (intro quiet session_call_quiet) simp

lemma read_environment_quiet [quiet]: "preserves P read_environment"
  unfolding read_environment_def read_environment_one_def by (intro quiet)

lemma set_white_balance_quiet [quiet]: "preserves P (set_white_balance w)"
  unfolding set_white_balance_def by (intro quiet session_call_quiet) simp_all

lemma with_peripherals_quiet [quiet]: "preserves P (with_peripherals f)"
  by (rule preservesI) (auto simp: with_peripherals_def split: prod.split intro: same)

lemma open_worker_quiet [quiet]: "preserves P (open_worker purpose)"
  unfolding open_worker_def spawn_worker_def restore_white_balance_def
  by (intro quiet session_call_quiet emit_quiet) (simp_all add: adopt_open_def Let_def)

lemma open_session_quiet [quiet]: "preserves P open_session"
  by (simp add: open_session_def quiet)

lemma bind_usb_quiet [quiet]: "preserves P (bind_usb tok)"
  unfolding bind_usb_def check_usb_helper_def
  by (intro quiet usb_command_quiet) simp_all

lemma rebind_usb_quiet [quiet]: "preserves P (rebind_usb tok)"
  unfolding rebind_usb_def by (intro quiet)

lemma peripheral_wait_quiet [quiet]: "preserves P (peripheral_wait i tok)"
  unfolding peripheral_wait_def by (intro quiet)

lemma settle_quiet [quiet]: "preserves P (settle t demand tok)"
  unfolding settle_def settle_round_def by (intro quiet)

lemma settle_if_quiet [quiet]: "preserves P (settle_if p tok)"
  unfolding settle_if_def by (intro quiet)

lemma validate_direct_quiet [quiet]: "preserves P (validate_direct e tok)"
proof -
  have "preserves P (case err of
       EFailure (Worker message (Some code)) \<Rightarrow>
         if code = 8
         then bnd (fall_back (error_display err) tok) (\<lambda>_. bnd open_session (\<lambda>_.
              bnd apply_settings (\<lambda>_. settle_if (\<lambda>_. True) tok)))
         else throw err
     | _ \<Rightarrow> throw err)" for err
    by (auto split: error.split failure.split option.split intro!: quiet)
  then show ?thesis
    unfolding validate_direct_def by (intro quiet session_call_quiet) simp_all
qed

lemma poll_state_quiet [quiet]: "preserves P (poll_state message)"
  unfolding poll_state_def by (intro quiet session_call_quiet) simp

lemma exposure_round_quiet [quiet]: "preserves P (exposure_round seconds tok clock sampled)"
  unfolding exposure_round_def by (intro quiet)

lemma download_round_quiet [quiet]: "preserves P (download_round e ops tok reads)"
  unfolding download_round_def download_image_def by (intro quiet worker_call_quiet) simp

lemma accept_image_quiet [quiet]: "preserves P (accept_image e tok started reads metadata pixels)"
  unfolding accept_image_def adopt_frame_white_balance_def by (intro quiet)

lemma expose_and_download_quiet [quiet]: "preserves P (expose_and_download e ops tok started)"
  unfolding expose_and_download_def by (intro quiet)

lemma complete_frame_quiet [quiet]: "preserves P (complete_frame attempt before frame)"
  unfolding complete_frame_def by (intro quiet) simp

lemma abort_capture_quiet [quiet]: "preserves P abort_capture"
  unfolding abort_capture_def by (intro quiet session_call_quiet) simp

lemma note_failure_quiet [quiet]: "preserves P (note_failure e attempt retries tok)"
  unfolding note_failure_def by (intro quiet)

lemma capture_failed_quiet [quiet]: "preserves P (capture_failed tok e)"
  unfolding capture_failed_def by (intro quiet)

end

text \<open>Preparations, for a property that the USB reset before an exposure preserves as well.\<close>

locale quiet_preparation = quiet_view +
  assumes before: "preserves P (reset_before_open tok)"
begin

lemma reopen_quiet [quiet]: "preserves P (reopen tok)"
  unfolding reopen_def by (intro quiet before)

lemma prepare_exposure_quiet [quiet]: "preserves P (prepare_exposure e tok)"
  unfolding prepare_exposure_def by (intro quiet) simp

lemma prepare_attempts_quiet [quiet]: "preserves P (prepare_attempts k e tok)"
  by (induction k) (simp, intro quiet, simp, intro quiet)

end

text \<open>A whole capture, for a property that starting and resetting between attempts preserve too.\<close>

locale quiet_capture = quiet_preparation +
  assumes start: "preserves P (start_exposure e ops attempt tok)"
    and between: "preserves P (reset_between ops attempt tok)"
begin

lemma attempt_exposure_quiet [quiet]: "preserves P (attempt_exposure e attempt tok)"
  unfolding attempt_exposure_def by (intro quiet start) simp

lemma capture_attempts_quiet: "preserves P (capture_attempts k e ops retries attempt tok err)"
proof (induction k arbitrary: attempt err)
  case 0
  show ?case by (simp add: quiet)
next
  case (Suc k)
  show ?case by (simp only: capture_attempts.simps) (intro quiet between Suc, simp_all)
qed

end

end
