(* ===== verification/Session_Sample.thy ===== *)
theory Session_Sample imports Session_Capture "HOL-Library.Code_Target_Numeral" begin

text \<open>
  A concrete camera session on which the witnesses of the session properties evaluate: an opened ZWO
  camera driven through the SDK, a clock that advances one second per step, a token nobody cancels
  unless said otherwise, and worker replies given by a script.
\<close>

definition demo_environment :: "(nat \<Rightarrow> error + (json \<times> nat list)) \<Rightarrow> environment" where
  "demo_environment reply =
     \<lparr>en_now = (\<lambda>n. n * nanos_per_sec), en_utc = (\<lambda>n. int n * 1000000), en_cancelled = (\<lambda>_. False),
      en_reply = reply, en_spawn = (\<lambda>_. Inr (Some 7)), en_usb_command = (\<lambda>_. Inr []),
      en_frontend = (\<lambda>_. []), en_target = (\<lambda>_. None), en_from_str = (\<lambda>_. None),
      en_simulate = True, en_windows = False, en_loop_bound = 50\<rparr>"

definition demo_camera_selection :: selection where
  "demo_camera_selection = \<lparr>sl_name = ''ZWO ASI2600MM Pro'', sl_serial = Some ''0123456789abcdef'', sl_direct = False,
     sl_sdk_fallback = False, sl_recovery = default_recovery\<rparr>"

definition demo_status :: status where
  "demo_status = default_status\<lparr>st_connected := True, st_control_connection_available := True,
     st_info := demo_info, st_controls := demo_controls\<rparr>"

definition demo_session :: "environment \<Rightarrow> session" where
  "demo_session env =
     \<lparr>ss_env = env, ss_tick = 0, ss_trace = [], ss_wheel_expected = None, ss_status = demo_status,
      ss_selection = demo_camera_selection, ss_worker = Some (Some 7), ss_direct = False, ss_ever_opened = True,
      ss_applied = [], ss_recovery_temperature = None, ss_recovery_power = None, ss_recovery_target = None,
      ss_settle_required = False, ss_cooling_seeded = False, ss_usb_target = None,
      ss_cooling = mailbox_default, ss_runtime_options = from_recovery default_recovery,
      ss_applied_runtime_options = Some (from_recovery default_recovery), ss_reconnect_not_before = None,
      ss_connection_failures = 0, ss_outage_usb_reset = False, ss_peripherals = peripherals_new 0,
      lc_settings = [], lc_prior = None, lc_power = None, lc_usb_resets = 0, lc_start_dispatched = False\<rparr>"

definition demo_frame_exposure :: exposure where
  "demo_frame_exposure = \<lparr>ex_width = 8, ex_height = 2, ex_bin = 2, ex_x = 0, ex_y = 0, ex_microseconds = 1000000,
     ex_dark = False\<rparr>"

text \<open>A worker that confirms nothing: every command ends in an uncertain state.\<close>

definition uncertain_worker :: "nat \<Rightarrow> error + (json \<times> nat list)" where
  "uncertain_worker n = Inl (EFailure (UncertainControl ''lost'' None))"

text \<open>A worker that reports exposure state 2 and delivers the frame of \<open>demo_frame_exposure\<close>.\<close>

definition good_worker :: "nat \<Rightarrow> error + (json \<times> nat list)" where
  "good_worker n = Inr (if n < 8 then (JInt 2, [])
     else (JObj [(''height'', JInt 2), (''width'', JInt 8)], replicate 32 7))"

text \<open>A worker that answers everything with a fresh observation of the value 10.\<close>

definition observing_worker :: "nat \<Rightarrow> error + (json \<times> nat list)" where
  "observing_worker n = Inr (JObj [(''ageSeconds'', JInt 0), (''value'', JInt 10)], [])"

end
