(* ===== verification/Session_Policy.thy ===== *)
theory Session_Policy imports Session_Quiet Session_Sample begin

text \<open>
  The retry policy of a capture: how often a camera is exposed and its USB device reset by one
  capture, and when a failed exposure may be replaced at all. The counting arguments interpret the
  locales of \<open>Session_Quiet\<close> on the counters defined here.
\<close>

section \<open>Counters\<close>

definition starts :: "session \<Rightarrow> nat" where
  "starts s = length (filter is_start (ss_trace s))"

definition resets :: "session \<Rightarrow> nat" where
  "resets s = length (filter is_reset (ss_trace s))"

lemma starts_append: "starts (s\<lparr>ss_trace := ss_trace s @ [ev]\<rparr>) = starts s + (if is_start ev then 1 else 0)"
  by (simp add: starts_def)

lemma resets_append: "resets (s\<lparr>ss_trace := ss_trace s @ [ev]\<rparr>) = resets s + (if is_reset ev then 1 else 0)"
  by (simp add: resets_def)

text \<open>\<open>raises f n m\<close>: the action makes the counter grow by at most \<open>n\<close>.\<close>

definition raises :: "(session \<Rightarrow> nat) \<Rightarrow> nat \<Rightarrow> 'a act \<Rightarrow> bool" where
  "raises f n m \<longleftrightarrow> (\<forall>s. f (snd (m s)) \<le> f s + n)"

lemma raisesD: "raises f n m \<Longrightarrow> m s = (r, t) \<Longrightarrow> f t \<le> f s + n"
  unfolding raises_def by (metis snd_conv)

lemma raises_mono: "raises f n m \<Longrightarrow> n \<le> k \<Longrightarrow> raises f k m"
  unfolding raises_def by (meson add_left_mono order_trans)

lemma raises_bnd:
  assumes "raises f a m" "\<And>x. raises f b (g x)"
  shows "raises f (a + b) (bnd m g)"
  unfolding raises_def
proof (intro allI)
  fix s
  obtain r t where m: "m s = (r, t)" by (cases "m s")
  have t: "f t \<le> f s + a" by (rule raisesD [OF assms(1) m])
  show "f (snd (bnd m g s)) \<le> f s + (a + b)"
  proof (cases r)
    case (Returned x)
    have "f (snd (g x t)) \<le> f t + b" using assms(2) by (simp add: raises_def)
    then show ?thesis using t by (simp add: bnd_def m Returned)
  qed (use t in \<open>simp_all add: bnd_def m\<close>)
qed

lemma raises_bnd0:
  assumes "raises f 0 m" "\<And>x. raises f n (g x)"
  shows "raises f n (bnd m g)"
  using raises_bnd [OF assms] by simp

lemma raises_then:
  assumes "raises f n m" "\<And>x. raises f 0 (g x)"
  shows "raises f n (bnd m g)"
  using raises_bnd [OF assms] by simp

lemma raises_outcome: "raises f n m \<Longrightarrow> raises f n (outcome_of m)"
  unfolding raises_def outcome_of_def by (auto split: prod.split result.split) (metis snd_conv)+

lemma raises_if: "raises f n m \<Longrightarrow> raises f n m' \<Longrightarrow> raises f n (if b then m else m')"
  by simp

lemma raises_sum:
  "(\<And>a. raises f n (g a)) \<Longrightarrow> (\<And>b. raises f n (h b)) \<Longrightarrow> raises f n (case x of Inl a \<Rightarrow> g a | Inr b \<Rightarrow> h b)"
  by (cases x) simp_all

lemma raises_any: "raises f 0 m \<Longrightarrow> raises f n m"
  using raises_mono [of f 0 m n] by simp

lemma raises_preserves: "(\<And>c. preserves (\<lambda>s. f s = c) m) \<Longrightarrow> raises f 0 m"
  by (auto simp: raises_def preserves_def)

section \<open>Exposures\<close>

interpretation starting: quiet_view "\<lambda>s. starts s = c" for c
  by unfold_locales (auto simp: starts_append starts_def)

lemma upd_trace [quiet]: "(\<And>s. ss_trace (g s) = ss_trace s) \<Longrightarrow> preserves (\<lambda>s. starts s = c) (upd g)"
  by (rule preserves_upd) (simp add: starts_def)

lemma usb_command_no_start: "preserves (\<lambda>s. starts s = c) (usb_command args)"
  unfolding usb_command_def emit_def
  by (intro quiet preserves_upd) (simp add: starts_append)

lemma dispatch_reset_no_start: "preserves (\<lambda>s. starts s = c) (dispatch_reset target tok)"
  unfolding dispatch_reset_def by (intro quiet usb_command_no_start) simp

lemma reset_usb_no_start: "preserves (\<lambda>s. starts s = c) (reset_usb tok)"
  unfolding reset_usb_def
  by (intro quiet dispatch_reset_no_start)

interpretation preparing: quiet_preparation "\<lambda>s. starts s = c" for c
proof unfold_locales
  show "preserves (\<lambda>s. starts s = c) (reset_before_open tok)" for tok
    unfolding reset_before_open_def by (intro quiet reset_usb_no_start) simp
qed

lemma reset_between_no_start: "preserves (\<lambda>s. starts s = c) (reset_between ops attempt tok)"
  unfolding reset_between_def by (intro quiet reset_usb_no_start) simp

lemma worker_call_raises: "raises starts 1 (worker_call method params)"
proof -
  have e: "raises starts 1 (emit ev)" for ev
    by (simp add: raises_def emit_def upd_def starts_append)
  show ?thesis
    unfolding worker_call_def
    by (intro raises_bnd0 [OF raises_preserves] raises_then [OF e] raises_preserves quiet)
qed

lemma session_call_raises: "raises starts 1 (session_call method params)"
  unfolding session_call_def
  by (intro raises_bnd0 [OF raises_preserves] worker_call_raises quiet)

lemma start_exposure_raises: "raises starts 1 (start_exposure e ops attempt tok)"
  unfolding start_exposure_def
  by (intro raises_bnd0 [OF raises_preserves] raises_then [OF session_call_raises] raises_preserves quiet)
     (simp add: starts_def)

lemma attempt_exposure_raises: "raises starts 1 (attempt_exposure e attempt tok)"
  unfolding attempt_exposure_def
  by (intro raises_bnd0 [OF raises_preserves] raises_then [OF start_exposure_raises] raises_preserves quiet)
     (simp add: starts_def)

lemma no_start_raises:
  "raises starts 0 (capture_failed tok e)" "raises starts 0 abort_capture"
  "raises starts 0 (complete_frame attempt before fr)" "raises starts 0 (note_failure e attempt retries tok)"
  "raises starts 0 (reset_between ops attempt tok)" "raises starts 0 (is_cancelled tok)"
  "raises starts 0 (get h)" "raises starts 0 (lift r)"
  by (intro raises_preserves quiet reset_between_no_start)+

lemma upd_no_start: "(\<And>s. ss_trace (g s) = ss_trace s) \<Longrightarrow> raises starts 0 (upd g)"
  by (simp add: raises_def upd_def starts_def)

lemma capture_attempts_raises: "raises starts k (capture_attempts k e ops retries attempt tok err)"
proof (induction k arbitrary: attempt err)
  case 0
  show ?case by (simp add: no_start_raises)
next
  case (Suc k)
  have next_attempt: "raises starts k
      (bnd (upd (\<lambda>s. if ss_direct s \<and> sl_sdk_fallback (ss_selection s) then s\<lparr>ss_direct := False\<rparr> else s)) (\<lambda>_.
           capture_attempts k e ops retries (attempt + 1) tok err))" for err
    by (intro raises_bnd0 upd_no_start Suc) simp
  have "raises starts k (case r of Inr frame \<Rightarrow> complete_frame attempt before frame
     | Inl err \<Rightarrow>
         bnd (is_cancelled tok) (\<lambda>c.
         if c then abort_capture
         else
           bnd (note_failure err attempt retries tok) (\<lambda>can_retry.
           if \<not> can_retry then capture_failed tok err
           else
             bnd (reset_between ops attempt tok) (\<lambda>reset. case reset of
               Inl reset_error \<Rightarrow> capture_failed tok reset_error
             | Inr _ \<Rightarrow>
                 bnd (upd (\<lambda>s. if ss_direct s \<and> sl_sdk_fallback (ss_selection s) then s\<lparr>ss_direct := False\<rparr> else s)) (\<lambda>_.
                 capture_attempts k e ops retries (attempt + 1) tok err)))))" for r before
    by (intro raises_sum raises_bnd0 raises_if next_attempt no_start_raises raises_any [OF no_start_raises(1)]
        raises_any [OF no_start_raises(2)] raises_any [OF no_start_raises(3)])
  then have "raises starts (1 + k) (capture_attempts (Suc k) e ops retries attempt tok err)"
    unfolding capture_attempts.simps
    by (intro raises_bnd0 [of starts _ "1 + k"] upd_no_start raises_bnd raises_outcome attempt_exposure_raises no_start_raises) simp_all
  then show ?case by simp
qed

text \<open>
  C2: A capture exposes the camera at most once per permitted attempt. However its preparations,
  USB resets, downloads and cooler commands turn out, and whatever the worker answers, the worker
  receives at most one \<open>start\<close> command more than the number of replacement exposures the recovery
  options allow for this exposure time.
\<close>

theorem capture_exposures_bounded:
  "starts (snd (capture e tok s)) \<le> starts s + 1 + replacement_exposures (recovery s) (ex_microseconds e)"
proof -
  have b: "raises starts (1 + replacement_exposures ops (ex_microseconds e))
     (bnd (upd begin_capture) (\<lambda>_.
        capture_attempts (Suc (replacement_exposures ops (ex_microseconds e))) e ops
          (replacement_exposures ops (ex_microseconds e)) 0 tok (invalid ''Capture failed'')))" for ops
    by (intro raises_bnd0 upd_no_start) (simp_all add: begin_capture_def Let_def capture_attempts_raises del: capture_attempts.simps)
  show ?thesis
    using b [of "recovery s", unfolded raises_def, rule_format, of s]
    by (cases "admit_capture e s")
       (simp_all add: capture_def bnd_def get_def lift_def throw_def ret_def Let_def del: capture_attempts.simps)
qed

section \<open>USB resets\<close>

interpretation resetting: quiet_view "\<lambda>s. resets s = c" for c
  by unfold_locales (auto simp: resets_append resets_def)

interpretation reset_counter: quiet_view "\<lambda>s. lc_usb_resets s = c" for c
  by unfold_locales auto

lemma upd_resets [quiet]: "(\<And>s. ss_trace (g s) = ss_trace s) \<Longrightarrow> preserves (\<lambda>s. resets s = c) (upd g)"
  by (rule preserves_upd) (simp add: resets_def)

lemma upd_counter [quiet]:
  "(\<And>s. lc_usb_resets (g s) = lc_usb_resets s) \<Longrightarrow> preserves (\<lambda>s. lc_usb_resets s = c) (upd g)"
  by (rule preserves_upd) simp

lemma usb_command_resets: "raises resets 1 (usb_command args)"
proof -
  have e: "raises resets 1 (emit ev)" for ev
    by (simp add: raises_def emit_def upd_def resets_append)
  show ?thesis
    unfolding usb_command_def
    by (intro raises_bnd0 [OF raises_preserves] raises_then [OF e] raises_preserves quiet)
qed

lemma usb_command_counter: "preserves (\<lambda>s. lc_usb_resets s = c) (usb_command args)"
  unfolding usb_command_def emit_def by (intro quiet) simp

lemma dispatch_reset_resets: "raises resets 1 (dispatch_reset target tok)"
proof -
  have tail: "raises resets 1 (bnd (whenever b (bnd (usb_command args) (\<lambda>_. ret ()))) f)"
    if "\<And>r c. preserves (\<lambda>s. resets s = c) (f r)" for f :: "unit \<Rightarrow> unit act" and b args
  proof (rule raises_then [OF _ raises_preserves [OF that]])
    show "raises resets 1 (whenever b (bnd (usb_command args) (\<lambda>_. ret ())))"
      unfolding whenever_def
      by (intro raises_if raises_then [OF usb_command_resets] raises_preserves raises_any [OF raises_preserves] quiet)
  qed
  show ?thesis
    unfolding dispatch_reset_def
    by (intro tail raises_bnd0 [OF raises_preserves] quiet) simp
qed

lemma dispatch_reset_counter: "preserves (\<lambda>s. lc_usb_resets s = c) (dispatch_reset target tok)"
  unfolding dispatch_reset_def by (intro quiet usb_command_counter) simp

lemma reset_usb_counter: "preserves (\<lambda>s. lc_usb_resets s = c) (reset_usb tok)"
  unfolding reset_usb_def by (intro dispatch_reset_counter quiet)

lemma reset_usb_resets: "raises resets 1 (reset_usb tok)"
proof -
  have tail: "raises resets 1 (bnd (outcome_of (dispatch_reset target tok)) f)"
    if "\<And>r c. preserves (\<lambda>s. resets s = c) (f r)" for f :: "error + unit \<Rightarrow> unit act" and target
    by (intro raises_then [OF raises_outcome [OF dispatch_reset_resets]] raises_preserves that)
  show ?thesis
    unfolding reset_usb_def
    by (intro tail raises_bnd0 [OF raises_preserves] quiet)
qed

definition within_reset :: "nat \<Rightarrow> session \<Rightarrow> bool" where
  "within_reset c s \<longleftrightarrow> resets s \<le> c + lc_usb_resets s \<and> lc_usb_resets s \<le> 1"

text \<open>A reset that the counter has just admitted.\<close>

lemma admitted_reset:
  assumes "within_reset c s" "lc_usb_resets s = 0"
    and "ss_trace s' = ss_trace s" "lc_usb_resets s' = 1"
  shows "within_reset c (snd (reset_usb tok s'))"
proof -
  obtain r t where r: "reset_usb tok s' = (r, t)" by (cases "reset_usb tok s'")
  have "resets t \<le> resets s' + 1" using raisesD [OF reset_usb_resets r] .
  moreover have "lc_usb_resets t = 1" using preservesD [OF reset_usb_counter _ r] assms by blast
  ultimately show ?thesis using assms by (simp add: within_reset_def resets_def r)
qed

interpretation within: quiet_view "within_reset c" for c
  by unfold_locales (auto simp: within_reset_def resets_append resets_def)

lemma start_within: "preserves (within_reset c) (emit (EvCall method params))"
  unfolding emit_def by (rule preserves_upd) (simp add: within_reset_def resets_append)

interpretation reset_policy: quiet_capture "within_reset c" for c
proof unfold_locales
  show "preserves (within_reset c) (reset_before_open tok)" for tok
    by (rule preservesI)
       (auto simp: reset_before_open_def bnd_def get_def upd_def whenever_def ret_def intro: admitted_reset)
  show "preserves (within_reset c) (reset_between ops attempt tok)" for ops attempt tok
  proof (rule preservesI)
    fix s assume s: "within_reset c s"
    have "within_reset c (snd (outcome_of (reset_usb tok)
        (s\<lparr>lc_usb_resets := Suc (lc_usb_resets s), ss_outage_usb_reset := True\<rparr>)))" if "lc_usb_resets s = 0"
      using admitted_reset [OF s that, of "s\<lparr>lc_usb_resets := Suc (lc_usb_resets s), ss_outage_usb_reset := True\<rparr>" tok] that
      by (auto simp: outcome_of_def split: prod.split result.split)
    then show "within_reset c (snd (reset_between ops attempt tok s))"
      using s by (auto simp: reset_between_def bnd_def get_def upd_def ret_def)
  qed
  show "preserves (within_reset c) (start_exposure e ops attempt tok)" for e ops attempt tok
    unfolding start_exposure_def session_call_def worker_call_def by (intro quiet start_within) simp_all
qed

text \<open>
  C6: A capture resets the USB device at most once, counting the reset before the first exposure and
  those between two attempts together, whatever fails and however many attempts it makes.
\<close>

theorem capture_resets_usb_at_most_once: "resets (snd (capture e tok s)) \<le> resets s + 1"
proof -
  have "within_reset (resets s) (begin_capture s)"
    by (simp add: within_reset_def begin_capture_def resets_def Let_def)
  then have "within_reset (resets s) (snd (capture_attempts k e ops retries 0 tok err (begin_capture s)))"
    for k ops retries err
    using reset_policy.capture_attempts_quiet [of "resets s" k e ops retries 0 tok err]
    by (simp add: preserves_def del: capture_attempts.simps)
  then have "resets (snd (capture_attempts k e ops retries 0 tok err (begin_capture s))) \<le> resets s + 1"
    for k ops retries err
    by (meson add_left_mono order_trans within_reset_def)
  then show ?thesis
    by (cases "admit_capture e s")
       (simp_all add: capture_def bnd_def get_def lift_def throw_def ret_def upd_def Let_def del: capture_attempts.simps)
qed

section \<open>When an exposure may be replaced\<close>

lemma note_failure_yields: "yields (\<lambda>b. b \<longrightarrow> retryable e \<and> attempt < retries) (note_failure e attempt retries tok)"
proof -
  have decision: "yields (\<lambda>b. b \<longrightarrow> retryable e \<and> attempt < retries)
      (bnd (get (\<lambda>s. lc_start_dispatched s \<and> retryable e \<and> attempt < retries \<and> \<not> c)) (\<lambda>can_retry.
       bnd (whenever (retryable e) connection_failed) (\<lambda>_.
       bnd invalidate (\<lambda>_.
       bnd (on_status (set_last_failure (error_display e))) (\<lambda>_.
       ret can_retry)))))" for c
    by (rule yields_after [of "\<lambda>b. b \<longrightarrow> retryable e \<and> attempt < retries"]; intro returns) simp_all
  show ?thesis
    unfolding note_failure_def by (intro decision returns)
qed

lemma never_returns:
  "yields (\<lambda>_. False) (capture_failed tok e)" "yields (\<lambda>_. False) abort_capture"
  unfolding capture_failed_def abort_capture_def by (intro returns)+

text \<open>
  C5: After a failure that is not retryable (an uncertain control write, a rejected request, a
  cancellation), or with the caller's token cancelled, a capture neither starts another exposure nor
  resets the USB device nor returns a frame: the sensor may hold an exposure nobody can account for.
\<close>

theorem unaccountable_failure_ends_capture:
  assumes "attempt_exposure e attempt tok (s\<lparr>lc_start_dispatched := False\<rparr>) = (Failed err, t)"
    and "\<not> retryable err"
    and "capture_attempts (Suc k) e ops retries attempt tok prior_error s = (r, s')"
  shows "starts s' = starts t \<and> resets s' = resets t \<and> (\<nexists>fr. r = Returned fr)"
proof -
  let ?short = "bnd (is_cancelled tok) (\<lambda>c.
         if c then abort_capture else bnd (note_failure err attempt retries tok) (\<lambda>_. capture_failed tok err))"
  have stop: "bnd (note_failure err attempt retries tok) (\<lambda>b. if \<not> b then capture_failed tok err else m b) u
      = bnd (note_failure err attempt retries tok) (\<lambda>_. capture_failed tok err) u" for m u
    using yieldsD [OF note_failure_yields, of err attempt retries tok u] assms(2)
    by (auto simp: bnd_def split: prod.split result.split)
  obtain m where step: "capture_attempts (Suc k) e ops retries attempt tok prior_error s =
      bnd (is_cancelled tok) (\<lambda>c. if c then abort_capture
        else bnd (note_failure err attempt retries tok) (\<lambda>b. if \<not> b then capture_failed tok err else m b)) t"
    by (simp only: capture_attempts.simps) (simp add: assms(1) bnd_def [of "upd f" for f]
      bnd_def [of "get f" for f] bnd_def [of "outcome_of m" for m] upd_def get_def outcome_of_def)
  have r: "?short t = (r, s')"
  proof (cases "is_cancelled tok t")
    case (Pair c u)
    show ?thesis
    proof (cases c)
      case (Returned x)
      then show ?thesis
        using assms(3) by (cases x) (simp_all only: step bnd_def [of "is_cancelled tok" for tok] Pair
          prod.case result.case if_True if_False stop)
    qed (use assms(3) in \<open>simp_all only: step bnd_def [of "is_cancelled tok" for tok] Pair prod.case result.case\<close>)
  qed
  have quiet_end: "preserves (\<lambda>s. starts s = c) ?short" "preserves (\<lambda>s. resets s = c) ?short" for c
    by (intro quiet)+
  have "starts s' = starts t" by (rule preservesD [OF quiet_end(1) refl r])
  moreover have "resets s' = resets t" by (rule preservesD [OF quiet_end(2) refl r])
  moreover have never: "yields (\<lambda>_. False) ?short"
    by (intro returns never_returns)
  have "\<nexists>fr. r = Returned fr"
  proof
    assume "\<exists>fr. r = Returned fr"
    then obtain fr where "r = Returned fr" ..
    then show False using r by (auto dest: yieldsD [OF never])
  qed
  ultimately show ?thesis by blast
qed

theorem unaccountable_failure_ends_capture_witness:
  "starts (snd (capture_attempts (Suc 2) demo_frame_exposure default_recovery 2 0 False (invalid [])
     (demo_session (demo_environment uncertain_worker)))) = 1"
proof -
  let ?s = "demo_session (demo_environment uncertain_worker)"
  obtain r t where a: "attempt_exposure demo_frame_exposure 0 False (?s\<lparr>lc_start_dispatched := False\<rparr>) = (r, t)"
    by (cases "attempt_exposure demo_frame_exposure 0 False (?s\<lparr>lc_start_dispatched := False\<rparr>)")
  have "fst (attempt_exposure demo_frame_exposure 0 False (?s\<lparr>lc_start_dispatched := False\<rparr>))
      = Failed (EFailure (UncertainControl ''lost'' None))"
    and t: "starts (snd (attempt_exposure demo_frame_exposure 0 False (?s\<lparr>lc_start_dispatched := False\<rparr>))) = 1"
    by code_simp+
  then have r: "r = Failed (EFailure (UncertainControl ''lost'' None))"
    by (simp only: a fst_conv)
  obtain r' s' where c: "capture_attempts (Suc 2) demo_frame_exposure default_recovery 2 0 False (invalid []) ?s = (r', s')"
    by (cases "capture_attempts (Suc 2) demo_frame_exposure default_recovery 2 0 False (invalid []) ?s")
  have "starts s' = starts t"
    using unaccountable_failure_ends_capture [OF a [unfolded r] _ c] by simp
  with t show ?thesis by (simp only: a c snd_conv)
qed

end
