(* ===== verification/Session_Results.thy ===== *)
theory Session_Results imports Session_Policy begin

text \<open>
  What the operations of a session promise to their callers: the frame a capture returns is the one
  requested, a control write reported as done was read back, a cancelled capture starts nothing, the
  loops of a download and of the peripheral fence end.
\<close>

section \<open>The returned frame\<close>

definition frame_of :: "exposure \<Rightarrow> frame \<Rightarrow> bool" where
  "frame_of e fr \<longleftrightarrow> fr_exposure fr = e \<and> frame_bytes e = Inr (length (fr_pixels fr))"

lemma check_frame_length: "check_frame e metadata pixels = Inr u \<Longrightarrow> frame_bytes e = Inr (length pixels)"
  by (auto simp: check_frame_def and_then_def ensure_def split: sum.splits if_splits)

lemma accept_image_frame: "yields (frame_of e) (accept_image e tok started reads metadata pixels)"
  unfolding accept_image_def
  by (intro yields_after [OF yields_lift, of "check_frame e metadata pixels"] returns)
     (simp add: frame_of_def check_frame_length)

lemma complete_frame_of: "frame_of e fr \<Longrightarrow> yields (frame_of e) (complete_frame attempt before fr)"
  unfolding complete_frame_def by (intro returns) (simp add: frame_of_def)

lemma attempt_frame: "yields (frame_of e) (attempt_exposure e attempt tok)"
  unfolding attempt_exposure_def expose_and_download_def by (intro accept_image_frame returns)

lemma capture_attempts_frame: "yields (frame_of e) (capture_attempts k e ops retries attempt tok err)"
proof (induction k arbitrary: attempt err)
  case 0
  show ?case by (simp add: yields_never never_returns)
next
  case (Suc k)
  show ?case
    unfolding capture_attempts.simps
    by (rule yields_bnd, rule yields_bnd, rule yields_after [OF yields_outcome [OF attempt_frame]])
       (intro yields_sum_of complete_frame_of yields_never [OF never_returns(1)]
        yields_never [OF never_returns(2)] yields_bnd yields_if Suc; simp)
qed

text \<open>
  C10: A frame that a capture returns belongs to the requested exposure and has exactly the bytes of
  the requested region of interest, whichever attempt, download or backend produced it.
\<close>

theorem captured_frame_is_the_requested_one:
  assumes "capture e tok s = (Returned fr, t)"
  shows "fr_exposure fr = e \<and> frame_bytes e = Inr (length (fr_pixels fr))"
proof -
  have "yields (frame_of e) (capture e tok)"
    unfolding capture_def Let_def by (intro capture_attempts_frame returns)
  then show ?thesis using yieldsD assms by (fastforce simp: frame_of_def)
qed

theorem captured_frame_is_the_requested_one_witness:
  "\<exists>fr t. capture demo_frame_exposure False (demo_session (demo_environment good_worker)) = (Returned fr, t)
     \<and> fr_exposure fr = demo_frame_exposure \<and> frame_bytes demo_frame_exposure = Inr (length (fr_pixels fr))"
proof -
  let ?run = "capture demo_frame_exposure False (demo_session (demo_environment good_worker))"
  have "(case fst ?run of Returned _ \<Rightarrow> True | _ \<Rightarrow> False)" by code_simp
  then obtain fr where "fst ?run = Returned fr" by (cases "fst ?run") auto
  then have "?run = (Returned fr, snd ?run)" by (metis prod.collapse)
  with captured_frame_is_the_requested_one [OF this] show ?thesis by blast
qed

section \<open>Verified writes\<close>

lemma tick_returned:
  "tick s = (Returned n, t) \<Longrightarrow> n = ss_tick s \<and> ss_trace t = ss_trace s"
  by (auto simp: tick_def Let_def frontend_steps_frame)

lemma now_trace: "now s = (Returned x, t) \<Longrightarrow> ss_trace t = ss_trace s"
  by (auto simp: now_def bnd_returned get_returned dest: tick_returned)

lemma worker_call_trace:
  "worker_call method params s = (Returned x, t) \<Longrightarrow> ss_trace t = ss_trace s @ [EvCall method params]"
  by (auto simp: worker_call_def bnd_returned get_returned check_returned lift_returned emit_def upd_def
      dest!: tick_returned)

lemma read_back_returned:
  assumes "read_back kind v deadline clamp s = (Returned ob, t)"
  shows "ss_trace t = ss_trace s
      @ [EvCall (if kind \<in> set acknowledged_controls then ''get-observation'' else ''get'') (control_params kind)]
    \<and> (co_value ob = v \<or> clamp \<and> kind = 5)"
  using assms
  by (auto simp: read_back_def bnd_returned get_returned check_returned lift_returned ret_returned
      readback_accepted_def dest!: now_trace worker_call_trace)



section \<open>Cancellation\<close>

lemma frontend_step_env: "ss_env (frontend_step t op s) = ss_env s \<and> ss_tick (frontend_step t op s) = ss_tick s"
  by (simp add: frontend_step_def split: frontend_op.split)

lemma frontend_steps_env:
  "ss_env (fold (frontend_step t) ops s) = ss_env s \<and> ss_tick (fold (frontend_step t) ops s) = ss_tick s"
  by (induction ops arbitrary: s) (simp_all add: frontend_step_env)

definition cancelled_from_now :: "session \<Rightarrow> bool" where
  "cancelled_from_now s \<longleftrightarrow> (\<forall>n \<ge> ss_tick s. en_cancelled (ss_env s) n)"

lemma cancelled_check:
  assumes "cancelled_from_now s"
  obtains t where "is_cancelled True s = (Returned True, t)" "cancelled_from_now t"
    "ss_trace t = ss_trace s"
proof -
  let ?n = "ss_tick s"
  let ?t = "fold (frontend_step (en_now (ss_env s) ?n)) (en_frontend (ss_env s) ?n) (s\<lparr>ss_tick := Suc ?n\<rparr>)"
  have "is_cancelled True s = (Returned (en_cancelled (ss_env ?t) ?n), ?t)"
    by (simp add: is_cancelled_def bnd_def tick_def get_def Let_def)
  then have "is_cancelled True s = (Returned True, ?t)"
    using assms by (simp add: cancelled_from_now_def frontend_steps_env)
  moreover have "cancelled_from_now ?t"
    using assms by (simp add: cancelled_from_now_def frontend_steps_env)
  ultimately show thesis by (rule that) (simp add: frontend_steps_frame)
qed

lemma cancelled_attempt:
  assumes "cancelled_from_now s"
  obtains t where "attempt_exposure e attempt True s = (Failed cancelled_error, t)" "cancelled_from_now t"
    "ss_trace t = ss_trace s"
proof -
  obtain t where t: "is_cancelled True s = (Returned True, t)" "cancelled_from_now t" "ss_trace t = ss_trace s"
    by (rule cancelled_check [OF assms])
  have "attempt_exposure e attempt True s = (Failed cancelled_error, t)"
    by (simp add: attempt_exposure_def bnd_def get_def t(1) check_def throw_def)
  then show thesis using t that by blast
qed

section \<open>Session actions that always finish\<close>

lemma finishes_on_status [finishing]: "finishes (on_status k)"
  by (simp add: on_status_def finishing)

lemma finishes_tick [finishing]: "finishes tick"
  by (simp add: finishes_def tick_def Let_def)

lemma finishes_clock [finishing]: "finishes now" "finishes (is_cancelled tok)" "finishes (pause tok x)"
    "finishes (emit ev)" "finishes (set_phase p)"
  unfolding now_def is_cancelled_def pause_def emit_def set_phase_def by (intro finishing)+

lemma finishes_calls [finishing]: "finishes (worker_call method params)" "finishes (session_call method params)"
  unfolding session_call_def sync_runtime_options_def worker_call_def Let_def by (intro finishing)+

lemma finishes_invalidate [finishing]: "finishes invalidate"
  unfolding invalidate_def by (intro finishing)

lemma finishes_poll [finishing]: "finishes (poll_state message)"
  unfolding poll_state_def by (intro finishing)

lemma finishes_abort [finishing]: "finishes abort_capture"
  unfolding abort_capture_def Let_def by (intro finishing)

lemma finishes_download [finishing]: "finishes (download_round e ops tok reads)"
  unfolding download_round_def download_image_def Let_def by (intro finishing)

text \<open>
  A capture whose token is cancelled before it begins starts no exposure and resets no USB device;
  it ends with an error, after asking the camera to stop.
\<close>

theorem cancelled_capture_starts_nothing:
  assumes "\<forall>n \<ge> ss_tick s. en_cancelled (ss_env s) n" and "capture e True s = (r, t)"
  shows "starts t = starts s \<and> resets t = resets s \<and> (\<exists>err. r = Failed err)"
proof (cases "admit_capture e s")
  case (Inl err)
  then show ?thesis using assms(2) by (auto simp: capture_def bnd_def get_def lift_def throw_def)
next
  case (Inr u)
  let ?b = "(begin_capture s)\<lparr>lc_start_dispatched := False\<rparr>"
  have "cancelled_from_now ?b"
    using assms(1) by (simp add: cancelled_from_now_def begin_capture_def Let_def)
  then obtain v where v: "attempt_exposure e 0 True ?b = (Failed cancelled_error, v)" "cancelled_from_now v"
    "ss_trace v = ss_trace ?b"
    by (rule cancelled_attempt)
  obtain w where w: "is_cancelled True v = (Returned True, w)" "ss_trace w = ss_trace v"
    by (rule cancelled_check [OF v(2)])
  have result: "abort_capture w = (r, t)"
    using assms(2) by (simp add: capture_def Inr bnd_runs bnd_step(3) [where m = "attempt_exposure e 0 True", OF v(1)]
        bnd_step(1) [where m = "is_cancelled True", OF w(1)] Let_def)
  have trace: "ss_trace w = ss_trace s"
    by (simp add: w(2) v(3) begin_capture_def Let_def)
  have "starts t = starts w" "resets t = resets w"
    using preservesD [OF starting.abort_capture_quiet refl result] preservesD [OF resetting.abort_capture_quiet refl result]
    by simp_all
  moreover have "r \<noteq> Unfinished" using finishesD [OF finishes_abort, of w] by (simp add: result)
  moreover have "r \<noteq> Returned fr" for fr
    using yieldsD [OF never_returns(2)] result by (cases r) auto
  ultimately show ?thesis by (cases r) (auto simp: starts_def resets_def trace)
qed

theorem cancelled_capture_starts_nothing_witness:
  "starts (snd (capture demo_frame_exposure True
     (demo_session ((demo_environment good_worker)\<lparr>en_cancelled := \<lambda>_. True\<rparr>)))) = 0"
proof -
  let ?s = "demo_session ((demo_environment good_worker)\<lparr>en_cancelled := \<lambda>_. True\<rparr>)"
  have "\<forall>n \<ge> ss_tick ?s. en_cancelled (ss_env ?s) n" by (simp add: demo_session_def)
  from cancelled_capture_starts_nothing [OF this prod.collapse [symmetric], of demo_frame_exposure] show ?thesis
    by (simp add: starts_def demo_session_def)
qed

section \<open>Loops that end\<close>

definition downloads :: "session \<Rightarrow> nat" where
  "downloads s = length (filter (\<lambda>ev. \<exists>p. ev = EvCall ''download'' p) (ss_trace s))"

text \<open>What one round of a loop may do to a counter, when it continues with the next count.\<close>

lemma iterate_counts:
  assumes "\<And>x s. finishes (body x)" "\<And>x. raises f 1 (body x)"
    and next_round: "\<And>x. yields (\<lambda>r. \<forall>y. r = Inl y \<longrightarrow> y = Suc x \<and> x < m) (body x)"
    and "x \<le> m" "m - x < n"
  shows "finishes (iterate n body x) \<and> raises f (Suc m - x) (iterate n body x)"
  using assms(4,5)
proof (induction n arbitrary: x)
  case 0
  then show ?case by simp
next
  case (Suc n)
  have tail: "finishes (case r of Inl y \<Rightarrow> iterate n body y | Inr z \<Rightarrow> ret z)
      \<and> raises f (m - x) (case r of Inl y \<Rightarrow> iterate n body y | Inr z \<Rightarrow> ret z)"
    if "\<forall>y. r = Inl y \<longrightarrow> y = Suc x \<and> x < m" for r
  proof (cases r)
    case (Inl y)
    then have y: "y = Suc x" "x < m" using that by auto
    show ?thesis using Suc.IH [of y] Suc.prems y by (simp add: Inl Suc_diff_le)
  qed (simp add: finishing raises_def ret_def)
  show ?case
  proof
    show "finishes (iterate (Suc n) body x)"
    proof (rule finishesI)
      fix s
      show "fst (iterate (Suc n) body x s) \<noteq> Unfinished"
        using finishesD [OF assms(1), of x s] yieldsD [OF next_round, of x s] tail
        by (cases "body x s"; cases "fst (body x s)") (auto simp: bnd_def dest: finishesD)
    qed
    show "raises f (Suc m - x) (iterate (Suc n) body x)"
      unfolding raises_def
    proof
      fix s
      obtain r t where b: "body x s = (r, t)" by (cases "body x s")
      have t: "f t \<le> f s + 1" using raisesD [OF assms(2) b] .
      show "f (snd (iterate (Suc n) body x s)) \<le> f s + (Suc m - x)"
      proof (cases r)
        case (Returned z)
        have "raises f (m - x) (case z of Inl y \<Rightarrow> iterate n body y | Inr z \<Rightarrow> ret z)"
          using tail yieldsD [OF next_round b [unfolded Returned]] by blast
        then have "f (snd ((case z of Inl y \<Rightarrow> iterate n body y | Inr z \<Rightarrow> ret z) t)) \<le> f t + (m - x)"
          by (simp add: raises_def)
        then show ?thesis using t Suc.prems(1) by (simp add: bnd_def b Returned)
      qed (use t Suc.prems(1) in \<open>simp_all add: bnd_def b\<close>)
    qed
  qed
qed

text \<open>Counting downloads: everything but the download itself leaves the count alone.\<close>

named_theorems still \<open>actions that request no download\<close>

lemma still_rules [still]:
  "raises f 0 (ret x)" "raises f 0 (throw e)" "raises f 0 (get h)" "raises f 0 (lift r)" "raises f 0 (check b e)"
  by (cases r; simp add: raises_def ret_def throw_def get_def lift_def check_def)+

lemma still_bnd [still]: "raises f 0 m \<Longrightarrow> (\<And>x. raises f 0 (g x)) \<Longrightarrow> raises f 0 (bnd m g)"
  by (rule raises_bnd0)

lemma still_cases [still]:
  "raises f 0 m \<Longrightarrow> raises f 0 n \<Longrightarrow> raises f 0 (if b then m else n)"
  "raises f 0 k \<Longrightarrow> raises f 0 (whenever b k)"
  "(\<And>a b. raises f 0 (h a b)) \<Longrightarrow> raises f 0 (case p of (a, b) \<Rightarrow> h a b)"
  by (simp_all add: whenever_def raises_def ret_def split: prod.split)

lemma still_upd [still]: "(\<And>s. ss_trace (g s) = ss_trace s) \<Longrightarrow> raises downloads 0 (upd g)"
  by (simp add: raises_def upd_def downloads_def)

lemma still_tick [still]: "raises downloads 0 tick"
  by (simp add: raises_def tick_def Let_def downloads_def frontend_steps_frame)

lemma still_clock [still]: "raises downloads 0 now" "raises downloads 0 (is_cancelled tok)" "raises downloads 0 (pause tok x)"
    "raises downloads 0 (on_status k)"
  unfolding now_def is_cancelled_def pause_def on_status_def by (intro still; simp)+

lemma emit_downloads:
  "raises downloads 1 (emit ev)" "\<nexists>p. ev = EvCall ''download'' p \<Longrightarrow> raises downloads 0 (emit ev)"
  by (simp_all add: raises_def emit_def upd_def downloads_def)

lemma worker_call_downloads:
  "raises downloads 1 (worker_call method params)"
  "method \<noteq> ''download'' \<Longrightarrow> raises downloads 0 (worker_call method params)"
  unfolding worker_call_def by (intro raises_bnd0 raises_then [OF emit_downloads(1)] still, (intro still emit_downloads; simp))

lemma poll_downloads [still]: "raises downloads 0 (poll_state message)"
  unfolding poll_state_def session_call_def sync_runtime_options_def
  by (intro still worker_call_downloads; simp)

lemma download_round_downloads: "raises downloads 1 (download_round e ops tok reads)"
proof -
  have image: "raises downloads 1 (outcome_of (download_image n))" for n
    unfolding download_image_def by (intro raises_outcome raises_bnd0 still worker_call_downloads)
  have failed: "raises downloads 0
     (bnd (get retained) (\<lambda>kept.
      bnd (is_cancelled tok) (\<lambda>c.
      if \<not> kept \<and> retryable err \<and> \<not> c
      then
        bnd (on_status (set_last_failure (error_display err))) (\<lambda>_.
        bnd (poll_state ''Invalid post-transfer state'') (\<lambda>state.
        if ro_ready_frame_download_retries ops \<le> reads \<or> state \<noteq> 2 then throw err
        else
          bnd (on_status (\<lambda>st. st\<lparr>st_retry := (st_retry st)\<lparr>rs_downloads := rs_downloads (st_retry st) + 1\<rparr>,
                 st_phase := ''Rereading ready frame ('' @ show_nat (reads + 1) @ ''/''
                   @ show_nat (ro_ready_frame_download_retries ops) @ '')''\<rparr>)) (\<lambda>_.
          bnd (pause tok (ro_reconnect_delay_seconds ops)) (\<lambda>_. ret (Inl (reads + 1))))))
      else throw err)))" for err
    by (intro still)
  show ?thesis
    unfolding download_round_def
    by (intro raises_bnd0 [OF still_rules(3)] raises_bnd0 [OF still_rules(4)] raises_bnd0 [OF still_rules(5)]
        raises_then [OF image] raises_sum still_cases(3) still_rules(1) failed)
qed

lemma download_round_continues:
  "yields (\<lambda>r. \<forall>y. r = Inl y \<longrightarrow> y = Suc reads \<and> reads < ro_ready_frame_download_retries ops)
     (download_round e ops tok reads)"
proof -
  have again: "yields (\<lambda>r. \<forall>y. r = Inl y \<longrightarrow> y = Suc reads \<and> reads < ro_ready_frame_download_retries ops)
       (if ro_ready_frame_download_retries ops \<le> reads \<or> state \<noteq> 2 then throw err
        else bnd (on_status h) (\<lambda>_. bnd (pause tok x) (\<lambda>_. ret (Inl (reads + 1)))))" for state err h x
    by (intro returns) auto
  show ?thesis
    unfolding download_round_def by (intro again returns) simp
qed

text \<open>
  The download of a ready frame ends: with the permitted number of rereads as loop rounds it never
  runs out of them, and it requests the frame from the worker at most once more than that number.
\<close>

theorem download_ends_within_its_rereads:
  assumes "ro_ready_frame_download_retries ops < en_loop_bound (ss_env s)"
    and "looping (download_round e ops tok) 0 s = (r, t)"
  shows "r \<noteq> Unfinished \<and> downloads t \<le> downloads s + 1 + ro_ready_frame_download_retries ops"
proof -
  let ?n = "en_loop_bound (ss_env s)"
  have i: "iterate ?n (download_round e ops tok) 0 s = (r, t)"
    using assms(2) by (simp add: looping_def bnd_runs)
  have c: "finishes (iterate ?n (download_round e ops tok) 0)
     \<and> raises downloads (Suc (ro_ready_frame_download_retries ops) - 0) (iterate ?n (download_round e ops tok) 0)"
    by (rule iterate_counts)
       (use assms(1) in \<open>simp_all add: finishes_download
         download_round_downloads [simplified] download_round_continues [simplified]\<close>)
  then show ?thesis
    using finishesD [OF conjunct1 [OF c], of s] raisesD [OF conjunct2 [OF c] i] by (simp add: i)
qed

theorem download_ends_within_its_rereads_witness:
  "downloads (snd (looping (download_round demo_frame_exposure default_recovery False) 0
     (demo_session (demo_environment uncertain_worker)))) \<le> 3"
proof -
  let ?s = "demo_session (demo_environment uncertain_worker)"
  have "ro_ready_frame_download_retries default_recovery < en_loop_bound (ss_env ?s)"
    by (simp add: demo_session_def demo_environment_def default_recovery_def)
  from download_ends_within_its_rereads [OF this prod.collapse [symmetric], of demo_frame_exposure False]
  show ?thesis by (simp add: downloads_def demo_session_def default_recovery_def)
qed

text \<open>\<open>later s t\<close>: the script has moved on at least one step, in the same environment.\<close>

definition later :: "nat \<Rightarrow> session \<Rightarrow> session \<Rightarrow> bool" where
  "later k s t \<longleftrightarrow> ss_env t = ss_env s \<and> ss_tick s + k \<le> ss_tick t"

lemma now_runs:
  "\<exists>t. now s = (Returned (en_now (ss_env s) (ss_tick s)), t) \<and> later 1 s t"
proof -
  let ?n = "ss_tick s"
  let ?t = "fold (frontend_step (en_now (ss_env s) ?n)) (en_frontend (ss_env s) ?n) (s\<lparr>ss_tick := Suc ?n\<rparr>)"
  have "now s = (Returned (en_now (ss_env ?t) ?n), ?t)"
    by (simp add: now_def bnd_def tick_def get_def Let_def)
  then have "now s = (Returned (en_now (ss_env s) ?n), ?t)" by (simp add: frontend_steps_env)
  moreover have "later 1 s ?t" by (simp add: later_def frontend_steps_env)
  ultimately show ?thesis by blast
qed

lemma is_cancelled_runs:
  "\<exists>c t. is_cancelled tok s = (Returned c, t) \<and> later 0 s t"
proof (cases tok)
  case True
  let ?n = "ss_tick s"
  let ?t = "fold (frontend_step (en_now (ss_env s) ?n)) (en_frontend (ss_env s) ?n) (s\<lparr>ss_tick := Suc ?n\<rparr>)"
  have "is_cancelled tok s = (Returned (en_cancelled (ss_env ?t) ?n), ?t)"
    by (simp add: True is_cancelled_def bnd_def tick_def get_def Let_def)
  moreover have "later 0 s ?t" by (simp add: later_def frontend_steps_env)
  ultimately show ?thesis by blast
next
  case False
  then show ?thesis by (auto simp: is_cancelled_def ret_def later_def)
qed

definition wait_round :: "nat \<Rightarrow> bool \<Rightarrow> nat \<Rightarrow> unit \<Rightarrow> (unit + (error + unit)) act" where
  "wait_round i tok deadline = (\<lambda>_.
        bnd (is_cancelled tok) (\<lambda>c.
        bnd now (\<lambda>t.
        bnd (with_peripherals (wait_end i c t deadline)) (\<lambda>r.
        ret (case r of None \<Rightarrow> Inl () | Some r \<Rightarrow> Inr r)))))"

lemma with_peripherals_runs:
  "bnd (with_peripherals f) g s = g (fst (f (ss_peripherals s))) (s\<lparr>ss_peripherals := snd (f (ss_peripherals s))\<rparr>)"
  by (simp add: bnd_def with_peripherals_def split: prod.split)

lemma wait_round_runs:
  "\<exists>r t. wait_round i tok deadline () s = (Returned r, t) \<and> later 1 s t
     \<and> ((\<forall>n \<ge> ss_tick s. deadline \<le> en_now (ss_env s) n) \<longrightarrow> (\<exists>z. r = Inr z))"
proof -
  obtain c a where a: "is_cancelled tok s = (Returned c, a)" "later 0 s a" using is_cancelled_runs by blast
  obtain b where b: "now a = (Returned (en_now (ss_env a) (ss_tick a)), b)" "later 1 a b" using now_runs by blast
  obtain w p where w: "wait_end i c (en_now (ss_env a) (ss_tick a)) deadline (ss_peripherals b) = (w, p)"
    by (cases "wait_end i c (en_now (ss_env a) (ss_tick a)) deadline (ss_peripherals b)")
  let ?t = "b\<lparr>ss_peripherals := p\<rparr>" and ?r = "case w of None \<Rightarrow> Inl () | Some r \<Rightarrow> Inr r"
  have "wait_round i tok deadline () s = (Returned ?r, ?t)"
    by (simp add: wait_round_def bnd_step(1) [where m = "is_cancelled tok", OF a(1)]
        bnd_step(1) [where m = now, OF b(1)] with_peripherals_runs w ret_def)
  moreover have "later 1 s ?t" using a(2) b(2) by (simp add: later_def)
  moreover have "\<exists>z. ?r = Inr z" if "\<forall>n \<ge> ss_tick s. deadline \<le> en_now (ss_env s) n"
  proof -
    have "deadline \<le> en_now (ss_env a) (ss_tick a)" using that a(2) by (simp add: later_def)
    then have "w \<noteq> None"
      using w by (auto simp: wait_end_def wait_select_def wait_result_def split: option.splits if_splits prod.splits)
    then show ?thesis by auto
  qed
  ultimately show ?thesis by blast
qed

lemma wait_rounds_end:
  assumes "\<forall>n \<ge> N. deadline \<le> en_now (ss_env s) n" "N - ss_tick s < k"
  shows "\<exists>z t. iterate k (wait_round i tok deadline) () s = (Returned z, t)"
  using assms
proof (induction k arbitrary: s)
  case 0
  then show ?case by simp
next
  case (Suc k)
  obtain r t where r: "wait_round i tok deadline () s = (Returned r, t)" and t: "later 1 s t"
    and stop: "\<forall>n \<ge> ss_tick s. deadline \<le> en_now (ss_env s) n \<Longrightarrow> \<exists>z. r = Inr z"
    using wait_round_runs by blast
  show ?case
  proof (cases r)
    case (Inl v)
    then have "ss_tick s < N" using stop Suc.prems(1) by (meson Inl_Inr_False not_le order_trans)
    then have "\<exists>z u. iterate k (wait_round i tok deadline) () t = (Returned z, u)"
      using Suc.prems t by (intro Suc.IH) (auto simp: later_def)
    then show ?thesis by (simp add: bnd_def r Inl)
  qed (simp add: bnd_def r ret_def)
qed

text \<open>
  Waiting for the peripherals after a USB reset ends: once the clock of the script is past the
  deadline of the wait from some step on, and the loop may run that many rounds, the wait returns
  or fails. It never stays in the loop, whether or not anybody acknowledges.
\<close>

theorem peripheral_wait_ends:
  assumes "\<forall>n \<ge> N. en_now (ss_env s) (ss_tick s) + wait_seconds * nanos_per_sec \<le> en_now (ss_env s) n"
    and "N < en_loop_bound (ss_env s)"
  shows "fst (peripheral_wait i tok s) \<noteq> Unfinished"
proof -
  let ?t = "en_now (ss_env s) (ss_tick s)"
  obtain a where a: "now s = (Returned ?t, a)" "later 1 s a" using now_runs by blast
  obtain r p where r: "wait_begin i ?t (ss_peripherals a) = (r, p)" by (cases "wait_begin i ?t (ss_peripherals a)")
  let ?b = "a\<lparr>ss_peripherals := p\<rparr>"
  have run: "peripheral_wait i tok s = bnd (lift r) (\<lambda>deadline.
      bnd (looping (wait_round i tok deadline) ()) lift) ?b"
    by (simp add: peripheral_wait_def bnd_step(1) [where m = now, OF a(1)]
        with_peripherals_runs r wait_round_def)
  show ?thesis
  proof (cases r)
    case (Inl e)
    then show ?thesis by (simp add: run bnd_runs)
  next
    case (Inr deadline)
    then have d: "deadline = ?t + wait_seconds * nanos_per_sec"
      using r by (auto simp: wait_begin_def Let_def split: option.splits if_splits)
    have "\<exists>z t. iterate (en_loop_bound (ss_env ?b)) (wait_round i tok deadline) () ?b = (Returned z, t)"
      by (rule wait_rounds_end [of N]) (use assms a(2) d in \<open>simp_all add: later_def\<close>)
    then obtain z t where "iterate (en_loop_bound (ss_env ?b)) (wait_round i tok deadline) () ?b = (Returned z, t)"
      by blast
    then have "looping (wait_round i tok deadline) () ?b = (Returned z, t)"
      by (simp add: looping_def bnd_runs)
    then have "peripheral_wait i tok s = lift z t"
      by (simp add: run Inr bnd_runs bnd_step(1) [where m = "looping (wait_round i tok deadline) ()"])
    then show ?thesis using finishesD [OF finishes_lift] by metis
  qed
qed

theorem peripheral_wait_ends_witness:
  "fst (peripheral_wait 1 False
     (demo_session ((demo_environment good_worker)\<lparr>en_loop_bound := wait_seconds + 1\<rparr>))) \<noteq> Unfinished"
  by (rule peripheral_wait_ends [of wait_seconds])
     (simp_all add: demo_session_def demo_environment_def)

section \<open>Switching the dew heater off\<close>



end
