(* ===== verification/Continuous.thy ===== *)
theory Continuous imports Action Double "HOL-Library.List_Lexorder" "HOL-Library.Code_Target_Numeral" begin

text \<open>
  Continuous acquisition (\<open>crates/regain-core/src/continuous.rs\<close>): the owner of a streaming camera
  (\<open>Stream\<close>) and the state it publishes to the protocol thread (\<open>Published\<close>).

  The backend that drives the camera is a script: it answers the n-th step with \<open>se_reply n\<close>; the
  calls made so far are \<open>sm_calls\<close>. Instants and durations are nanoseconds. Counters of frames are
  unbounded here (64 bits in the code). The rendering of JSON by \<open>serde_json\<close> is \<open>se_show\<close>. Frame
  metadata are objects, as every backend returns them. Diagnostics are not modelled.
\<close>

type_synonym image = "json \<times> nat list"

abbreviation put :: "string \<Rightarrow> json \<Rightarrow> json \<Rightarrow> json" where
  "put k x v \<equiv> (case jset k x v of Some w \<Rightarrow> w | None \<Rightarrow> v)"

definition millis :: "nat \<Rightarrow> nat" where
  "millis d = d div 1000000"

section \<open>Exposure times of a frame\<close>

definition exposure_timing :: "nat \<Rightarrow> nat \<Rightarrow> nat option \<Rightarrow> bool \<Rightarrow> json" where
  "exposure_timing received_ms exposure_us raw_interval settled =
     (if \<not> settled \<or> exposure_us = 0 \<or> received_ms = 0 then JNull
      else
        let exposure_ms = (exposure_us + 999) div 1000;
            margin_ms = max exposure_ms
              (case raw_interval of None \<Rightarrow> 0 | Some d \<Rightarrow> sat_add 64 (min (millis d) (2 ^ 64 - 1)) 1)
        in jobj [(''basis'', JStr ''host-receipt-estimate''),
             (''receivedUnixMilliseconds'', jnat received_ms),
             (''estimatedStartUnixMilliseconds'', jnat (received_ms - exposure_ms)),
             (''freshnessMarginMilliseconds'', jnat margin_ms)])"

section \<open>The published state\<close>

record published =
  pb_status :: json
  pb_updated :: "nat option"
  pb_latest :: "image option"
  pb_interval :: nat
  pb_delivered_at :: "nat option"
  pb_delivered :: nat
  pb_replaced :: nat
  pb_unresponsive :: bool

definition published_default :: published where
  "published_default = \<lparr>pb_status = JNull, pb_updated = None, pb_latest = None, pb_interval = 0,
     pb_delivered_at = None, pb_delivered = 0, pb_replaced = 0, pb_unresponsive = False\<rparr>"

definition rate_allows :: "nat \<Rightarrow> nat \<Rightarrow> nat option \<Rightarrow> bool" where
  "rate_allows now interval delivered_at = none_or delivered_at (\<lambda>t. interval \<le> now - t)"

definition age_key :: "nat \<Rightarrow> string \<Rightarrow> json \<Rightarrow> json" where
  "age_key elapsed key status =
     (case as_u64 (jindex status key) of
        Some age \<Rightarrow> put key (jnat (sat_add 64 age elapsed)) status
      | None \<Rightarrow> status)"

definition published_status :: "nat \<Rightarrow> published \<Rightarrow> json" where
  "published_status now p =
     (let status = (if is_object (pb_status p) then pb_status p
            else jobj [(''active'', JBool False), (''error'', JNull)]);
          status = (if pb_unresponsive p
            then put ''error'' (JStr ''acquisition owner unresponsive for over ten seconds'') status else status);
          status = put ''ready'' (JBool (pb_latest p \<noteq> None \<and> is_null (jindex status ''error'')
            \<and> rate_allows now (pb_interval p) (pb_delivered_at p))) status;
          status = put ''deliveredFrames'' (jnat (pb_delivered p)) status;
          status = put ''replacedFrames'' (jnat (pb_replaced p)) status;
          elapsed = (case pb_updated p of None \<Rightarrow> 0 | Some t \<Rightarrow> millis (now - t) mod 2 ^ 64)
      in age_key elapsed ''lastRawFrameAgeMilliseconds'' (age_key elapsed ''lastFrameAgeMilliseconds'' status))"

text \<open>A stuck owner is noticed here: responsive cached replies must not conceal it.\<close>

definition watch_owner :: "nat \<Rightarrow> published \<Rightarrow> published" where
  "watch_owner now p =
     (if as_bool (jindex (pb_status p) ''active'') = Some True \<and> is_null (jindex (pb_status p) ''error'')
         \<and> some_and (pb_updated p) (\<lambda>t. 10 * nanos_per_sec < now - t)
      then p\<lparr>pb_unresponsive := True, pb_latest := None\<rparr> else p)"

definition deliver_published :: "nat \<Rightarrow> image \<Rightarrow> published \<Rightarrow> image \<times> published" where
  "deliver_published now frame p =
     (let p = p\<lparr>pb_latest := None, pb_delivered := pb_delivered p + 1, pb_delivered_at := Some now\<rparr>
      in ((put ''continuous'' (published_status now p) (fst frame), snd frame), p))"

definition published_call :: "nat \<Rightarrow> string \<Rightarrow> published \<Rightarrow> (error + image) \<times> published" where
  "published_call now method p =
     (let p = watch_owner now p; status = published_status now p;
          ready = (as_bool (jindex status ''ready'') = Some True)
      in if method = ''stream-status'' then (Inr (status, []), p)
         else if method = ''stream-poll'' \<and> (\<not> ready \<or> as_bool (jindex status ''settingsPending'') = Some True)
         then (Inr (jobj [(''continuous'', status)], []), p)
         else case as_str (jindex status ''error'') of
             Some message \<Rightarrow> (Inl (EOther (''continuous acquisition failed: '' @ message)), p)
           | None \<Rightarrow>
               (case pb_latest p of
                  Some frame \<Rightarrow>
                    if ready then (let (r, p) = deliver_published now frame p in (Inr r, p))
                    else (Inl (EOther ''continuous frame not ready or delivery FPS limited''), p)
                | None \<Rightarrow> (Inl (EOther ''continuous frame not ready or delivery FPS limited''), p)))"

section \<open>The stream\<close>

record stream_env =
  se_now :: "nat \<Rightarrow> nat"
  se_unix_ms :: "nat \<Rightarrow> nat"
  se_reply :: "nat \<Rightarrow> error + image"
  se_fields :: "error \<Rightarrow> json"
  se_show :: "json \<Rightarrow> string"

record stream =
  sm_env :: stream_env
  sm_step :: nat
  sm_calls :: "(string \<times> json) list"
  sm_params :: "json option"
  sm_requested :: "json option"
  sm_settling_until :: "nat option"
  sm_discard :: nat
  sm_deliver_transitions :: bool
  sm_raw_frames :: nat
  sm_transition_frames :: nat
  sm_last_raw_at :: "nat option"
  sm_raw_interval :: "nat option"
  sm_settled_generation :: nat
  sm_latest :: "image option"
  sm_failure :: "string option"
  sm_failure_details :: json
  sm_interval :: nat
  sm_delivered_at :: "nat option"
  sm_acquired :: nat
  sm_delivered :: nat
  sm_replaced :: nat
  sm_camera :: json
  sm_stopping :: bool
  sm_generation :: nat
  sm_configured_at :: "nat option"
  sm_last_frame_at :: "nat option"
  sm_reported_at :: "nat option"

definition stream_default :: "stream_env \<Rightarrow> stream" where
  "stream_default env = \<lparr>sm_env = env, sm_step = 0, sm_calls = [], sm_params = None, sm_requested = None,
     sm_settling_until = None, sm_discard = 0, sm_deliver_transitions = False, sm_raw_frames = 0,
     sm_transition_frames = 0, sm_last_raw_at = None, sm_raw_interval = None, sm_settled_generation = 0,
     sm_latest = None, sm_failure = None, sm_failure_details = JNull, sm_interval = 0, sm_delivered_at = None,
     sm_acquired = 0, sm_delivered = 0, sm_replaced = 0, sm_camera = JNull, sm_stopping = False,
     sm_generation = 0, sm_configured_at = None, sm_last_frame_at = None, sm_reported_at = None\<rparr>"

type_synonym 'a owner = "(stream, 'a) action"

definition clock :: "nat owner" where
  "clock s = (Returned (se_now (sm_env s) (sm_step s)), s\<lparr>sm_step := Suc (sm_step s)\<rparr>)"

definition unix_ms :: "nat owner" where
  "unix_ms s = (Returned (se_unix_ms (sm_env s) (sm_step s)), s\<lparr>sm_step := Suc (sm_step s)\<rparr>)"

definition backend :: "string \<Rightarrow> json \<Rightarrow> image owner" where
  "backend method params s =
     lift (se_reply (sm_env s) (sm_step s))
       (s\<lparr>sm_step := Suc (sm_step s), sm_calls := sm_calls s @ [(method, params)]\<rparr>)"

definition stream_ready :: "nat \<Rightarrow> stream \<Rightarrow> bool" where
  "stream_ready now s \<longleftrightarrow>
     sm_failure s = None \<and> sm_latest s \<noteq> None \<and> rate_allows now (sm_interval s) (sm_delivered_at s)"

definition age_ms :: "nat \<Rightarrow> nat option \<Rightarrow> json" where
  "age_ms now t = jopt (\<lambda>t. jnat (millis (now - t))) t"

definition stream_status :: "nat \<Rightarrow> stream \<Rightarrow> json" where
  "stream_status now s = jobj
     [(''active'', JBool (sm_params s \<noteq> None)), (''ready'', JBool (stream_ready now s)),
      (''error'', jopt JStr (sm_failure s)), (''errorDetails'', sm_failure_details s),
      (''acquiredFrames'', jnat (sm_acquired s)), (''deliveredFrames'', jnat (sm_delivered s)),
      (''replacedFrames'', jnat (sm_replaced s)), (''mode'', jopt (\<lambda>p. jindex p ''mode'') (sm_params s)),
      (''rawFrames'', jnat (sm_raw_frames s)), (''transitionFrames'', jnat (sm_transition_frames s)),
      (''lastRawFrameAgeMilliseconds'', age_ms now (sm_last_raw_at s)),
      (''rawFrameIntervalMilliseconds'', jopt (\<lambda>d. jnat (millis d)) (sm_raw_interval s)),
      (''fpsScope'', JStr ''delivery''), (''stopping'', JBool (sm_stopping s)),
      (''settingsGeneration'', jnat (sm_generation s)), (''settingsPending'', JBool (sm_requested s \<noteq> None)),
      (''settling'', JBool (0 < sm_discard s \<or> some_and (sm_settling_until s) (\<lambda>t. now < t))),
      (''lastFrameAgeMilliseconds'', age_ms now (sm_last_frame_at s)),
      (''exposureMicroseconds'', jopt (\<lambda>p. jindex p ''microseconds'') (sm_params s))]"

definition status_reply :: "image owner" where
  "status_reply = bnd clock (\<lambda>now. get (\<lambda>s. (stream_status now s, [])))"

section \<open>Stopping\<close>

definition cleared :: "stream \<Rightarrow> stream" where
  "cleared s = s\<lparr>sm_params := None, sm_requested := None, sm_settling_until := None, sm_discard := 0,
     sm_latest := None, sm_delivered_at := None, sm_failure := None, sm_failure_details := JNull,
     sm_stopping := False\<rparr>"

text \<open>A failed cleanup keeps the stream active and faulted: no unsafe restart.\<close>

definition fail_cleanup :: "error \<Rightarrow> stream \<Rightarrow> stream" where
  "fail_cleanup e s = s\<lparr>sm_failure_details := se_fields (sm_env s) e, sm_latest := None,
     sm_failure := Some (''capture cleanup failed; host replacement required: '' @ error_display e)\<rparr>"

definition stream_stop :: "unit owner" where
  "stream_stop =
     bnd (get (\<lambda>s. sm_params s \<noteq> None)) (\<lambda>active.
     bnd (whenever active
        (bnd (outcome_of (backend ''stop'' JNull)) (\<lambda>r. case r of
             Inr _ \<Rightarrow> ret ()
           | Inl e \<Rightarrow> bnd (upd (fail_cleanup e)) (\<lambda>_. throw e)))) (\<lambda>_.
     upd cleared))"

section \<open>Commands\<close>

definition frame_interval :: "rat \<Rightarrow> nat" where
  "frame_interval fps = from_secs_f64 (Fin (fdiv 1 fps))"

text \<open>Automatic mode selection never invents a video protocol.\<close>

definition native_video :: "json \<Rightarrow> json \<Rightarrow> bool" where
  "native_video camera p \<longleftrightarrow>
     some_and (as_array (jindex camera ''captureModes'')) (\<lambda>m. JStr ''video'' \<in> set m)
     \<and> as_bool (jindex p ''dark'') \<noteq> Some True
     \<and> some_and (as_u64 (jindex p ''microseconds'')) (\<lambda>exposure.
          none_or (as_u64 (jindex camera ''videoMaxExposureMicroseconds'')) (\<lambda>limit. exposure \<le> limit))"

text \<open>The checked start parameters: frame rate, transition delivery and what the camera is sent.\<close>

definition start_request :: "json \<Rightarrow> json \<Rightarrow> error + (rat \<times> bool \<times> json)" where
  "start_request camera p =
     and_then (ok_or (case jget p ''maxFps'' of None \<Rightarrow> Some 1 | Some v \<Rightarrow> as_f64 v) (EOther ''invalid maxFps'')) (\<lambda>fps.
     and_then (ensure (f64_round (1 / 100) \<le> fps \<and> fps \<le> 120) (EOther ''maxFps must be 0.01..120'')) (\<lambda>_.
     and_then (ensure (is_object p) (EOther ''stream parameters must be an object'')) (\<lambda>_.
     let p = jremove ''maxFps'' p in
     and_then (ok_or (case jget p ''deliverTransitionFrames'' of None \<Rightarrow> Some False | Some v \<Rightarrow> as_bool v)
        (EOther ''invalid deliverTransitionFrames'')) (\<lambda>transitions.
     let p = jremove ''deliverTransitionFrames'' p;
         p = (if jget p ''mode'' = None
              then put ''mode'' (JStr (if native_video camera p then ''video'' else ''still'')) p else p)
     in Inr (fps, transitions, put ''continuousDrain'' (JBool True) p)))))"

definition unsettled :: "image \<Rightarrow> bool" where
  "unsettled f \<longleftrightarrow> as_bool (jindex (fst f) ''settingsSettled'') = Some False"

definition begin_stream :: "json \<Rightarrow> nat \<Rightarrow> stream \<Rightarrow> stream" where
  "begin_stream p now s = s\<lparr>sm_params := Some p, sm_acquired := 0, sm_delivered := 0, sm_replaced := 0,
     sm_raw_frames := 0, sm_transition_frames := 0, sm_last_raw_at := None, sm_raw_interval := None,
     sm_generation := sm_generation s + 1, sm_configured_at := Some now, sm_last_frame_at := None,
     sm_reported_at := Some now\<rparr>"

definition configure_stream :: "json \<Rightarrow> bool \<Rightarrow> rat \<Rightarrow> unit owner" where
  "configure_stream p transitions fps =
     bnd (backend ''validate'' p) (\<lambda>_.
     bnd (upd (\<lambda>s. s\<lparr>sm_deliver_transitions := transitions\<rparr>)) (\<lambda>_.
     bnd (get (\<lambda>s. sm_params s \<noteq> None)) (\<lambda>active.
     if active then upd (\<lambda>s. s\<lparr>sm_requested := Some p, sm_latest := None\<rparr>)
     else
       bnd stream_stop (\<lambda>_.
       bnd (backend ''start'' p) (\<lambda>_.
       bnd clock (\<lambda>now. upd (begin_stream p now)))))))"

definition keep_stream :: "bool \<Rightarrow> stream \<Rightarrow> stream" where
  "keep_stream transitions s =
     s\<lparr>sm_requested := None,
       sm_latest := (if \<not> transitions \<and> some_and (sm_latest s) unsettled then None else sm_latest s),
       sm_deliver_transitions := transitions\<rparr>"

definition stream_start :: "json \<Rightarrow> image owner" where
  "stream_start p =
     bnd (get (\<lambda>s. \<not> sm_stopping s)) (\<lambda>running.
     bnd (check running (EOther ''stream is stopping at the exposure boundary'')) (\<lambda>_.
     bnd (get sm_camera) (\<lambda>camera.
     bnd (lift (start_request camera p)) (\<lambda>(fps, transitions, p).
     bnd (get (\<lambda>s. sm_failure s = None)) (\<lambda>sound.
     bnd (check sound (EOther ''stream faulted; stop before restarting'')) (\<lambda>_.
     bnd (get (\<lambda>s. sm_params s \<noteq> Some p)) (\<lambda>changed.
     bnd (if changed then configure_stream p transitions fps else upd (keep_stream transitions)) (\<lambda>_.
     bnd (upd (\<lambda>s. s\<lparr>sm_interval := frame_interval fps\<rparr>)) (\<lambda>_.
     status_reply)))))))))"

definition stream_download :: "image owner" where
  "stream_download =
     bnd (get sm_failure) (\<lambda>failure. case failure of
       Some message \<Rightarrow> throw (EOther (''continuous acquisition failed: '' @ message))
     | None \<Rightarrow>
         bnd clock (\<lambda>now.
         bnd (get (\<lambda>s. if stream_ready now s then sm_latest s else None)) (\<lambda>frame. case frame of
           None \<Rightarrow> throw (EOther ''continuous frame not ready or delivery FPS limited'')
         | Some (metadata, pixels) \<Rightarrow>
             bnd clock (\<lambda>now.
             bnd (upd (\<lambda>s. s\<lparr>sm_latest := None, sm_delivered := sm_delivered s + 1,
                  sm_delivered_at := Some now\<rparr>)) (\<lambda>_.
             bnd clock (\<lambda>now.
             get (\<lambda>s. (put ''continuous'' (stream_status now s) metadata, pixels))))))))"

definition stream_poll :: "image owner" where
  "stream_poll =
     bnd clock (\<lambda>now.
     bnd (get (\<lambda>s. stream_ready now s \<and> sm_requested s = None)) (\<lambda>ready.
     if ready then stream_download
     else bnd status_reply (\<lambda>(status, pixels). ret (jobj [(''continuous'', status)], pixels))))"

text \<open>Exposures of a still stream are drained once, not aborted.\<close>

definition stream_end :: "image owner" where
  "stream_end =
     bnd (upd (\<lambda>s. s\<lparr>sm_requested := None\<rparr>)) (\<lambda>_.
     bnd (get (\<lambda>s. sm_failure s = None \<and> some_and (sm_params s) (\<lambda>p. jindex p ''mode'' = JStr ''still''))) (\<lambda>drain.
     if drain
     then bnd (upd (\<lambda>s. s\<lparr>sm_stopping := True, sm_latest := None\<rparr>)) (\<lambda>_. status_reply)
     else bnd stream_stop (\<lambda>_. status_reply)))"

definition capabilities :: "json \<Rightarrow> json" where
  "capabilities v = jobj
     [(''supported'', JBool True), (''buffer'', JStr ''latest-only''), (''transitionFrameDelivery'', JBool True),
      (''atomicFramePoll'', JBool True), (''fpsScope'', JStr ''delivery''),
      (''settingsChange'', JStr (if as_bool (jindex v ''videoScalarUpdates'') = Some False
         then ''restart-boundary'' else ''scalar-boundary-structural-restart''))]"

text \<open>Any other command reaches the camera only while no stream is active.\<close>

definition pass_through :: "string \<Rightarrow> json \<Rightarrow> image owner" where
  "pass_through method p =
     bnd (get (\<lambda>s. sm_params s = None)) (\<lambda>idle.
     bnd (check idle (EOther ''continuous acquisition active; use stream commands or stop before changing controls'')) (\<lambda>_.
     bnd (backend method p) (\<lambda>(v, pixels).
     if method = ''open''
     then
       let v = put ''continuousAcquisition'' (capabilities v) v in
       bnd (upd (\<lambda>s. s\<lparr>sm_delivered_at := None, sm_generation := 0, sm_settled_generation := 0,
            sm_camera := v\<rparr>)) (\<lambda>_. ret (v, pixels))
     else ret (v, pixels))))"

definition stream_command :: "string \<Rightarrow> json \<Rightarrow> image owner" where
  "stream_command method p =
     (if method = ''stream-start'' then stream_start p
      else if method = ''stream-status'' then status_reply
      else if method = ''stream-poll'' then stream_poll
      else if method = ''stream-download'' then stream_download
      else if method = ''stream-stop'' then stream_end
      else
        bnd (get (\<lambda>s. sm_params s \<noteq> None)) (\<lambda>active.
        if active \<and> method \<in> {''stop'', ''close''}
        then bnd stream_stop (\<lambda>_. if method = ''close'' then backend method p else ret (JNull, []))
        else pass_through method p))"

section \<open>One poll of the camera\<close>

definition scalar_update :: "json \<Rightarrow> json \<Rightarrow> bool" where
  "scalar_update before after \<longleftrightarrow>
     jindex before ''mode'' = JStr ''video'' \<and> jindex after ''mode'' = JStr ''video''
     \<and> fold (\<lambda>key prior. case jget after key of
               Some v \<Rightarrow> put key v prior
             | None \<Rightarrow> jremove key prior) [''microseconds'', ''gain''] before = after"

definition u64_zero :: "json \<Rightarrow> nat" where
  "u64_zero v = (case as_u64 v of Some n \<Rightarrow> n | None \<Rightarrow> 0)"

text \<open>The pending settings replace the running ones at a frame boundary.\<close>

definition apply_requested :: "json \<Rightarrow> json \<Rightarrow> unit owner" where
  "apply_requested params next_params =
     bnd (get (\<lambda>s. as_bool (jindex (sm_camera s) ''videoScalarUpdates'') \<noteq> Some False
          \<and> scalar_update params next_params)) (\<lambda>live.
     bnd (whenever (\<not> live) (bnd (backend ''stop'' JNull) (\<lambda>_. ret ()))) (\<lambda>_.
     bnd (backend ''start'' next_params) (\<lambda>_.
     bnd clock (\<lambda>configured.
     bnd (if live then bnd clock (\<lambda>now. ret (Some (now + 1000 * sat_add 64 (u64_zero (jindex params ''microseconds''))
            (u64_zero (jindex next_params ''microseconds''))))) else ret None) (\<lambda>settling.
     upd (\<lambda>s. s\<lparr>sm_latest := None, sm_generation := sm_generation s + 1, sm_configured_at := Some configured,
            sm_discard := (if live then 2 else 0), sm_settling_until := settling,
            sm_params := Some next_params\<rparr>))))))"

definition label_frame :: "json \<Rightarrow> nat \<Rightarrow> bool \<Rightarrow> stream \<Rightarrow> json \<Rightarrow> json" where
  "label_frame params received_ms transitional s metadata =
     put ''rawFrameIntervalMilliseconds'' (jopt (\<lambda>d. jnat (millis d)) (sm_raw_interval s))
    (put ''rawSequence'' (jnat (sm_raw_frames s))
    (put ''exposureTiming'' (exposure_timing received_ms (u64_zero (jindex params ''microseconds''))
        (sm_raw_interval s) (\<not> transitional))
    (put ''settingsSettled'' (JBool (\<not> transitional))
    (put ''settingsGeneration'' (jnat (sm_generation s))
    (put ''acquisitionSequence'' (jnat (sm_acquired s)) metadata)))))"

text \<open>A downloaded frame takes the latest slot, and the next exposure starts.\<close>

definition keep_frame :: "json \<Rightarrow> nat \<Rightarrow> bool \<Rightarrow> image \<Rightarrow> unit owner" where
  "keep_frame params received_ms transitional frame =
     bnd (upd (\<lambda>s. s\<lparr>sm_acquired := sm_acquired s + 1\<rparr>)) (\<lambda>_.
     bnd clock (\<lambda>now.
     bnd (upd (\<lambda>s. s\<lparr>sm_last_frame_at := Some now, sm_settled_generation :=
          (if transitional then sm_settled_generation s else sm_generation s)\<rparr>)) (\<lambda>_.
     bnd clock (\<lambda>now.
     bnd (upd (\<lambda>s. if some_and (sm_reported_at s) (\<lambda>t. 30 * nanos_per_sec \<le> now - t)
          then s\<lparr>sm_reported_at := Some now\<rparr> else s)) (\<lambda>_.
     bnd (upd (\<lambda>s. s\<lparr>sm_latest := Some (label_frame params received_ms transitional s (fst frame), snd frame),
          sm_replaced := (if sm_latest s \<noteq> None then sm_replaced s + 1 else sm_replaced s)\<rparr>)) (\<lambda>_.
     bnd (backend ''start'' params) (\<lambda>_. ret ())))))))"

definition take_frame :: "json \<Rightarrow> nat \<Rightarrow> nat \<Rightarrow> image \<Rightarrow> unit owner" where
  "take_frame params raw_at received_ms frame =
     bnd (get (\<lambda>s. 0 < sm_discard s \<or> some_and (sm_settling_until s) (\<lambda>t. raw_at < t))) (\<lambda>transitional.
     bnd (if transitional
          then bnd (upd (\<lambda>s. s\<lparr>sm_discard := sm_discard s - 1, sm_transition_frames := sm_transition_frames s + 1\<rparr>))
            (\<lambda>_. get (\<lambda>s. sm_deliver_transitions s))
          else bnd (upd (\<lambda>s. s\<lparr>sm_settling_until := None\<rparr>)) (\<lambda>_. ret True)) (\<lambda>wanted.
     if wanted then keep_frame params received_ms transitional frame
     else bnd (backend ''start'' params) (\<lambda>_. ret ())))"

definition poll_camera :: "json \<Rightarrow> unit owner" where
  "poll_camera params =
     bnd (backend ''status'' JNull) (\<lambda>(state, _).
     if as_i64 state = Some 1 then ret ()
     else
       bnd (get (\<lambda>s. EOther (''unexpected capture state '' @ se_show (sm_env s) state))) (\<lambda>e.
       bnd (check (as_i64 state = Some 2) e) (\<lambda>_.
       bnd (backend ''download'' JNull) (\<lambda>frame.
       bnd clock (\<lambda>raw_at.
       bnd unix_ms (\<lambda>received_ms.
       bnd (upd (\<lambda>s. s\<lparr>sm_raw_interval := map_option (\<lambda>t. raw_at - t) (sm_last_raw_at s),
            sm_last_raw_at := Some raw_at, sm_raw_frames := sm_raw_frames s + 1\<rparr>)) (\<lambda>_.
       bnd (get sm_stopping) (\<lambda>stopping.
       if stopping
       then bnd (backend ''stop'' JNull) (\<lambda>_. upd (\<lambda>s. s\<lparr>sm_params := None, sm_stopping := False\<rparr>))
       else
         bnd (get sm_requested) (\<lambda>requested. case requested of
           Some next_params \<Rightarrow>
             bnd (upd (\<lambda>s. s\<lparr>sm_requested := None\<rparr>)) (\<lambda>_. apply_requested params next_params)
         | None \<Rightarrow> take_frame params raw_at received_ms frame)))))))))"

text \<open>A fault drops the buffered image: it is never delivered as success afterwards.\<close>

definition fault :: "error \<Rightarrow> stream \<Rightarrow> stream" where
  "fault e s = s\<lparr>sm_failure_details := se_fields (sm_env s) e, sm_latest := None,
     sm_failure := Some (error_display e)\<rparr>"

definition stream_tick :: "unit owner" where
  "stream_tick =
     bnd (get (\<lambda>s. if sm_failure s = None then sm_params s else None)) (\<lambda>params. case params of
       None \<Rightarrow> ret ()
     | Some params \<Rightarrow>
         bnd (outcome_of (poll_camera params)) (\<lambda>r. case r of
           Inr _ \<Rightarrow> ret ()
         | Inl e \<Rightarrow> upd (fault e)))"

section \<open>Publishing\<close>

definition publish_failure :: "published \<Rightarrow> stream \<Rightarrow> stream" where
  "publish_failure p s =
     (if sm_params s \<noteq> None \<and> pb_unresponsive p
      then s\<lparr>sm_failure := Some ''acquisition owner unresponsive for over ten seconds'', sm_latest := None\<rparr> else s)"

definition stale :: "published \<Rightarrow> stream \<Rightarrow> bool" where
  "stale p s \<longleftrightarrow> sm_params s = None \<or> sm_failure s \<noteq> None \<or> sm_requested s \<noteq> None
     \<or> jindex (pb_status p) ''settingsGeneration'' \<noteq> jnat (sm_generation s)
     \<or> \<not> sm_deliver_transitions s \<and> some_and (pb_latest p) unsettled"

definition publish_stream :: "nat \<Rightarrow> published \<Rightarrow> stream \<Rightarrow> published \<times> stream" where
  "publish_stream now p s =
     (let s = publish_failure p s;
          p = (if sm_params s = None then p\<lparr>pb_unresponsive := False\<rparr> else p);
          p = (if sm_params s \<noteq> None \<and> as_bool (jindex (pb_status p) ''active'') \<noteq> Some True
               then p\<lparr>pb_delivered := 0, pb_replaced := 0, pb_delivered_at := None\<rparr> else p);
          p = (if stale p s then p\<lparr>pb_latest := None\<rparr> else p);
          p = (if sm_params s = None then p\<lparr>pb_delivered_at := None\<rparr> else p);
          p = (case sm_latest s of
                 None \<Rightarrow> p
               | Some frame \<Rightarrow> p\<lparr>pb_latest := Some frame,
                   pb_replaced := (if pb_latest p \<noteq> None then pb_replaced p + 1 else pb_replaced p)\<rparr>);
          s = s\<lparr>sm_latest := None, sm_delivered := pb_delivered p, sm_replaced := pb_replaced p\<rparr>
      in (p\<lparr>pb_interval := sm_interval s, pb_status := stream_status now s, pb_updated := Some now\<rparr>, s))"

section \<open>The owner loop\<close>

definition ok_reply :: "json \<Rightarrow> json \<Rightarrow> nat \<Rightarrow> json" where
  "ok_reply rid v n = jobj [(''version'', JInt 1), (''id'', rid), (''ok'', JBool True), (''result'', v),
     (''binaryLength'', jnat n)]"

definition error_reply :: "json \<Rightarrow> error \<Rightarrow> json \<Rightarrow> json" where
  "error_reply rid e details = put ''binaryLength'' (JInt 0) (put ''error'' (JStr (error_display e))
     (put ''ok'' (JBool False) (put ''id'' rid (put ''version'' (JInt 1) details))))"

definition request_method :: "json \<Rightarrow> string" where
  "request_method r = (case as_str (jindex r ''method'') of Some m \<Rightarrow> m | None \<Rightarrow> [])"

text \<open>A request that the protocol thread answers from the published state alone.\<close>

definition cached_reply :: "nat \<Rightarrow> json \<Rightarrow> published \<Rightarrow> image \<times> published" where
  "cached_reply now r p =
     (case published_call now (request_method r) p of
        (Inr (v, pixels), p) \<Rightarrow> ((ok_reply (jindex r ''id'') v (length pixels), pixels), p)
      | (Inl e, p) \<Rightarrow> ((jobj [(''version'', JInt 1), (''id'', jindex r ''id''), (''ok'', JBool False),
            (''error'', JStr (error_display e)), (''binaryLength'', JInt 0)], []), p))"

definition is_cached :: "string \<Rightarrow> bool" where
  "is_cached method \<longleftrightarrow> method \<in> {''stream-status'', ''stream-poll'', ''stream-download''}"

definition owner_reply :: "json \<Rightarrow> image owner" where
  "owner_reply r =
     bnd (outcome_of (stream_command (request_method r) (jindex r ''params''))) (\<lambda>result.
     get (\<lambda>s. case result of
         Inr (v, pixels) \<Rightarrow> (ok_reply (jindex r ''id'') v (length pixels), pixels)
       | Inl e \<Rightarrow> (error_reply (jindex r ''id'') e (se_fields (sm_env s) e), [])))"

text \<open>One round of the owner: a request if one is waiting, then one poll of the camera.\<close>

definition publishing :: "published \<Rightarrow> published owner" where
  "publishing p = bnd clock (\<lambda>now s. case publish_stream now p s of (p, s) \<Rightarrow> (Returned p, s))"

definition owner_round :: "json option \<Rightarrow> published \<Rightarrow> (image option \<times> published) owner" where
  "owner_round request p =
     bnd (case request of
            None \<Rightarrow> ret (None, p)
          | Some r \<Rightarrow> bnd (owner_reply r) (\<lambda>reply. bnd (publishing p) (\<lambda>p. ret (Some reply, p)))) (\<lambda>(reply, p).
     bnd stream_tick (\<lambda>_.
     bnd (publishing p) (\<lambda>p. ret (reply, p))))"

definition owner_shutdown :: "unit owner" where
  "owner_shutdown =
     bnd (outcome_of stream_stop) (\<lambda>stopped.
     bnd (outcome_of (backend ''close'' JNull)) (\<lambda>closed.
     bnd (lift stopped) (\<lambda>_. bnd (lift closed) (\<lambda>_. ret ()))))"

section \<open>The invariant of a stream\<close>

text \<open>
  A faulted stream holds no frame; an idle one holds neither a frame nor pending settings nor a
  request to stop; a stopping one holds neither a frame nor pending settings.
\<close>

definition stream_inv :: "stream \<Rightarrow> bool" where
  "stream_inv s \<longleftrightarrow>
     (sm_failure s \<noteq> None \<longrightarrow> sm_latest s = None)
     \<and> (sm_params s = None \<longrightarrow> sm_latest s = None \<and> sm_requested s = None \<and> \<not> sm_stopping s)
     \<and> (sm_stopping s \<longrightarrow> sm_latest s = None \<and> sm_requested s = None)"

text \<open>What the clock and the backend leave alone: everything but the script's position and the calls.\<close>

locale stream_view =
  fixes P :: "stream \<Rightarrow> bool"
  assumes frame: "P s \<Longrightarrow> P (s\<lparr>sm_step := n, sm_calls := c\<rparr>)"
begin

lemma clock_view [quiet]: "preserves P clock"
proof (rule preservesI)
  fix s assume "P s"
  then have "P (s\<lparr>sm_step := Suc (sm_step s), sm_calls := sm_calls s\<rparr>)" by (rule frame)
  then show "P (snd (clock s))"
    by (simp add: clock_def)
qed

lemma unix_view [quiet]: "preserves P unix_ms"
proof (rule preservesI)
  fix s assume "P s"
  then have "P (s\<lparr>sm_step := Suc (sm_step s), sm_calls := sm_calls s\<rparr>)" by (rule frame)
  then show "P (snd (unix_ms s))"
    by (simp add: unix_ms_def)
qed

lemma backend_view [quiet]: "preserves P (backend method params)"
  by (rule preservesI) (auto simp: backend_def lift_def throw_def ret_def intro: frame split: sum.split)

end

interpretation invariant: stream_view stream_inv
  by unfold_locales (simp add: stream_inv_def)

text \<open>An upper layer: the invariant while the stream is running and not stopping.\<close>

definition running_inv :: "stream \<Rightarrow> bool" where
  "running_inv s \<longleftrightarrow> stream_inv s \<and> \<not> sm_stopping s"

interpretation running: stream_view running_inv
  by unfold_locales (simp add: running_inv_def stream_inv_def)

lemma status_reply_inv [quiet]: "preserves stream_inv status_reply"
  unfolding status_reply_def by (intro quiet)

lemma stream_stop_inv [quiet]: "preserves stream_inv stream_stop"
  unfolding stream_stop_def
  by (intro quiet preserves_upd) (auto simp: stream_inv_def fail_cleanup_def cleared_def)

lemma stream_stop_running [quiet]: "preserves running_inv stream_stop"
  unfolding stream_stop_def
  by (intro quiet preserves_upd) (auto simp: running_inv_def stream_inv_def fail_cleanup_def cleared_def)

lemma preserves_got:
  "(\<And>s. P s \<Longrightarrow> P (snd (f (h s) s))) \<Longrightarrow> preserves P (bnd (get h) f)"
  by (rule preservesI) (simp add: bnd_runs)

lemma configure_running: "preserves running_inv (configure_stream p transitions fps)"
proof -
  have begin_it: "preserves running_inv
      (bnd stream_stop (\<lambda>_. bnd (backend ''start'' p) (\<lambda>_. bnd clock (\<lambda>now. upd (begin_stream p now)))))"
    by (intro quiet preserves_upd) (simp add: running_inv_def stream_inv_def begin_stream_def)
  have choose: "preserves running_inv (bnd (get (\<lambda>s. sm_params s \<noteq> None)) (\<lambda>active.
     if active then upd (\<lambda>s. s\<lparr>sm_requested := Some p, sm_latest := None\<rparr>)
     else bnd stream_stop (\<lambda>_. bnd (backend ''start'' p) (\<lambda>_. bnd clock (\<lambda>now. upd (begin_stream p now))))))"
  proof (rule preserves_got)
    fix s assume s: "running_inv s"
    have "sm_params s = None \<Longrightarrow> running_inv (snd (bnd stream_stop (\<lambda>_. bnd (backend ''start'' p)
         (\<lambda>_. bnd clock (\<lambda>now. upd (begin_stream p now)))) s))"
      using begin_it s by (simp add: preserves_def)
    then show "running_inv (snd ((if sm_params s \<noteq> None
         then upd (\<lambda>s. s\<lparr>sm_requested := Some p, sm_latest := None\<rparr>)
         else bnd stream_stop (\<lambda>_. bnd (backend ''start'' p) (\<lambda>_. bnd clock (\<lambda>now. upd (begin_stream p now))))) s))"
      using s by (auto simp: upd_def running_inv_def stream_inv_def)
  qed
  show ?thesis
    unfolding configure_stream_def
    by (intro quiet choose preserves_upd) (simp_all add: running_inv_def stream_inv_def)
qed

lemma keep_running: "running_inv s \<Longrightarrow> running_inv (keep_stream transitions s)"
  by (auto simp: running_inv_def stream_inv_def keep_stream_def)

lemma stream_start_inv [quiet]: "preserves stream_inv (stream_start p)"
proof (rule preservesI)
  fix s assume s: "stream_inv s"
  have rest: "preserves running_inv
     (bnd (get sm_camera) (\<lambda>camera.
     bnd (lift (start_request camera p)) (\<lambda>(fps, transitions, p).
     bnd (get (\<lambda>s. sm_failure s = None)) (\<lambda>sound.
     bnd (check sound (EOther ''stream faulted; stop before restarting'')) (\<lambda>_.
     bnd (get (\<lambda>s. sm_params s \<noteq> Some p)) (\<lambda>changed.
     bnd (if changed then configure_stream p transitions fps else upd (keep_stream transitions)) (\<lambda>_.
     bnd (upd (\<lambda>s. s\<lparr>sm_interval := frame_interval fps\<rparr>)) (\<lambda>_.
     status_reply))))))))"
    unfolding status_reply_def
    by (intro quiet configure_running preserves_upd keep_running) (simp_all add: running_inv_def stream_inv_def)
  show "stream_inv (snd (stream_start p s))"
  proof (cases "sm_stopping s")
    case True
    then show ?thesis using s by (simp add: stream_start_def bnd_def get_def check_def throw_def)
  next
    case False
    then have "running_inv s" using s by (simp add: running_inv_def)
    then have "running_inv (snd (stream_start p s))"
      using rest False by (simp add: stream_start_def bnd_runs check_def preserves_def)
    then show ?thesis by (simp add: running_inv_def)
  qed
qed

lemma stream_download_inv [quiet]: "preserves stream_inv stream_download"
  unfolding stream_download_def
  by (intro quiet preserves_upd) (auto simp: stream_inv_def)

lemma stream_poll_inv [quiet]: "preserves stream_inv stream_poll"
  unfolding stream_poll_def by (intro quiet)

lemma stream_end_inv [quiet]: "preserves stream_inv stream_end"
proof (rule preservesI)
  fix s assume s: "stream_inv s"
  let ?s = "s\<lparr>sm_requested := None\<rparr>" and ?t = "s\<lparr>sm_requested := None, sm_stopping := True, sm_latest := None\<rparr>"
  have i: "stream_inv ?s" using s by (simp add: stream_inv_def)
  have stop: "preserves stream_inv (bnd stream_stop (\<lambda>_. status_reply))" by (intro quiet)
  have "stream_inv ?t" if "sm_params s \<noteq> None" using s that by (simp add: stream_inv_def)
  then have drain: "stream_inv (snd (status_reply ?t))" if "sm_params s \<noteq> None"
    using status_reply_inv that by (simp add: preserves_def)
  show "stream_inv (snd (stream_end s))"
    using i stop drain
    by (auto simp: stream_end_def bnd_runs preserves_def some_and_def split: option.split)
qed

lemma pass_through_inv [quiet]: "preserves stream_inv (pass_through method p)"
  unfolding pass_through_def Let_def
  by (intro quiet preserves_upd) (simp add: stream_inv_def)

lemma stream_command_inv [quiet]: "preserves stream_inv (stream_command method p)"
  unfolding stream_command_def by (intro quiet)

section \<open>A poll keeps the invariant\<close>

text \<open>While it is polled the stream is active and has not failed.\<close>

definition polled_inv :: "stream \<Rightarrow> bool" where
  "polled_inv s \<longleftrightarrow> stream_inv s \<and> sm_failure s = None \<and> sm_params s \<noteq> None"

definition exposing_inv :: "stream \<Rightarrow> bool" where
  "exposing_inv s \<longleftrightarrow> polled_inv s \<and> \<not> sm_stopping s"

interpretation polled: stream_view polled_inv
  by unfold_locales (simp add: polled_inv_def stream_inv_def)

interpretation exposing: stream_view exposing_inv
  by unfold_locales (simp add: exposing_inv_def polled_inv_def stream_inv_def)

lemmas inv_defs = exposing_inv_def polled_inv_def stream_inv_def

lemma apply_requested_inv: "preserves stream_inv (apply_requested params next_params)"
  unfolding apply_requested_def
  by (intro quiet preserves_upd) (simp_all add: stream_inv_def)

lemma keep_frame_inv: "preserves exposing_inv (keep_frame params received transitional frame)"
  unfolding keep_frame_def
  by (intro quiet preserves_upd) (simp_all add: inv_defs)

lemma take_frame_inv: "preserves exposing_inv (take_frame params raw_at received frame)"
  unfolding take_frame_def
  by (intro quiet keep_frame_inv preserves_upd) (simp_all add: inv_defs)

lemma poll_camera_inv: "sends polled_inv (poll_camera params) stream_inv"
proof -
  have stop: "sends (\<lambda>s. polled_inv s \<and> sm_stopping s)
      (bnd (backend ''stop'' JNull) (\<lambda>_. upd (\<lambda>s. s\<lparr>sm_params := None, sm_stopping := False\<rparr>))) stream_inv"
    by (rule sendsI) (auto simp: bnd_def backend_def lift_def ret_def throw_def upd_def inv_defs split: sum.split)
  have change: "sends exposing_inv
      (bnd (upd (\<lambda>s. s\<lparr>sm_requested := None\<rparr>)) (\<lambda>_. apply_requested params next_params)) stream_inv" for next_params
    by (rule sends_upd [of _ stream_inv])
       (use apply_requested_inv in \<open>auto simp: preserves_iff_sends inv_defs\<close>)
  have take: "sends exposing_inv (take_frame params raw_at received frame) stream_inv" for raw_at received frame
    using take_frame_inv [unfolded preserves_iff_sends] by (rule sends_weaken) (simp_all add: inv_defs)
  have go_on: "sends polled_inv (bnd (get sm_stopping) (\<lambda>stopping.
       if stopping
       then bnd (backend ''stop'' JNull) (\<lambda>_. upd (\<lambda>s. s\<lparr>sm_params := None, sm_stopping := False\<rparr>))
       else
         bnd (get sm_requested) (\<lambda>requested. case requested of
           Some next_params \<Rightarrow>
             bnd (upd (\<lambda>s. s\<lparr>sm_requested := None\<rparr>)) (\<lambda>_. apply_requested params next_params)
         | None \<Rightarrow> take_frame params raw_at received frame))) stream_inv" for raw_at received frame
  proof (intro sends_got sends_if sends_option)
    show "sends (\<lambda>s. (polled_inv s \<and> sm_stopping s = x) \<and> x)
        (bnd (backend ''stop'' JNull) (\<lambda>_. upd (\<lambda>s. s\<lparr>sm_params := None, sm_stopping := False\<rparr>))) stream_inv" for x
      by (rule sends_weaken [OF stop]) auto
    show "sends (\<lambda>s. ((polled_inv s \<and> sm_stopping s = x) \<and> \<not> x) \<and> sm_requested s = y)
        (take_frame params raw_at received frame) stream_inv" for x y
      by (rule sends_weaken [OF take]) (auto simp: inv_defs)
    show "sends (\<lambda>s. ((polled_inv s \<and> sm_stopping s = x) \<and> \<not> x) \<and> sm_requested s = y)
        (bnd (upd (\<lambda>s. s\<lparr>sm_requested := None\<rparr>)) (\<lambda>_. apply_requested params p)) stream_inv" for x y p
      by (rule sends_weaken [OF change]) (auto simp: inv_defs)
  qed
  show ?thesis
    unfolding poll_camera_def
    by (intro go_on sends_bnd sends_prod quiet preserves_upd sends_either sends_ret) (auto simp: inv_defs)
qed

lemma stream_tick_inv [quiet]: "preserves stream_inv stream_tick"
proof (rule preservesI)
  fix s assume s: "stream_inv s"
  show "stream_inv (snd (stream_tick s))"
  proof (cases "if sm_failure s = None then sm_params s else None")
    case None
    then show ?thesis using s by (simp add: stream_tick_def bnd_runs ret_def)
  next
    case (Some params)
    then have p: "polled_inv s" using s by (auto simp: polled_inv_def split: if_splits)
    have "sends polled_inv (bnd (outcome_of (poll_camera params)) (\<lambda>r. case r of
           Inr _ \<Rightarrow> ret () | Inl e \<Rightarrow> upd (fault e))) stream_inv"
    proof (rule sends_outcome [OF poll_camera_inv])
      show "sends stream_inv (case r of Inr _ \<Rightarrow> ret () | Inl e \<Rightarrow> upd (fault e)) stream_inv" for r
        by (cases r) (simp_all add: sends_def ret_def upd_def fault_def stream_inv_def)
    qed
    from sendsD [OF this p] show ?thesis by (simp only: stream_tick_def bnd_runs Some option.case)
  qed
qed

lemma publish_inv: "stream_inv s \<Longrightarrow> stream_inv (snd (publish_stream now p s))"
  by (simp add: publish_stream_def Let_def publish_failure_def stream_inv_def)

lemma publishing_inv [quiet]: "preserves stream_inv (publishing p)"
proof -
  have "preserves stream_inv (\<lambda>s. case publish_stream now p s of (p, s) \<Rightarrow> (Returned p, s))" for now
    using publish_inv by (auto simp: preserves_def split: prod.split) (metis snd_conv)
  then show ?thesis unfolding publishing_def by (intro quiet)
qed

lemma owner_round_inv: "preserves stream_inv (owner_round request p)"
  unfolding owner_round_def owner_reply_def by (intro quiet)

text \<open>
  Every pair of published state and stream that can be reached from a fresh worker, whatever it is
  asked and answered. The protocol thread may act between any two steps of the owner.
\<close>

inductive owned :: "stream_env \<Rightarrow> published \<Rightarrow> stream \<Rightarrow> bool" for env where
  fresh: "owned env published_default (stream_default env)"
| replied: "owned env p s \<Longrightarrow> owned env p (snd (owner_reply request s))"
| ticked: "owned env p s \<Longrightarrow> owned env p (snd (stream_tick s))"
| published: "owned env p s \<Longrightarrow> publish_stream now p s = (p', s') \<Longrightarrow> owned env p' s'"
| served: "owned env p s \<Longrightarrow> owned env (snd (cached_reply now request p)) s"

lemma owner_reply_inv: "preserves stream_inv (owner_reply r)"
  unfolding owner_reply_def by (intro quiet)

lemma owned_inv: "owned env p s \<Longrightarrow> stream_inv s"
proof (induction rule: owned.induct)
  case fresh
  show ?case by (simp add: stream_inv_def stream_default_def)
next
  case (replied p s request)
  then show ?case using owner_reply_inv by (simp add: preserves_def)
next
  case (ticked p s)
  then show ?case using stream_tick_inv by (simp add: preserves_def)
next
  case (published p s now p' s')
  then show ?case using publish_inv by (metis snd_conv)
qed simp

section \<open>What a client can be given\<close>

text \<open>Objects with ordered keys, as every status is.\<close>

definition ordered :: "json \<Rightarrow> bool" where
  "ordered v \<longleftrightarrow> (case v of JObj m \<Rightarrow> bt_wf m | _ \<Rightarrow> False)"

lemma ordered_put [simp]: "ordered v \<Longrightarrow> ordered (put k x v)"
  by (cases v) (simp_all add: ordered_def bt_wf_insert)

lemma jindex_put: "ordered v \<Longrightarrow> jindex (put k x v) k' = (if k' = k then x else jindex v k')"
  by (cases v) (simp_all add: ordered_def bt_get_insert)

lemma ordered_jobj [simp]: "ordered (jobj xs)"
  by (simp add: ordered_def jobj_def bt_wf_of_list)

lemma ordered_object: "ordered v \<Longrightarrow> is_object v"
  by (cases v) (simp_all add: ordered_def)

lemma ordered_age [simp]: "ordered v \<Longrightarrow> ordered (age_key n k v)"
  by (simp add: age_key_def split: option.split)

lemma jindex_age: "ordered v \<Longrightarrow> k' \<noteq> k \<Longrightarrow> jindex (age_key n k v) k' = jindex v k'"
  by (simp add: age_key_def jindex_put split: option.split)

lemma jindex_status:
  "jindex (stream_status now s) ''error'' = jopt JStr (sm_failure s)"
  "jindex (stream_status now s) ''active'' = JBool (sm_params s \<noteq> None)"
  "ordered (stream_status now s)"
  by (simp_all add: stream_status_def jindex_jobj)

definition shown_error :: "published \<Rightarrow> json" where
  "shown_error p = (if pb_unresponsive p then JStr ''acquisition owner unresponsive for over ten seconds''
     else jindex (pb_status p) ''error'')"

lemma published_status_fields:
  assumes "ordered (pb_status p)"
  shows "jindex (published_status now p) ''error'' = shown_error p"
    and "jindex (published_status now p) ''ready'' = JBool (pb_latest p \<noteq> None \<and> is_null (shown_error p)
        \<and> rate_allows now (pb_interval p) (pb_delivered_at p))"
  using assms
  by (simp_all add: published_status_def Let_def jindex_age jindex_put ordered_object shown_error_def)

text \<open>
  C29: Once acquisition has faulted, nothing the camera delivered before is handed out as a success.
  In every state the owner can reach, after the fault is published a client that polls receives a
  status without pixels and a client that downloads receives an error.
\<close>

theorem faulted_stream_delivers_nothing:
  assumes "owned env p s" "sm_failure s = Some message" "publish_stream now p s = (p', s')"
  shows "(\<exists>e. fst (published_call t ''stream-download'' p') = Inl e)
    \<and> (\<exists>v. fst (published_call t ''stream-poll'' p') = Inr (v, []))"
proof -
  have inv: "stream_inv s" using assms(1) by (rule owned_inv)
  let ?s = "publish_failure p s"
  have s: "sm_failure ?s \<noteq> None" "sm_latest ?s = None"
    using inv assms(2) by (auto simp: publish_failure_def stream_inv_def)
  then obtain m where m: "sm_failure ?s = Some m" by blast
  have p': "pb_latest p' = None" "ordered (pb_status p')" "jindex (pb_status p') ''error'' = JStr m"
    using assms(3) s m
    by (auto simp: publish_stream_def Let_def jindex_status stale_def split: if_splits)
  have w: "watch_owner t p' = p'" by (simp add: watch_owner_def p' is_null_def)
  have e: "jindex (published_status t p') ''error'' = shown_error p'"
    "jindex (published_status t p') ''ready'' = JBool False"
    using published_status_fields [OF p'(2)] p' by auto
  have "\<exists>m'. shown_error p' = JStr m'" by (simp add: shown_error_def p')
  then obtain m' where "shown_error p' = JStr m'" by blast
  with e w show ?thesis by (simp add: published_call_def Let_def)
qed

text \<open>
  The protocol thread hands a frame out once. A successful reply that carries a delivery takes the
  frame in the latest slot and empties the slot, counts it, and happens only without an error and
  after the delivery interval; every other reply carries no pixels and leaves the count as it was.
\<close>

theorem published_frame_is_delivered_once:
  assumes "ordered (pb_status p)" "published_call now method p = (Inr (v, pixels), p')"
  shows "if pb_delivered p' = pb_delivered p then pixels = []
     else pb_delivered p' = pb_delivered p + 1 \<and> pb_latest p' = None \<and> pb_delivered_at p' = Some now
       \<and> (\<exists>f. pb_latest p = Some f \<and> pixels = snd f)
       \<and> is_null (jindex (pb_status p) ''error'') \<and> \<not> pb_unresponsive p
       \<and> rate_allows now (pb_interval p) (pb_delivered_at p)"
proof -
  let ?w = "watch_owner now p"
  have w: "ordered (pb_status ?w)" "pb_status ?w = pb_status p" "pb_delivered ?w = pb_delivered p"
    "pb_interval ?w = pb_interval p" "pb_delivered_at ?w = pb_delivered_at p"
    "pb_latest ?w \<noteq> None \<Longrightarrow> ?w = p"
    using assms(1) by (auto simp: watch_owner_def)
  note fields = published_status_fields [OF w(1), of now]
  show ?thesis
    using assms(2) w(2-) fields
    by (auto simp: published_call_def Let_def deliver_published_def shown_error_def is_null_def
        split: if_splits option.splits)
qed

text \<open>The running parameters, and a property of the calls made.\<close>

definition runs_with :: "json \<Rightarrow> ((string \<times> json) list \<Rightarrow> bool) \<Rightarrow> stream \<Rightarrow> bool" where
  "runs_with q Z s \<longleftrightarrow> sm_params s = Some q \<and> Z (sm_calls s)"

lemma runs_upd [quiet]:
  "(\<And>s. sm_params s = Some q \<Longrightarrow> sm_params (g s) = Some q \<and> sm_calls (g s) = sm_calls s) \<Longrightarrow> preserves (runs_with q Z) (upd g)"
  by (rule preserves_upd) (simp add: runs_with_def)

lemma runs_clock [quiet]: "preserves (runs_with q Z) clock"
  by (simp add: preserves_def clock_def runs_with_def)

lemma runs_status [quiet]: "preserves (runs_with q Z) status_reply"
  unfolding status_reply_def by (intro quiet)

lemma runs_download [quiet]: "preserves (runs_with q Z) stream_download"
  unfolding stream_download_def by (intro quiet) simp

lemma runs_poll [quiet]: "preserves (runs_with q Z) stream_poll"
  unfolding stream_poll_def by (intro quiet)

lemma configure_validates:
  "sends (runs_with q (\<lambda>c. c = c0)) (configure_stream p transitions fps)
     (runs_with q (\<lambda>c. c = c0 \<or> (\<exists>x. c = c0 @ [(''validate'', x)])))"
proof (rule sendsI)
  fix s assume s: "runs_with q (\<lambda>c. c = c0) s"
  obtain r where b: "backend ''validate'' p s
      = (r, s\<lparr>sm_step := Suc (sm_step s), sm_calls := c0 @ [(''validate'', p)]\<rparr>)"
    using s by (cases "se_reply (sm_env s) (sm_step s)")
      (auto simp: backend_def lift_def ret_def throw_def runs_with_def)
  show "runs_with q (\<lambda>c. c = c0 \<or> (\<exists>x. c = c0 @ [(''validate'', x)])) (snd (configure_stream p transitions fps s))"
    using s by (cases r)
      (auto simp: configure_stream_def bnd_runs bnd_def [of "backend ''validate'' p"] b upd_def runs_with_def)
qed

lemma start_validates:
  "sends (runs_with q (\<lambda>c. c = c0)) (stream_start p)
     (runs_with q (\<lambda>c. c = c0 \<or> (\<exists>x. c = c0 @ [(''validate'', x)])))"
proof -
  let ?P = "runs_with q (\<lambda>c. c = c0)" and ?Q = "runs_with q (\<lambda>c. c = c0 \<or> (\<exists>x. c = c0 @ [(''validate'', x)]))"
  have after: "preserves ?Q (bnd (upd (\<lambda>s. s\<lparr>sm_interval := i\<rparr>)) (\<lambda>_. status_reply))" for i
    by (intro quiet) simp
  have keep: "sends ?P (upd (keep_stream transitions) :: unit owner) ?Q" for transitions
    by (rule sendsI) (auto simp: runs_with_def upd_def keep_stream_def)
  have choose: "sends ?P (bnd (if changed then configure_stream p transitions fps else upd (keep_stream transitions)) (\<lambda>_.
     bnd (upd (\<lambda>s. s\<lparr>sm_interval := i\<rparr>)) (\<lambda>_. status_reply))) ?Q" for changed p transitions fps i
  proof (rule sendsI)
    let ?m = "if changed then configure_stream p transitions fps else upd (keep_stream transitions)"
    fix s assume "?P s"
    moreover have "sends ?P ?m ?Q" using configure_validates keep by simp
    ultimately have "?Q (snd (?m s))" by (rule sendsD [rotated])
    then show "?Q (snd (bnd ?m (\<lambda>_. bnd (upd (\<lambda>s. s\<lparr>sm_interval := i\<rparr>)) (\<lambda>_. status_reply)) s))"
      using after by (cases "?m s"; cases "fst (?m s)") (auto simp: bnd_def [of ?m] preserves_def)
  qed
  show ?thesis
    unfolding stream_start_def
    by (intro choose sends_bnd sends_prod quiet) (auto simp: runs_with_def)
qed

text \<open>
  While a stream runs, no command but its own stop touches the camera: whatever else is asked, the
  running parameters stay and the camera is sent nothing, or only the validation of the settings that
  will replace them at the next frame boundary.
\<close>

theorem running_stream_is_not_disturbed:
  assumes "sm_params s = Some q" "method \<notin> {''stop'', ''close'', ''stream-stop''}"
    and "stream_command method p s = (r, t)"
  shows "sm_params t = Some q \<and> (sm_calls t = sm_calls s \<or> (\<exists>x. sm_calls t = sm_calls s @ [(''validate'', x)]))"
proof -
  let ?P = "runs_with q (\<lambda>c. c = sm_calls s)"
    and ?Q = "runs_with q (\<lambda>c. c = sm_calls s \<or> (\<exists>x. c = sm_calls s @ [(''validate'', x)]))"
  have p: "?P s" using assms(1) by (simp add: runs_with_def)
  have weak: "preserves ?P m \<Longrightarrow> ?Q (snd (m s))" for m :: "image owner"
    using p by (auto simp: preserves_def runs_with_def)
  have "?Q (snd (pass_through method p s))"
    using assms(1) by (simp add: pass_through_def bnd_runs bnd_def check_def throw_def get_def runs_with_def)
  moreover have "?Q (snd (stream_start p s))" by (rule sendsD [OF start_validates p])
  ultimately have "?Q (snd (stream_command method p s))"
    using assms(2) weak [OF runs_status] weak [OF runs_poll] weak [OF runs_download]
    by (simp add: stream_command_def bnd_runs)
  with assms(3) show ?thesis by (simp add: runs_with_def)
qed

section \<open>Examples\<close>

definition demo_stream_env :: stream_env where
  "demo_stream_env = \<lparr>se_now = (\<lambda>n. n * nanos_per_sec), se_unix_ms = (\<lambda>n. 1000 * n),
     se_reply = (\<lambda>n. if n < 4 then Inr (JNull, []) else Inl (EOther ''lost'')),
     se_fields = (\<lambda>_. JNull), se_show = (\<lambda>_. [])\<rparr>"

definition demo_start :: json where
  "demo_start = jobj [(''method'', JStr ''stream-start''), (''params'', jobj [(''microseconds'', JInt 1000)])]"

definition demo_faulted :: stream where
  "demo_faulted = snd (stream_tick (snd (owner_reply demo_start (stream_default demo_stream_env))))"

theorem faulted_stream_delivers_nothing_witness:
  "\<exists>e. fst (published_call 0 ''stream-download'' (fst (publish_stream 0 published_default demo_faulted))) = Inl e"
proof -
  have "owned demo_stream_env published_default demo_faulted"
    unfolding demo_faulted_def by (intro owned.ticked owned.replied owned.fresh)
  moreover have "sm_failure demo_faulted = Some ''lost''" by code_simp
  ultimately show ?thesis
    using faulted_stream_delivers_nothing [OF _ _ prod.collapse [symmetric]] by blast
qed

theorem published_frame_is_delivered_once_witness:
  "let p = published_default\<lparr>pb_status := jobj [(''error'', JNull)], pb_latest := Some (JObj [], [1, 2])\<rparr>;
       (r, p') = published_call 5 ''stream-download'' p
   in map_sum id snd r = Inr [1, 2] \<and> pb_latest p' = None"
proof -
  let ?p = "published_default\<lparr>pb_status := jobj [(''error'', JNull)], pb_latest := Some (JObj [], [1, 2])\<rparr>"
  let ?r = "fst (published_call 5 ''stream-download'' ?p)" and ?p' = "snd (published_call 5 ''stream-download'' ?p)"
  have r: "map_sum id snd ?r = Inr [1, 2]" "pb_delivered ?p' \<noteq> pb_delivered ?p" by code_simp+
  then obtain v pixels where v: "?r = Inr (v, pixels)" by (cases ?r) auto
  have call: "published_call 5 ''stream-download'' ?p = (Inr (v, pixels), ?p')" by (metis v prod.collapse)
  have "ordered (pb_status ?p)" by simp
  from published_frame_is_delivered_once [OF this call] r(2) have "pb_latest ?p' = None" by presburger
  with r(1) show ?thesis by (simp add: Let_def split_beta)
qed

theorem running_stream_is_not_disturbed_witness:
  "sm_calls (snd (stream_command ''set'' JNull ((stream_default demo_stream_env)\<lparr>sm_params := Some JNull\<rparr>))) = []
   \<or> (\<exists>x. sm_calls (snd (stream_command ''set'' JNull ((stream_default demo_stream_env)\<lparr>sm_params := Some JNull\<rparr>)))
        = [(''validate'', x)])"
  using running_stream_is_not_disturbed [OF _ _ prod.collapse [symmetric],
      of "(stream_default demo_stream_env)\<lparr>sm_params := Some JNull\<rparr>" JNull "''set''" JNull]
  by (simp add: stream_default_def)

end
