(* ===== verification/Worker_Host.thy ===== *)
theory Worker_Host imports Worker Continuous begin

text \<open>
  The worker side of both worker protocols: newline-delimited JSON of the accessory workers
  (\<open>crates/regain-worker/src/lib.rs\<close>), read from whatever pieces the pipe delivers, and the
  length-prefixed frames of the camera workers (the protocol thread of
  \<open>crates/regain-core/src/continuous.rs\<close>), whose client is theory \<open>Worker\<close>.
  The JSON and UTF-8 decoders are parameters.
\<close>

section \<open>Lines\<close>

definition max_request :: nat where
  "max_request = 4096"

text \<open>
  \<open>BufRead\<close>: the pieces \<open>fill_buf\<close> will return; an empty one, or none left, is the end of the input.
  \<open>consume\<close> leaves the rest of the current piece.
\<close>

definition consume :: "nat \<Rightarrow> nat list \<Rightarrow> nat list list \<Rightarrow> nat list list" where
  "consume n buf rest = (if length buf \<le> n then rest else drop n buf # rest)"

fun newline_end :: "nat list \<Rightarrow> nat option" where
  "newline_end [] = None"
| "newline_end (b # bs) = (if b = 10 then Some 1 else map_option Suc (newline_end bs))"

fun read_request :: "nat list \<Rightarrow> nat list list \<Rightarrow> (error + nat list option) \<times> nat list list" where
  "read_request line [] = (Inr None, [])"
| "read_request line (buf # rest) =
     (if buf = [] then (Inr None, rest)
      else
        let n = (case newline_end buf of Some n \<Rightarrow> n | None \<Rightarrow> length buf) in
        if max_request < length line + n then (Inl (EOther ''invalid data''), buf # rest)
        else if newline_end buf \<noteq> None then (Inr (Some (line @ take n buf)), consume n buf rest)
        else read_request (line @ buf) rest)"

text \<open>\<open>str::trim_start_matches\<close> on the three bytes of a byte order mark, then the JSON parser.\<close>

function trim_bom :: "nat list \<Rightarrow> nat list" where
  "trim_bom bs = (if take 3 bs = [239, 187, 191] then trim_bom (drop 3 bs) else bs)"
  by pat_completeness auto
termination by (relation "measure length") (auto, metis diff_less length_greater_0_conv list.discI take_Nil zero_less_numeral)

declare trim_bom.simps [simp del]

definition parse_line :: "(nat list \<Rightarrow> bool) \<Rightarrow> (nat list \<Rightarrow> error + json) \<Rightarrow> nat list \<Rightarrow> error + json" where
  "parse_line utf8 from_str line =
     and_then (ensure (utf8 line) (EOther ''invalid utf-8'')) (\<lambda>_. from_str (trim_bom line))"

definition reply_json :: "error + json \<Rightarrow> json" where
  "reply_json r = (case r of
       Inr v \<Rightarrow> jobj [(''ok'', JBool True), (''result'', v)]
     | Inl e \<Rightarrow> jobj [(''ok'', JBool False), (''error'', JStr (error_display e))])"

text \<open>What wakes the serving loop: a line (and whether its reply can still be written), the
  interval, or the end of the input.\<close>

datatype wake = Request "nat list" bool | Interval | Disconnected

fun serve ::
  "(nat list \<Rightarrow> error + json) \<Rightarrow> ('s \<Rightarrow> json \<Rightarrow> (error + json) \<times> 's) \<Rightarrow> ('s \<Rightarrow> 's) \<Rightarrow> wake list \<Rightarrow> 's
     \<Rightarrow> json list \<times> 's" where
  "serve parse request poll [] st = ([], st)"
| "serve parse request poll (Disconnected # ws) st = ([], st)"
| "serve parse request poll (Interval # ws) st = serve parse request poll ws (poll st)"
| "serve parse request poll (Request line writable # ws) st =
     (let (result, st) = (case parse line of Inl e \<Rightarrow> (Inl e, st) | Inr v \<Rightarrow> request st v) in
      if \<not> writable then ([], st)
      else let (replies, st) = serve parse request poll ws st in (reply_json result # replies, st))"

section \<open>Reading does not depend on the pieces\<close>

text \<open>The reference: the first line of the whole input, or nothing, within the bound.\<close>

definition first_line :: "nat list \<Rightarrow> error + nat list option" where
  "first_line bytes =
     (case newline_end bytes of
        Some n \<Rightarrow> if n \<le> max_request then Inr (Some (take n bytes)) else Inl (EOther ''invalid data'')
      | None \<Rightarrow> if length bytes \<le> max_request then Inr None else Inl (EOther ''invalid data''))"

lemma newline_end_append:
  "newline_end (xs @ ys) = (case newline_end xs of Some n \<Rightarrow> Some n
     | None \<Rightarrow> map_option (\<lambda>n. length xs + n) (newline_end ys))"
  by (induction xs; cases "newline_end ys") (auto split: option.split)

lemma newline_end_bounds: "newline_end xs = Some n \<Longrightarrow> 0 < n \<and> n \<le> length xs"
  by (induction xs arbitrary: n) (auto split: if_splits)

lemma concat_consume: "n \<le> length buf \<Longrightarrow> concat (consume n buf rest) = drop n buf @ concat rest"
  by (simp add: consume_def)

lemma read_request_line:
  assumes "[] \<notin> set chunks" "newline_end line = None" "length line \<le> max_request"
  shows "fst (read_request line chunks) = first_line (line @ concat chunks)
     \<and> (\<forall>l. fst (read_request line chunks) = Inr (Some l) \<longrightarrow>
          line @ concat chunks = l @ concat (snd (read_request line chunks)))"
  using assms
proof (induction line chunks rule: read_request.induct)
  case (1 line)
  then show ?case by (simp add: first_line_def)
next
  case (2 line buf rest)
  have buf: "buf \<noteq> []" using "2.prems"(1) by auto
  show ?case
  proof (cases "newline_end buf")
    case None
    then have e: "newline_end (line @ buf) = None" using "2.prems"(2) by (simp add: newline_end_append)
    show ?thesis
    proof (cases "max_request < length line + length buf")
      case True
      have "first_line (line @ buf @ concat rest) = Inl (EOther ''invalid data'')"
        using True e by (auto simp: first_line_def newline_end_append [of "line @ buf", simplified]
            split: option.split dest: newline_end_bounds)
      then show ?thesis using True None buf by (simp add: Let_def)
    next
      case False
      then show ?thesis using "2.IH" [OF buf refl] "2.prems" None e buf by (simp add: Let_def)
    qed
  next
    case (Some n)
    note n = newline_end_bounds [OF Some]
    have e: "newline_end (line @ buf @ concat rest) = Some (length line + n)"
      using "2.prems"(2) Some by (simp add: newline_end_append)
    show ?thesis
      using Some buf n e by (auto simp: Let_def first_line_def concat_consume)
  qed
qed

text \<open>
  A request is read the same way however the pipe cuts the input into pieces: the result is the
  first line of the whole input, or the end of the input, or an error once more bytes than the bound
  have come without a newline; and after a line nothing of the rest of the input is lost.
\<close>

theorem request_reading_ignores_chunking:
  assumes "[] \<notin> set chunks"
  shows "fst (read_request [] chunks) = first_line (concat chunks)
     \<and> (\<forall>l. fst (read_request [] chunks) = Inr (Some l) \<longrightarrow>
          concat chunks = l @ concat (snd (read_request [] chunks)) \<and> length l \<le> max_request)"
proof -
  note r = read_request_line [OF assms, of "[]", simplified]
  have "length l \<le> max_request" if "first_line bytes = Inr (Some l)" for bytes l
    using that by (auto simp: first_line_def split: option.splits if_splits)
  with r show ?thesis by (metis append_Nil max_request_def zero_le)
qed

theorem request_reading_ignores_chunking_witness:
  "fst (read_request [] [[123], [125, 10, 123], [125]]) = Inr (Some [123, 125, 10])
     \<and> concat (snd (read_request [] [[123], [125, 10, 123], [125]])) = [123, 125]"
proof -
  have c: "[] \<notin> set [[123], [125, 10, 123], [125::nat]]" by simp
  have "first_line (concat [[123], [125, 10, 123], [125]]) = Inr (Some [123, 125, 10])"
    by (simp add: first_line_def max_request_def)
  then have f: "fst (read_request [] [[123], [125, 10, 123], [125]]) = Inr (Some [123, 125, 10])"
    using request_reading_ignores_chunking [OF c] by (simp only:)
  with request_reading_ignores_chunking [OF c]
  have "concat [[123], [125, 10, 123], [125]]
      = [123, 125, 10] @ concat (snd (read_request [] [[123], [125, 10, 123], [125]]))"
    by blast
  with f show ?thesis by simp
qed

section \<open>Frames of the camera workers\<close>

text \<open>One request of the protocol thread; \<open>None\<close> is the end of the input before a header.\<close>

definition host_request :: "(nat list \<Rightarrow> json option) \<Rightarrow> nat list \<Rightarrow> error + (json \<times> nat list) option" where
  "host_request from_slice input =
     (case take_exact 4 input of
        Inl _ \<Rightarrow> Inr None
      | Inr (header, input) \<Rightarrow>
          let len = of_le32 header in
          and_then (ensure (1 \<le> len \<and> len \<le> 65536) (EOther ''invalid request length'')) (\<lambda>_.
          and_then (take_exact len input) (\<lambda>(data, input).
          and_then (ok_or (from_slice data) (EOther ''malformed JSON'')) (\<lambda>request.
          and_then (ensure (as_i64 (jindex request ''version'') = Some 1) (EOther ''unsupported protocol'')) (\<lambda>_.
          Inr (Some (request, input)))))))"

definition host_reply :: "(json \<Rightarrow> nat list) \<Rightarrow> image \<Rightarrow> error + nat list" where
  "host_reply to_vec = (\<lambda>(reply, pixels).
     let data = to_vec reply in
     and_then (ensure (length data \<le> 65536) (EOther ''reply too large'')) (\<lambda>_.
     Inr (le32 (length data) @ data @ pixels)))"

text \<open>
  C33: The two ends of the camera protocol agree. A command the client admits is read by the worker as
  that command, and what follows it stays unread; a successful reply the worker frames is read by the
  client as its result and its pixels, if it answers the client's command and the client admitted
  that many bytes for a method that carries an image. (\<open>serde_json\<close> reads back what it wrote.)
\<close>

theorem command_and_reply_roundtrip:
  assumes "admit_command to_vec method params now deadline w = Inr (rid, command)"
    and "from_slice command = Some (command_json rid method params)" "command \<noteq> []"
    and "host_reply to_vec (ok_reply (jnat rid) v (length pixels), pixels) = Inr answer"
    and "from_slice (to_vec (ok_reply (jnat rid) v (length pixels))) = Some (ok_reply (jnat rid) v (length pixels))"
      "to_vec (ok_reply (jnat rid) v (length pixels)) \<noteq> []"
    and "length pixels \<le> maximum" "maximum \<le> max_image" "image_method method \<or> pixels = []"
      "can_allocate (length pixels)"
  shows "host_request from_slice (le32 (length command) @ command @ rest)
      = Inr (Some (command_json rid method params, rest))
    \<and> read_reply from_slice can_allocate method rid maximum (answer @ rest) = Inr (v, pixels)"
proof
  have admitted: "length command \<le> 65536" "rid < 2 ^ 64"
    using assms(1) by (auto simp: admit_command_def Let_def result_eqs checked_add_def split: if_splits)
  have "as_i64 (jindex (command_json rid method params) ''version'') = Some 1"
    by (simp add: command_json_def)
  with admitted assms(2,3) show "host_request from_slice (le32 (length command) @ command @ rest)
      = Inr (Some (command_json rid method params, rest))"
    by (simp add: host_request_def Let_def of_le32_le32 ensure_def and_then_def ok_or_def Suc_le_eq)
  let ?reply = "ok_reply (jnat rid) v (length pixels)"
  have answer: "answer = le32 (length (to_vec ?reply)) @ to_vec ?reply @ pixels" "length (to_vec ?reply) \<le> 65536"
    using assms(4) by (auto simp: host_reply_def Let_def result_eqs)
  have small: "length pixels < 2 ^ 64" using assms(7,8) by (simp add: max_image_def)
  have check: "check_reply method rid maximum ?reply = Inr (length pixels)"
    using assms(7-9) admitted(2) small
    by (auto simp: check_reply_Inr ok_reply_def jindex_jobj)
  have result: "jindex ?reply ''result'' = v" by (simp add: ok_reply_def jindex_jobj)
  show "read_reply from_slice can_allocate method rid maximum (answer @ rest) = Inr (v, pixels)"
    using answer(2) assms(5,6,10) check result
    by (simp add: read_reply_def answer(1) Let_def of_le32_le32 ensure_def and_then_def ok_or_def Suc_le_eq)
qed

theorem command_and_reply_roundtrip_witness:
  "host_request (\<lambda>bs. if bs = [1] then Some (command_json 7 ''download'' JNull)
        else Some (ok_reply (jnat 7) JNull 2)) (le32 (length [1::nat]) @ [1] @ [])
      = Inr (Some (command_json 7 ''download'' JNull, []))
   \<and> read_reply (\<lambda>bs. if bs = [1] then Some (command_json 7 ''download'' JNull)
        else Some (ok_reply (jnat 7) JNull 2)) (\<lambda>_. True) ''download'' 7 2 ((le32 1 @ [2] @ [8, 9]) @ [])
      = Inr (JNull, [8, 9])"
proof -
  let ?read = "\<lambda>bs. if bs = [1] then Some (command_json 7 ''download'' JNull) else Some (ok_reply (jnat 7) JNull 2)"
  let ?print = "\<lambda>v. if jget v ''method'' = None then [2] else [1::nat]"
  have w: "?print (ok_reply (jnat 7) JNull 2) = [2]" "?print (command_json 7 ''download'' JNull) = [1]"
    by (simp_all add: ok_reply_def jobj_def command_json_def bt_get_of_list)
  have admit: "admit_command ?print ''download'' JNull 0 1 demo_worker = Inr (7, [1])"
    using w(2) by (simp add: admit_command_def demo_worker_def checked_add_def ensure_def and_then_def ok_or_def)
  have host: "host_reply ?print (ok_reply (jnat 7) JNull (length [8, 9::nat]), [8, 9]) = Inr (le32 1 @ [2] @ [8, 9])"
    using w(1) by (simp add: host_reply_def ensure_def and_then_def numeral_2_eq_2)
  show ?thesis
    by (rule command_and_reply_roundtrip [OF admit _ _ host])
       (use w(1) in \<open>simp_all add: image_method_def max_image_def numeral_2_eq_2\<close>)
qed

section \<open>One reply for every request\<close>

fun answered :: "wake list \<Rightarrow> nat" where
  "answered [] = 0"
| "answered (Disconnected # ws) = 0"
| "answered (Interval # ws) = answered ws"
| "answered (Request line writable # ws) = (if writable then Suc (answered ws) else 0)"

lemma serve_replies_each: "length (fst (serve parse request poll ws st)) = answered ws"
  by (induction parse request poll ws st rule: serve.induct) (auto simp: Let_def split: prod.split sum.split)

end
