(* ===== verification/Action_Rules.thy ===== *)
theory Action_Rules imports Action begin

text \<open>
  A Hoare logic for actions: from a precondition, an action that returns satisfies one assertion on
  its value and the state, and one that fails or is cut off satisfies another on the state.
\<close>

definition leads :: "('s \<Rightarrow> bool) \<Rightarrow> ('s, 'e, 'a) effect \<Rightarrow> ('a \<Rightarrow> 's \<Rightarrow> bool) \<Rightarrow> ('s \<Rightarrow> bool) \<Rightarrow> bool" where
  "leads P m Q R \<longleftrightarrow> (\<forall>s. P s \<longrightarrow> (case m s of (Returned x, t) \<Rightarrow> Q x t | (_, t) \<Rightarrow> R t))"

named_theorems leading \<open>structural rules of the logic, to be applied backwards\<close>

lemma leadsI: "(\<And>s. P s \<Longrightarrow> case m s of (Returned x, t) \<Rightarrow> Q x t | (_, t) \<Rightarrow> R t) \<Longrightarrow> leads P m Q R"
  by (simp add: leads_def)

lemma leads_weaken:
  assumes "leads P' m Q' R'" "\<And>s. P s \<Longrightarrow> P' s" "\<And>x s. Q' x s \<Longrightarrow> Q x s" "\<And>s. R' s \<Longrightarrow> R s"
  shows "leads P m Q R"
proof (rule leadsI)
  fix s assume "P s"
  then have "case m s of (Returned x, t) \<Rightarrow> Q' x t | (_, t) \<Rightarrow> R' t" using assms(1,2) by (simp add: leads_def)
  then show "case m s of (Returned x, t) \<Rightarrow> Q x t | (_, t) \<Rightarrow> R t"
    using assms(3,4) by (auto split: prod.split result.split)
qed

lemma leads_bnd: "leads P m I R \<Longrightarrow> (\<And>x. leads (I x) (f x) Q R) \<Longrightarrow> leads P (bnd m f) Q R"
  unfolding leads_def bnd_def by (fastforce split: prod.splits result.splits)

lemma leads_outcome:
  "leads P m Q R \<Longrightarrow> leads P (outcome_of m) (\<lambda>r s. case r of Inr x \<Rightarrow> Q x s | Inl _ \<Rightarrow> R s) R"
  unfolding leads_def outcome_of_def by (auto split: prod.splits result.splits)

lemma leads_preserves:
  assumes "preserves P m" shows "leads P m (\<lambda>_. P) P"
proof (rule leadsI)
  fix s assume "P s"
  then have "P (snd (m s))" using assms by (simp add: preserves_def)
  then show "case m s of (Returned x, t) \<Rightarrow> P t | (_, t) \<Rightarrow> P t" by (auto split: prod.split result.split)
qed

lemma leads_yields: "leads P m Q R \<Longrightarrow> P s \<Longrightarrow> m s = (Returned x, t) \<Longrightarrow> Q x t"
  unfolding leads_def by fastforce

lemma leads_ends: "leads P m (\<lambda>_. R) R \<Longrightarrow> P s \<Longrightarrow> R (snd (m s))"
  unfolding leads_def by (cases "fst (m s)") (auto simp: prod.case_eq_if)

lemma leads_ret [leading]: "leads (Q x) (ret x) Q R"
  by (simp add: leads_def ret_def)

lemma leads_return: "(\<And>s. P s \<Longrightarrow> Q x s) \<Longrightarrow> leads P (ret x) Q R"
  by (simp add: leads_def ret_def)

lemma leads_throw [leading]: "leads R (throw e) Q R"
  by (simp add: leads_def throw_def)

lemma leads_get [leading]: "leads (\<lambda>s. Q (f s) s) (get f) Q R"
  by (simp add: leads_def get_def)

lemma leads_upd [leading]: "leads (\<lambda>s. Q () (f s)) (upd f) Q R"
  by (simp add: leads_def upd_def)

lemma leads_read: "leads P (get f) (\<lambda>_. P) R"
  by (simp add: leads_def get_def)

lemma leads_modify: "(\<And>s. P s \<Longrightarrow> Q () (f s)) \<Longrightarrow> leads P (upd f) Q R"
  by (simp add: leads_def upd_def)

lemma leads_if: "leads P m Q R \<Longrightarrow> leads P n Q R \<Longrightarrow> leads P (if b then m else n) Q R"
  by simp

lemma leads_case:
  "(\<And>e. leads (P (Inl e)) (f e) Q R) \<Longrightarrow> (\<And>x. leads (P (Inr x)) (g x) Q R)
   \<Longrightarrow> leads (P r) (case r of Inl e \<Rightarrow> f e | Inr x \<Rightarrow> g x) Q R"
  by (cases r) simp_all

lemma leads_check: "(\<And>s. P s \<Longrightarrow> R s) \<Longrightarrow> leads P (check b e) (\<lambda>_ s. b \<and> P s) R"
  by (simp add: leads_def check_def ret_def throw_def)

lemma leads_when: "(b \<Longrightarrow> leads P m Q R) \<Longrightarrow> leads (\<lambda>s. b \<and> P s) m Q R"
  by (simp add: leads_def)

lemma leads_whenever: "(b \<Longrightarrow> leads P m (\<lambda>_. Q) R) \<Longrightarrow> (\<And>s. \<not> b \<Longrightarrow> P s \<Longrightarrow> Q s) \<Longrightarrow> leads P (whenever b m) (\<lambda>_. Q) R"
  by (simp add: leads_def whenever_def ret_def)

text \<open>A loop with an invariant; it leaves with what its body establishes.\<close>

lemma leads_iterate:
  assumes "\<And>x. leads (I x) (body x) (\<lambda>r s. case r of Inl y \<Rightarrow> I y s | Inr z \<Rightarrow> Q z s) R"
    and "\<And>x s. I x s \<Longrightarrow> R s"
  shows "leads (I x) (iterate n body x) Q R"
proof (induction n arbitrary: x)
  case 0
  show ?case using assms(2) by (simp add: leads_def)
next
  case (Suc n)
  show ?case unfolding iterate.simps
    by (rule leads_bnd [OF assms(1)]) (auto simp: Suc leads_ret split: sum.split)
qed

end
