(* ===== verification/Source_Session.thy ===== *)
theory Source_Session imports Action_Rules begin

text \<open>
  Sessions of the hub with a device source: \<open>SourceError\<close> of \<open>crates/regain-hub/src/source.rs\<close>, the
  two error constructors of \<open>readout.rs\<close>, and \<open>TypedSourceSession\<close> of \<open>typed_source.rs\<close>, which binds
  a session to one transport generation of its source.

  The source itself is an actor behind a channel. What it answers is a script indexed by a step
  counter: its snapshot, the answers to reads and writes, and whether a command lease is granted.
  Reads and writes that reached the source and leases it granted are recorded in \<open>hb_trace\<close>; the
  release of a lease when its guard is dropped is not. Identifiers (UUIDs) are natural numbers.

  A coordinated operation watches for its cancellation and its deadline at every point where it
  waits (\<open>tokio::select!\<close> drops the work there): while \<open>hb_watched\<close> holds, every wait may end in
  \<open>Stopped\<close>.
\<close>

datatype error_kind = KConnecting | KDisconnected | KBusy | KTransient | KPermanent | KUncertain
  | KUnsupported | KInvalidValue | KUnavailable

record source_error =
  so_kind :: error_kind
  so_message :: string
  so_upstream_code :: "int option"
  so_retry_after :: "nat option"
  so_transport_lost :: bool

definition source_error_new :: "error_kind \<Rightarrow> string \<Rightarrow> source_error" where
  "source_error_new k message = \<lparr>so_kind = k, so_message = message, so_upstream_code = None,
     so_retry_after = None, so_transport_lost = False\<rparr>"

definition source_transient :: source_error where
  "source_transient = source_error_new KTransient ''Source request failed or timed out''"

definition source_timeout :: source_error where
  "source_timeout = source_transient\<lparr>so_transport_lost := True\<rparr>"

definition source_uncertain :: source_error where
  "source_uncertain = source_error_new KUncertain
     ''The write may have reached the device; reconcile its state before another command''"

definition invalid_value :: "string \<Rightarrow> source_error" where
  "invalid_value message = source_error_new KInvalidValue message"

definition unavailable :: "string \<Rightarrow> source_error" where
  "unavailable message = source_error_new KUnavailable message"

section \<open>The script of the sources\<close>

datatype interruption = Cancellation | DeadlinePassed

text \<open>Why an operation ended early: it was interrupted while waiting, or the source refused.\<close>

datatype stop = Stopped interruption | Refused source_error

datatype source_event =
    SvLease nat
  | SvRead nat string "source_error + json"
  | SvWrite nat string "(string \<times> json) list" "source_error option"

record source_view =
  sv_generation :: nat
  sv_connected :: bool
  sv_write_uncertain :: bool

record hub_environment =
  he_now :: "nat \<Rightarrow> nat"
  he_cancelled :: "nat \<Rightarrow> bool"
  he_view :: "nat \<Rightarrow> nat \<Rightarrow> source_view"
  he_lease :: "nat \<Rightarrow> nat \<Rightarrow> source_error option"
  he_read :: "nat \<Rightarrow> nat \<Rightarrow> string \<Rightarrow> source_error + json"
  he_write :: "nat \<Rightarrow> nat \<Rightarrow> source_error option"
  he_next :: "nat \<Rightarrow> nat"
  he_loop_bound :: nat

record hub_state =
  hb_env :: hub_environment
  hb_tick :: nat
  hb_trace :: "source_event list"
  hb_watched :: bool
  hb_deadline :: nat

definition hub_tick :: "('s hub_state_scheme, 'e, nat) effect" where
  "hub_tick s = (Returned (hb_tick s), s\<lparr>hb_tick := Suc (hb_tick s)\<rparr>)"

definition emit_event :: "source_event \<Rightarrow> ('s hub_state_scheme, 'e, unit) effect" where
  "emit_event e = upd (\<lambda>s. s\<lparr>hb_trace := hb_trace s @ [e]\<rparr>)"

text \<open>\<open>interrupted\<close> of \<open>coordination.rs\<close>: cancellation first, then the deadline.\<close>

definition interrupted_at :: "nat \<Rightarrow> 's hub_state_scheme \<Rightarrow> interruption option" where
  "interrupted_at n s =
     (if he_cancelled (hb_env s) n then Some Cancellation
      else if hb_deadline s \<le> he_now (hb_env s) n then Some DeadlinePassed
      else None)"

definition interrupted :: "('s hub_state_scheme, 'e, interruption option) effect" where
  "interrupted = bnd hub_tick (\<lambda>n. get (interrupted_at n))"

text \<open>A point where the operation waits for the source.\<close>

definition await :: "('s hub_state_scheme, stop, nat) effect" where
  "await =
     bnd hub_tick (\<lambda>n.
     bnd (get (\<lambda>s. if hb_watched s then interrupted_at n s else None)) (\<lambda>stop. case stop of
       Some reason \<Rightarrow> throw (Stopped reason)
     | None \<Rightarrow> ret n))"

text \<open>\<open>interruptible\<close>: a biased \<open>select!\<close> of cancellation, deadline and the work.\<close>

definition interruptible :: "('s hub_state_scheme, stop, 'a) effect \<Rightarrow> ('s hub_state_scheme, stop, stop + 'a) effect" where
  "interruptible work =
     bnd (upd (\<lambda>s. s\<lparr>hb_watched := True\<rparr>)) (\<lambda>_.
     bnd (outcome_of (bnd await (\<lambda>_. work))) (\<lambda>r.
     bnd (upd (\<lambda>s. s\<lparr>hb_watched := False\<rparr>)) (\<lambda>_. ret r)))"

section \<open>Typed sessions\<close>

record typed_session =
  ts_source :: nat
  ts_generation :: nat

definition session_changed :: source_error where
  "session_changed = source_error_new KDisconnected ''Typed source session changed; reconnect explicitly''"

definition refuse :: "source_error \<Rightarrow> ('s hub_state_scheme, stop, 'a) effect" where
  "refuse e = throw (Refused e)"

definition accept :: "source_error option \<Rightarrow> ('s hub_state_scheme, stop, unit) effect" where
  "accept r = (case r of Some e \<Rightarrow> refuse e | None \<Rightarrow> ret ())"

definition typed_snapshot :: "typed_session \<Rightarrow> ('s hub_state_scheme, stop, unit) effect" where
  "typed_snapshot c =
     bnd (get (\<lambda>s. he_view (hb_env s) (hb_tick s) (ts_source c))) (\<lambda>v.
     check (sv_generation v = ts_generation c \<and> sv_connected v) (Refused session_changed))"

definition typed_read :: "typed_session \<Rightarrow> string \<Rightarrow> ('s hub_state_scheme, stop, json) effect" where
  "typed_read c member =
     bnd (typed_snapshot c) (\<lambda>_.
     bnd await (\<lambda>n.
     bnd (get (\<lambda>s. he_read (hb_env s) n (ts_source c) member)) (\<lambda>r.
     bnd (emit_event (SvRead (ts_source c) member r)) (\<lambda>_.
     case r of
       Inl e \<Rightarrow> refuse e
     | Inr v \<Rightarrow> bnd (typed_snapshot c) (\<lambda>_. ret v)))))"

definition typed_operation :: "typed_session \<Rightarrow> ('s hub_state_scheme, stop, unit) effect" where
  "typed_operation c =
     bnd (get (\<lambda>s. sv_write_uncertain (he_view (hb_env s) (hb_tick s) (ts_source c)))) (\<lambda>uncertain.
     bnd (check (\<not> uncertain) (Refused source_uncertain)) (\<lambda>_.
     bnd (typed_snapshot c) (\<lambda>_.
     bnd await (\<lambda>n.
     bnd (get (\<lambda>s. he_lease (hb_env s) n (ts_source c))) (\<lambda>acquired.
     bnd (accept acquired) (\<lambda>_.
     bnd (typed_snapshot c) (\<lambda>_.
     bnd await (\<lambda>n.
     bnd (get (\<lambda>s. he_lease (hb_env s) n (ts_source c))) (\<lambda>control.
     bnd (accept control) (\<lambda>_.
     bnd (emit_event (SvLease (ts_source c))) (\<lambda>_.
     typed_snapshot c)))))))))))"

definition typed_write :: "typed_session \<Rightarrow> string \<Rightarrow> (string \<times> json) list \<Rightarrow> ('s hub_state_scheme, stop, unit) effect" where
  "typed_write c member parameters =
     bnd (typed_snapshot c) (\<lambda>_.
     bnd await (\<lambda>n.
     bnd (get (\<lambda>s. he_write (hb_env s) n (ts_source c))) (\<lambda>r.
     bnd (emit_event (SvWrite (ts_source c) member parameters r)) (\<lambda>_.
     accept r))))"

end
