(* ===== verification/Focuser.thy ===== *)
theory Focuser imports Source_Session begin

text \<open>
  Typed focuser operations, \<open>crates/regain-hub/src/focuser.rs\<close>: properties and their decoding, the
  reads of a session, and moves that are checked against limits read for that very move. The cached
  samples that outputs show (\<open>cached_property\<close>, \<open>device_state\<close>) and \<open>FocuserController::connect\<close>, a
  timeout around \<open>TypedSourceSession::connect\<close>, are not modelled.
\<close>

datatype focuser_property = FpAbsolute | FpMaxStep | FpMaxIncrement | FpTempCompAvailable | FpPosition
  | FpIsMoving | FpTempComp | FpTemperature | FpStepSize

datatype focuser_value = FvBoolean bool | FvInteger int | FvNumber rat

fun focuser_member :: "focuser_property \<Rightarrow> string" where
  "focuser_member FpAbsolute = ''absolute''"
| "focuser_member FpMaxStep = ''maxstep''"
| "focuser_member FpMaxIncrement = ''maxincrement''"
| "focuser_member FpTempCompAvailable = ''tempcompavailable''"
| "focuser_member FpPosition = ''position''"
| "focuser_member FpIsMoving = ''ismoving''"
| "focuser_member FpTempComp = ''tempcomp''"
| "focuser_member FpTemperature = ''temperature''"
| "focuser_member FpStepSize = ''stepsize''"

definition focuser_value_type :: "focuser_property \<Rightarrow> string" where
  "focuser_value_type p =
     (if p \<in> {FpAbsolute, FpTempCompAvailable, FpIsMoving, FpTempComp} then ''boolean''
      else if p \<in> {FpMaxStep, FpMaxIncrement, FpPosition} then ''integer''
      else ''number'')"

definition bad_reading :: source_error where
  "bad_reading = unavailable ''Source returned an invalid focuser property''"

text \<open>\<open>i32::try_from\<close> after \<open>as_i64\<close>.\<close>

definition as_i32 :: "json \<Rightarrow> int option" where
  "as_i32 v = (case as_i64 v of
      Some i \<Rightarrow> (if - (2 ^ 31) \<le> i \<and> i < 2 ^ 31 then Some i else None)
    | None \<Rightarrow> None)"

definition focuser_decode :: "focuser_property \<Rightarrow> json \<Rightarrow> source_error + focuser_value" where
  "focuser_decode p v =
     ok_or
       (if focuser_value_type p = ''boolean'' then map_option FvBoolean (as_bool v)
        else if focuser_value_type p = ''integer'' then
          (case as_i32 v of
             Some i \<Rightarrow> (if (if p = FpPosition then 0 \<le> i else 0 < i) then Some (FvInteger i) else None)
           | None \<Rightarrow> None)
        else
          (case as_f64 v of
             Some x \<Rightarrow> (if p \<noteq> FpStepSize \<or> 0 < x then Some (FvNumber x) else None)
           | None \<Rightarrow> None))
       bad_reading"

section \<open>Reads\<close>

type_synonym ('s, 'a) focusing = "('s hub_state_scheme, stop, 'a) effect"

definition accepted :: "source_error + 'a \<Rightarrow> ('s, 'a) focusing" where
  "accepted r = (case r of Inl e \<Rightarrow> refuse e | Inr x \<Rightarrow> ret x)"

definition read_boolean :: "typed_session \<Rightarrow> string \<Rightarrow> ('s, bool) focusing" where
  "read_boolean c member = bnd (typed_read c member) (\<lambda>v. accepted (ok_or (as_bool v) bad_reading))"

definition read_integer :: "typed_session \<Rightarrow> string \<Rightarrow> ('s, int) focusing" where
  "read_integer c member = bnd (typed_read c member) (\<lambda>v. accepted (ok_or (as_i32 v) bad_reading))"

definition read_number :: "typed_session \<Rightarrow> string \<Rightarrow> ('s, rat) focusing" where
  "read_number c member = bnd (typed_read c member) (\<lambda>v. accepted (ok_or (as_f64 v) bad_reading))"

record focuser_capabilities =
  fc_absolute :: bool
  fc_max_step :: int
  fc_max_increment :: int
  fc_temp_comp_available :: bool

definition focuser_capabilities_of :: "typed_session \<Rightarrow> ('s, focuser_capabilities) focusing" where
  "focuser_capabilities_of c =
     bnd (read_boolean c ''absolute'') (\<lambda>absolute.
     bnd (read_integer c ''maxstep'') (\<lambda>max_step.
     bnd (read_integer c ''maxincrement'') (\<lambda>max_increment.
     bnd (read_boolean c ''tempcompavailable'') (\<lambda>available.
     bnd (check (\<not> (max_step \<le> 0 \<or> max_increment \<le> 0)) (Refused bad_reading)) (\<lambda>_.
     ret \<lparr>fc_absolute = absolute, fc_max_step = max_step, fc_max_increment = max_increment,
          fc_temp_comp_available = available\<rparr>)))))"

definition focuser_position :: "typed_session \<Rightarrow> ('s, int) focusing" where
  "focuser_position c =
     bnd (focuser_capabilities_of c) (\<lambda>cap.
     bnd (check (fc_absolute cap)
        (Refused (source_error_new KUnsupported ''Relative focusers do not report absolute position''))) (\<lambda>_.
     bnd (read_integer c ''position'') (\<lambda>position.
     bnd (check (0 \<le> position \<and> position \<le> fc_max_step cap) (Refused bad_reading)) (\<lambda>_.
     ret position))))"

definition focuser_is_moving :: "typed_session \<Rightarrow> ('s, bool) focusing" where
  "focuser_is_moving c = read_boolean c ''ismoving''"

definition focuser_temp_comp :: "typed_session \<Rightarrow> ('s, bool) focusing" where
  "focuser_temp_comp c = read_boolean c ''tempcomp''"

definition focuser_temperature :: "typed_session \<Rightarrow> ('s, rat) focusing" where
  "focuser_temperature c = read_number c ''temperature''"

definition focuser_step_size :: "typed_session \<Rightarrow> ('s, rat) focusing" where
  "focuser_step_size c =
     bnd (read_number c ''stepsize'') (\<lambda>x. bnd (check (\<not> x \<le> 0) (Refused bad_reading)) (\<lambda>_. ret x))"

text \<open>\<open>FocuserSession::property\<close>: the raw value, once it decodes.\<close>

definition focuser_property_of :: "typed_session \<Rightarrow> focuser_property \<Rightarrow> ('s, json) focusing" where
  "focuser_property_of c p =
     (if p = FpPosition then bnd (focuser_position c) (\<lambda>i. ret (JInt i))
      else
        bnd (typed_read c (focuser_member p)) (\<lambda>v.
        bnd (accepted (focuser_decode p v)) (\<lambda>_. ret v)))"

section \<open>Moves\<close>

definition check_increment :: "typed_session \<Rightarrow> focuser_capabilities \<Rightarrow> int \<Rightarrow> ('s, unit) focusing" where
  "check_increment c cap position =
     bnd (read_integer c ''position'') (\<lambda>current.
     bnd (check (0 \<le> current \<and> current \<le> fc_max_step cap) (Refused bad_reading)) (\<lambda>_.
     check (\<not> \<bar>current - position\<bar> > fc_max_increment cap)
       (Refused (invalid_value ''Focuser movement exceeds the source maximum increment''))))"

definition validate_move :: "typed_session \<Rightarrow> int \<Rightarrow> ('s, unit) focusing" where
  "validate_move c position =
     bnd (focuser_capabilities_of c) (\<lambda>cap.
     bnd (check (if fc_absolute cap then 0 \<le> position \<and> position \<le> fc_max_step cap
                 else \<bar>position\<bar> \<le> fc_max_increment cap)
        (Refused (invalid_value ''Focuser movement is outside the source limits''))) (\<lambda>_.
     bnd (focuser_is_moving c) (\<lambda>moving.
     bnd (check (\<not> moving) (Refused (source_error_new KBusy ''Focuser is already moving''))) (\<lambda>_.
     whenever (fc_absolute cap) (check_increment c cap position)))))"

definition write_move :: "typed_session \<Rightarrow> int \<Rightarrow> ('s, unit) focusing" where
  "write_move c position = typed_write c ''move'' [(''Position'', JInt position)]"

definition focuser_move_to :: "typed_session \<Rightarrow> int \<Rightarrow> ('s, unit) focusing" where
  "focuser_move_to c position =
     bnd (typed_operation c) (\<lambda>_.
     bnd (validate_move c position) (\<lambda>_.
     write_move c position))"

definition focuser_halt :: "typed_session \<Rightarrow> ('s, unit) focusing" where
  "focuser_halt c = bnd (typed_operation c) (\<lambda>_. typed_write c ''halt'' [])"

definition set_temp_comp :: "typed_session \<Rightarrow> bool \<Rightarrow> ('s, unit) focusing" where
  "set_temp_comp c enabled =
     bnd (typed_operation c) (\<lambda>_.
     bnd (focuser_capabilities_of c) (\<lambda>cap.
     bnd (check (fc_temp_comp_available cap)
        (Refused (source_error_new KUnsupported ''Temperature compensation is not supported''))) (\<lambda>_.
     typed_write c ''tempcomp'' [(''TempComp'', JBool enabled)])))"

text \<open>A group keeps the command lease (\<open>FocuserMotionReservation\<close>) from here to its dispatch.\<close>

definition reserve_motion :: "typed_session \<Rightarrow> ('s, unit) focusing" where
  "reserve_motion c = typed_operation c"

definition motion_preflight :: "typed_session \<Rightarrow> int \<Rightarrow> ('s, unit) focusing" where
  "motion_preflight c position =
     bnd (focuser_capabilities_of c) (\<lambda>cap.
     bnd (check (fc_absolute cap)
        (Refused (source_error_new KUnsupported ''Focuser groups require absolute position''))) (\<lambda>_.
     bnd (if fc_temp_comp_available cap then focuser_temp_comp c else ret False) (\<lambda>compensating.
     bnd (check (\<not> compensating)
        (Refused (source_error_new KBusy ''Disable temperature compensation explicitly before group motion''))) (\<lambda>_.
     validate_move c position))))"

definition motion_dispatch :: "typed_session \<Rightarrow> int \<Rightarrow> ('s, unit) focusing" where
  "motion_dispatch c position = write_move c position"

section \<open>What a move rests on\<close>

text \<open>
  \<open>told F T c E\<close>: since the trace was \<open>T\<close> only session \<open>c\<close> has read, and the reads \<open>E\<close> are among them;
  \<open>F\<close> is what the reads leave alone.
\<close>

definition steady :: "('s hub_state_scheme \<Rightarrow> bool) \<Rightarrow> bool" where
  "steady F \<longleftrightarrow> (\<forall>s n b tr. F s \<longrightarrow> F (s\<lparr>hb_tick := n\<rparr>) \<and> F (s\<lparr>hb_watched := b\<rparr>) \<and> F (s\<lparr>hb_trace := tr\<rparr>))"

definition only_reads :: "nat \<Rightarrow> source_event list \<Rightarrow> bool" where
  "only_reads c = list_all (\<lambda>e. case e of SvRead i _ _ \<Rightarrow> i = c | _ \<Rightarrow> False)"

definition told :: "('s hub_state_scheme \<Rightarrow> bool) \<Rightarrow> source_event list \<Rightarrow> nat \<Rightarrow> source_event set
    \<Rightarrow> 's hub_state_scheme \<Rightarrow> bool" where
  "told F T c E s \<longleftrightarrow> F s \<and> (\<exists>rs. only_reads c rs \<and> E \<subseteq> set rs \<and> hb_trace s = T @ rs)"

lemma steadyD:
  assumes "steady F" and "F s"
  shows "F (s\<lparr>hb_tick := n\<rparr>)" "F (s\<lparr>hb_watched := b\<rparr>)" "F (s\<lparr>hb_trace := tr\<rparr>)"
  using assms by (auto simp: steady_def)

lemma told_frame:
  assumes "steady F" and "told F T c E s"
  shows "told F T c E (s\<lparr>hb_tick := n\<rparr>)" "told F T c E (s\<lparr>hb_watched := b\<rparr>)"
  using assms by (auto simp: told_def steadyD)

lemma told_mono: "told F T c E s \<Longrightarrow> E' \<subseteq> E \<Longrightarrow> told F T c E' s"
  by (auto simp: told_def)

lemma told_any: "told F T c E s \<Longrightarrow> told F T c {} s"
  by (rule told_mono) simp_all

lemma told_event:
  assumes "steady F" and "told F T c E s"
  shows "told F T c (insert (SvRead c m r) E) (s\<lparr>hb_trace := hb_trace s @ [SvRead c m r]\<rparr>)"
proof -
  obtain rs where rs: "only_reads c rs" "E \<subseteq> set rs" "hb_trace s = T @ rs"
    using assms(2) by (auto simp: told_def)
  have "only_reads c (rs @ [SvRead c m r])" using rs(1) by (simp add: only_reads_def)
  then show ?thesis using rs(2,3) assms steadyD(3) [OF assms(1)]
    by (auto simp: told_def intro!: exI [of _ "rs @ [SvRead c m r]"])
qed

lemma leads_snapshot: "(\<And>s. P s \<Longrightarrow> R s) \<Longrightarrow> leads P (typed_snapshot c) (\<lambda>_. P) R"
  by (simp add: leads_def typed_snapshot_def bnd_def get_def check_def ret_def throw_def)

lemma leads_await:
  "(\<And>s n. P s \<Longrightarrow> P (s\<lparr>hb_tick := n\<rparr>)) \<Longrightarrow> (\<And>s. P s \<Longrightarrow> R s) \<Longrightarrow> leads P await (\<lambda>_. P) R"
  by (auto simp: leads_def await_def bnd_def hub_tick_def get_def ret_def throw_def split: option.split)

lemma leads_accepted:
  "(\<And>x s. r = Inr x \<Longrightarrow> P s \<Longrightarrow> Q x s) \<Longrightarrow> (\<And>s. P s \<Longrightarrow> R s) \<Longrightarrow> leads P (accepted r) Q R"
  by (cases r) (simp_all add: leads_def accepted_def refuse_def throw_def ret_def)

lemma read_told:
  assumes "steady F"
  shows "leads (told F T (ts_source c) E) (typed_read c m)
    (\<lambda>v. told F T (ts_source c) (insert (SvRead (ts_source c) m (Inr v)) E)) (told F T (ts_source c) {})"
proof -
  note fr = told_frame(1) [OF assms]
  have reply: "leads (told F T (ts_source c) E)
      (bnd (get (\<lambda>s. he_read (hb_env s) n (ts_source c) m)) (\<lambda>r.
       bnd (emit_event (SvRead (ts_source c) m r)) (\<lambda>_.
       case r of Inl e \<Rightarrow> refuse e | Inr v \<Rightarrow> bnd (typed_snapshot c) (\<lambda>_. ret v))))
      (\<lambda>v. told F T (ts_source c) (insert (SvRead (ts_source c) m (Inr v)) E)) (told F T (ts_source c) {})" for n
    by (rule leadsI, auto simp: bnd_def get_def emit_event_def upd_def refuse_def throw_def ret_def typed_snapshot_def
        check_def told_any [OF told_event [OF assms]] told_event [OF assms] split: sum.split)
  show ?thesis unfolding typed_read_def
    by (rule leads_bnd [OF leads_snapshot leads_bnd [OF leads_await reply]]) (auto intro: told_any fr)
qed

lemma as_i32_Some: "as_i32 v = Some i \<Longrightarrow> v = JInt i"
  by (cases v) (auto simp: as_i32_def split: if_splits)

lemma as_bool_Some: "as_bool v = Some b \<Longrightarrow> v = JBool b"
  by (cases v) auto

lemma boolean_told:
  assumes "steady F"
  shows "leads (told F T (ts_source c) E) (read_boolean c m)
    (\<lambda>b. told F T (ts_source c) (insert (SvRead (ts_source c) m (Inr (JBool b))) E)) (told F T (ts_source c) {})"
  unfolding read_boolean_def
  by (rule leads_bnd [OF read_told [OF assms] leads_accepted])
    (auto simp: ok_or_def split: option.splits dest: as_bool_Some intro: told_any)

lemma integer_told:
  assumes "steady F"
  shows "leads (told F T (ts_source c) E) (read_integer c m)
    (\<lambda>i. told F T (ts_source c) (insert (SvRead (ts_source c) m (Inr (JInt i))) E)) (told F T (ts_source c) {})"
  unfolding read_integer_def
  by (rule leads_bnd [OF read_told [OF assms] leads_accepted])
    (auto simp: ok_or_def split: option.splits dest: as_i32_Some intro: told_any)

text \<open>The reads that make up capabilities, and those a cleared move rests on.\<close>

definition caps_read :: "nat \<Rightarrow> focuser_capabilities \<Rightarrow> source_event set" where
  "caps_read c cap =
     {SvRead c ''absolute'' (Inr (JBool (fc_absolute cap))), SvRead c ''maxstep'' (Inr (JInt (fc_max_step cap))),
      SvRead c ''maxincrement'' (Inr (JInt (fc_max_increment cap)))}"

lemma capabilities_told:
  assumes "steady F"
  shows "leads (told F T (ts_source c) E) (focuser_capabilities_of c)
    (\<lambda>cap. told F T (ts_source c) (caps_read (ts_source c) cap \<union> E)) (told F T (ts_source c) {})"
  unfolding focuser_capabilities_of_def
  by (rule leads_bnd [OF boolean_told [OF assms] leads_bnd [OF integer_told [OF assms]
        leads_bnd [OF integer_told [OF assms] leads_bnd [OF boolean_told [OF assms]
          leads_bnd [OF leads_check leads_when [OF leads_return]]]]]])
    (auto simp: caps_read_def intro: told_any elim!: told_mono)

definition cleared :: "nat \<Rightarrow> int \<Rightarrow> source_event set \<Rightarrow> bool" where
  "cleared c t K \<longleftrightarrow> SvRead c ''ismoving'' (Inr (JBool False)) \<in> K
     \<and> (\<exists>cap. caps_read c cap \<subseteq> K
        \<and> (if fc_absolute cap then 0 \<le> t \<and> t \<le> fc_max_step cap
             \<and> (\<exists>cur. SvRead c ''position'' (Inr (JInt cur)) \<in> K \<and> \<bar>cur - t\<bar> \<le> fc_max_increment cap)
           else \<bar>t\<bar> \<le> fc_max_increment cap))"

lemma cleared_mono: "cleared c t K \<Longrightarrow> K \<subseteq> L \<Longrightarrow> cleared c t L"
  unfolding cleared_def by (meson subset_trans subsetD)

definition told_cleared :: "('s hub_state_scheme \<Rightarrow> bool) \<Rightarrow> source_event list \<Rightarrow> nat \<Rightarrow> int
    \<Rightarrow> 's hub_state_scheme \<Rightarrow> bool" where
  "told_cleared F T c t s \<longleftrightarrow> F s \<and> (\<exists>rs. only_reads c rs \<and> cleared c t (set rs) \<and> hb_trace s = T @ rs)"

lemma told_clears: "told F T c K s \<Longrightarrow> cleared c t K \<Longrightarrow> told_cleared F T c t s"
  unfolding told_def told_cleared_def by (blast intro: cleared_mono)

lemma told_checked:
  "leads (told F T c E) (check b e) (\<lambda>_ s. b \<and> told F T c E s) (told F T c {})"
  by (rule leads_check) (rule told_any)

lemma increment_cleared:
  assumes "steady F"
  shows "leads (told F T (ts_source c) E) (check_increment c cap t)
    (\<lambda>_ s. \<exists>cur. \<bar>cur - t\<bar> \<le> fc_max_increment cap
        \<and> told F T (ts_source c) (insert (SvRead (ts_source c) ''position'' (Inr (JInt cur))) E) s)
    (told F T (ts_source c) {})"
  unfolding check_increment_def
  by (rule leads_bnd [OF integer_told [OF assms] leads_bnd [OF told_checked leads_when [OF leads_weaken [OF told_checked]]]])
    (auto simp: not_less)

lemma validate_cleared:
  assumes "steady F"
  shows "leads (told F T (ts_source c) {}) (validate_move c t) (\<lambda>_. told_cleared F T (ts_source c) t)
    (told F T (ts_source c) {})"
proof -
  let ?c = "ts_source c"
  have finish: "leads (told F T ?c (insert (SvRead ?c ''ismoving'' (Inr (JBool moving))) (caps_read ?c cap \<union> {})))
      (bnd (check (\<not> moving) e) (\<lambda>_. whenever (fc_absolute cap) (check_increment c cap t)))
      (\<lambda>_. told_cleared F T ?c t) (told F T ?c {})"
    if "if fc_absolute cap then 0 \<le> t \<and> t \<le> fc_max_step cap else \<bar>t\<bar> \<le> fc_max_increment cap" for moving cap e
  proof (rule leads_bnd [OF told_checked leads_when [OF leads_whenever]])
    assume moving: "\<not> moving"
    show "leads (told F T ?c (insert (SvRead ?c ''ismoving'' (Inr (JBool moving))) (caps_read ?c cap \<union> {})))
       (check_increment c cap t) (\<lambda>_. told_cleared F T ?c t) (told F T ?c {})"
      if "fc_absolute cap"
      using \<open>if _ then _ else _\<close> moving that
      by (intro leads_weaken [OF increment_cleared [OF assms]])
        (auto simp: cleared_def elim!: told_clears intro!: exI [of _ cap])
    show "told_cleared F T ?c t s"
      if "\<not> fc_absolute cap" "told F T ?c (insert (SvRead ?c ''ismoving'' (Inr (JBool moving))) (caps_read ?c cap \<union> {})) s" for s
      using that \<open>if _ then _ else _\<close> moving
      by (auto simp: cleared_def elim!: told_clears intro!: exI [of _ cap])
  qed
  show ?thesis
    unfolding validate_move_def focuser_is_moving_def
    by (rule leads_bnd [OF capabilities_told [OF assms] leads_bnd [OF told_checked leads_when
          [OF leads_bnd [OF boolean_told [OF assms] finish]]]])
qed

lemma preflight_cleared:
  assumes "steady F"
  shows "leads (told F T (ts_source c) {}) (motion_preflight c t) (\<lambda>_. told_cleared F T (ts_source c) t)
    (told F T (ts_source c) {})"
proof -
  let ?c = "ts_source c"
  have quiet_temp: "leads (told F T ?c E) (if b then focuser_temp_comp c else ret False) (\<lambda>_. told F T ?c {}) (told F T ?c {})"
    for E b unfolding focuser_temp_comp_def
    by (rule leads_if [OF leads_weaken [OF boolean_told [OF assms]] leads_weaken [OF leads_ret]])
      (auto intro: told_any)
  show ?thesis unfolding motion_preflight_def
    by (rule leads_bnd [OF capabilities_told [OF assms] leads_bnd [OF told_checked leads_when [OF
          leads_bnd [OF quiet_temp leads_bnd [OF told_checked leads_when [OF validate_cleared [OF assms]]]]]]])
qed

lemma position_told:
  assumes "steady F"
  shows "leads (told F T (ts_source c) E) (focuser_position c) (\<lambda>_. told F T (ts_source c) {}) (told F T (ts_source c) {})"
  unfolding focuser_position_def
  by (rule leads_bnd [OF capabilities_told [OF assms] leads_bnd [OF told_checked leads_when [OF
        leads_bnd [OF integer_told [OF assms] leads_bnd [OF told_checked leads_when [OF leads_return]]]]]])
    (rule told_any)

end
