(* ===== verification/Utf8.thy ===== *)
theory Utf8 imports Prelude begin

text \<open>
  UTF-8 text as a list of bytes: counting characters, white space and control characters, as the
  checks of labels in the hub's configuration use them.
\<close>

text \<open>A character is a byte that does not continue another.\<close>

definition char_count :: "string \<Rightarrow> nat" where
  "char_count s = length (filter (\<lambda>c. \<not> (128 \<le> (of_char c :: nat) \<and> (of_char c :: nat) < 192)) s)"

definition byte_in :: "char \<Rightarrow> nat set \<Rightarrow> bool" where
  "byte_in c B \<longleftrightarrow> of_char c \<in> B"

text \<open>\<open>s.trim().is_empty()\<close>: every character is white space.\<close>

fun blank :: "string \<Rightarrow> bool" where
  "blank [] = True"
| "blank (a # s) =
     (if byte_in a {9, 10, 11, 12, 13, 32} then blank s
      else case s of
          [] \<Rightarrow> False
        | b # s' \<Rightarrow>
            (if byte_in a {0xC2} \<and> byte_in b {0x85, 0xA0} then blank s'
             else case s' of
                 [] \<Rightarrow> False
               | c # s'' \<Rightarrow>
                   (byte_in a {0xE1} \<and> byte_in b {0x9A} \<and> byte_in c {0x80}
                    \<or> byte_in a {0xE2} \<and> byte_in b {0x80} \<and> byte_in c ({0x80..0x8A} \<union> {0xA8, 0xA9, 0xAF})
                    \<or> byte_in a {0xE2} \<and> byte_in b {0x81} \<and> byte_in c {0x9F}
                    \<or> byte_in a {0xE3} \<and> byte_in b {0x80} \<and> byte_in c {0x80})
                   \<and> blank s''))"

text \<open>\<open>char::is_control\<close>: the ASCII controls and U+0080 to U+009F.\<close>

fun has_control :: "string \<Rightarrow> bool" where
  "has_control [] = False"
| "has_control (a # s) =
     (byte_in a ({0..<32} \<union> {127})
      \<or> byte_in a {0xC2} \<and> (case s of [] \<Rightarrow> False | b # _ \<Rightarrow> byte_in b {0x80..0x9F})
      \<or> has_control s)"

definition max_label_chars :: nat where
  "max_label_chars = 200"

definition bad_label :: "string \<Rightarrow> bool" where
  "bad_label s \<longleftrightarrow> blank s \<or> max_label_chars < char_count s"

end
