(* ===== verification/Focuser_Group.thy ===== *)
theory Focuser_Group imports Focuser Utf8 "HOL-Library.Signed_Division" begin

text \<open>
  Coordinated focuser moves, \<open>crates/regain-hub/src/coordination.rs\<close>: calibrations, the admission of
  a group move, and the task that reserves, checks, moves and observes the members. The report the
  task publishes is \<open>gs_report\<close>, everything it published is \<open>gs_published\<close>.

  Members are observed concurrently; the script \<open>he_next\<close> chooses whose observation completes next,
  and its reads are recorded when it does. The delay between two observations of a member is time
  that passes in the script. The task holds the group's lock (\<open>active\<close> of \<open>group_start\<close>) until it
  ends. Handles, and the channel that tells when the task has ended, are not modelled.
\<close>

section \<open>Calibration\<close>

record calibration =
  fk_source :: nat
  fk_scale_numerator :: int
  fk_scale_denominator :: int
  fk_offset :: int
  fk_minimum :: int
  fk_maximum :: int

definition calibration_validate :: "calibration \<Rightarrow> source_error + unit" where
  "calibration_validate c =
     ensure (\<not> (fk_source c = 0 \<or> fk_scale_numerator c = 0 \<or> fk_scale_denominator c \<le> 0
        \<or> fk_minimum c < 0 \<or> fk_maximum c < fk_minimum c))
       (invalid_value ''Invalid focuser group calibration'')"

definition calibration_target :: "calibration \<Rightarrow> int \<Rightarrow> source_error + int" where
  "calibration_target c logical =
     and_then (calibration_validate c) (\<lambda>_.
     let numerator = logical * fk_scale_numerator c;
         denominator = fk_scale_denominator c;
         scaled = numerator sdiv denominator;
         scaled = (if denominator \<le> \<bar>numerator smod denominator\<bar> * 2 then scaled + sgn numerator else scaled);
         target = scaled + fk_offset c
     in if \<not> (- (2 ^ 31) \<le> target \<and> target < 2 ^ 31)
        then Inl (invalid_value ''Focuser group target overflows device steps'')
        else if \<not> (fk_minimum c \<le> target \<and> target \<le> fk_maximum c)
        then Inl (invalid_value ''Focuser group target is outside configured travel'')
        else Inr target)"

record focuser_group_config =
  fg_id :: nat
  fg_label :: string
  fg_minimum :: int
  fg_maximum :: int
  fg_timeout_seconds :: f64
  fg_poll_seconds :: f64
  fg_members :: "calibration list"

fun check_members :: "nat list \<Rightarrow> calibration list \<Rightarrow> source_error + unit" where
  "check_members seen [] = Inr ()"
| "check_members seen (c # cs) =
     and_then (calibration_validate c) (\<lambda>_.
     and_then (ensure (fk_source c \<notin> set seen) (invalid_value ''Focuser group repeats a physical source'')) (\<lambda>_.
     check_members (fk_source c # seen) cs))"

definition group_validate :: "focuser_group_config \<Rightarrow> source_error + unit" where
  "group_validate g =
     and_then (ensure (\<not> (fg_id g = 0
        \<or> bad_label (fg_label g)
        \<or> fg_maximum g < fg_minimum g
        \<or> \<not> (2 \<le> length (fg_members g) \<and> length (fg_members g) \<le> 32)
        \<or> \<not> f64_finite (fg_timeout_seconds g)
        \<or> \<not> (f64_le (Fin (1/100)) (fg_timeout_seconds g) \<and> f64_le (fg_timeout_seconds g) (Fin 300))
        \<or> \<not> f64_finite (fg_poll_seconds g)
        \<or> \<not> (f64_le (Fin (1/100)) (fg_poll_seconds g) \<and> f64_le (fg_poll_seconds g) (Fin 10))))
       (invalid_value ''Invalid focuser group configuration'')) (\<lambda>_.
     check_members [] (fg_members g))"

section \<open>Reports\<close>

datatype focuser_member_phase = FmNotStarted | FmRejected | FmMoving | FmComplete | FmFailed | FmUncertain

record focuser_member_result =
  fm_source :: nat
  fm_generation :: nat
  fm_target :: int
  fm_phase :: focuser_member_phase
  fm_last_position :: "int option"
  fm_error :: "source_error option"

datatype focuser_group_phase = FgPreflight | FgMoving | FgComplete | FgPreflightFailed | FgPartialFailure
  | FgCancelled | FgDeadline

definition group_terminal :: "focuser_group_phase \<Rightarrow> bool" where
  "group_terminal p \<longleftrightarrow> p \<notin> {FgPreflight, FgMoving}"

record focuser_group_result =
  gr_operation :: nat
  gr_group :: nat
  gr_logical_target :: int
  gr_sequence :: nat
  gr_phase :: focuser_group_phase
  gr_members :: "focuser_member_result list"

definition group_new :: "focuser_group_config \<Rightarrow> typed_session list \<Rightarrow> source_error + unit" where
  "group_new g cs =
     and_then (group_validate g) (\<lambda>_.
     ensure (length cs = length (fg_members g)
        \<and> list_all (\<lambda>(c, m). ts_source c = fk_source m) (zip cs (fg_members g)))
       (invalid_value ''Focuser group sessions do not match physical sources''))"

fun collect_targets :: "calibration list \<Rightarrow> int \<Rightarrow> source_error + int list" where
  "collect_targets [] logical = Inr []"
| "collect_targets (m # ms) logical =
     and_then (calibration_target m logical) (\<lambda>t. and_then (collect_targets ms logical) (\<lambda>ts. Inr (t # ts)))"

text \<open>\<open>FocuserGroup::start_owned\<close> up to the spawned task; \<open>active\<close> tells whether the group's lock is held.\<close>

definition group_start :: "bool \<Rightarrow> focuser_group_config \<Rightarrow> typed_session list \<Rightarrow> int \<Rightarrow> nat
    \<Rightarrow> source_error + focuser_group_result" where
  "group_start active g cs logical operation =
     and_then (ensure (fg_minimum g \<le> logical \<and> logical \<le> fg_maximum g)
       (invalid_value ''Focuser group logical target is outside configured travel'')) (\<lambda>_.
     and_then (collect_targets (fg_members g) logical) (\<lambda>targets.
     and_then (ensure (\<not> active) (source_error_new KBusy ''Focuser group operation is already active'')) (\<lambda>_.
     Inr \<lparr>gr_operation = operation, gr_group = fg_id g, gr_logical_target = logical, gr_sequence = 1,
       gr_phase = FgPreflight,
       gr_members = map (\<lambda>(c, t). \<lparr>fm_source = ts_source c, fm_generation = ts_generation c, fm_target = t,
         fm_phase = FmNotStarted, fm_last_position = None, fm_error = None\<rparr>) (zip cs targets)\<rparr>)))"

section \<open>The task\<close>

record group_state = hub_state +
  gs_report :: focuser_group_result
  gs_published :: "focuser_group_result list"

type_synonym 'a grouping = "(group_state, stop, 'a) effect"

definition edit_member :: "nat \<Rightarrow> (focuser_member_result \<Rightarrow> focuser_member_result) \<Rightarrow> unit grouping" where
  "edit_member i f = upd (\<lambda>s. s\<lparr>gs_report := (gs_report s)\<lparr>gr_members :=
     (gr_members (gs_report s))[i := f (gr_members (gs_report s) ! i)]\<rparr>\<rparr>)"

definition emit_report :: "unit grouping" where
  "emit_report =
     bnd (upd (\<lambda>s. s\<lparr>gs_report := (gs_report s)\<lparr>gr_sequence := gr_sequence (gs_report s) + 1\<rparr>\<rparr>)) (\<lambda>_.
     upd (\<lambda>s. s\<lparr>gs_published := gs_published s @ [gs_report s]\<rparr>))"

definition set_group_phase :: "focuser_group_phase \<Rightarrow> unit grouping" where
  "set_group_phase p = upd (\<lambda>s. s\<lparr>gs_report := (gs_report s)\<lparr>gr_phase := p\<rparr>\<rparr>)"

fun interrupted_phase :: "interruption \<Rightarrow> focuser_group_phase" where
  "interrupted_phase Cancellation = FgCancelled"
| "interrupted_phase DeadlinePassed = FgDeadline"

text \<open>Report a phase and return; \<open>False\<close> tells the caller that the task is over.\<close>

definition leave :: "focuser_group_phase \<Rightarrow> bool grouping" where
  "leave p = bnd (set_group_phase p) (\<lambda>_. bnd emit_report (\<lambda>_. ret False))"

definition reject_member :: "nat \<Rightarrow> source_error \<Rightarrow> unit grouping" where
  "reject_member i e = edit_member i (\<lambda>m. m\<lparr>fm_phase := FmRejected, fm_error := Some e\<rparr>)"

definition member_target :: "nat \<Rightarrow> int grouping" where
  "member_target i = get (\<lambda>s. fm_target (gr_members (gs_report s) ! i))"

fun reserve_all :: "(nat \<times> typed_session) list \<Rightarrow> bool grouping" where
  "reserve_all [] = ret True"
| "reserve_all ((i, c) # rest) =
     bnd (interruptible (reserve_motion c)) (\<lambda>r. case r of
       Inr _ \<Rightarrow> reserve_all rest
     | Inl (Refused e) \<Rightarrow> bnd (reject_member i e) (\<lambda>_. leave FgPreflightFailed)
     | Inl (Stopped p) \<Rightarrow> leave (interrupted_phase p))"

fun preflight_all :: "(nat \<times> typed_session) list \<Rightarrow> bool grouping" where
  "preflight_all [] = ret True"
| "preflight_all ((i, c) # rest) =
     bnd (member_target i) (\<lambda>t.
     bnd (interruptible (motion_preflight c t)) (\<lambda>r. case r of
       Inr _ \<Rightarrow> preflight_all rest
     | Inl (Refused e) \<Rightarrow> bnd (reject_member i e) (\<lambda>_. leave FgPreflightFailed)
     | Inl (Stopped p) \<Rightarrow> leave (interrupted_phase p)))"

text \<open>\<open>Inl e\<close> of \<open>dispatch\<close>: only a definite refusal leaves no doubt about the motor.\<close>

definition dispatch_failed :: "nat \<Rightarrow> source_error \<Rightarrow> unit grouping" where
  "dispatch_failed i e = edit_member i (\<lambda>m.
     m\<lparr>fm_phase := (if so_kind e = KUncertain then FmUncertain else FmFailed), fm_error := Some e\<rparr>)"

fun dispatch_all :: "(nat \<times> typed_session) list \<Rightarrow> bool grouping" where
  "dispatch_all [] = ret True"
| "dispatch_all ((i, c) # rest) =
     bnd (member_target i) (\<lambda>t.
     bnd (interruptible (motion_preflight c t)) (\<lambda>r. case r of
       Inl (Stopped p) \<Rightarrow> leave (interrupted_phase p)
     | Inl (Refused e) \<Rightarrow> bnd (reject_member i e) (\<lambda>_. ret True)
     | Inr _ \<Rightarrow>
         bnd interrupted (\<lambda>stop. case stop of
           Some p \<Rightarrow> leave (interrupted_phase p)
         | None \<Rightarrow>
             bnd (outcome_of (motion_dispatch c t)) (\<lambda>r. case r of
               Inr _ \<Rightarrow>
                 bnd (edit_member i (\<lambda>m. m\<lparr>fm_phase := FmMoving\<rparr>)) (\<lambda>_.
                 bnd emit_report (\<lambda>_. dispatch_all rest))
             | Inl (Refused e) \<Rightarrow>
                 bnd (dispatch_failed i e) (\<lambda>_. bnd emit_report (\<lambda>_. ret True))
             | Inl (Stopped p) \<Rightarrow> leave (interrupted_phase p)))))"

definition observe_member :: "typed_session \<Rightarrow> (source_error + (bool \<times> int)) grouping" where
  "observe_member c =
     bnd (outcome_of
       (bnd (focuser_is_moving c) (\<lambda>moving.
        bnd (focuser_position c) (\<lambda>position. ret (moving, position))))) (\<lambda>r. case r of
       Inr seen \<Rightarrow> ret (Inr seen)
     | Inl (Refused e) \<Rightarrow> ret (Inl e)
     | Inl (Stopped p) \<Rightarrow> throw (Stopped p))"

definition note_observation :: "source_error + (bool \<times> int) \<Rightarrow> focuser_member_result \<Rightarrow> focuser_member_result" where
  "note_observation r m = (case r of
       Inr (moving, position) \<Rightarrow>
         (let m = m\<lparr>fm_last_position := Some position\<rparr> in
          if moving then m
          else if position = fm_target m then m\<lparr>fm_phase := FmComplete\<rparr>
          else m\<lparr>fm_phase := FmFailed, fm_error := Some (source_error_new KUnavailable
             ''Focuser stopped before reaching its group target'')\<rparr>)
     | Inl e \<Rightarrow> m\<lparr>fm_phase := FmUncertain, fm_error := Some e\<rparr>)"

text \<open>The next completed observation, \<open>observations.next()\<close>.\<close>

definition observe_next :: "typed_session list \<Rightarrow> nat list \<Rightarrow> (nat \<times> (source_error + (bool \<times> int))) grouping" where
  "observe_next cs pend =
     bnd await (\<lambda>n. bnd (get (\<lambda>s. pend ! (he_next (hb_env s) n mod length pend))) (\<lambda>i.
     bnd (observe_member (cs ! i)) (\<lambda>r. ret (i, r))))"

text \<open>One round of the observation loop, over the members whose observation is pending.\<close>

definition observe_round :: "typed_session list \<Rightarrow> nat list \<Rightarrow> (nat list + bool) grouping" where
  "observe_round cs pending =
     (if pending = [] then ret (Inr True)
      else
        bnd (interruptible (observe_next cs pending)) (\<lambda>next. case next of
          Inl (Stopped p) \<Rightarrow> bnd (leave (interrupted_phase p)) (\<lambda>over. ret (Inr over))
        | Inl (Refused _) \<Rightarrow> ret (Inr True)
        | Inr (i, r) \<Rightarrow>
            bnd (edit_member i (note_observation r)) (\<lambda>_.
            bnd (get (\<lambda>s. fm_phase (gr_members (gs_report s) ! i) = FmMoving)) (\<lambda>moving.
            bnd emit_report (\<lambda>_.
            ret (Inl (if moving then removeAll i pending @ [i] else removeAll i pending)))))))"

definition observe_all :: "typed_session list \<Rightarrow> bool grouping" where
  "observe_all cs =
     bnd (get (\<lambda>s. filter (\<lambda>i. fm_phase (gr_members (gs_report s) ! i) = FmMoving)
       [0..<length (gr_members (gs_report s))])) (\<lambda>pending.
     bnd (get (\<lambda>s. he_loop_bound (hb_env s))) (\<lambda>n.
     iterate n (observe_round cs) pending))"

definition conclude :: "unit grouping" where
  "conclude =
     bnd (get (\<lambda>s. list_all (\<lambda>m. fm_phase m = FmComplete) (gr_members (gs_report s)))) (\<lambda>complete.
     bnd (set_group_phase (if complete then FgComplete else FgPartialFailure)) (\<lambda>_.
     bnd interrupted (\<lambda>stop.
     bnd (case stop of Some p \<Rightarrow> set_group_phase (interrupted_phase p) | None \<Rightarrow> ret ()) (\<lambda>_.
     emit_report))))"

definition group_run :: "typed_session list \<Rightarrow> unit grouping" where
  "group_run cs =
     bnd (reserve_all (enumerate 0 cs)) (\<lambda>reserved.
     if \<not> reserved then ret () else
     bnd (preflight_all (enumerate 0 cs)) (\<lambda>clear.
     if \<not> clear then ret () else
     bnd (set_group_phase FgMoving) (\<lambda>_.
     bnd emit_report (\<lambda>_.
     bnd (dispatch_all (enumerate 0 cs)) (\<lambda>dispatched.
     if \<not> dispatched then ret () else
     bnd (observe_all cs) (\<lambda>observed.
     if \<not> observed then ret () else conclude))))))"

end
