(* ===== verification/Focuser_Moves.thy ===== *)
theory Focuser_Moves imports Focuser_Group "HOL-Library.Code_Target_Numeral" begin

text \<open>
  What a coordinated focuser move does to the equipment and what its report promises: which moves
  are sent, what each of them rests on, and what a report of completion means. The proofs follow the
  stages of the task; each stage is described by the events it adds to the history and by what holds
  of history and report when it is done.
\<close>

section \<open>Histories of a group move\<close>

definition moves_of :: "typed_session list \<Rightarrow> int list \<Rightarrow> (nat \<times> string \<times> (string \<times> json) list) list" where
  "moves_of cs ts = map (\<lambda>(c, t). (ts_source c, ''move'', [(''Position'', JInt t)])) (zip cs ts)"

definition writes_of :: "source_event list \<Rightarrow> (nat \<times> string \<times> (string \<times> json) list) list" where
  "writes_of evs = concat (map (\<lambda>e. case e of SvWrite i m p _ \<Rightarrow> [(i, m, p)] | _ \<Rightarrow> []) evs)"

lemma writes_of_simps [simp]:
  "writes_of [] = []"
  "writes_of (xs @ ys) = writes_of xs @ writes_of ys"
  "writes_of (SvLease i # xs) = writes_of xs"
  "writes_of (SvRead i m r # xs) = writes_of xs"
  "writes_of (SvWrite i m p w # xs) = (i, m, p) # writes_of xs"
  by (simp_all add: writes_of_def)

text \<open>Every write is a move right after the reads that cleared it.\<close>

definition moves_checked :: "source_event list \<Rightarrow> bool" where
  "moves_checked evs \<longleftrightarrow> (\<forall>a c m p w b. evs = a @ SvWrite c m p w # b \<longrightarrow>
     (\<exists>a' rs t. a = a' @ rs \<and> m = ''move'' \<and> p = [(''Position'', JInt t)] \<and> only_reads c rs \<and> cleared c t (set rs)))"

text \<open>Before the first write every member was reserved and cleared.\<close>

definition all_clear :: "typed_session list \<Rightarrow> int list \<Rightarrow> source_event list \<Rightarrow> bool" where
  "all_clear cs ts evs \<longleftrightarrow> (\<forall>(c, t) \<in> set (zip cs ts). SvLease (ts_source c) \<in> set evs \<and> cleared (ts_source c) t (set evs))"

definition prepared_before_writes :: "typed_session list \<Rightarrow> int list \<Rightarrow> source_event list \<Rightarrow> bool" where
  "prepared_before_writes cs ts evs \<longleftrightarrow> (\<exists>pre rest. evs = pre @ rest \<and> writes_of pre = [] \<and> all_clear cs ts pre)"

lemma moves_checked_Nil: "moves_checked []"
  by (simp add: moves_checked_def)

lemma moves_checked_snoc:
  assumes "moves_checked evs" "writes_of [e] = []"
  shows "moves_checked (evs @ [e])"
  unfolding moves_checked_def
proof (intro allI impI)
  fix a c m p w b assume e: "evs @ [e] = a @ SvWrite c m p w # b"
  then obtain b' where "b = b' @ [e]" "evs = a @ SvWrite c m p w # b'"
    using assms(2) by (cases b rule: rev_cases) auto
  then show "\<exists>a' rs t. a = a' @ rs \<and> m = ''move'' \<and> p = [(''Position'', JInt t)] \<and> only_reads c rs \<and> cleared c t (set rs)"
    using assms(1) by (simp add: moves_checked_def)
qed

lemma moves_checked_append:
  "moves_checked evs \<Longrightarrow> writes_of new = [] \<Longrightarrow> moves_checked (evs @ new)"
proof (induction new rule: rev_induct)
  case (snoc e new)
  then show ?case using moves_checked_snoc [of "evs @ new" e] by simp
qed simp

lemma moves_checked_write:
  assumes "moves_checked (evs @ rs)" "only_reads c rs" "cleared c t (set rs)"
  shows "moves_checked (evs @ rs @ [SvWrite c ''move'' [(''Position'', JInt t)] w])"
  unfolding moves_checked_def
proof (intro allI impI)
  fix a c' m p w' b
  assume e: "evs @ rs @ [SvWrite c ''move'' [(''Position'', JInt t)] w] = a @ SvWrite c' m p w' # b"
  show "\<exists>a' rs t. a = a' @ rs \<and> m = ''move'' \<and> p = [(''Position'', JInt t)] \<and> only_reads c' rs \<and> cleared c' t (set rs)"
  proof (cases b rule: rev_cases)
    case Nil
    then show ?thesis using e assms(2,3) by auto
  next
    case (snoc b' x)
    then have "evs @ rs = a @ SvWrite c' m p w' # b'" using e
      by (metis append.assoc append_Cons butlast_snoc)
    then show ?thesis using assms(1) by (simp add: moves_checked_def)
  qed
qed

lemma only_reads_Nil: "only_reads c []"
  by (simp add: only_reads_def)

lemma only_reads_writes: "only_reads c rs \<Longrightarrow> writes_of rs = []"
  by (induction rs) (auto simp: only_reads_def writes_of_def split: source_event.splits)

lemma prepared_append: "prepared_before_writes cs ts evs \<Longrightarrow> prepared_before_writes cs ts (evs @ new)"
  unfolding prepared_before_writes_def by fastforce

section \<open>What each operation adds\<close>

text \<open>
  An operation that leaves the report alone adds events described by \<open>K\<close> when it returns and by \<open>L\<close>
  when it does not.
\<close>

definition adds :: "'a grouping \<Rightarrow> ('a \<Rightarrow> source_event list \<Rightarrow> bool) \<Rightarrow> (source_event list \<Rightarrow> bool) \<Rightarrow> bool" where
  "adds m K L \<longleftrightarrow> (\<forall>T r. leads (\<lambda>s. hb_trace s = T \<and> gs_report s = r) m
     (\<lambda>x s. gs_report s = r \<and> (\<exists>new. K x new \<and> hb_trace s = T @ new))
     (\<lambda>s. gs_report s = r \<and> (\<exists>new. L new \<and> hb_trace s = T @ new)))"

text \<open>History and report since the trace was \<open>T\<close>.\<close>

definition since :: "source_event list \<Rightarrow> (source_event list \<Rightarrow> focuser_group_result \<Rightarrow> bool) \<Rightarrow> group_state \<Rightarrow> bool" where
  "since T H s \<longleftrightarrow> (\<exists>evs. hb_trace s = T @ evs \<and> H evs (gs_report s))"

lemma leads_adds:
  assumes "adds m K L"
    and "\<And>x evs r new. H evs r \<Longrightarrow> K x new \<Longrightarrow> Q x (evs @ new) r"
    and "\<And>evs r new. H evs r \<Longrightarrow> L new \<Longrightarrow> R (evs @ new) r"
  shows "leads (since T H) m (\<lambda>x. since T (Q x)) (since T R)"
proof (rule leadsI)
  fix s assume "since T H s"
  then obtain evs where evs: "hb_trace s = T @ evs" "H evs (gs_report s)" by (auto simp: since_def)
  have "case m s of (Returned x, t) \<Rightarrow> gs_report t = gs_report s \<and> (\<exists>new. K x new \<and> hb_trace t = (T @ evs) @ new)
      | (_, t) \<Rightarrow> gs_report t = gs_report s \<and> (\<exists>new. L new \<and> hb_trace t = (T @ evs) @ new)"
    using assms(1) [unfolded adds_def leads_def, rule_format, of s "T @ evs" "gs_report s"] evs(1) by simp
  then show "case m s of (Returned x, t) \<Rightarrow> since T (Q x) t | (_, t) \<Rightarrow> since T R t"
    using assms(2,3) [OF evs(2)] by (auto simp: since_def split: prod.splits result.splits)
qed

lemma adds_interruptible:
  assumes "adds m K L" "L []"
  shows "adds (interruptible m) (\<lambda>r new. case r of Inr x \<Rightarrow> K x new | Inl _ \<Rightarrow> L new) L"
  unfolding adds_def
proof (intro allI)
  fix T :: "source_event list" and r
  let ?P = "\<lambda>s. hb_trace s = T \<and> gs_report s = r"
  let ?Q = "\<lambda>x s. gs_report s = r \<and> (\<exists>new. K x new \<and> hb_trace s = T @ new)"
  let ?R = "\<lambda>s. gs_report s = r \<and> (\<exists>new. L new \<and> hb_trace s = T @ new)"
  have "leads ?P (bnd await (\<lambda>_. m)) ?Q ?R"
    by (rule leads_bnd [OF leads_await]) (use assms in \<open>auto simp: adds_def\<close>)
  then have work: "leads ?P (outcome_of (bnd await (\<lambda>_. m))) (\<lambda>r s. case r of Inr x \<Rightarrow> ?Q x s | Inl _ \<Rightarrow> ?R s) ?R"
    by (rule leads_outcome)
  let ?K = "\<lambda>r new. case r of Inr x \<Rightarrow> K x new | Inl _ \<Rightarrow> L new"
  have start: "leads ?P (upd (\<lambda>s. s\<lparr>hb_watched := True\<rparr>)) (\<lambda>_. ?P) ?R" by (rule leads_modify) simp
  have stop: "leads (\<lambda>s. case x of Inr y \<Rightarrow> ?Q y s | Inl _ \<Rightarrow> ?R s) (bnd (upd (\<lambda>s. s\<lparr>hb_watched := False\<rparr>)) (\<lambda>_. ret x))
      (\<lambda>x s. gs_report s = r \<and> (\<exists>new. ?K x new \<and> hb_trace s = T @ new)) ?R" for x
    by (cases x) (simp_all add: leads_def bnd_def upd_def ret_def)
  show "leads ?P (interruptible m) (\<lambda>x s. gs_report s = r \<and> (\<exists>new. ?K x new \<and> hb_trace s = T @ new)) ?R"
    unfolding interruptible_def by (rule leads_bnd [OF start leads_bnd [OF work stop]])
qed

lemma adds_told:
  assumes "leads (told (\<lambda>s. gs_report s = r) T c {}) m Q (told (\<lambda>s. gs_report s = r) T c {})"
  shows "leads (\<lambda>s. hb_trace s = T \<and> gs_report s = r) m Q (\<lambda>s. gs_report s = r \<and> (\<exists>new. only_reads c new \<and> hb_trace s = T @ new))"
  by (rule leads_weaken [OF assms]) (auto simp: told_def only_reads_def)

lemma steady_report: "steady (\<lambda>s. gs_report s = r)"
  by (simp add: steady_def)

lemma adds_preflight:
  "adds (motion_preflight c t) (\<lambda>_ new. only_reads (ts_source c) new \<and> cleared (ts_source c) t (set new)) (only_reads (ts_source c))"
  unfolding adds_def
  by (intro allI leads_weaken [OF adds_told [OF preflight_cleared [OF steady_report]]])
    (auto simp: told_cleared_def)

lemma observe_told:
  "leads (told (\<lambda>s. gs_report s = r) T (ts_source c) {}) (observe_member c)
     (\<lambda>_. told (\<lambda>s. gs_report s = r) T (ts_source c) {}) (told (\<lambda>s. gs_report s = r) T (ts_source c) {})"
proof -
  let ?P = "told (\<lambda>s. gs_report s = r) T (ts_source c) {}"
  have "leads ?P (bnd (focuser_is_moving c) (\<lambda>moving. bnd (focuser_position c) (\<lambda>position. ret (moving, position))))
      (\<lambda>_. ?P) ?P"
    unfolding focuser_is_moving_def
    by (rule leads_bnd [OF boolean_told [OF steady_report] leads_bnd [OF position_told [OF steady_report] leads_return]])
  from leads_outcome [OF this] have seen: "leads ?P (outcome_of (bnd (focuser_is_moving c)
      (\<lambda>moving. bnd (focuser_position c) (\<lambda>position. ret (moving, position))))) (\<lambda>_. ?P) ?P"
    by (rule leads_weaken) (auto split: sum.splits)
  show ?thesis unfolding observe_member_def
    by (rule leads_bnd [OF seen]) (auto simp: leads_def ret_def throw_def split: sum.split stop.split)
qed

lemma adds_observe: "adds (observe_member c) (\<lambda>_. only_reads (ts_source c)) (only_reads (ts_source c))"
  unfolding adds_def by (intro allI leads_weaken [OF adds_told [OF observe_told]]) (auto simp: told_def)

lemma leads_accept: "(\<And>s. r = None \<Longrightarrow> P s \<Longrightarrow> Q () s) \<Longrightarrow> (\<And>s. P s \<Longrightarrow> R s) \<Longrightarrow> leads P (accept r) Q R"
  by (cases r) (simp_all add: leads_def accept_def refuse_def throw_def ret_def)

lemma adds_reserve:
  "adds (reserve_motion c) (\<lambda>_ new. new = [SvLease (ts_source c)]) (\<lambda>new. new = [] \<or> new = [SvLease (ts_source c)])"
  unfolding adds_def
proof (intro allI)
  fix T :: "source_event list" and r
  let ?P = "\<lambda>s. hb_trace s = T \<and> gs_report s = r"
  let ?Q = "\<lambda>s. hb_trace s = T @ [SvLease (ts_source c)] \<and> gs_report s = r"
  let ?R = "\<lambda>s. gs_report s = r \<and> (\<exists>new. (new = [] \<or> new = [SvLease (ts_source c)]) \<and> hb_trace s = T @ new)"
  have last: "leads ?P (bnd (emit_event (SvLease (ts_source c))) (\<lambda>_. typed_snapshot c)) (\<lambda>_. ?Q) ?R"
    unfolding emit_event_def by (rule leads_bnd [OF leads_modify leads_snapshot]) simp_all
  have step: "leads ?P (check b e) (\<lambda>_. ?P) ?R" "leads ?P (accept a) (\<lambda>_. ?P) ?R" for b e a
    by (simp_all add: leads_def check_def accept_def refuse_def ret_def throw_def split: option.split)
  have wait: "leads ?P await (\<lambda>_. ?P) ?R" by (rule leads_await) simp_all
  have look: "leads ?P (typed_snapshot c) (\<lambda>_. ?P) ?R" by (rule leads_snapshot) simp
  have "leads ?P (typed_operation c) (\<lambda>_. ?Q) ?R"
    unfolding typed_operation_def
    by (rule leads_bnd [OF leads_read leads_bnd [OF step(1) leads_bnd [OF look leads_bnd [OF wait
        leads_bnd [OF leads_read leads_bnd [OF step(2) leads_bnd [OF look leads_bnd [OF wait
        leads_bnd [OF leads_read leads_bnd [OF step(2) last]]]]]]]]]])
  then show "leads ?P (reserve_motion c) (\<lambda>x s. gs_report s = r \<and> (\<exists>new. new = [SvLease (ts_source c)] \<and> hb_trace s = T @ new)) ?R"
    unfolding reserve_motion_def by (rule leads_weaken) auto
qed

lemma adds_interrupted: "adds interrupted (\<lambda>_ new. new = []) (\<lambda>_. False)"
  by (simp add: adds_def leads_def interrupted_def bnd_def hub_tick_def get_def)

lemma adds_dispatch:
  "adds (motion_dispatch c t)
     (\<lambda>_ new. new = [SvWrite (ts_source c) ''move'' [(''Position'', JInt t)] None])
     (\<lambda>new. new = [] \<or> (\<exists>w. new = [SvWrite (ts_source c) ''move'' [(''Position'', JInt t)] w]))"
  unfolding adds_def
proof (intro allI)
  fix T :: "source_event list" and r
  let ?e = "SvWrite (ts_source c) ''move'' [(''Position'', JInt t)]"
  let ?P = "\<lambda>s. hb_trace s = T \<and> gs_report s = r"
  let ?R = "\<lambda>s. gs_report s = r \<and> (\<exists>new. (new = [] \<or> (\<exists>w. new = [?e w])) \<and> hb_trace s = T @ new)"
  let ?Q = "\<lambda>s. gs_report s = r \<and> (\<exists>new. new = [?e None] \<and> hb_trace s = T @ new)"
  have sent: "leads ?P (bnd (get (\<lambda>s. he_write (hb_env s) n (ts_source c))) (\<lambda>r.
     bnd (emit_event (?e r)) (\<lambda>_. accept r))) (\<lambda>_. ?Q) ?R" for n
    by (rule leadsI) (auto simp: bnd_def get_def emit_event_def upd_def accept_def refuse_def ret_def throw_def split: option.split)
  show "leads ?P (motion_dispatch c t) (\<lambda>_. ?Q) ?R"
    unfolding motion_dispatch_def write_move_def typed_write_def
    by (rule leads_bnd [OF leads_snapshot leads_bnd [OF leads_await sent]]) auto
qed

section \<open>The stages of the task\<close>

abbreviation acknowledged :: "typed_session \<Rightarrow> int \<Rightarrow> source_event list \<Rightarrow> bool" where
  "acknowledged c t evs \<equiv> SvWrite (ts_source c) ''move'' [(''Position'', JInt t)] None \<in> set evs"

text \<open>What a member's entry in the report says is backed by the history.\<close>

definition backed :: "typed_session \<Rightarrow> int \<Rightarrow> source_event list \<Rightarrow> focuser_member_result \<Rightarrow> bool" where
  "backed c t evs m \<longleftrightarrow> fm_target m = t
     \<and> (fm_phase m \<in> {FmMoving, FmComplete} \<longrightarrow> acknowledged c t evs)
     \<and> (fm_phase m = FmComplete \<longrightarrow> fm_last_position m = Some t)"

definition members_backed :: "typed_session list \<Rightarrow> int list \<Rightarrow> source_event list \<Rightarrow> focuser_member_result list \<Rightarrow> bool" where
  "members_backed cs ts evs ms \<longleftrightarrow> length ms = length ts \<and> (\<forall>i < length ts. backed (cs ! i) (ts ! i) evs (ms ! i))"

definition history :: "typed_session list \<Rightarrow> int list \<Rightarrow> nat \<Rightarrow> source_event list \<Rightarrow> bool" where
  "history cs ts k evs \<longleftrightarrow> writes_of evs = take k (moves_of cs ts) \<and> moves_checked evs
     \<and> (0 < k \<longrightarrow> prepared_before_writes cs ts evs)"

definition standing :: "typed_session list \<Rightarrow> int list \<Rightarrow> nat \<Rightarrow> source_event list \<Rightarrow> focuser_group_result \<Rightarrow> bool" where
  "standing cs ts k evs r \<longleftrightarrow> history cs ts k evs \<and> members_backed cs ts evs (gr_members r) \<and> gr_phase r \<noteq> FgComplete"

definition ended :: "typed_session list \<Rightarrow> int list \<Rightarrow> source_event list \<Rightarrow> focuser_group_result \<Rightarrow> bool" where
  "ended cs ts evs r \<longleftrightarrow> (\<exists>k. history cs ts k evs) \<and> members_backed cs ts evs (gr_members r)
     \<and> (gr_phase r = FgComplete \<longrightarrow> list_all (\<lambda>m. fm_phase m = FmComplete) (gr_members r))"

lemma standing_ended: "standing cs ts k evs r \<Longrightarrow> ended cs ts evs r"
  by (auto simp: standing_def ended_def)

lemma standing_update [simp]:
  "standing cs ts k evs (r\<lparr>gr_sequence := n\<rparr>) = standing cs ts k evs r"
  "p \<noteq> FgComplete \<Longrightarrow> standing cs ts k evs r \<Longrightarrow> standing cs ts k evs (r\<lparr>gr_phase := p\<rparr>)"
  by (simp_all add: standing_def)

lemma history_append: "history cs ts k evs \<Longrightarrow> writes_of new = [] \<Longrightarrow> history cs ts k (evs @ new)"
  by (auto simp: history_def moves_checked_append prepared_append)

lemma members_backed_append: "members_backed cs ts evs ms \<Longrightarrow> members_backed cs ts (evs @ new) ms"
  by (auto simp: members_backed_def backed_def)

lemma standing_append: "standing cs ts k evs r \<Longrightarrow> writes_of new = [] \<Longrightarrow> standing cs ts k (evs @ new) r"
  by (auto simp: standing_def history_append members_backed_append)

lemma standing_reads: "standing cs ts k evs r \<Longrightarrow> only_reads c new \<Longrightarrow> standing cs ts k (evs @ new) r"
  by (rule standing_append [OF _ only_reads_writes])

lemma standing_edit:
  assumes "standing cs ts k evs r" "backed (cs ! i) (ts ! i) evs (gr_members r ! i) \<Longrightarrow> backed (cs ! i) (ts ! i) evs (f (gr_members r ! i))"
  shows "standing cs ts k evs (r\<lparr>gr_members := (gr_members r)[i := f (gr_members r ! i)]\<rparr>)"
  using assms by (cases "i < length ts") (auto simp: standing_def members_backed_def nth_list_update)

lemma leads_edit:
  assumes "\<And>evs r. H evs r \<Longrightarrow> Q evs (r\<lparr>gr_members := (gr_members r)[i := f (gr_members r ! i)]\<rparr>)"
  shows "leads (since T H) (edit_member i f) (\<lambda>_. since T Q) R"
  unfolding edit_member_def by (rule leads_modify) (auto simp: since_def intro: assms)

lemma leads_emit:
  assumes "\<And>evs r n. H evs r \<Longrightarrow> Q evs (r\<lparr>gr_sequence := n\<rparr>)"
  shows "leads (since T H) emit_report (\<lambda>_. since T Q) R"
  unfolding emit_report_def leads_def bnd_def upd_def by (auto simp: since_def intro: assms)

lemma leads_leave:
  assumes "\<And>evs r. H evs r \<Longrightarrow> \<exists>k. standing cs ts k evs r" "p \<noteq> FgComplete"
  shows "leads (since T H) (leave p) (\<lambda>ok s. since T (ended cs ts) s \<and> \<not> ok) (since T (ended cs ts))"
proof (rule leadsI)
  fix s assume "since T H s"
  then obtain evs k where "hb_trace s = T @ evs" "standing cs ts k evs (gs_report s)"
    unfolding since_def using assms(1) by blast
  then show "case leave p s of (Returned ok, t) \<Rightarrow> since T (ended cs ts) t \<and> \<not> ok | (_, t) \<Rightarrow> since T (ended cs ts) t"
    using assms(2) by (auto simp: since_def leave_def set_group_phase_def emit_report_def bnd_def upd_def ret_def
        intro!: standing_ended standing_update(2))
qed

lemma interrupted_phase_not_complete [simp]: "interrupted_phase p \<noteq> FgComplete"
  by (cases p) simp_all

text \<open>A stage goes on only when all its members are done; otherwise the task has reported and ended.\<close>

definition stage :: "typed_session list \<Rightarrow> int list \<Rightarrow> source_event list
    \<Rightarrow> (source_event list \<Rightarrow> focuser_group_result \<Rightarrow> bool) \<Rightarrow> bool \<Rightarrow> group_state \<Rightarrow> bool" where
  "stage cs ts T H ok = (if ok then since T H else since T (ended cs ts))"

lemma leads_left:
  assumes "\<And>evs r. H evs r \<Longrightarrow> \<exists>k. standing cs ts k evs r" "p \<noteq> FgComplete"
  shows "leads (since T H) (leave p) (stage cs ts T Q) (since T (ended cs ts))"
  by (rule leads_weaken [OF leads_leave [OF assms]]) (auto simp: stage_def)

lemma leads_edit_standing:
  assumes "\<And>c t evs m. backed c t evs m \<Longrightarrow> backed c t evs (f m)"
  shows "leads (since T (\<lambda>evs r. \<exists>k. standing cs ts k evs r)) (edit_member i f)
    (\<lambda>_. since T (\<lambda>evs r. \<exists>k. standing cs ts k evs r)) R"
  by (rule leads_edit) (blast intro: standing_edit assms)

lemma leads_rejected:
  assumes "\<And>evs r. H evs r \<Longrightarrow> \<exists>k. standing cs ts k evs r"
  shows "leads (since T H) (bnd (reject_member i e) (\<lambda>_. leave FgPreflightFailed)) (stage cs ts T Q) (since T (ended cs ts))"
proof -
  have "leads (since T H) (reject_member i e) (\<lambda>_. since T (\<lambda>evs r. \<exists>k. standing cs ts k evs r)) (since T (ended cs ts))"
    unfolding reject_member_def
    by (rule leads_weaken [OF leads_edit_standing]) (use assms in \<open>auto simp: backed_def since_def\<close>)
  then show ?thesis by (rule leads_bnd) (auto intro: leads_left)
qed

text \<open>One member of a stage: the stage goes on with what the member's work added.\<close>

lemma leads_stage_step:
  assumes "adds m K L" "L []"
    and "\<And>evs r new. H evs r \<Longrightarrow> K () new \<Longrightarrow> N (evs @ new) r"
    and "\<And>evs r new. H evs r \<Longrightarrow> L new \<Longrightarrow> \<exists>k. standing cs ts k (evs @ new) r"
    and "leads (since T N) rest (stage cs ts T Q) (since T (ended cs ts))"
  shows "leads (since T H) (bnd (interruptible m) (\<lambda>r. case r of
      Inr _ \<Rightarrow> rest
    | Inl (Refused e) \<Rightarrow> bnd (reject_member i e) (\<lambda>_. leave FgPreflightFailed)
    | Inl (Stopped p) \<Rightarrow> leave (interrupted_phase p))) (stage cs ts T Q) (since T (ended cs ts))"
proof (rule leads_bnd)
  let ?S = "\<lambda>evs r. \<exists>k. standing cs ts k evs r"
  have over: "H evs r \<Longrightarrow> L new \<Longrightarrow> ended cs ts (evs @ new) r" for evs r new
    using assms(4) standing_ended by blast
  show "leads (since T H) (interruptible m) (\<lambda>r. since T (case r of Inr _ \<Rightarrow> N | Inl _ \<Rightarrow> ?S)) (since T (ended cs ts))"
    by (rule leads_adds [OF adds_interruptible [OF assms(1,2)]])
      (auto split: sum.splits intro: assms(3) assms(4) over)
  fix r :: "stop + unit"
  show "leads (since T (case r of Inr _ \<Rightarrow> N | Inl _ \<Rightarrow> ?S)) (case r of
      Inr _ \<Rightarrow> rest
    | Inl (Refused e) \<Rightarrow> bnd (reject_member i e) (\<lambda>_. leave FgPreflightFailed)
    | Inl (Stopped p) \<Rightarrow> leave (interrupted_phase p)) (stage cs ts T Q) (since T (ended cs ts))"
    by (auto simp: assms(5) split: sum.split stop.split
        intro!: leads_left leads_rejected interrupted_phase_not_complete)
qed

lemma reserve_leads:
  "leads (since T (\<lambda>evs r. standing cs ts 0 evs r \<and> (\<forall>c \<in> L. SvLease (ts_source c) \<in> set evs))) (reserve_all xs)
     (stage cs ts T (\<lambda>evs r. standing cs ts 0 evs r \<and> (\<forall>c \<in> L \<union> snd ` set xs. SvLease (ts_source c) \<in> set evs)))
     (since T (ended cs ts))"
proof (induction xs arbitrary: L)
  case Nil
  show ?case by (auto simp: stage_def intro!: leads_return)
next
  case (Cons x xs)
  obtain i c where x: "x = (i, c)" by (cases x)
  have all: "L \<union> snd ` set (x # xs) = insert c L \<union> snd ` set xs" by (simp add: x)
  show ?case unfolding all unfolding x reserve_all.simps
    by (rule leads_stage_step [OF adds_reserve _ _ _ Cons.IH [of "insert c L"]])
      (auto intro!: standing_append)
qed

lemma leads_target:
  assumes "\<And>evs r. H evs r \<Longrightarrow> \<exists>k. standing cs ts k evs r" "i < length ts" "leads (since T H) (f (ts ! i)) Q R"
  shows "leads (since T H) (bnd (member_target i) f) Q R"
proof (rule leadsI)
  fix s assume s: "since T H s"
  then have "fm_target (gr_members (gs_report s) ! i) = ts ! i"
    using assms(1,2) by (fastforce simp: since_def standing_def members_backed_def backed_def)
  then have "bnd (member_target i) f s = f (ts ! i) s" by (simp add: member_target_def bnd_def get_def)
  then show "case bnd (member_target i) f s of (Returned x, t) \<Rightarrow> Q x t | (_, t) \<Rightarrow> R t"
    using assms(3) s by (simp add: leads_def)
qed

lemma preflight_leads:
  assumes "\<And>i c. (i, c) \<in> set xs \<Longrightarrow> i < length ts \<and> c = cs ! i"
  shows "leads (since T (\<lambda>evs r. standing cs ts 0 evs r \<and> (\<forall>c \<in> L. SvLease (ts_source c) \<in> set evs)
        \<and> (\<forall>i \<in> I. cleared (ts_source (cs ! i)) (ts ! i) (set evs)))) (preflight_all xs)
     (stage cs ts T (\<lambda>evs r. standing cs ts 0 evs r \<and> (\<forall>c \<in> L. SvLease (ts_source c) \<in> set evs)
        \<and> (\<forall>i \<in> I \<union> fst ` set xs. cleared (ts_source (cs ! i)) (ts ! i) (set evs))))
     (since T (ended cs ts))"
  using assms
proof (induction xs arbitrary: I)
  case Nil
  show ?case by (auto simp: stage_def intro!: leads_return)
next
  case (Cons x xs)
  obtain i c where x: "x = (i, c)" by (cases x)
  then have i: "i < length ts" "c = cs ! i" using Cons.prems by auto
  have all: "I \<union> fst ` set (x # xs) = insert i I \<union> fst ` set xs" by (simp add: x)
  have IH: "leads (since T (\<lambda>evs r. standing cs ts 0 evs r \<and> (\<forall>c \<in> L. SvLease (ts_source c) \<in> set evs)
        \<and> (\<forall>i \<in> insert i I. cleared (ts_source (cs ! i)) (ts ! i) (set evs)))) (preflight_all xs)
     (stage cs ts T (\<lambda>evs r. standing cs ts 0 evs r \<and> (\<forall>c \<in> L. SvLease (ts_source c) \<in> set evs)
        \<and> (\<forall>i \<in> insert i I \<union> fst ` set xs. cleared (ts_source (cs ! i)) (ts ! i) (set evs))))
     (since T (ended cs ts))"
    using Cons.prems by (intro Cons.IH) auto
  show ?case unfolding all unfolding x preflight_all.simps
    by (rule leads_target [OF _ i(1) leads_stage_step [OF adds_preflight _ _ _ IH]])
      (auto simp: i(2) only_reads_def intro!: standing_reads elim: cleared_mono)
qed

lemma history_write:
  assumes "history cs ts k (e @ rs)" "prepared_before_writes cs ts (e @ rs)" "only_reads (ts_source (cs ! k)) rs"
    "cleared (ts_source (cs ! k)) (ts ! k) (set rs)" "k < length cs" "length ts = length cs"
  shows "history cs ts (Suc k) (e @ rs @ [SvWrite (ts_source (cs ! k)) ''move'' [(''Position'', JInt (ts ! k))] w])"
proof -
  have "take (Suc k) (moves_of cs ts) = take k (moves_of cs ts) @ [(ts_source (cs ! k), ''move'', [(''Position'', JInt (ts ! k))])]"
    using assms(5,6) by (simp add: take_Suc_conv_app_nth moves_of_def)
  then show ?thesis
    using assms(1-4) moves_checked_write [of e rs] prepared_append [of cs ts "e @ rs"]
    by (simp add: history_def)
qed

lemma leads_failed:
  "leads (since T (\<lambda>evs r. \<exists>k. standing cs ts k evs r)) (bnd (dispatch_failed i e) (\<lambda>_. bnd emit_report (\<lambda>_. ret True)))
     (stage cs ts T (\<lambda>evs r. \<exists>k. standing cs ts k evs r)) (since T (ended cs ts))"
proof -
  let ?S = "\<lambda>evs r. \<exists>k. standing cs ts k evs r"
  have edit: "leads (since T ?S) (dispatch_failed i e) (\<lambda>_. since T ?S) (since T (ended cs ts))"
    unfolding dispatch_failed_def by (rule leads_edit_standing) (simp add: backed_def)
  have emit: "leads (since T ?S) emit_report (\<lambda>_. since T ?S) (since T (ended cs ts))"
    by (rule leads_emit) simp
  show ?thesis by (rule leads_bnd [OF edit leads_bnd [OF emit leads_return]]) (simp add: stage_def)
qed

text \<open>The dispatch of member \<open>k\<close>, once it is cleared and not interrupted.\<close>

lemma dispatch_one_leads:
  assumes k: "k < length cs" "length ts = length cs"
    and rest: "leads (since T (\<lambda>evs r. standing cs ts (Suc k) evs r \<and> prepared_before_writes cs ts evs)) rest
      (stage cs ts T (\<lambda>evs r. \<exists>k. standing cs ts k evs r)) (since T (ended cs ts))"
  shows "leads (since T (\<lambda>evs r. \<exists>e rs. evs = e @ rs \<and> standing cs ts k evs r \<and> prepared_before_writes cs ts evs
        \<and> only_reads (ts_source (cs ! k)) rs \<and> cleared (ts_source (cs ! k)) (ts ! k) (set rs)))
     (bnd (outcome_of (motion_dispatch (cs ! k) (ts ! k))) (\<lambda>r. case r of
         Inr _ \<Rightarrow> bnd (edit_member k (\<lambda>m. m\<lparr>fm_phase := FmMoving\<rparr>)) (\<lambda>_. bnd emit_report (\<lambda>_. rest))
       | Inl (Refused e) \<Rightarrow> bnd (dispatch_failed k e) (\<lambda>_. bnd emit_report (\<lambda>_. ret True))
       | Inl (Stopped p) \<Rightarrow> leave (interrupted_phase p)))
     (stage cs ts T (\<lambda>evs r. \<exists>k. standing cs ts k evs r)) (since T (ended cs ts))"
    (is "leads (since T ?H) _ (stage cs ts T ?S) (since T ?E)")
proof -
  let ?c = "cs ! k" and ?t = "ts ! k"
  let ?N = "\<lambda>evs r. standing cs ts (Suc k) evs r \<and> prepared_before_writes cs ts evs"
  let ?A = "\<lambda>evs r. ?N evs r \<and> acknowledged ?c ?t evs"
  have written: "standing cs ts (Suc k) (evs @ [SvWrite (ts_source ?c) ''move'' [(''Position'', JInt ?t)] w]) r
      \<and> prepared_before_writes cs ts (evs @ [SvWrite (ts_source ?c) ''move'' [(''Position'', JInt ?t)] w])"
    if "?H evs r" for evs r w
  proof -
    have "history cs ts (Suc k) (evs @ [SvWrite (ts_source ?c) ''move'' [(''Position'', JInt ?t)] w])"
      using that history_write [OF _ _ _ _ k] by (fastforce simp: standing_def)
    then show ?thesis using that by (auto simp only: standing_def members_backed_append prepared_append)
  qed
  have sent: "leads (since T ?H) (outcome_of (motion_dispatch ?c ?t))
      (\<lambda>r. since T (case r of Inr _ \<Rightarrow> ?A | Inl _ \<Rightarrow> ?S)) (since T ?E)"
  proof (rule leads_weaken [OF leads_outcome [OF leads_adds [OF adds_dispatch, where Q = "\<lambda>_. ?A" and R = ?S]]])
    show "\<And>x s. (case x of Inr y \<Rightarrow> since T ?A s | Inl _ \<Rightarrow> since T ?S s) \<Longrightarrow> since T (case x of Inr _ \<Rightarrow> ?A | Inl _ \<Rightarrow> ?S) s"
      by (auto split: sum.splits)
    show "\<And>s. since T ?S s \<Longrightarrow> since T ?E s" by (auto simp: since_def intro: standing_ended)
    show "?S (evs @ new) r" if "?H evs r"
      "new = [] \<or> (\<exists>w. new = [SvWrite (ts_source ?c) ''move'' [(''Position'', JInt ?t)] w])" for evs r new
      using that(2)
    proof
      assume "new = []"
      then show ?thesis using that(1) by auto
    next
      assume "\<exists>w. new = [SvWrite (ts_source ?c) ''move'' [(''Position'', JInt ?t)] w]"
      then show ?thesis using written [OF that(1)] by blast
    qed
  qed (simp_all only: written set_append list.set Un_iff insert_iff simp_thms)
  have moving: "leads (since T ?A) (edit_member k (\<lambda>m. m\<lparr>fm_phase := FmMoving\<rparr>)) (\<lambda>_. since T ?N) (since T ?E)"
    by (rule leads_edit) (auto intro!: standing_edit simp: backed_def)
  have emit: "leads (since T ?N) emit_report (\<lambda>_. since T ?N) (since T ?E)"
    by (rule leads_emit) simp
  have on: "leads (since T ?A) (bnd (edit_member k (\<lambda>m. m\<lparr>fm_phase := FmMoving\<rparr>)) (\<lambda>_. bnd emit_report (\<lambda>_. rest)))
      (stage cs ts T ?S) (since T ?E)"
    by (rule leads_bnd [OF moving leads_bnd [OF emit rest]])
  have refused: "leads (since T ?S) (case e of
      Refused e \<Rightarrow> bnd (dispatch_failed k e) (\<lambda>_. bnd emit_report (\<lambda>_. ret True))
    | Stopped p \<Rightarrow> leave (interrupted_phase p)) (stage cs ts T ?S) (since T ?E)" for e
    by (cases e) (auto intro!: leads_failed leads_left interrupted_phase_not_complete)
  show ?thesis
    by (rule leads_bnd [OF sent], rule leads_case [where P = "\<lambda>r. since T (case r of Inr _ \<Rightarrow> ?A | Inl _ \<Rightarrow> ?S)"], unfold sum.case)
      (rule refused, rule on)
qed

lemma dispatch_leads:
  assumes "xs = drop k (enumerate 0 cs)" and n: "length ts = length cs"
  shows "leads (since T (\<lambda>evs r. standing cs ts k evs r \<and> prepared_before_writes cs ts evs)) (dispatch_all xs)
     (stage cs ts T (\<lambda>evs r. \<exists>k. standing cs ts k evs r)) (since T (ended cs ts))"
  using assms(1)
proof (induction xs arbitrary: k)
  case Nil
  show ?case by (auto simp: stage_def since_def intro!: leads_return)
next
  case (Cons x xs)
  have k: "k < length cs" using Cons.prems by (metis drop_all length_enumerate not_le neq_Nil_conv)
  have x: "x = (k, cs ! k)" and xs: "xs = drop (Suc k) (enumerate 0 cs)"
    using Cons.prems k by (simp_all add: Cons_nth_drop_Suc [symmetric] nth_enumerate_eq)
  let ?S = "\<lambda>evs r. \<exists>k. standing cs ts k evs r"
  let ?H = "\<lambda>evs r. standing cs ts k evs r \<and> prepared_before_writes cs ts evs"
  let ?C = "\<lambda>evs r. \<exists>e rs. evs = e @ rs \<and> standing cs ts k evs r \<and> prepared_before_writes cs ts evs
        \<and> only_reads (ts_source (cs ! k)) rs \<and> cleared (ts_source (cs ! k)) (ts ! k) (set rs)"
  have ready: "leads (since T ?H) (interruptible (motion_preflight (cs ! k) (ts ! k)))
      (\<lambda>r. since T (case r of Inr _ \<Rightarrow> ?C | Inl _ \<Rightarrow> ?S)) (since T (ended cs ts))"
    by (rule leads_adds [OF adds_interruptible [OF adds_preflight]])
      (auto simp: only_reads_Nil split: sum.splits intro: prepared_append standing_reads standing_ended)
  have go: "leads (since T ?C) (interrupted :: interruption option grouping) (\<lambda>_. since T ?C) (since T (ended cs ts))"
    by (rule leads_adds [OF adds_interrupted]) auto
  note one = dispatch_one_leads [OF k n Cons.IH]
  have stop: "leads (since T ?S) (bnd (reject_member k e) (\<lambda>_. ret True)) (stage cs ts T ?S) (since T (ended cs ts))" for e
    unfolding reject_member_def
    by (rule leads_bnd [OF leads_edit_standing leads_return]) (auto simp: backed_def stage_def)
  have left: "leads (since T ?C) (leave (interrupted_phase p)) (stage cs ts T ?S) (since T (ended cs ts))" for p
    by (rule leads_left) (auto intro: interrupted_phase_not_complete)
  show ?case unfolding x dispatch_all.simps
  proof (rule leads_target)
    show "leads (since T ?H) (bnd (interruptible (motion_preflight (cs ! k) (ts ! k))) (\<lambda>r. case r of
       Inl (Stopped p) \<Rightarrow> leave (interrupted_phase p)
     | Inl (Refused e) \<Rightarrow> bnd (reject_member k e) (\<lambda>_. ret True)
     | Inr _ \<Rightarrow> bnd interrupted (\<lambda>stop. case stop of
           Some p \<Rightarrow> leave (interrupted_phase p)
         | None \<Rightarrow> bnd (outcome_of (motion_dispatch (cs ! k) (ts ! k))) (\<lambda>r. case r of
               Inr _ \<Rightarrow> bnd (edit_member k (\<lambda>m. m\<lparr>fm_phase := FmMoving\<rparr>)) (\<lambda>_. bnd emit_report (\<lambda>_. dispatch_all xs))
             | Inl (Refused e) \<Rightarrow> bnd (dispatch_failed k e) (\<lambda>_. bnd emit_report (\<lambda>_. ret True))
             | Inl (Stopped p) \<Rightarrow> leave (interrupted_phase p)))))
       (stage cs ts T ?S) (since T (ended cs ts))"
      by (rule leads_bnd [OF ready])
        (auto split: sum.split stop.split option.split
           intro!: leads_bnd [OF go] one xs stop left leads_left interrupted_phase_not_complete)
  qed (use k n in auto)
qed

text \<open>Observation: whoever is observed was moving, and its entry follows what was read.\<close>

definition watching :: "typed_session list \<Rightarrow> int list \<Rightarrow> nat list \<Rightarrow> source_event list \<Rightarrow> focuser_group_result \<Rightarrow> bool" where
  "watching cs ts pend evs r \<longleftrightarrow> (\<exists>k. standing cs ts k evs r)
     \<and> (\<forall>i \<in> set pend. i < length ts \<and> fm_phase (gr_members r ! i) = FmMoving)"

lemma note_observation_backed:
  "backed c t evs m \<Longrightarrow> fm_phase m = FmMoving \<Longrightarrow> backed c t evs (note_observation r m)"
  by (auto simp: backed_def note_observation_def Let_def split: sum.split)

lemma adds_observe_next:
  assumes "pend \<noteq> []"
  shows "adds (observe_next cs pend) (\<lambda>(i, _) new. i \<in> set pend \<and> (\<exists>c. only_reads c new)) (\<lambda>new. \<exists>c. only_reads c new)"
  unfolding adds_def
proof (intro allI)
  fix T :: "source_event list" and r
  let ?P = "\<lambda>s. hb_trace s = T \<and> gs_report s = r"
  let ?O = "\<lambda>s. gs_report s = r \<and> (\<exists>new. (\<exists>c. only_reads c new) \<and> hb_trace s = T @ new)"
  have wait: "leads ?P await (\<lambda>_. ?P) ?O" by (rule leads_await) (auto intro: only_reads_Nil)
  have pick: "leads ?P (get (\<lambda>s. pend ! (he_next (hb_env s) n mod length pend))) (\<lambda>i s. i \<in> set pend \<and> ?P s) ?O" for n
    using assms by (simp add: leads_def get_def)
  have seen: "leads ?P (observe_member (cs ! i)) (\<lambda>_. ?O) ?O" for i
    using adds_observe [of "cs ! i", unfolded adds_def, rule_format, of T r] by (rule leads_weaken) auto
  show "leads ?P (observe_next cs pend)
      (\<lambda>x s. gs_report s = r \<and> (\<exists>new. (case x of (i, _) \<Rightarrow> \<lambda>new. i \<in> set pend \<and> (\<exists>c. only_reads c new)) new \<and> hb_trace s = T @ new)) ?O"
    unfolding observe_next_def
    by (rule leads_bnd [OF wait leads_bnd [OF pick leads_when [OF leads_bnd [OF seen leads_return]]]]) auto
qed

lemma watching_reads: "watching cs ts pend evs r \<Longrightarrow> only_reads c new \<Longrightarrow> watching cs ts pend (evs @ new) r"
  by (auto simp: watching_def intro: standing_reads)

lemma leads_noted:
  assumes "i \<in> set pend"
  shows "leads (since T (watching cs ts pend))
     (bnd (edit_member i (note_observation r)) (\<lambda>_.
      bnd (get (\<lambda>s. fm_phase (gr_members (gs_report s) ! i) = FmMoving)) (\<lambda>moving.
      bnd emit_report (\<lambda>_.
      ret (Inl (if moving then removeAll i pend @ [i] else removeAll i pend))))))
     (\<lambda>r s. case r of Inl pend' \<Rightarrow> since T (watching cs ts pend') s | Inr (ok :: bool) \<Rightarrow> stage cs ts T S ok s) R"
proof -
  let ?E = "\<lambda>evs r. watching cs ts (removeAll i pend) evs r \<and> i < length ts"
  have edit: "leads (since T (watching cs ts pend)) (edit_member i (note_observation r)) (\<lambda>_. since T ?E) R"
  proof (rule leads_edit)
    fix evs q assume w: "watching cs ts pend evs q"
    then obtain k where k: "standing cs ts k evs q" by (auto simp: watching_def)
    have "standing cs ts k evs (q\<lparr>gr_members := (gr_members q)[i := note_observation r (gr_members q ! i)]\<rparr>)"
      by (rule standing_edit [OF k]) (use w assms in \<open>auto simp: watching_def intro: note_observation_backed\<close>)
    then show "?E evs (q\<lparr>gr_members := (gr_members q)[i := note_observation r (gr_members q ! i)]\<rparr>)"
      using w assms by (auto simp: watching_def)
  qed
  have look: "leads (since T ?E) (get (\<lambda>s. fm_phase (gr_members (gs_report s) ! i) = FmMoving))
      (\<lambda>moving. since T (\<lambda>evs q. ?E evs q \<and> moving = (fm_phase (gr_members q ! i) = FmMoving))) R"
    by (simp add: leads_def get_def since_def)
  have emit: "leads (since T (\<lambda>evs q. ?E evs q \<and> moving = (fm_phase (gr_members q ! i) = FmMoving))) emit_report
      (\<lambda>_. since T (watching cs ts (if moving then removeAll i pend @ [i] else removeAll i pend))) R" for moving
    by (rule leads_emit) (auto simp: watching_def)
  show ?thesis by (rule leads_bnd [OF edit leads_bnd [OF look leads_bnd [OF emit leads_return]]]) simp
qed

lemma observe_round_leads:
  "leads (since T (watching cs ts pend)) (observe_round cs pend)
     (\<lambda>r s. case r of Inl pend' \<Rightarrow> since T (watching cs ts pend') s
        | Inr ok \<Rightarrow> stage cs ts T (\<lambda>evs r. \<exists>k. standing cs ts k evs r) ok s) (since T (ended cs ts))"
    (is "leads _ _ ?Q ?R")
proof (cases "pend = []")
  case True
  then show ?thesis by (auto simp: observe_round_def stage_def since_def watching_def intro!: leads_return)
next
  case False
  let ?S = "\<lambda>evs r. \<exists>k. standing cs ts k evs r"
  let ?I = "\<lambda>x. since T (\<lambda>evs r. watching cs ts pend evs r \<and> (case x of Inr (i, _) \<Rightarrow> i \<in> set pend | Inl _ \<Rightarrow> True))"
  have seen: "leads (since T (watching cs ts pend)) (interruptible (observe_next cs pend)) ?I ?R"
    by (rule leads_adds [OF adds_interruptible [OF adds_observe_next [OF False]]])
      (auto split: sum.splits intro: watching_reads only_reads_Nil,
       meson watching_def standing_ended watching_reads)
  have over: "leads (since T ?S) (bnd (leave (interrupted_phase p)) (\<lambda>over. ret (Inr over))) ?Q ?R" for p
    by (rule leads_bnd [OF leads_left [where cs = cs and ts = ts and Q = ?S] leads_return]) auto
  have all: "leads (?I next) (case next of
      Inl (Stopped p) \<Rightarrow> bnd (leave (interrupted_phase p)) (\<lambda>over. ret (Inr over))
    | Inl (Refused _) \<Rightarrow> ret (Inr True)
    | Inr (i, r) \<Rightarrow>
        bnd (edit_member i (note_observation r)) (\<lambda>_.
        bnd (get (\<lambda>s. fm_phase (gr_members (gs_report s) ! i) = FmMoving)) (\<lambda>moving.
        bnd emit_report (\<lambda>_.
        ret (Inl (if moving then removeAll i pend @ [i] else removeAll i pend)))))) ?Q ?R" for "next"
  proof (cases "next")
    case (Inl e)
    have "leads (since T ?S) (case e of Stopped p \<Rightarrow> bnd (leave (interrupted_phase p)) (\<lambda>over. ret (Inr over))
        | Refused _ \<Rightarrow> ret (Inr True)) ?Q ?R"
      by (cases e) (auto simp: stage_def intro: over leads_return)
    then show ?thesis unfolding Inl sum.case by (rule leads_weaken) (auto simp: since_def watching_def)
  next
    case (Inr x)
    obtain i r where x: "x = (i, r)" by (cases x)
    show ?thesis
    proof (cases "i \<in> set pend")
      case True
      show ?thesis unfolding Inr x sum.case prod.case
        by (rule leads_weaken [OF leads_noted [OF True, where S = ?S]]) (auto simp: since_def)
    qed (simp add: Inr x since_def leads_def)
  qed
  show ?thesis using False unfolding observe_round_def by (simp only: if_False) (rule leads_bnd [OF seen all])
qed

lemma observe_all_leads:
  "leads (since T (\<lambda>evs r. \<exists>k. standing cs ts k evs r)) (observe_all cs)
     (stage cs ts T (\<lambda>evs r. \<exists>k. standing cs ts k evs r)) (since T (ended cs ts))"
proof -
  let ?S = "\<lambda>evs r. \<exists>k. standing cs ts k evs r"
  have pick: "leads (since T ?S) (get (\<lambda>s. filter (\<lambda>i. fm_phase (gr_members (gs_report s) ! i) = FmMoving)
       [0..<length (gr_members (gs_report s))])) (\<lambda>pend. since T (watching cs ts pend)) (since T (ended cs ts))"
    by (fastforce simp: leads_def get_def since_def watching_def standing_def members_backed_def)
  have loop: "leads (since T (watching cs ts pend)) (iterate n (observe_round cs) pend) (stage cs ts T ?S) (since T (ended cs ts))"
    for n pend
    by (rule leads_iterate [OF observe_round_leads]) (auto simp: since_def watching_def intro: standing_ended)
  show ?thesis unfolding observe_all_def by (rule leads_bnd [OF pick leads_bnd [OF leads_read loop]])
qed

lemma conclude_leads:
  "leads (since T (\<lambda>evs r. \<exists>k. standing cs ts k evs r)) conclude (\<lambda>_. since T (ended cs ts)) (since T (ended cs ts))"
  by (rule leadsI)
    (auto simp: conclude_def bnd_def get_def set_group_phase_def upd_def interrupted_def hub_tick_def ret_def
      emit_report_def since_def standing_def ended_def split: option.split)

lemma group_run_leads:
  assumes "length ts = length cs"
  shows "leads (since T (\<lambda>evs r. evs = [] \<and> standing cs ts 0 evs r)) (group_run cs)
    (\<lambda>_. since T (ended cs ts)) (since T (ended cs ts))"
proof -
  let ?E = "since T (ended cs ts)"
  let ?L = "\<lambda>evs r. standing cs ts 0 evs r \<and> (\<forall>c \<in> set cs. SvLease (ts_source c) \<in> set evs)"
  let ?C = "\<lambda>evs r. ?L evs r \<and> (\<forall>i < length cs. cleared (ts_source (cs ! i)) (ts ! i) (set evs))"
  let ?D = "\<lambda>evs r. standing cs ts 0 evs r \<and> prepared_before_writes cs ts evs"
  let ?S = "\<lambda>evs r. \<exists>k. standing cs ts k evs r"
  have stop: "leads (stage cs ts T H ok) (if \<not> ok then ret () else m) (\<lambda>_. ?E) ?E"
    if "leads (since T H) m (\<lambda>_. ?E) ?E" for H m ok
    using that by (simp add: stage_def leads_return)
  have reserve: "leads (since T (\<lambda>evs r. evs = [] \<and> standing cs ts 0 evs r)) (reserve_all (enumerate 0 cs)) (stage cs ts T ?L) ?E"
    by (rule leads_weaken [OF reserve_leads [where L = "{}" and xs = "enumerate 0 cs", unfolded image_set map_snd_enumerate]])
      (auto simp: since_def stage_def)
  have "(i, c) \<in> set (enumerate 0 cs) \<Longrightarrow> i < length ts \<and> c = cs ! i" for i c
    using assms by (auto simp: in_set_enumerate_eq)
  then have preflight: "leads (since T ?L) (preflight_all (enumerate 0 cs)) (stage cs ts T ?C) ?E"
    by (intro leads_weaken [OF preflight_leads [where L = "set cs" and I = "{}" and xs = "enumerate 0 cs", unfolded image_set map_fst_enumerate]])
      (auto simp: since_def stage_def)
  have "?D evs r" if "?C evs r" for evs r
  proof -
    have "all_clear cs ts evs" using that assms by (auto simp: all_clear_def set_zip)
    moreover have "writes_of evs = []" using that by (simp add: standing_def history_def)
    ultimately have "prepared_before_writes cs ts evs"
      unfolding prepared_before_writes_def by (metis append_Nil2)
    then show ?thesis using that by simp
  qed
  then have moving: "leads (since T ?C) (set_group_phase FgMoving) (\<lambda>_. since T ?D) ?E"
    unfolding set_group_phase_def by (intro leads_modify) (auto simp: since_def)
  have emit: "leads (since T ?D) emit_report (\<lambda>_. since T ?D) ?E" by (rule leads_emit) simp
  have dispatch: "leads (since T ?D) (dispatch_all (enumerate 0 cs)) (stage cs ts T ?S) ?E"
    by (rule dispatch_leads [OF _ assms]) simp
  show ?thesis unfolding group_run_def
    by (rule leads_bnd [OF reserve stop [OF leads_bnd [OF preflight stop [OF leads_bnd [OF moving leads_bnd [OF emit
          leads_bnd [OF dispatch stop [OF leads_bnd [OF observe_all_leads stop [OF conclude_leads]]]]]]]]]])
qed

section \<open>Targets\<close>

text \<open>Rounding to the nearest integer, ties away from zero.\<close>

definition round_away :: "rat \<Rightarrow> int" where
  "round_away x = (if x < 0 then - \<lfloor>1 / 2 - x\<rfloor> else \<lfloor>x + 1 / 2\<rfloor>)"

lemma floor_half:
  fixes n d :: int
  assumes "0 < d" "0 \<le> n"
  shows "\<lfloor>(of_int n / of_int d :: rat) + 1 / 2\<rfloor> = n div d + (if d \<le> n mod d * 2 then 1 else 0)"
proof -
  have "(of_int n / of_int d :: rat) + 1 / 2 = of_int (2 * n + d) / of_int (2 * d)"
    using assms(1) by (simp add: field_simps)
  then have "\<lfloor>(of_int n / of_int d :: rat) + 1 / 2\<rfloor> = (2 * n + d) div (2 * d)"
    by (simp only: floor_divide_of_int_eq)
  also have "\<dots> = (2 * (n mod d) + d + n div d * (2 * d)) div (2 * d)"
  proof -
    have "2 * (q * d + r) + d = 2 * r + d + q * (2 * d)" for q r by (simp add: algebra_simps)
    from this [of "n div d" "n mod d"] show ?thesis by (simp only: div_mult_mod_eq)
  qed
  also have "\<dots> = n div d + (2 * (n mod d) + d) div (2 * d)"
    using assms(1) by (simp add: div_mult_self3)
  also have "(2 * (n mod d) + d) div (2 * d) = (if d \<le> n mod d * 2 then 1 else 0)"
  proof (cases "d \<le> n mod d * 2")
    case True
    then have "(2 * (n mod d) + d) div (2 * d) = 1"
      using assms(1) pos_mod_bound [OF assms(1), of n] by (intro int_div_pos_eq [where r = "2 * (n mod d) - d"]) auto
    then show ?thesis using True by simp
  next
    case False
    then show ?thesis using assms(1) pos_mod_sign [OF assms(1), of n] by (simp add: div_pos_pos_trivial)
  qed
  finally show ?thesis by simp
qed

lemma scaled_rounds:
  fixes n d :: int
  assumes "0 < d"
  shows "(if d \<le> \<bar>n smod d\<bar> * 2 then n sdiv d + sgn n else n sdiv d) = round_away (of_int n / of_int d)"
proof (cases "n < 0")
  case True
  have "(1 / 2 :: rat) - of_int n / of_int d = of_int (- n) / of_int d + 1 / 2" by simp
  then have "round_away (of_int n / of_int d) = - (- n div d + (if d \<le> - n mod d * 2 then 1 else 0))"
    using True assms floor_half [OF assms, of "- n"] by (simp add: round_away_def divide_less_0_iff)
  moreover have "n sdiv d = - (- n div d)" "\<bar>n smod d\<bar> = - n mod d"
    using True assms by (simp_all add: signed_divide_int_def signed_modulo_int_def)
  ultimately show ?thesis using True by simp
next
  case False
  then have "round_away (of_int n / of_int d) = n div d + (if d \<le> n mod d * 2 then 1 else 0)"
    using assms floor_half [OF assms, of n] by (simp add: round_away_def divide_less_0_iff)
  moreover have "n sdiv d = n div d" "\<bar>n smod d\<bar> = n mod d"
    using False assms by (simp_all add: signed_divide_int_def signed_modulo_int_def sgn_if)
  ultimately show ?thesis using False assms by (cases "n = 0") simp_all
qed

text \<open>
  The device target of a calibrated member is the logical target scaled exactly, rounded to the
  nearest step with ties away from zero, and shifted by the offset; it is admitted exactly when the
  calibration is valid and the target lies within the configured travel and in the range of device
  steps.
\<close>

theorem calibration_target_rounds:
  "calibration_target c logical = Inr t \<longleftrightarrow> calibration_validate c = Inr ()
     \<and> t = round_away (of_int (logical * fk_scale_numerator c) / of_int (fk_scale_denominator c)) + fk_offset c
     \<and> fk_minimum c \<le> t \<and> t \<le> fk_maximum c \<and> t < 2 ^ 31"
proof (cases "calibration_validate c")
  case Inl
  then show ?thesis by (simp add: calibration_target_def and_then_def)
next
  case (Inr u)
  then have d: "0 < fk_scale_denominator c" "0 \<le> fk_minimum c"
    by (auto simp: calibration_validate_def ensure_def split: if_splits)
  show ?thesis
    using d(2) Inr scaled_rounds [OF d(1), of "logical * fk_scale_numerator c"]
    by (auto simp: calibration_target_def and_then_def Let_def)
qed

section \<open>What a coordinated move does\<close>

lemma collect_targets_all:
  "collect_targets ms logical = Inr ts \<Longrightarrow> map (\<lambda>m. calibration_target m logical) ms = map Inr ts"
  by (induction ms arbitrary: ts)
    (auto simp: and_then_def split: sum.splits)

lemma group_start_standing:
  assumes "group_start active g cs logical operation = Inr report" "length cs = length (fg_members g)"
  obtains ts where "map (\<lambda>m. calibration_target m logical) (fg_members g) = map Inr ts"
    "length ts = length cs" "standing cs ts 0 [] report"
proof -
  obtain ts where ts: "collect_targets (fg_members g) logical = Inr ts"
    and r: "gr_phase report = FgPreflight"
      "gr_members report = map (\<lambda>(c, t). \<lparr>fm_source = ts_source c, fm_generation = ts_generation c, fm_target = t,
         fm_phase = FmNotStarted, fm_last_position = None, fm_error = None\<rparr>) (zip cs ts)"
    using assms(1) by (auto simp: group_start_def and_then_def ensure_def split: if_splits sum.splits)
  note all = collect_targets_all [OF ts]
  have n: "length ts = length cs" using arg_cong [OF all, of length] assms(2) by simp
  have "standing cs ts 0 [] report"
    by (simp add: standing_def history_def moves_checked_Nil members_backed_def backed_def r n)
  then show thesis using that all n by blast
qed

lemma group_run_ended:
  assumes "group_start active g cs logical operation = Inr (gs_report s)" "length cs = length (fg_members g)"
  obtains ts evs where "map (\<lambda>m. calibration_target m logical) (fg_members g) = map Inr ts" "length ts = length cs"
    "hb_trace (snd (group_run cs s)) = hb_trace s @ evs" "ended cs ts evs (gs_report (snd (group_run cs s)))"
proof -
  obtain ts where ts: "map (\<lambda>m. calibration_target m logical) (fg_members g) = map Inr ts" "length ts = length cs"
    "standing cs ts 0 [] (gs_report s)" by (rule group_start_standing [OF assms])
  have "since (hb_trace s) (\<lambda>evs r. evs = [] \<and> standing cs ts 0 evs r) s"
    using ts(3) by (auto simp: since_def)
  from leads_ends [OF group_run_leads [OF ts(2)] this] show thesis
    using that ts by (auto simp: since_def)
qed

text \<open>
  C21: Whatever the sources answer and whenever the operation is cancelled or runs out of time, the
  moves a group sends are a prefix of its members' moves in member order, each to its calibrated
  target. Each follows at once on that member's own reads: present limits that admit the target, and
  not moving. And none is sent before every member has granted its command lease and has cleared its
  move once.
\<close>

theorem group_moves_follow_full_preflight:
  assumes "group_start active g cs logical operation = Inr (gs_report s)" and "length cs = length (fg_members g)"
  shows "\<exists>evs ts. hb_trace (snd (group_run cs s)) = hb_trace s @ evs
     \<and> map (\<lambda>m. calibration_target m logical) (fg_members g) = map Inr ts
     \<and> (\<exists>k. writes_of evs = take k (moves_of cs ts))
     \<and> moves_checked evs
     \<and> (writes_of evs \<noteq> [] \<longrightarrow> prepared_before_writes cs ts evs)"
proof -
  obtain ts evs where run: "map (\<lambda>m. calibration_target m logical) (fg_members g) = map Inr ts"
    "hb_trace (snd (group_run cs s)) = hb_trace s @ evs" "ended cs ts evs (gs_report (snd (group_run cs s)))"
    by (rule group_run_ended [OF assms])
  then obtain k where k: "history cs ts k evs" by (auto simp: ended_def)
  then have "0 < k" if "writes_of evs \<noteq> []" using that by (cases k) (auto simp: history_def)
  then show ?thesis using run(1,2) k by (auto simp: history_def intro!: exI [of _ evs] exI [of _ ts])
qed


section \<open>A move of two focusers\<close>

text \<open>The second member moves against the first, at half the scale, from an offset.\<close>

definition demo_pair :: focuser_group_config where
  "demo_pair = \<lparr>fg_id = 1, fg_label = ''pair'', fg_minimum = 0, fg_maximum = 1000, fg_timeout_seconds = Fin 10,
     fg_poll_seconds = Fin 1, fg_members =
       [\<lparr>fk_source = 4, fk_scale_numerator = 1, fk_scale_denominator = 1, fk_offset = 0, fk_minimum = 0, fk_maximum = 1000\<rparr>,
        \<lparr>fk_source = 5, fk_scale_numerator = - 1, fk_scale_denominator = 2, fk_offset = 500, fk_minimum = 0, fk_maximum = 900\<rparr>]\<rparr>"

definition demo_sessions :: "typed_session list" where
  "demo_sessions = [\<lparr>ts_source = 4, ts_generation = 8\<rparr>, \<lparr>ts_source = 5, ts_generation = 9\<rparr>]"

definition demo_focuser :: "nat \<Rightarrow> nat \<Rightarrow> string \<Rightarrow> source_error + json" where
  "demo_focuser n c member = Inr
     (if member = ''absolute'' then JBool True
      else if member \<in> {''tempcompavailable'', ''ismoving''} then JBool False
      else if member = ''position'' then JInt (if n < 50 then 0 else if c = 4 then 101 else 449)
      else JInt 1000)"

definition demo_pair_start :: group_state where
  "demo_pair_start =
     (let report = (case group_start False demo_pair demo_sessions 101 7 of Inr r \<Rightarrow> r)
      in \<lparr>hb_env = \<lparr>he_now = (\<lambda>n. n), he_cancelled = (\<lambda>_. False),
             he_view = (\<lambda>_ c. \<lparr>sv_generation = c + 4, sv_connected = True, sv_write_uncertain = False\<rparr>),
             he_lease = (\<lambda>_ _. None), he_read = demo_focuser, he_write = (\<lambda>_ _. None), he_next = (\<lambda>n. n),
             he_loop_bound = 9\<rparr>,
           hb_tick = 0, hb_trace = [], hb_watched = False, hb_deadline = 1000,
           gs_report = report, gs_published = [report]\<rparr>)"

lemma demo_pair_admitted:
  "group_start False demo_pair demo_sessions 101 7 = Inr (gs_report demo_pair_start)"
  "length demo_sessions = length (fg_members demo_pair)"
  by code_simp+

lemma demo_pair_arrives: "gr_phase (gs_report (snd (group_run demo_sessions demo_pair_start))) = FgComplete"
  by code_simp

theorem group_moves_follow_full_preflight_witness:
  "group_start False demo_pair demo_sessions 101 7 = Inr (gs_report demo_pair_start)
   \<and> (\<exists>evs ts. hb_trace (snd (group_run demo_sessions demo_pair_start)) = hb_trace demo_pair_start @ evs
     \<and> map (\<lambda>m. calibration_target m 101) (fg_members demo_pair) = map Inr ts
     \<and> (\<exists>k. writes_of evs = take k (moves_of demo_sessions ts))
     \<and> moves_checked evs
     \<and> (writes_of evs \<noteq> [] \<longrightarrow> prepared_before_writes demo_sessions ts evs))"
  by (rule conjI [OF demo_pair_admitted(1) group_moves_follow_full_preflight [OF demo_pair_admitted]])


end
