(* ===== verification/Sampling.thy ===== *)
theory Sampling imports Source_Session Double "HOL-Library.Char_ord" begin

text \<open>
  Sampling of device sources: the budget and the batches of \<open>crates/regain-hub/src/source.rs\<close> with the
  check of a batch against the cache, and the incremental property polls of
  \<open>crates/regain-hub/src/sampling.rs\<close>. Strings are sequences of bytes, so \<open>length\<close> is Rust's \<open>len()\<close>.
\<close>

type_synonym sample_values = "(string, json) btree"

section \<open>Budgets and batches\<close>

definition max_sample_keys :: nat where "max_sample_keys = 1024"
definition max_sample_text_bytes :: nat where "max_sample_text_bytes = 1024 * 1024"
definition max_sample_array_length :: nat where "max_sample_array_length = 1024"
definition max_sample_array_items :: nat where "max_sample_array_items = 4096"

record sample_budget =
  sb_text_bytes :: nat
  sb_array_items :: nat

definition budget_default :: sample_budget where
  "budget_default = \<lparr>sb_text_bytes = 0, sb_array_items = 0\<rparr>"

definition admit_scalar :: "json \<Rightarrow> sample_budget \<Rightarrow> bool \<times> sample_budget" where
  "admit_scalar v b = (case v of
       JStr s \<Rightarrow> (let b = b\<lparr>sb_text_bytes := sat_add 64 (sb_text_bytes b) (length s)\<rparr>
                  in (sb_text_bytes b \<le> max_sample_text_bytes, b))
     | JBool _ \<Rightarrow> (sb_text_bytes b \<le> max_sample_text_bytes, b)
     | JInt _ \<Rightarrow> (sb_text_bytes b \<le> max_sample_text_bytes, b)
     | JFloat _ \<Rightarrow> (sb_text_bytes b \<le> max_sample_text_bytes, b)
     | _ \<Rightarrow> (False, b))"

fun admit_scalars :: "json list \<Rightarrow> sample_budget \<Rightarrow> bool \<times> sample_budget" where
  "admit_scalars [] b = (True, b)"
| "admit_scalars (v # vs) b =
     (let (ok, b) = admit_scalar v b in if ok then admit_scalars vs b else (False, b))"

definition budget_admit :: "json \<Rightarrow> sample_budget \<Rightarrow> bool \<times> sample_budget" where
  "budget_admit v b = (case v of
       JArr vs \<Rightarrow>
         (let b = b\<lparr>sb_array_items := sat_add 64 (sb_array_items b) (length vs)\<rparr>
          in if max_sample_array_length < length vs \<or> max_sample_array_items < sb_array_items b then (False, b)
             else admit_scalars vs b)
     | _ \<Rightarrow> admit_scalars [v] b)"

fun admit_all :: "json list \<Rightarrow> sample_budget \<Rightarrow> bool" where
  "admit_all [] b = True"
| "admit_all (v # vs) b = (let (ok, b) = budget_admit v b in ok \<and> admit_all vs b)"

record sample_batch =
  ba_values :: sample_values
  ba_errors :: "(string, source_error) btree"
  ba_ages_seconds :: "(string, f64) btree"
  ba_safety_observed_at :: "nat option"
  ba_partial :: bool
  ba_more :: bool

definition batch_default :: sample_batch where
  "batch_default = \<lparr>ba_values = [], ba_errors = [], ba_ages_seconds = [], ba_safety_observed_at = None,
     ba_partial = False, ba_more = False\<rparr>"

definition batch_from :: "sample_values \<Rightarrow> sample_batch" where
  "batch_from vs = batch_default\<lparr>ba_values := vs\<rparr>"

section \<open>Incremental polling\<close>

datatype sample_type = StBoolean | StNumber | StText | StStrings | StInt32s

record sample_request =
  sr_key :: string
  sr_member :: string
  sr_parameters :: sample_values
  sr_value_type :: sample_type
  sr_sensor_age :: "string option"

datatype readout = RoChannel nat nat "string option" | RoProperty nat string "string option"

definition show_channel :: "nat \<Rightarrow> string" where
  "show_channel n = ''channel/'' @ show_int (int n)"

definition sample_key :: "readout \<Rightarrow> string" where
  "sample_key r = (case r of RoProperty _ property _ \<Rightarrow> property | RoChannel _ channel _ \<Rightarrow> show_channel channel)"

definition sample_safety :: sample_request where
  "sample_safety = \<lparr>sr_key = ''issafe'', sr_member = ''issafe'', sr_parameters = [], sr_value_type = StBoolean,
     sr_sensor_age = None\<rparr>"

definition sample_readout :: "readout \<Rightarrow> bool \<Rightarrow> sample_request" where
  "sample_readout r observing_conditions = (case r of
       RoChannel _ channel _ \<Rightarrow> \<lparr>sr_key = sample_key r, sr_member = ''getswitchvalue'',
         sr_parameters = [(''Id'', JInt (int channel))], sr_value_type = StNumber, sr_sensor_age = None\<rparr>
     | RoProperty _ property _ \<Rightarrow> \<lparr>sr_key = sample_key r, sr_member = property, sr_parameters = [],
         sr_value_type = (if property = ''issafe'' then StBoolean else StNumber),
         sr_sensor_age = (if observing_conditions then Some property else None)\<rparr>)"

definition is_i32 :: "json \<Rightarrow> bool" where
  "is_i32 v = some_and (as_i64 v) (\<lambda>i. - (2 ^ 31) \<le> i \<and> i < 2 ^ 31)"

definition valid_value :: "sample_request \<Rightarrow> json \<Rightarrow> bool" where
  "valid_value r v \<longleftrightarrow>
     (case sr_value_type r of
        StBoolean \<Rightarrow> as_bool v \<noteq> None
      | StNumber \<Rightarrow> as_f64 v \<noteq> None
      | StText \<Rightarrow> as_str v \<noteq> None
      | StStrings \<Rightarrow> some_and (as_array v) (list_all (\<lambda>x. as_str x \<noteq> None))
      | StInt32s \<Rightarrow> some_and (as_array v) (list_all is_i32))
     \<and> fst (budget_admit v budget_default)"

definition is_lower_or_digit :: "char \<Rightarrow> bool" where
  "is_lower_or_digit c \<longleftrightarrow> CHR ''a'' \<le> c \<and> c \<le> CHR ''z'' \<or> is_digit c"

definition is_parameter_char :: "char \<Rightarrow> bool" where
  "is_parameter_char c \<longleftrightarrow> is_lower_or_digit c \<or> CHR ''A'' \<le> c \<and> c \<le> CHR ''Z''"

definition valid_member :: "string \<Rightarrow> bool" where
  "valid_member member \<longleftrightarrow> member \<noteq> [] \<and> length member \<le> 64 \<and> list_all is_lower_or_digit member"

definition valid_parameter :: "string \<times> json \<Rightarrow> bool" where
  "valid_parameter kv \<longleftrightarrow> fst kv \<noteq> [] \<and> length (fst kv) \<le> 64 \<and> list_all is_parameter_char (fst kv)
     \<and> (as_bool (snd kv) \<noteq> None \<or> is_number (snd kv) \<or> some_and (as_str (snd kv)) (\<lambda>s. length s \<le> 8192))"

definition valid_sample :: "sample_request \<Rightarrow> bool" where
  "valid_sample s \<longleftrightarrow> sr_key s \<noteq> [] \<and> length (sr_key s) \<le> 200 \<and> valid_member (sr_member s)
     \<and> none_or (sr_sensor_age s) valid_member
     \<and> length (sr_parameters s) \<le> 32 \<and> list_all valid_parameter (sr_parameters s)"

record property_poll =
  pp_samples :: "sample_request list"
  pp_cursor :: nat
  pp_pending_age :: "(rat \<times> nat) option"
  pp_failures :: nat
  pp_attempts :: nat
  pp_safety :: bool

definition property_poll_new :: "bool \<Rightarrow> sample_request list \<Rightarrow> nat \<Rightarrow> source_error + property_poll" where
  "property_poll_new safety samples attempts =
     and_then (ensure (\<not> (max_sample_keys < length samples \<or> attempts = 0 \<or> safety \<and> samples \<noteq> [sample_safety]))
       (source_error_new KInvalidValue ''Invalid property sample plan'')) (\<lambda>_.
     and_then (ensure (list_all valid_sample samples \<and> distinct (map sr_key samples))
       (source_error_new KInvalidValue ''Invalid property sample plan'')) (\<lambda>_.
     Inr \<lparr>pp_samples = samples, pp_cursor = 0, pp_pending_age = None, pp_failures = 0, pp_attempts = attempts,
       pp_safety = safety\<rparr>))"

text \<open>\<open>WeatherMetric::sensor_name\<close> of \<open>weather.rs\<close>.\<close>

definition state_names :: "(string \<times> string) list" where
  "state_names =
     [(''cloudcover'', ''CloudCover''), (''dewpoint'', ''DewPoint''), (''humidity'', ''Humidity''),
      (''pressure'', ''Pressure''), (''rainrate'', ''RainRate''), (''skybrightness'', ''SkyBrightness''),
      (''skyquality'', ''SkyQuality''), (''skytemperature'', ''SkyTemperature''), (''starfwhm'', ''StarFWHM''),
      (''temperature'', ''Temperature''), (''winddirection'', ''WindDirection''), (''windgust'', ''WindGust''),
      (''windspeed'', ''WindSpeed'')]"

definition ascii_lower :: "char \<Rightarrow> char" where
  "ascii_lower c = (if CHR ''A'' \<le> c \<and> c \<le> CHR ''Z'' then char_of ((of_char c :: nat) + 32) else c)"

definition sensor_name :: "string \<Rightarrow> string" where
  "sensor_name property = (case map_of state_names (map ascii_lower property) of
       Some name \<Rightarrow> name | None \<Rightarrow> property)"

record prepared_sample =
  ps_member :: string
  ps_parameters :: sample_values
  ps_sample :: sample_request
  ps_needs_age :: bool
  ps_age :: rat
  ps_began :: nat

definition poll_prepare :: "nat \<Rightarrow> property_poll \<Rightarrow> prepared_sample option" where
  "poll_prepare now p =
     (if length (pp_samples p) \<le> pp_cursor p then None
      else
        let sample = pp_samples p ! pp_cursor p;
            needs_age = (sr_sensor_age sample \<noteq> None \<and> pp_pending_age p = None);
            age = (case pp_pending_age p of None \<Rightarrow> 0 | Some (age, since) \<Rightarrow> fadd age (as_secs_f64 (now - since)))
        in Some \<lparr>ps_member = (if needs_age then ''timesincelastupdate'' else sr_member sample),
             ps_parameters =
               (if needs_age
                then [(''SensorName'', case sr_sensor_age sample of Some s \<Rightarrow> JStr (sensor_name s) | None \<Rightarrow> JNull)]
                else sr_parameters sample),
             ps_sample = sample, ps_needs_age = needs_age, ps_age = age, ps_began = now\<rparr>)"

definition poll_advance :: "sample_batch \<Rightarrow> property_poll \<Rightarrow> (source_error + sample_batch) \<times> property_poll" where
  "poll_advance batch p =
     (let p = p\<lparr>pp_failures := 0, pp_pending_age := None, pp_cursor := (pp_cursor p + 1) mod length (pp_samples p)\<rparr>
      in (Inr (batch\<lparr>ba_more := pp_cursor p \<noteq> 0\<rparr>), p))"

definition is_transient :: "source_error \<Rightarrow> bool" where
  "is_transient e \<longleftrightarrow> so_kind e \<in> {KTransient, KDisconnected}"

definition poll_finish :: "prepared_sample \<Rightarrow> source_error + json \<Rightarrow> source_error \<Rightarrow> property_poll
    \<Rightarrow> (source_error + sample_batch) \<times> property_poll" where
  "poll_finish prepared result bad_value p =
     (let batch = batch_default\<lparr>ba_partial := \<not> pp_safety p\<rparr>;
          sample = ps_sample prepared; key = sr_key sample
      in case result of
           Inr v \<Rightarrow>
             if ps_needs_age prepared then
               (case as_f64 v of
                  Some age \<Rightarrow>
                    if 0 \<le> age
                    then (Inr (batch\<lparr>ba_more := True\<rparr>),
                          p\<lparr>pp_failures := 0, pp_pending_age := Some (age, ps_began prepared)\<rparr>)
                    else poll_advance (batch\<lparr>ba_errors := [(key, unavailable ''Sensor has no valid update time'')]\<rparr>) p
                | None \<Rightarrow> poll_advance (batch\<lparr>ba_errors := [(key, unavailable ''Sensor has no valid update time'')]\<rparr>) p)
             else if valid_value sample v then
               poll_advance (batch\<lparr>ba_ages_seconds := [(key, Fin (ps_age prepared))], ba_values := [(key, v)]\<rparr>) p
             else if pp_safety p then (Inl bad_value, p)
             else poll_advance (batch\<lparr>ba_errors := [(key, bad_value)]\<rparr>) p
         | Inl e \<Rightarrow>
             if pp_safety p \<or> so_transport_lost e then (Inl e, p)
             else if is_transient e then
               (let p = p\<lparr>pp_failures := pp_failures p + 1\<rparr> in
                if pp_failures p < pp_attempts p
                then (Inr (batch\<lparr>ba_errors := [(key, e)], ba_more := True\<rparr>), p)
                else poll_advance (batch\<lparr>ba_errors := [(key, e)]\<rparr>) p)
             else poll_advance (batch\<lparr>ba_errors := [(key, e)]\<rparr>) p)"

definition poll_restart :: "property_poll \<Rightarrow> property_poll" where
  "poll_restart p = p\<lparr>pp_cursor := 0, pp_pending_age := None, pp_failures := 0\<rparr>"

end
