(* ===== verification/Source_Actor.thy ===== *)
theory Source_Actor imports Sampling Parameters begin

text \<open>
  The actor that owns one device source, \<open>Actor\<close> of \<open>crates/regain-hub/src/source.rs\<close>: leases, the
  control lease, the latch of an uncertain write, connection generations, and polling with retries
  and backoff; and the fence that discards work across a host sleep (\<open>fence\<close> of \<open>resume.rs\<close>).

  The backend (\<open>trait Backend\<close>), the clocks, UUIDs and the jitter of the backoff come from a script
  indexed by a step counter. A backend call that ran into its deadline is the answer \<open>None\<close>. A
  host resume is a change of the epoch; it may fall before, into or after any of these calls. \<open>ac_trace\<close> records the calls that reached
  the backend, what was replied to the clients, and the published poll events; the published
  snapshot is \<open>ac_published\<close>. \<open>throw\<close> stands for a panic. Reply channels are numbered; a client that
  has gone away closes its channel.
\<close>

section \<open>State\<close>

datatype poll_phase = PhIdle | PhConnecting | PhSampling | PhWaiting | PhSuspended | PhStopped

datatype poll_reason = PrInitial | PrConnection | PrRetry | PrPeriodic | PrContinuation | PrRefresh | PrStateChanged

record polling_status =
  po_phase :: poll_phase
  po_observed_seconds :: rat
  po_reason :: "poll_reason option"
  po_next_poll_after_seconds :: "rat option"
  po_attempts_started :: nat
  po_attempts_per_cycle :: nat
  po_last_attempt :: nat
  po_last_cycle_exhausted :: "bool option"
  po_backoff_failures :: nat

definition polling_idle :: "poll_policy \<Rightarrow> nat \<Rightarrow> polling_status" where
  "polling_idle policy now = \<lparr>po_phase = PhIdle, po_observed_seconds = as_secs_f64 now, po_reason = None,
     po_next_poll_after_seconds = None, po_attempts_started = 0, po_attempts_per_cycle = attempts_per_cycle policy,
     po_last_attempt = 0, po_last_cycle_exhausted = None, po_backoff_failures = 0\<rparr>"

record source_snapshot =
  sn_resume_epoch :: nat
  sn_source :: nat
  sn_revision :: nat
  sn_generation :: nat
  sn_sequence :: nat
  sn_transport_connected :: bool
  sn_write_uncertain :: bool
  sn_connection_info :: "json option"
  sn_simulated :: bool
  sn_simulation :: "json option"
  sn_lease_count :: nat
  sn_values :: sample_values
  sn_sample_errors :: "(string, source_error) btree"
  sn_sample_ages_seconds :: "(string, f64) btree"
  sn_sample_started_seconds :: "(string, rat) btree"
  sn_sample_sequences :: "(string, nat) btree"
  sn_completed_passes :: nat
  sn_sampled_at_seconds :: "rat option"
  sn_error :: "source_error option"
  sn_polling :: polling_status

definition resume_interrupted :: source_error where
  "resume_interrupted = (source_error_new KUnavailable
     ''Host resumed or its sleep clock changed; the old request was discarded'')\<lparr>so_transport_lost := True\<rparr>"

text \<open>\<open>derive\<close> is \<open>Uuid::new_v5\<close> over the old generation and the epoch.\<close>

definition invalidate_resume :: "(nat \<Rightarrow> nat \<Rightarrow> nat) \<Rightarrow> nat \<Rightarrow> source_snapshot \<Rightarrow> source_snapshot" where
  "invalidate_resume derive epoch s = s\<lparr>sn_resume_epoch := epoch, sn_generation := derive (sn_generation s) epoch,
     sn_sequence := 0, sn_transport_connected := False, sn_connection_info := None, sn_values := [],
     sn_sample_errors := [], sn_sample_ages_seconds := [], sn_sample_started_seconds := [],
     sn_sample_sequences := [], sn_completed_passes := 0, sn_sampled_at_seconds := None,
     sn_error := Some resume_interrupted\<rparr>"

text \<open>What a reader of the published snapshot gets, \<open>SourceHandle::with_snapshot\<close>.\<close>

definition with_snapshot :: "(nat \<Rightarrow> nat \<Rightarrow> nat) \<Rightarrow> nat \<Rightarrow> bool \<Rightarrow> source_snapshot \<Rightarrow> source_snapshot" where
  "with_snapshot derive epoch valid s =
     (if sn_resume_epoch s = epoch \<and> valid then s else invalidate_resume derive epoch s)"

definition select_keys :: "string list \<Rightarrow> (string, 'v) btree \<Rightarrow> (string, 'v) btree" where
  "select_keys ks m = concat (map (\<lambda>k. case bt_get m k of Some v \<Rightarrow> [(k, v)] | None \<Rightarrow> []) ks)"

text \<open>\<open>project_samples\<close>; \<open>ks\<close> are the selected keys in their order.\<close>

definition project_samples :: "string list \<Rightarrow> source_snapshot \<Rightarrow> source_snapshot" where
  "project_samples ks s = s\<lparr>sn_connection_info := None, sn_simulation := None,
     sn_values := filter (\<lambda>(k, v). is_number v \<or> as_bool v \<noteq> None) (select_keys ks (sn_values s)),
     sn_sample_errors := select_keys ks (sn_sample_errors s),
     sn_sample_ages_seconds := select_keys ks (sn_sample_ages_seconds s),
     sn_sample_started_seconds := select_keys ks (sn_sample_started_seconds s),
     sn_sample_sequences := select_keys ks (sn_sample_sequences s)\<rparr>"

record poll_event =
  pv_source :: nat
  pv_revision :: nat
  pv_generation :: nat
  pv_sequence :: nat
  pv_started :: nat
  pv_received :: nat
  pv_result :: "source_error + sample_values"
  pv_cycle_exhausted :: bool

datatype source_command =
    CmdCameraImage nat nat nat nat
  | CmdUpdateSimulation nat json nat
  | CmdShutdown
  | CmdRefresh nat nat
  | CmdAcquire nat nat
  | CmdRelease nat nat
  | CmdControl nat bool nat
  | CmdRead nat "nat option" string sample_values nat
  | CmdWrite nat "nat option" string sample_values nat

datatype answer = AnUnit | AnValue json | AnSnapshot source_snapshot | AnImage nat

datatype actor_event =
    AvConnect
  | AvDisconnect
  | AvReset
  | AvRestartPoll
  | AvRead nat string
  | AvWrite nat string "(source_error + json) option" bool
  | AvSample
  | AvImage nat
  | AvRefresh nat
  | AvSimulate nat
  | AvReply nat "source_error + answer"
  | AvPolled poll_event
  | AvFinished
  | AvRetired

text \<open>
  \<open>AvWrite lease member r open\<close> is a write that reached the backend for \<open>lease\<close>, with what the backend
  answered within the deadline, and whether the answer stood or was discarded because the host had
  resumed meanwhile. \<open>AvRetired\<close> marks that the source was retired after its last lease.
\<close>

record actor_environment =
  ae_now :: "nat \<Rightarrow> nat"
  ae_instant :: "nat \<Rightarrow> nat"
  ae_epoch :: "nat \<Rightarrow> nat"
  ae_clock_valid :: "nat \<Rightarrow> bool"
  ae_closed :: "nat \<Rightarrow> nat \<Rightarrow> bool"
  ae_connect :: "nat \<Rightarrow> (source_error + bool) option"
  ae_disconnect :: "nat \<Rightarrow> (source_error + unit) option"
  ae_finish :: "nat \<Rightarrow> source_error + unit"
  ae_read :: "nat \<Rightarrow> (source_error + json) option"
  ae_write :: "nat \<Rightarrow> (source_error + json) option"
  ae_sample :: "nat \<Rightarrow> (source_error + sample_batch) option"
  ae_image :: "nat \<Rightarrow> (source_error + nat) option"
  ae_refresh :: "nat \<Rightarrow> (source_error + unit) option"
  ae_simulate :: "nat \<Rightarrow> source_error + json"
  ae_connection_info :: "nat \<Rightarrow> json option"
  ae_simulation_status :: "nat \<Rightarrow> json option"
  ae_uuid :: "nat \<Rightarrow> nat"
  ae_derive :: "nat \<Rightarrow> nat \<Rightarrow> nat"
  ae_raise_to :: "rat \<Rightarrow> nat \<Rightarrow> rat"
  ae_jitter :: "nat \<Rightarrow> rat"

record actor =
  ac_env :: actor_environment
  ac_tick :: nat
  ac_trace :: "actor_event list"
  ac_published :: source_snapshot
  ac_completion :: "(source_error + unit) option"
  ac_connection_allowance :: nat
  ac_policy :: poll_policy
  ac_state :: source_snapshot
  ac_leases :: "nat list"
  ac_controller :: "nat option"
  ac_write_uncertain :: bool
  ac_next_poll :: "nat option"
  ac_attempt :: nat
  ac_backoff_failures :: nat
  ac_retrying :: bool
  ac_poll_operation :: "poll_phase option"
  ac_poll_reason :: "poll_reason option"
  ac_last_attempt :: nat
  ac_last_cycle_exhausted :: "bool option"
  ac_stopped :: bool
  ac_connection_started :: "nat option"
  ac_disconnect_result :: "(source_error + unit) option"

type_synonym 'a acting = "(actor, string, 'a) effect"

text \<open>
  \<open>SourceHandle::spawn\<close>: identities and timing of the policy are checked first. \<open>allowance\<close> is the
  connection allowance, which native cameras may extend.
\<close>

definition source_spawn :: "actor_environment \<Rightarrow> nat \<Rightarrow> nat \<Rightarrow> poll_policy \<Rightarrow> bool \<Rightarrow> nat \<Rightarrow> field_error list + actor" where
  "source_spawn env source revision policy simulated allowance =
     (let errors = validate_timing policy
            @ (if source = 0 \<or> revision = 0
               then [field_error_new ''source'' ''identity'' ''Source and revision IDs cannot be nil''] else []);
          initial = \<lparr>sn_resume_epoch = ae_epoch env 0, sn_source = source, sn_revision = revision,
            sn_generation = ae_uuid env 0, sn_sequence = 0, sn_transport_connected = False,
            sn_write_uncertain = False, sn_connection_info = None, sn_simulated = simulated,
            sn_simulation = ae_simulation_status env 0, sn_lease_count = 0, sn_values = [], sn_sample_errors = [],
            sn_sample_ages_seconds = [], sn_sample_started_seconds = [], sn_sample_sequences = [],
            sn_completed_passes = 0, sn_sampled_at_seconds = None, sn_error = None,
            sn_polling = polling_idle policy (ae_now env 0)\<rparr>
      in if errors \<noteq> [] then Inl errors
         else Inr \<lparr>ac_env = env, ac_tick = 1, ac_trace = [], ac_published = initial, ac_completion = None,
           ac_connection_allowance = allowance, ac_policy = policy, ac_state = initial, ac_leases = [],
           ac_controller = None, ac_write_uncertain = False, ac_next_poll = Some (ae_instant env 0), ac_attempt = 0,
           ac_backoff_failures = 0, ac_retrying = False, ac_poll_operation = None, ac_poll_reason = Some PrInitial,
           ac_last_attempt = 0, ac_last_cycle_exhausted = None, ac_stopped = False, ac_connection_started = None,
           ac_disconnect_result = Some (Inr ())\<rparr>)"

section \<open>Steps of the world\<close>

definition act_tick :: "nat acting" where
  "act_tick s = (Returned (ac_tick s), s\<lparr>ac_tick := Suc (ac_tick s)\<rparr>)"

definition act_emit :: "actor_event \<Rightarrow> unit acting" where
  "act_emit e = upd (\<lambda>s. s\<lparr>ac_trace := ac_trace s @ [e]\<rparr>)"

definition scripted :: "(actor_environment \<Rightarrow> nat \<Rightarrow> 'a) \<Rightarrow> 'a acting" where
  "scripted f = bnd act_tick (\<lambda>n. get (\<lambda>s. f (ac_env s) n))"

definition instant :: "nat acting" where "instant = scripted ae_instant"
definition fresh_uuid :: "nat acting" where "fresh_uuid = scripted ae_uuid"
definition current_epoch :: "nat acting" where "current_epoch = scripted ae_epoch"

definition on_snapshot :: "(source_snapshot \<Rightarrow> source_snapshot) \<Rightarrow> unit acting" where
  "on_snapshot f = upd (\<lambda>s. s\<lparr>ac_state := f (ac_state s)\<rparr>)"

text \<open>
  \<open>resume::fence\<close>: a call is not made, or its answer discarded, when the host has resumed. The
  notification it selects on fires exactly when the epoch has changed.
\<close>

definition fence_open :: "bool acting" where
  "fence_open = bnd act_tick (\<lambda>n. get (\<lambda>s.
     ae_epoch (ac_env s) n = sn_resume_epoch (ac_state s) \<and> ae_clock_valid (ac_env s) n))"

text \<open>
  A fenced backend call with its deadline, \<open>fence(clock, epoch, timeout(deadline, call))\<close>: \<open>f\<close> is the
  scripted answer, \<open>late\<close> the error of a call that missed its deadline. The event records the answer
  and whether the fence was still open afterwards.
\<close>

definition fenced_call :: "(actor_environment \<Rightarrow> nat \<Rightarrow> (source_error + 'a) option)
    \<Rightarrow> ((source_error + 'a) option \<Rightarrow> bool \<Rightarrow> actor_event) \<Rightarrow> source_error \<Rightarrow> (source_error + 'a) acting" where
  "fenced_call f e late =
     bnd fence_open (\<lambda>awake.
     bnd current_epoch (\<lambda>epoch.
     bnd (get (\<lambda>s. epoch = sn_resume_epoch (ac_state s))) (\<lambda>quiet.
     if \<not> awake \<or> \<not> quiet then ret (Inl resume_interrupted) else
     bnd (scripted f) (\<lambda>r.
     bnd fence_open (\<lambda>still.
     bnd (act_emit (e r still)) (\<lambda>_.
     ret (if \<not> still then Inl resume_interrupted else case r of Some r \<Rightarrow> r | None \<Rightarrow> Inl late)))))))"

text \<open>\<open>let _ = reply.send(r)\<close>, and whether the client was still there.\<close>

definition reply_closed :: "nat \<Rightarrow> bool acting" where
  "reply_closed i = bnd act_tick (\<lambda>n. get (\<lambda>s. ae_closed (ac_env s) n i))"

definition answer_client :: "nat \<Rightarrow> source_error + answer \<Rightarrow> bool acting" where
  "answer_client i r =
     bnd (reply_closed i) (\<lambda>closed.
     bnd (whenever (\<not> closed) (act_emit (AvReply i r))) (\<lambda>_. ret (\<not> closed)))"

section \<open>Publishing and connecting\<close>

definition poll_phase_of :: "actor \<Rightarrow> poll_phase" where
  "poll_phase_of s =
     (if ac_stopped s then PhStopped
      else case ac_poll_operation s of
        Some operation \<Rightarrow> operation
      | None \<Rightarrow> if ac_leases s = [] then PhIdle else if ac_next_poll s \<noteq> None then PhWaiting else PhSuspended)"

definition polling_of :: "nat \<Rightarrow> nat \<Rightarrow> actor \<Rightarrow> polling_status" where
  "polling_of now at_instant s =
     (let phase = poll_phase_of s in
      \<lparr>po_phase = phase, po_observed_seconds = as_secs_f64 now,
       po_reason = (if phase \<in> {PhIdle, PhStopped} then None else ac_poll_reason s),
       po_next_poll_after_seconds =
         (if phase = PhWaiting then map_option (\<lambda>deadline. as_secs_f64 (deadline - at_instant)) (ac_next_poll s) else None),
       po_attempts_started = ac_attempt s, po_attempts_per_cycle = attempts_per_cycle (ac_policy s),
       po_last_attempt = ac_last_attempt s, po_last_cycle_exhausted = ac_last_cycle_exhausted s,
       po_backoff_failures = ac_backoff_failures s\<rparr>)"

definition publish_source :: "unit acting" where
  "publish_source =
     bnd (scripted ae_connection_info) (\<lambda>info.
     bnd (scripted ae_simulation_status) (\<lambda>simulation.
     bnd (scripted ae_now) (\<lambda>now.
     bnd instant (\<lambda>i.
     bnd (upd (\<lambda>s. s\<lparr>ac_state := (ac_state s)\<lparr>sn_connection_info := info, sn_simulation := simulation,
        sn_write_uncertain := ac_write_uncertain s, sn_lease_count := length (ac_leases s),
        sn_polling := polling_of now i s\<rparr>\<rparr>)) (\<lambda>_.
     upd (\<lambda>s. s\<lparr>ac_published := ac_state s\<rparr>))))))"

text \<open>The cache of a snapshot, emptied whenever its generation ends.\<close>

definition clear_samples :: "source_snapshot \<Rightarrow> source_snapshot" where
  "clear_samples s = s\<lparr>sn_sample_started_seconds := [], sn_values := [], sn_sample_errors := [],
     sn_sample_ages_seconds := [], sn_sampled_at_seconds := None\<rparr>"

definition new_generation :: "nat \<Rightarrow> source_snapshot \<Rightarrow> source_snapshot" where
  "new_generation g s = (clear_samples s)\<lparr>sn_generation := g, sn_sequence := 0, sn_sample_sequences := []\<rparr>"

definition source_fault :: "source_error \<Rightarrow> unit acting" where
  "source_fault e =
     bnd (upd (\<lambda>s. s\<lparr>ac_connection_started := None\<rparr>)) (\<lambda>_.
     bnd fresh_uuid (\<lambda>g.
     bnd (on_snapshot (\<lambda>t. (new_generation g t)\<lparr>sn_error := Some e, sn_transport_connected := False\<rparr>)) (\<lambda>_.
     bnd (act_emit AvReset) (\<lambda>_.
     publish_source))))"

definition resume_actor :: "unit acting" where
  "resume_actor =
     bnd current_epoch (\<lambda>epoch.
     bnd (get (\<lambda>s. sn_resume_epoch (ac_state s) = epoch)) (\<lambda>same.
     if same then ret () else
     bnd (upd (\<lambda>s. s\<lparr>ac_state := invalidate_resume (ae_derive (ac_env s)) epoch (ac_state s)\<rparr>)) (\<lambda>_.
     bnd (act_emit AvReset) (\<lambda>_.
     bnd (act_emit AvRestartPoll) (\<lambda>_.
     bnd (upd (\<lambda>s. s\<lparr>ac_connection_started := None, ac_poll_operation := None, ac_attempt := 0,
        ac_last_attempt := 0, ac_last_cycle_exhausted := None\<rparr>)) (\<lambda>_.
     bnd instant (\<lambda>i.
     bnd (upd (\<lambda>s. if ac_retrying s then s else s\<lparr>ac_next_poll := Some i\<rparr>)) (\<lambda>_.
     publish_source))))))))"

definition source_connect :: "(source_error + unit) acting" where
  "source_connect =
     bnd (get (\<lambda>s. sn_transport_connected (ac_state s))) (\<lambda>connected.
     if connected then ret (Inr ()) else
     bnd instant (\<lambda>i.
     bnd (upd (\<lambda>s. s\<lparr>ac_connection_started := (case ac_connection_started s of None \<Rightarrow> Some i | Some t \<Rightarrow> Some t)\<rparr>)) (\<lambda>_.
     bnd instant (\<lambda>i.
     bnd (get (\<lambda>s. case ac_connection_started s of
        Some started \<Rightarrow> ac_connection_allowance s - (i - started) | None \<Rightarrow> 0)) (\<lambda>remaining.
     bnd (upd (\<lambda>s. s\<lparr>ac_poll_operation := Some PhConnecting\<rparr>)) (\<lambda>_.
     bnd publish_source (\<lambda>_.
     bnd (if remaining = 0 then ret (Inl source_timeout)
          else fenced_call ae_connect (\<lambda>_ _. AvConnect) source_timeout) (\<lambda>result.
     bnd (upd (\<lambda>s. s\<lparr>ac_poll_operation := None\<rparr>)) (\<lambda>_.
     case result of
       Inr False \<Rightarrow>
         (let error = source_error_new KConnecting ''Source connection is in progress'' in
          bnd (on_snapshot (\<lambda>t. t\<lparr>sn_error := Some error\<rparr>)) (\<lambda>_.
          bnd publish_source (\<lambda>_. ret (Inl error))))
     | Inr True \<Rightarrow>
         bnd (upd (\<lambda>s. s\<lparr>ac_connection_started := None\<rparr>)) (\<lambda>_.
         bnd fresh_uuid (\<lambda>g.
         bnd (on_snapshot (\<lambda>t. (new_generation g t)\<lparr>sn_transport_connected := True, sn_error := None\<rparr>)) (\<lambda>_.
         bnd publish_source (\<lambda>_. ret (Inr ())))))
     | Inl e \<Rightarrow>
         bnd (upd (\<lambda>s. if so_kind e = KUncertain then s\<lparr>ac_write_uncertain := True\<rparr> else s)) (\<lambda>_.
         bnd (source_fault e) (\<lambda>_. ret (Inl e))))))))))))"

definition source_disconnect :: "(source_error + unit) acting" where
  "source_disconnect =
     bnd (get ac_disconnect_result) (\<lambda>earlier. case earlier of
       Some r \<Rightarrow> ret r
     | None \<Rightarrow>
         bnd (upd (\<lambda>s. s\<lparr>ac_connection_started := None\<rparr>)) (\<lambda>_.
         bnd (fenced_call ae_disconnect (\<lambda>_ _. AvDisconnect) source_uncertain) (\<lambda>result.
         bnd (whenever (\<not> is_ok result) (act_emit AvReset)) (\<lambda>_.
         bnd fresh_uuid (\<lambda>g.
         bnd (upd (\<lambda>s. s\<lparr>ac_state := (new_generation g (ac_state s))\<lparr>sn_transport_connected := False,
              sn_error := (case result of Inl e \<Rightarrow> Some e | Inr _ \<Rightarrow> None)\<rparr>,
            ac_controller := None, ac_write_uncertain := False, ac_attempt := 0, ac_backoff_failures := 0,
            ac_retrying := False, ac_next_poll := None, ac_poll_reason := None, ac_last_attempt := 0,
            ac_last_cycle_exhausted := None, ac_disconnect_result := Some result,
            ac_trace := ac_trace s @ [AvRetired]\<rparr>)) (\<lambda>_.
         bnd (act_emit AvRestartPoll) (\<lambda>_.
         bnd publish_source (\<lambda>_. ret result))))))))"

definition authorized :: "nat \<Rightarrow> bool \<Rightarrow> actor \<Rightarrow> source_error + unit" where
  "authorized lease wr s =
     and_then (ensure (lease \<in> set (ac_leases s))
       (source_error_new KDisconnected ''This client has no source connection lease'')) (\<lambda>_.
     and_then (ensure (\<not> (wr \<and> ac_write_uncertain s)) source_uncertain) (\<lambda>_.
     ensure (\<not> (wr \<and> ac_controller s \<noteq> Some lease))
       (source_error_new KBusy ''Acquire the source control lease before writing'')))"

section \<open>Commands\<close>

definition busy_error :: "string \<Rightarrow> source_error" where
  "busy_error message = source_error_new KBusy message"

definition generation_changed :: "string \<Rightarrow> source_error" where
  "generation_changed message = source_error_new KUnavailable message"

text \<open>The cached samples may no longer describe the device; ask for new ones.\<close>

definition sample_again :: "unit acting" where
  "sample_again =
     bnd (on_snapshot clear_samples) (\<lambda>_.
     act_emit AvRestartPoll)"

definition do_simulation :: "nat \<Rightarrow> json \<Rightarrow> nat \<Rightarrow> unit acting" where
  "do_simulation lease update i =
     bnd (get (\<lambda>s. and_then (authorized lease False s) (\<lambda>_. ensure (ac_controller s = Some lease)
       (busy_error ''Acquire source control before changing simulation'')))) (\<lambda>admitted.
     bnd (case admitted of
       Inl e \<Rightarrow> ret (Inl e)
     | Inr _ \<Rightarrow> bnd (act_emit (AvSimulate lease)) (\<lambda>_. scripted ae_simulate)) (\<lambda>result.
     bnd (if \<not> is_ok result then ret () else
       bnd sample_again (\<lambda>_.
       bnd instant (\<lambda>t.
       bnd (upd (\<lambda>s. s\<lparr>ac_retrying := False, ac_attempt := 0, ac_backoff_failures := 0, ac_next_poll := Some t,
         ac_poll_reason := Some PrStateChanged\<rparr>)) (\<lambda>_.
       publish_source)))) (\<lambda>_.
     bnd (answer_client i (map_sum id AnValue result)) (\<lambda>_. ret ()))))"

definition max_nat_option :: "nat option \<Rightarrow> nat \<Rightarrow> nat" where
  "max_nat_option a b = max (case a of Some x \<Rightarrow> x | None \<Rightarrow> 0) b"

text \<open>\<open>Instant::now().checked_add(delay)\<close>; instants are counted in nanoseconds.\<close>

definition max_instant :: nat where
  "max_instant = 2 ^ 63 * nanos_per_sec"

definition deadline_after :: "nat \<Rightarrow> nat \<Rightarrow> nat option" where
  "deadline_after t d = (if t + d < max_instant then Some (t + d) else None)"

definition refresh_failed :: "source_error \<Rightarrow> unit acting" where
  "refresh_failed e =
     bnd (whenever (so_transport_lost e) (source_fault e)) (\<lambda>_.
     if so_kind e \<in> {KTransient, KDisconnected, KUncertain}
     then
       bnd instant (\<lambda>t.
       upd (\<lambda>s. s\<lparr>ac_retrying := True, ac_poll_reason := Some PrRetry,
         ac_next_poll := deadline_after t (max_nat_option (so_retry_after e)
            (from_secs_f64 (initial_backoff_seconds (ac_policy s))))\<rparr>))
     else ret ())"

definition admit_refresh :: "nat \<Rightarrow> nat \<Rightarrow> actor \<Rightarrow> source_error + unit" where
  "admit_refresh lease t s =
     and_then (authorized lease False s) (\<lambda>_.
     and_then (ensure (\<not> (ac_retrying s \<and> none_or (ac_next_poll s) (\<lambda>deadline. t < deadline)))
       ((busy_error ''Source is waiting before retrying'')\<lparr>so_retry_after := map_option (\<lambda>deadline. deadline - t) (ac_next_poll s)\<rparr>)) (\<lambda>_.
     ensure (sn_transport_connected (ac_state s)) (source_error_new KDisconnected ''Source is disconnected'')))"

definition do_refresh :: "nat \<Rightarrow> nat \<Rightarrow> unit acting" where
  "do_refresh lease i =
     bnd instant (\<lambda>t.
     bnd (get (admit_refresh lease t)) (\<lambda>admitted.
     bnd (case admitted of
       Inr _ \<Rightarrow> fenced_call ae_refresh (\<lambda>_ _. AvRefresh lease) source_timeout
     | Inl e \<Rightarrow> ret (Inl e)) (\<lambda>result.
     bnd (case result of
       Inr _ \<Rightarrow>
         bnd (act_emit AvRestartPoll) (\<lambda>_.
         bnd instant (\<lambda>t. upd (\<lambda>s. s\<lparr>ac_next_poll := Some t, ac_poll_reason := Some PrRefresh\<rparr>)))
     | Inl e \<Rightarrow> if so_kind e \<noteq> KBusy then refresh_failed e else ret ()) (\<lambda>_.
     bnd publish_source (\<lambda>_.
     bnd (answer_client i (map_sum id (\<lambda>_. AnUnit) result)) (\<lambda>_. ret ()))))))"

definition connect_delay :: "poll_policy \<Rightarrow> source_error \<Rightarrow> nat" where
  "connect_delay policy e =
     (if so_kind e = KConnecting then 100000000
      else max_nat_option (so_retry_after e)
        (from_secs_f64 (if so_kind e \<in> {KTransient, KDisconnected} then initial_backoff_seconds policy
           else backoff_cap_seconds policy)))"

definition first_lease :: "unit acting" where
  "first_lease =
     bnd (upd (\<lambda>s. s\<lparr>ac_disconnect_result := None\<rparr>)) (\<lambda>_.
     bnd source_connect (\<lambda>connection.
     bnd (case connection of
       Inr _ \<Rightarrow> ret 0
     | Inl e \<Rightarrow>
         bnd (upd (\<lambda>s. s\<lparr>ac_retrying := True\<rparr>)) (\<lambda>_. get (\<lambda>s. connect_delay (ac_policy s) e))) (\<lambda>delay.
     bnd instant (\<lambda>t.
     upd (\<lambda>s. s\<lparr>ac_next_poll := deadline_after t delay,
       ac_poll_reason := Some (if ac_connection_started s \<noteq> None then PrConnection
         else if ac_retrying s then PrRetry else PrInitial)\<rparr>)))))"

definition do_acquire :: "nat \<Rightarrow> nat \<Rightarrow> unit acting" where
  "do_acquire lease i =
     (if lease = 0
      then bnd (answer_client i (Inl (source_error_new KInvalidValue ''Lease ID cannot be nil''))) (\<lambda>_. ret ())
      else
        bnd (get (\<lambda>s. lease \<notin> set (ac_leases s))) (\<lambda>inserted.
        bnd (upd (\<lambda>s. s\<lparr>ac_leases := List.insert lease (ac_leases s)\<rparr>)) (\<lambda>_.
        bnd (get (\<lambda>s. inserted \<and> length (ac_leases s) = 1)) (\<lambda>first.
        bnd (whenever first first_lease) (\<lambda>_.
        bnd publish_source (\<lambda>_.
        bnd (get ac_state) (\<lambda>state.
        bnd (answer_client i (Inr (AnSnapshot state))) (\<lambda>sent.
        if sent \<or> \<not> inserted then ret () else
        bnd (upd (\<lambda>s. s\<lparr>ac_leases := removeAll lease (ac_leases s)\<rparr>)) (\<lambda>_.
        bnd (get (\<lambda>s. ac_leases s = [])) (\<lambda>empty.
        if empty then bnd source_disconnect (\<lambda>_. ret ()) else publish_source))))))))))"

definition do_release :: "nat \<Rightarrow> nat \<Rightarrow> unit acting" where
  "do_release lease i =
     bnd (get (\<lambda>s. lease \<in> set (ac_leases s))) (\<lambda>held.
     bnd (upd (\<lambda>s. s\<lparr>ac_leases := removeAll lease (ac_leases s)\<rparr>)) (\<lambda>_.
     bnd (get (\<lambda>s. held \<and> ac_leases s = [])) (\<lambda>last.
     bnd (if last then bnd source_disconnect (\<lambda>_. ret ()) else ret ()) (\<lambda>_.
     bnd (upd (\<lambda>s. if ac_controller s = Some lease then s\<lparr>ac_controller := None\<rparr> else s)) (\<lambda>_.
     bnd publish_source (\<lambda>_.
     bnd (answer_client i (Inr AnUnit)) (\<lambda>_. ret ())))))))"

definition admit_control :: "nat \<Rightarrow> bool \<Rightarrow> actor \<Rightarrow> source_error + unit" where
  "admit_control lease acquire s =
     and_then (authorized lease False s) (\<lambda>_.
     ensure (\<not> (acquire \<and> ac_controller s \<noteq> None \<and> ac_controller s \<noteq> Some lease))
       (busy_error ''Another client owns source control''))"

definition do_control :: "nat \<Rightarrow> bool \<Rightarrow> nat \<Rightarrow> unit acting" where
  "do_control lease acquire i =
     bnd (get ac_controller) (\<lambda>previous.
     bnd (get (admit_control lease acquire)) (\<lambda>result.
     bnd (upd (\<lambda>s. if \<not> is_ok result then s
        else if acquire then s\<lparr>ac_controller := Some lease\<rparr>
        else if ac_controller s = Some lease then s\<lparr>ac_controller := None\<rparr> else s)) (\<lambda>_.
     bnd (answer_client i (map_sum id (\<lambda>_. AnUnit) result)) (\<lambda>sent.
     upd (\<lambda>s. if \<not> sent \<and> acquire \<and> ac_controller s = Some lease then s\<lparr>ac_controller := previous\<rparr> else s)))))"

text \<open>
  Before a call is dispatched: the client is admitted, the source connected, and its generation the
  one the client expects.
\<close>

definition reach_source :: "source_error + unit \<Rightarrow> nat option \<Rightarrow> string \<Rightarrow> (source_error + unit) acting" where
  "reach_source admitted expected message = (case admitted of
       Inl e \<Rightarrow> ret (Inl e)
     | Inr _ \<Rightarrow>
         bnd source_connect (\<lambda>connection. case connection of
           Inl e \<Rightarrow> ret (Inl e)
         | Inr _ \<Rightarrow>
             bnd (get (\<lambda>s. none_or expected (\<lambda>g. g = sn_generation (ac_state s)))) (\<lambda>same.
             ret (if same then Inr () else Inl (generation_changed message)))))"

definition fault_if_lost :: "source_error + 'a \<Rightarrow> unit acting" where
  "fault_if_lost r = (case r of
       Inl e \<Rightarrow> whenever (so_transport_lost e) (source_fault e)
     | Inr _ \<Rightarrow> ret ())"

definition do_image :: "nat \<Rightarrow> nat \<Rightarrow> nat \<Rightarrow> unit acting" where
  "do_image lease expected i =
     bnd (get (\<lambda>s. and_then (authorized lease False s) (\<lambda>_. ensure (ac_controller s = Some lease)
       (busy_error ''Acquire source control before downloading a camera image'')))) (\<lambda>admitted.
     bnd (reach_source admitted (Some expected) ''Source generation changed before image dispatch'') (\<lambda>reached.
     case reached of
       Inl e \<Rightarrow> bnd (answer_client i (Inl e)) (\<lambda>_. ret ())
     | Inr _ \<Rightarrow>
         bnd (fenced_call ae_image (\<lambda>_ _. AvImage lease) source_timeout) (\<lambda>result.
         bnd (fault_if_lost result) (\<lambda>_.
         bnd (answer_client i (map_sum id AnImage result)) (\<lambda>_. ret ())))))"

definition do_read :: "nat \<Rightarrow> nat option \<Rightarrow> string \<Rightarrow> nat \<Rightarrow> unit acting" where
  "do_read lease expected member i =
     bnd (get (authorized lease False)) (\<lambda>admitted.
     bnd (reach_source admitted expected ''Source generation changed before dispatch'') (\<lambda>reached.
     case reached of
       Inl e \<Rightarrow> bnd (answer_client i (Inl e)) (\<lambda>_. ret ())
     | Inr _ \<Rightarrow>
         bnd (fenced_call ae_read (\<lambda>_ _. AvRead lease member) source_timeout) (\<lambda>result.
         bnd (fault_if_lost result) (\<lambda>_.
         bnd (answer_client i (map_sum id AnValue result)) (\<lambda>_. ret ())))))"

text \<open>What follows a dispatched write: an unknown outcome latches, a known one asks for new samples.\<close>

definition write_unknown :: "source_error \<Rightarrow> bool" where
  "write_unknown e \<longleftrightarrow> so_kind e \<in> {KTransient, KUncertain}"

definition settle_write :: "source_error + json \<Rightarrow> (source_error + json) acting" where
  "settle_write result = (case result of
       Inl e \<Rightarrow>
         if write_unknown e then
           (let error = e\<lparr>so_kind := KUncertain, so_message := so_message source_uncertain\<rparr> in
            bnd (upd (\<lambda>s. s\<lparr>ac_write_uncertain := True\<rparr>)) (\<lambda>_.
            bnd (source_fault error) (\<lambda>_. ret (Inl error))))
         else bnd (fault_if_lost result) (\<lambda>_. ret (Inl e))
     | Inr v \<Rightarrow>
         bnd sample_again (\<lambda>_.
         bnd instant (\<lambda>t.
         bnd (upd (\<lambda>s. if ac_retrying s then s else s\<lparr>ac_next_poll := Some t, ac_poll_reason := Some PrStateChanged\<rparr>)) (\<lambda>_.
         bnd publish_source (\<lambda>_. ret (Inr v))))))"

definition do_write :: "nat \<Rightarrow> nat option \<Rightarrow> string \<Rightarrow> nat \<Rightarrow> unit acting" where
  "do_write lease expected member i =
     bnd (get (authorized lease True)) (\<lambda>admitted.
     bnd (reach_source admitted expected ''Source generation changed before dispatch'') (\<lambda>reached.
     case reached of
       Inl e \<Rightarrow> bnd (answer_client i (Inl e)) (\<lambda>_. ret ())
     | Inr _ \<Rightarrow>
         bnd (fenced_call ae_write (AvWrite lease member) source_uncertain) (\<lambda>result.
         bnd current_epoch (\<lambda>epoch.
         bnd (get (\<lambda>s. epoch = sn_resume_epoch (ac_state s))) (\<lambda>same.
         bnd (settle_write (if same then result else Inl source_uncertain)) (\<lambda>result.
         bnd (answer_client i (map_sum id AnValue result)) (\<lambda>_. ret ())))))))"

fun command_reply :: "source_command \<Rightarrow> nat option" where
  "command_reply (CmdCameraImage _ _ _ i) = Some i"
| "command_reply (CmdUpdateSimulation _ _ i) = Some i"
| "command_reply CmdShutdown = None"
| "command_reply (CmdRefresh _ i) = Some i"
| "command_reply (CmdAcquire _ i) = Some i"
| "command_reply (CmdRelease _ i) = Some i"
| "command_reply (CmdControl _ _ i) = Some i"
| "command_reply (CmdRead _ _ _ _ i) = Some i"
| "command_reply (CmdWrite _ _ _ _ i) = Some i"

definition reject_command :: "source_error \<Rightarrow> source_command \<Rightarrow> unit acting" where
  "reject_command e c = (case command_reply c of
       Some i \<Rightarrow> bnd (answer_client i (Inl e)) (\<lambda>_. ret ())
     | None \<Rightarrow> ret ())"

definition unless_closed :: "nat \<Rightarrow> unit acting \<Rightarrow> unit acting" where
  "unless_closed i m = bnd (reply_closed i) (\<lambda>closed. if closed then ret () else m)"

text \<open>\<open>Actor::command\<close>; the loop handles \<open>CmdShutdown\<close> itself.\<close>

fun run_command :: "source_command \<Rightarrow> unit acting" where
  "run_command (CmdUpdateSimulation lease update i) = unless_closed i (do_simulation lease update i)"
| "run_command CmdShutdown = throw ''Handled by the actor loop''"
| "run_command (CmdRefresh lease i) = unless_closed i (do_refresh lease i)"
| "run_command (CmdAcquire lease i) = unless_closed i (do_acquire lease i)"
| "run_command (CmdRelease lease i) = do_release lease i"
| "run_command (CmdControl lease acquire i) = unless_closed i (do_control lease acquire i)"
| "run_command (CmdCameraImage lease expected _ i) = unless_closed i (do_image lease expected i)"
| "run_command (CmdRead lease expected member _ i) = unless_closed i (do_read lease expected member i)"
| "run_command (CmdWrite lease expected member _ i) = unless_closed i (do_write lease expected member i)"

section \<open>Polling\<close>

definition valid_key :: "string \<Rightarrow> bool" where
  "valid_key k \<longleftrightarrow> k \<noteq> [] \<and> length k \<le> 200"

definition invalid_batch :: source_error where
  "invalid_batch = source_error_new KPermanent ''Invalid or oversized source sample cache''"

definition retained_values :: "source_snapshot \<Rightarrow> sample_batch \<Rightarrow> sample_values" where
  "retained_values s b =
     filter (\<lambda>(k, _). ba_partial b \<and> \<not> bt_contains (ba_values b) k \<and> \<not> bt_contains (ba_errors b) k) (sn_values s)"

definition cache_keys :: "source_snapshot \<Rightarrow> sample_batch \<Rightarrow> string list" where
  "cache_keys s b = remdups (map fst (sn_sample_sequences s)
     @ (if ba_partial b then map fst (sn_sample_errors s) else [])
     @ map fst (ba_values b) @ map fst (ba_errors b))"

definition validate_batch :: "source_snapshot \<Rightarrow> sample_batch \<Rightarrow> source_error + unit" where
  "validate_batch s b =
     ensure (\<not> (max_sample_keys < length (ba_values b) \<or> max_sample_keys < length (ba_errors b)
          \<or> max_sample_keys < length (ba_ages_seconds b))
        \<and> list_all valid_key (map fst (ba_values b) @ map fst (ba_errors b))
        \<and> length (cache_keys s b) \<le> max_sample_keys
        \<and> list_all (\<lambda>k. \<not> bt_contains (ba_errors b) k) (map fst (ba_values b))
        \<and> list_all (\<lambda>(k, age). bt_contains (ba_values b) k \<and> f64_finite age \<and> \<not> f64_lt age (Fin 0)) (ba_ages_seconds b)
        \<and> admit_all (map snd (retained_values s b) @ map snd (ba_values b)) budget_default) invalid_batch"

text \<open>The error that decides about a retry; among those of a batch the one with the latest \<open>retry_after\<close>.\<close>

definition retry_key :: "source_error \<Rightarrow> nat" where
  "retry_key e = (case so_retry_after e of None \<Rightarrow> 0 | Some d \<Rightarrow> d + 1)"

definition later_retry :: "source_error \<Rightarrow> source_error option \<Rightarrow> source_error option" where
  "later_retry e best = (case best of
       Some b \<Rightarrow> if retry_key b \<le> retry_key e then Some e else Some b
     | None \<Rightarrow> Some e)"

definition retry_error :: "source_error + sample_batch \<Rightarrow> source_error option" where
  "retry_error r = (case r of
       Inl e \<Rightarrow> if is_transient e then Some e else None
     | Inr b \<Rightarrow> fold later_retry (filter is_transient (bt_values (ba_errors b))) None)"

definition keep_value :: "rat \<Rightarrow> sample_batch \<Rightarrow> string \<times> json \<Rightarrow> source_snapshot \<Rightarrow> source_snapshot" where
  "keep_value started b kv s = (case kv of (k, v) \<Rightarrow>
     s\<lparr>sn_values := bt_insert k v (sn_values s), sn_sample_errors := bt_remove k (sn_sample_errors s),
       sn_sample_ages_seconds := bt_insert k (case bt_get (ba_ages_seconds b) k of Some a \<Rightarrow> a | None \<Rightarrow> Fin 0)
         (sn_sample_ages_seconds s),
       sn_sample_started_seconds := bt_insert k started (sn_sample_started_seconds s),
       sn_sample_sequences := bt_insert k
         (sat_add 64 (case bt_get (sn_sample_sequences s) k of Some n \<Rightarrow> n | None \<Rightarrow> 0) 1) (sn_sample_sequences s)\<rparr>)"

definition keep_error :: "string \<times> source_error \<Rightarrow> source_snapshot \<Rightarrow> source_snapshot" where
  "keep_error ke s = (case ke of (k, e) \<Rightarrow>
     s\<lparr>sn_values := bt_remove k (sn_values s), sn_sample_started_seconds := bt_remove k (sn_sample_started_seconds s),
       sn_sample_ages_seconds := bt_remove k (sn_sample_ages_seconds s),
       sn_sample_errors := bt_insert k e (sn_sample_errors s)\<rparr>)"

definition merge_batch :: "rat \<Rightarrow> sample_batch \<Rightarrow> source_snapshot \<Rightarrow> source_snapshot" where
  "merge_batch started b s =
     (let s = (if ba_partial b then s
               else s\<lparr>sn_values := [], sn_sample_errors := [], sn_sample_ages_seconds := [], sn_sample_started_seconds := []\<rparr>);
          s = fold (keep_value started b) (ba_values b) s;
          s = fold keep_error (ba_errors b) s
      in s\<lparr>sn_sampled_at_seconds := Some started, sn_error := None\<rparr>)"

text \<open>\<open>unit\<close> is a random 64-bit number as a fraction.\<close>

definition backoff_seconds :: "(rat \<Rightarrow> nat \<Rightarrow> rat) \<Rightarrow> poll_policy \<Rightarrow> nat \<Rightarrow> rat \<Rightarrow> rat" where
  "backoff_seconds raise_to policy failures unit =
     (let exponential = fmul (f64_val (initial_backoff_seconds policy))
            (raise_to (f64_val (backoff_multiplier policy)) (min failures 1024 - 1));
          cap = min exponential (f64_val (backoff_cap_seconds policy))
      in fmul cap (fadd (1/2) (fmul unit (1/2))))"

definition jitter_unit :: "nat \<Rightarrow> rat" where
  "jitter_unit u = fdiv (f64_round (of_nat (u mod 2 ^ 64))) (f64_round (2 ^ 64 - 1))"

definition poll_delay :: "(rat \<Rightarrow> nat \<Rightarrow> rat) \<Rightarrow> poll_policy \<Rightarrow> source_error option \<Rightarrow> bool \<Rightarrow> bool \<Rightarrow> bool \<Rightarrow> nat \<Rightarrow> nat \<Rightarrow> nat" where
  "poll_delay raise_to policy retry failed continued exhausted failures u =
     (case retry of
        Some e \<Rightarrow>
          (let delay = max_nat_option (so_retry_after e)
                 (from_secs_f64 (Fin (backoff_seconds raise_to policy failures (jitter_unit u))))
           in if exhausted then max delay (from_secs_f64 (poll_seconds policy)) else delay)
      | None \<Rightarrow>
          if failed then from_secs_f64 (backoff_cap_seconds policy)
          else if continued then 1000000
          else from_secs_f64 (poll_seconds policy))"

text \<open>After the answer is in: bookkeeping, cache, next poll, event.\<close>

definition finish_poll :: "nat \<Rightarrow> bool \<Rightarrow> source_error + sample_batch \<Rightarrow> unit acting" where
  "finish_poll started sampled result =
     bnd (upd (\<lambda>s. s\<lparr>ac_poll_operation := None\<rparr>)) (\<lambda>_.
     bnd (scripted ae_now) (\<lambda>received.
     let observed = (case result of Inr b \<Rightarrow> ba_safety_observed_at b | Inl _ \<Rightarrow> None);
         event_started = (case observed of Some t \<Rightarrow> min t started | None \<Rightarrow> started);
         retry = retry_error result;
         continued = (case result of Inr b \<Rightarrow> ba_more b | Inl _ \<Rightarrow> False)
     in
     bnd (get (\<lambda>s. retry = None \<or> attempts_per_cycle (ac_policy s) \<le> ac_attempt s)) (\<lambda>exhausted.
     bnd (upd (\<lambda>s. s\<lparr>ac_last_cycle_exhausted := Some (exhausted \<and> \<not> continued)\<rparr>)) (\<lambda>_.
     bnd (whenever sampled (fault_if_lost result)) (\<lambda>_.
     bnd (get (\<lambda>s. checked_add 64 (sn_sequence (ac_state s)) 1)) (\<lambda>sequence. case sequence of
       None \<Rightarrow> throw ''Source sequence exhausted''
     | Some n \<Rightarrow>
     bnd (on_snapshot (\<lambda>t. t\<lparr>sn_sequence := n\<rparr>)) (\<lambda>_.
     bnd (get (\<lambda>s. \<lparr>pv_source = sn_source (ac_state s), pv_revision = sn_revision (ac_state s),
        pv_generation = sn_generation (ac_state s), pv_sequence = n, pv_started = event_started,
        pv_received = received, pv_result = map_sum id ba_values result, pv_cycle_exhausted = exhausted\<rparr>)) (\<lambda>event.
     bnd (upd (\<lambda>s. case result of
          Inr b \<Rightarrow> s\<lparr>ac_state := merge_batch (as_secs_f64 started) b (ac_state s),
             ac_backoff_failures := (if retry = None then 0 else ac_backoff_failures s)\<rparr>
        | Inl e \<Rightarrow> s\<lparr>ac_state := (ac_state s)\<lparr>sn_error := Some e\<rparr>\<rparr>)) (\<lambda>_.
     bnd (whenever (\<not> continued \<and> exhausted)
        (on_snapshot (\<lambda>t. t\<lparr>sn_completed_passes := sat_add 64 (sn_completed_passes t) 1\<rparr>))) (\<lambda>_.
     bnd (upd (\<lambda>s. s\<lparr>ac_retrying := retry \<noteq> None \<or> \<not> is_ok result,
        ac_backoff_failures := (if retry \<noteq> None then sat_add 32 (ac_backoff_failures s) 1 else ac_backoff_failures s)\<rparr>)) (\<lambda>_.
     bnd fresh_uuid (\<lambda>u.
     bnd (get (\<lambda>s. poll_delay (ae_raise_to (ac_env s)) (ac_policy s) retry (\<not> is_ok result) continued exhausted
        (ac_backoff_failures s) u)) (\<lambda>delay.
     bnd instant (\<lambda>t.
     bnd (upd (\<lambda>s. s\<lparr>ac_attempt := (if exhausted then 0 else ac_attempt s),
        ac_next_poll := deadline_after t delay,
        ac_poll_reason := Some (if ac_retrying s then PrRetry else if continued then PrContinuation else PrPeriodic)\<rparr>)) (\<lambda>_.
     bnd publish_source (\<lambda>_.
     act_emit (AvPolled event)))))))))))))))))"

definition source_poll :: "unit acting" where
  "source_poll =
     bnd (scripted ae_now) (\<lambda>started.
     bnd source_connect (\<lambda>connection.
     if (case connection of Inl e \<Rightarrow> so_kind e = KConnecting | Inr _ \<Rightarrow> False) then
       bnd instant (\<lambda>t.
       bnd (upd (\<lambda>s. s\<lparr>ac_next_poll := Some (t + 100000000), ac_poll_reason := Some PrConnection\<rparr>)) (\<lambda>_.
       publish_source))
     else
       bnd (upd (\<lambda>s. s\<lparr>ac_attempt := ac_attempt s + 1, ac_last_attempt := ac_attempt s + 1,
          ac_last_cycle_exhausted := None\<rparr>)) (\<lambda>_.
       bnd (whenever (is_ok connection)
          (bnd (upd (\<lambda>s. s\<lparr>ac_poll_operation := Some PhSampling\<rparr>)) (\<lambda>_. publish_source))) (\<lambda>_.
       bnd (case connection of
           Inl e \<Rightarrow> ret (Inl e)
         | Inr _ \<Rightarrow> fenced_call ae_sample (\<lambda>_ _. AvSample) source_timeout) (\<lambda>answer.
       bnd (get (\<lambda>s. and_then answer (\<lambda>b. and_then (validate_batch (ac_state s) b) (\<lambda>_. Inr b)))) (\<lambda>result.
       bnd current_epoch (\<lambda>epoch.
       bnd (get (\<lambda>s. epoch = sn_resume_epoch (ac_state s))) (\<lambda>same.
       if same then finish_poll started (is_ok connection) result else resume_actor))))))))"

section \<open>The loop\<close>

text \<open>
  What the loop of \<open>Actor::run\<close> wakes up for: a resume notification, a due poll, or a queued command
  with the epoch at which it was queued.
\<close>

datatype wakeup = Notified | PollDue | Queued nat source_command

definition is_cleanup :: "source_command \<Rightarrow> bool" where
  "is_cleanup c = (case c of CmdRelease _ _ \<Rightarrow> True | CmdControl _ acquire _ \<Rightarrow> \<not> acquire | _ \<Rightarrow> False)"

definition source_round :: "wakeup \<Rightarrow> unit acting" where
  "source_round w =
     bnd resume_actor (\<lambda>_. case w of
       Notified \<Rightarrow> ret ()
     | PollDue \<Rightarrow>
         bnd instant (\<lambda>t.
         bnd (get (\<lambda>s. ac_leases s \<noteq> [] \<and> some_and (ac_next_poll s) (\<lambda>due. due \<le> t))) (\<lambda>due.
         if due then source_poll else ret ()))
     | Queued epoch c \<Rightarrow>
         bnd resume_actor (\<lambda>_.
         bnd (get (\<lambda>s. epoch \<noteq> sn_resume_epoch (ac_state s) \<and> \<not> is_cleanup c)) (\<lambda>stale.
         if stale then reject_command resume_interrupted c else run_command c)))"

text \<open>After \<open>CmdShutdown\<close>, or when every handle is gone; what is still queued is dropped unanswered.\<close>

definition source_stop :: "unit acting" where
  "source_stop =
     bnd (upd (\<lambda>s. s\<lparr>ac_leases := []\<rparr>)) (\<lambda>_.
     bnd source_disconnect (\<lambda>result.
     bnd (act_emit AvFinished) (\<lambda>_.
     bnd (scripted ae_finish) (\<lambda>drained.
     let result = and_then result (\<lambda>_. drained) in
     bnd (upd (\<lambda>s. s\<lparr>ac_state := (ac_state s)\<lparr>sn_error := Some (case result of Inl e \<Rightarrow> e
            | Inr _ \<Rightarrow> source_error_new KDisconnected ''Source actor stopped'')\<rparr>, ac_stopped := True\<rparr>)) (\<lambda>_.
     bnd publish_source (\<lambda>_.
     upd (\<lambda>s. s\<lparr>ac_completion := Some result\<rparr>)))))))"

text \<open>The states of an actor: what a sequence of rounds leads to, and the end.\<close>

inductive actor_step :: "actor \<Rightarrow> actor \<Rightarrow> bool" where
  step_round: "ac_completion s = None \<Longrightarrow> source_round w s = (Returned (), t) \<Longrightarrow> actor_step s t"
| step_stop: "ac_completion s = None \<Longrightarrow> source_stop s = (Returned (), t) \<Longrightarrow> actor_step s t"

end
