(* ===== verification/Resume.thy ===== *)
theory Resume imports Source_Actor begin

text \<open>
  The host sleep clock of \<open>crates/regain-hub/src/resume.rs\<close>: the detector that compares a continuous
  clock with an awake one, and the epoch that every detected resume advances. Reading the operating
  system's clocks is the input; power notifications of the system advance the epoch as well.
\<close>

type_synonym clock_pair = "nat \<times> nat \<times> nat"

record detector =
  dt_gap :: "(int \<times> int) option"
  dt_failed :: bool

definition detector_default :: detector where
  "detector_default = \<lparr>dt_gap = None, dt_failed = False\<rparr>"

text \<open>\<open>tolerance\<close> is \<open>CLOCK_TOLERANCE\<close>, 50 milliseconds on Windows and a nanosecond elsewhere.\<close>

definition clock_tolerance :: "bool \<Rightarrow> nat" where
  "clock_tolerance windows = (if windows then 50000000 else 1)"

definition detector_observe :: "nat \<Rightarrow> clock_pair option \<Rightarrow> detector \<Rightarrow> bool \<times> detector" where
  "detector_observe tolerance pair d =
     (case pair of
        None \<Rightarrow> (\<not> dt_failed d, d\<lparr>dt_failed := True\<rparr>)
      | Some (running, before, after) \<Rightarrow>
          if after < before then (\<not> dt_failed d, d\<lparr>dt_failed := True\<rparr>)
          else
            let gap = (int running - int after - int tolerance, int running - int before + int tolerance);
                intersection = map_option (\<lambda>old. (max (fst old) (fst gap), min (snd old) (snd gap))) (dt_gap d);
                changed = some_and intersection (\<lambda>range. snd range < fst range);
                recovered = dt_failed d
            in (changed \<or> recovered,
                \<lparr>dt_gap = (if changed \<or> recovered then Some gap
                   else case intersection of Some r \<Rightarrow> Some r | None \<Rightarrow> Some gap), dt_failed = False\<rparr>))"

record resume_clock =
  rc_epoch :: nat
  rc_detector :: "detector option"

text \<open>\<open>None\<close> is the panic of an exhausted epoch.\<close>

definition notify_resume :: "resume_clock \<Rightarrow> resume_clock option" where
  "notify_resume c = map_option (\<lambda>e. c\<lparr>rc_epoch := e\<rparr>) (checked_add 64 (rc_epoch c) 1)"

definition resume_epoch :: "nat \<Rightarrow> clock_pair option \<Rightarrow> resume_clock \<Rightarrow> (nat \<times> resume_clock) option" where
  "resume_epoch tolerance pair c =
     (case rc_detector c of
        None \<Rightarrow> Some (rc_epoch c, c)
      | Some d \<Rightarrow>
          let (resumed, d) = detector_observe tolerance pair d; c = c\<lparr>rc_detector := Some d\<rparr>
          in map_option (\<lambda>c. (rc_epoch c, c)) (if resumed then notify_resume c else Some c))"

definition resume_clock_valid :: "resume_clock \<Rightarrow> bool" where
  "resume_clock_valid c = none_or (rc_detector c) (\<lambda>d. \<not> dt_failed d)"

section \<open>The epoch tells every change of validity\<close>

lemma detector_validity: "fst (detector_observe w pair d) \<or> dt_failed (snd (detector_observe w pair d)) = dt_failed d"
  by (auto simp: detector_observe_def Let_def split: option.split)

lemma notify_resume_step: "notify_resume c = Some c' \<Longrightarrow> rc_epoch c' = Suc (rc_epoch c)"
  by (auto simp: notify_resume_def checked_add_def split: if_splits)

lemma resume_epoch_step:
  assumes "resume_epoch w pair c = Some (e, c')"
  shows "e = rc_epoch c'" "rc_epoch c \<le> rc_epoch c'"
    "rc_epoch c' = rc_epoch c \<Longrightarrow> resume_clock_valid c' = resume_clock_valid c"
proof -
  consider "rc_detector c = None" "c' = c" "e = rc_epoch c"
    | d where "rc_detector c = Some d" "fst (detector_observe w pair d)" "rc_epoch c' = Suc (rc_epoch c)" "e = rc_epoch c'"
    | d where "rc_detector c = Some d" "\<not> fst (detector_observe w pair d)" "e = rc_epoch c'"
        "c' = c\<lparr>rc_detector := Some (snd (detector_observe w pair d))\<rparr>"
    using assms by (auto simp: resume_epoch_def Let_def split: option.splits prod.splits if_splits dest!: notify_resume_step)
  then have "e = rc_epoch c' \<and> rc_epoch c \<le> rc_epoch c'
      \<and> (rc_epoch c' = rc_epoch c \<longrightarrow> resume_clock_valid c' = resume_clock_valid c)"
  proof cases
    case (3 d)
    then show ?thesis using detector_validity [of w pair d] by (simp add: resume_clock_valid_def)
  qed auto
  then show "e = rc_epoch c'" "rc_epoch c \<le> rc_epoch c'"
    "rc_epoch c' = rc_epoch c \<Longrightarrow> resume_clock_valid c' = resume_clock_valid c" by blast+
qed

text \<open>A run of the clock: readings, and notifications of the system between them.\<close>

inductive clock_run :: "nat \<Rightarrow> (nat \<Rightarrow> resume_clock) \<Rightarrow> bool" for w :: nat where
  "(\<And>n. (\<exists>pair e. resume_epoch w pair (cs n) = Some (e, cs (Suc n))) \<or> notify_resume (cs n) = Some (cs (Suc n)))
   \<Longrightarrow> clock_run w cs"

lemma clock_run_step:
  assumes "clock_run w cs"
  shows "rc_epoch (cs n) \<le> rc_epoch (cs (Suc n))"
    "rc_epoch (cs (Suc n)) = rc_epoch (cs n) \<Longrightarrow> resume_clock_valid (cs (Suc n)) = resume_clock_valid (cs n)"
proof -
  have step: "(\<exists>pair e. resume_epoch w pair (cs n) = Some (e, cs (Suc n))) \<or> notify_resume (cs n) = Some (cs (Suc n))"
    using assms by (auto elim: clock_run.cases)
  then show "rc_epoch (cs n) \<le> rc_epoch (cs (Suc n))"
    by (auto dest: resume_epoch_step(2) notify_resume_step)
  show "resume_clock_valid (cs (Suc n)) = resume_clock_valid (cs n)" if "rc_epoch (cs (Suc n)) = rc_epoch (cs n)"
    using step that by (auto dest: resume_epoch_step(3) notify_resume_step)
qed

text \<open>What a source relies on.\<close>

definition clock_honest :: "actor_environment \<Rightarrow> bool" where
  "clock_honest env \<longleftrightarrow> mono (ae_epoch env)
     \<and> (\<forall>m n. ae_epoch env m = ae_epoch env n \<longrightarrow> ae_clock_valid env m = ae_clock_valid env n)"

lemma resume_clock_honest:
  assumes run: "clock_run w cs" and "ae_epoch env = (\<lambda>n. rc_epoch (cs n))" "ae_clock_valid env = (\<lambda>n. resume_clock_valid (cs n))"
  shows "clock_honest env"
proof -
  have up: "mono (\<lambda>n. rc_epoch (cs n))"
    by (rule incseq_SucI) (rule clock_run_step(1) [OF run])
  have flat: "resume_clock_valid (cs (m + k)) = resume_clock_valid (cs m)" if "rc_epoch (cs (m + k)) = rc_epoch (cs m)" for m k
    using that
  proof (induction k)
    case (Suc k)
    have "rc_epoch (cs m) \<le> rc_epoch (cs (m + k))" "rc_epoch (cs (m + k)) \<le> rc_epoch (cs (m + Suc k))"
      using up by (auto simp: mono_def)
    then show ?case using Suc clock_run_step(2) [OF run, of "m + k"] by simp
  qed simp
  have "resume_clock_valid (cs m) = resume_clock_valid (cs n)" if "rc_epoch (cs m) = rc_epoch (cs n)" for m n
  proof (cases "m \<le> n")
    case True
    then have "m + (n - m) = n" by simp
    then show ?thesis using flat [of m "n - m"] that by metis
  next
    case False
    then have "n + (m - n) = m" by simp
    then show ?thesis using flat [of n "m - n"] that by metis
  qed
  then show ?thesis unfolding clock_honest_def assms(2,3) using up by blast
qed

end
