(* ===== verification/Source_Access.thy ===== *)
theory Source_Access imports Resume begin

text \<open>
  What an actor promises its clients about access to the device: an abstract protocol of leases, one
  controller, and the latch of an uncertain write, which the actor refines.
\<close>

section \<open>The protocol\<close>

record access =
  lessees :: "nat set"
  controller :: "nat option"
  latched :: bool

datatype access_label = Wrote nat bool | Retired

text \<open>\<open>Wrote l u\<close> is a write dispatched for lease \<open>l\<close>; \<open>u\<close> when its outcome is unknown.\<close>

inductive access_step :: "access \<Rightarrow> access_label list \<Rightarrow> access \<Rightarrow> bool" where
  enter: "l \<noteq> 0 \<Longrightarrow> access_step a [] (a\<lparr>lessees := insert l (lessees a)\<rparr>)"
| leave: "access_step a [] (a\<lparr>lessees := lessees a - L\<rparr>)"
| take_control: "l \<in> lessees a \<Longrightarrow> controller a = None \<Longrightarrow> access_step a [] (a\<lparr>controller := Some l\<rparr>)"
| yield_control: "access_step a [] (a\<lparr>controller := None\<rparr>)"
| latch: "access_step a [] (a\<lparr>latched := True\<rparr>)"
| wrote: "l \<in> lessees a \<Longrightarrow> controller a = Some l \<Longrightarrow> \<not> latched a \<Longrightarrow> access_step a [Wrote l u] (a\<lparr>latched := u\<rparr>)"
| retire: "lessees a = {} \<Longrightarrow> access_step a [Retired] (a\<lparr>controller := None, latched := False\<rparr>)"

inductive access_run :: "access \<Rightarrow> access_label list \<Rightarrow> access \<Rightarrow> bool" for a where
  stay: "access_run a [] a"
| step: "access_run a ls b \<Longrightarrow> access_step b l c \<Longrightarrow> access_run a (ls @ l) c"

lemma access_run_trans: "access_run b ms c \<Longrightarrow> access_run a ls b \<Longrightarrow> access_run a (ls @ ms) c"
proof (induction rule: access_run.induct)
  case (step ms c l d)
  then show ?case using access_run.step [of a "ls @ ms" c l d] by simp
qed simp

lemma access_silent: "access_run a ls b \<Longrightarrow> access_step b [] c \<Longrightarrow> access_run a ls c"
  using access_run.step [of a ls b "[]" c] by simp

text \<open>Once latched, nothing is written before the source is retired.\<close>

lemma latched_step:
  "access_step a ls b \<Longrightarrow> latched a \<Longrightarrow> Retired \<notin> set ls \<Longrightarrow> ls = [] \<and> latched b"
  by (induction rule: access_step.induct) auto

lemma latched_run: "access_run a ls b \<Longrightarrow> latched a \<Longrightarrow> Retired \<notin> set ls \<Longrightarrow> ls = [] \<and> latched b"
  by (induction rule: access_run.induct) (auto dest: latched_step)

text \<open>A run splits where its labels split.\<close>

lemma access_step_labels: "access_step a ls b \<Longrightarrow> length ls \<le> 1"
  by (induction rule: access_step.induct) auto

lemma access_run_split:
  "access_run a ls c \<Longrightarrow> ls = xs @ x # ys \<Longrightarrow>
   \<exists>b b'. access_run a xs b \<and> access_step b [x] b' \<and> access_run b' ys c"
proof (induction arbitrary: ys rule: access_run.induct)
  case (step ls b l c)
  show ?case
  proof (cases "l = [] \<or> ys \<noteq> []")
    case True
    then obtain zs where "ls = xs @ x # zs" "ys = zs @ l"
      using step.prems access_step_labels [OF step.hyps(2)]
      by (cases l) (auto simp: append_eq_append_conv2 append_eq_Cons_conv Cons_eq_append_conv)
    then show ?thesis using step.IH [of zs] step.hyps(2) access_run.step by blast
  next
    case False
    then have "ls = xs" "l = [x]"
      using step.prems access_step_labels [OF step.hyps(2)] by (cases l; simp)+
    then show ?thesis using step.hyps False access_run.stay by blast
  qed
qed simp

text \<open>The safety of the protocol: a write of unknown outcome bars every further write until the source is retired.\<close>

lemma unknown_write_bars_writes:
  assumes "access_run a (xs @ Wrote l True # ys @ Wrote k u # zs) c"
  shows "Retired \<in> set ys"
proof (rule ccontr)
  assume quiet: "Retired \<notin> set ys"
  obtain b b' where b: "access_step b [Wrote l True] b'" "access_run b' (ys @ Wrote k u # zs) c"
    using access_run_split [OF assms refl] by blast
  obtain d d' where d: "access_run b' ys d" "access_step d [Wrote k u] d'"
    using access_run_split [OF b(2) refl] by blast
  have "latched b'" using b(1) by (auto elim: access_step.cases)
  then have "latched d" using latched_run [OF d(1)] quiet by blast
  then show False using d(2) by (auto elim: access_step.cases)
qed

section \<open>The actor's view of the protocol\<close>

definition access_of :: "actor \<Rightarrow> access" where
  "access_of s = \<lparr>lessees = set (ac_leases s), controller = ac_controller s, latched = ac_write_uncertain s\<rparr>"

text \<open>The outcome of a write is unknown without an answer, after a host sleep, and after an error that does not tell.\<close>

definition unknown_outcome :: "(source_error + json) option \<Rightarrow> bool \<Rightarrow> bool" where
  "unknown_outcome r awake \<longleftrightarrow> \<not> awake \<or> (case r of
       None \<Rightarrow> True
     | Some (Inl e) \<Rightarrow> write_unknown e
     | Some (Inr _) \<Rightarrow> False)"

fun access_labels :: "actor_event list \<Rightarrow> access_label list" where
  "access_labels [] = []"
| "access_labels (AvWrite l _ r awake # es) = Wrote l (unknown_outcome r awake) # access_labels es"
| "access_labels (AvRetired # es) = Retired # access_labels es"
| "access_labels (_ # es) = access_labels es"

lemma access_labels_append [simp]: "access_labels (es @ fs) = access_labels es @ access_labels fs"
  by (induction es rule: access_labels.induct) simp_all

text \<open>
  \<open>due a h u\<close>: the labels since \<open>h\<close> are a run of the protocol from \<open>a\<close> to the actor's view, but for the
  latch, which the run has set already when \<open>u\<close>.
\<close>

definition due :: "access \<Rightarrow> access_label list \<Rightarrow> bool \<Rightarrow> actor \<Rightarrow> bool" where
  "due a h u s \<longleftrightarrow> clock_honest (ac_env s)
     \<and> (\<exists>ls. access_labels (ac_trace s) = h @ ls
          \<and> access_run a ls ((access_of s)\<lparr>latched := latched (access_of s) \<or> u\<rparr>))"

abbreviation course :: "access \<Rightarrow> access_label list \<Rightarrow> actor \<Rightarrow> bool" where
  "course a h \<equiv> due a h False"

lemma due_cong: "access_of t = access_of s \<Longrightarrow> access_labels (ac_trace t) = access_labels (ac_trace s)
    \<Longrightarrow> ac_env t = ac_env s \<Longrightarrow> due a h u t = due a h u s"
  by (simp add: due_def)

lemma course_silent:
  assumes "course a h s" "access_step (access_of s) [] (access_of t)" "ac_trace t = ac_trace s" "ac_env t = ac_env s"
  shows "course a h t"
  using assms access_silent by (fastforce simp: due_def)

lemma course_label:
  assumes "course a h s" "access_step (access_of s) l (access_of t)" "ac_env t = ac_env s"
    and "access_labels (ac_trace t) = access_labels (ac_trace s) @ l"
  shows "course a h t"
proof -
  obtain ls where ls: "access_labels (ac_trace s) = h @ ls" "access_run a ls (access_of s)"
    using assms(1) by (auto simp: due_def)
  have "access_run a (ls @ l) (access_of t)" using ls(2) assms(2) by (rule access_run.step)
  then show ?thesis using assms ls(1) by (auto simp: due_def)
qed

section \<open>Assertions about clients, time and connections\<close>

definition asleep :: "actor \<Rightarrow> bool" where
  "asleep s \<longleftrightarrow> (\<forall>k \<ge> ac_tick s. ae_epoch (ac_env s) k \<noteq> sn_resume_epoch (ac_state s))"

definition may_write :: "nat \<Rightarrow> actor \<Rightarrow> bool" where
  "may_write l s \<longleftrightarrow> l \<in> set (ac_leases s) \<and> ac_controller s = Some l \<and> \<not> ac_write_uncertain s"

text \<open>
  What is mute for the protocol: an assertion \<open>I\<close> that depends on leases, controller, latch, labels and
  scripts only is preserved by everything that leaves these alone.
\<close>

definition mute :: "(actor \<Rightarrow> bool) \<Rightarrow> bool" where
  "mute I \<longleftrightarrow> (\<forall>s t. ac_leases t = ac_leases s \<longrightarrow> ac_controller t = ac_controller s
     \<longrightarrow> ac_write_uncertain t = ac_write_uncertain s \<longrightarrow> access_labels (ac_trace t) = access_labels (ac_trace s)
     \<longrightarrow> ac_env t = ac_env s \<longrightarrow> I t = I s)"

lemma muteD:
  "mute I \<Longrightarrow> I s \<Longrightarrow> ac_leases t = ac_leases s \<Longrightarrow> ac_controller t = ac_controller s
   \<Longrightarrow> ac_write_uncertain t = ac_write_uncertain s \<Longrightarrow> access_labels (ac_trace t) = access_labels (ac_trace s)
   \<Longrightarrow> ac_env t = ac_env s \<Longrightarrow> I t"
  unfolding mute_def by blast

named_theorems muted \<open>assertions about access, and actions that leave every such assertion alone\<close>

lemma mute_due [muted]: "mute (due a h u)"
  by (simp add: mute_def due_def access_of_def)

lemma mute_may_write [muted]: "mute (may_write l)"
  by (simp add: mute_def may_write_def)

lemma mute_leases [muted]: "mute (\<lambda>s. P (ac_leases s) (ac_controller s))"
  by (simp add: mute_def)

lemma mute_conj [muted]: "mute I \<Longrightarrow> mute J \<Longrightarrow> mute (\<lambda>s. I s \<and> J s)"
  unfolding mute_def by blast

lemma mute_const [muted]: "mute (\<lambda>s. b)"
  by (simp add: mute_def)

lemma mute_imp [muted]: "mute I \<Longrightarrow> mute (\<lambda>s. b \<longrightarrow> I s)"
  unfolding mute_def by blast

lemma mute_upd:
  "mute I \<Longrightarrow> (\<And>s. ac_leases (f s) = ac_leases s \<and> ac_controller (f s) = ac_controller s
      \<and> ac_write_uncertain (f s) = ac_write_uncertain s \<and> access_labels (ac_trace (f s)) = access_labels (ac_trace s)
      \<and> ac_env (f s) = ac_env s) \<Longrightarrow> preserves I (upd f)"
  by (rule preserves_upd) (metis muteD)

lemma mute_tick [quiet]: "mute I \<Longrightarrow> preserves I act_tick"
  unfolding preserves_def act_tick_def by (auto elim: muteD)

lemma mute_scripted [quiet]: "mute I \<Longrightarrow> preserves I (scripted f)"
  unfolding scripted_def by (intro quiet)

lemma mute_named [quiet]:
  "mute I \<Longrightarrow> preserves I instant" "mute I \<Longrightarrow> preserves I fresh_uuid" "mute I \<Longrightarrow> preserves I current_epoch"
  unfolding instant_def fresh_uuid_def current_epoch_def by (erule mute_scripted)+

lemma mute_emit: "mute I \<Longrightarrow> access_labels [e] = [] \<Longrightarrow> preserves I (act_emit e)"
  unfolding act_emit_def by (rule mute_upd) simp_all

lemma mute_emits [quiet]:
  assumes "mute I"
  shows "preserves I (act_emit AvReset)" "preserves I (act_emit AvRestartPoll)" "preserves I (act_emit AvFinished)"
    "preserves I (act_emit (AvSimulate l))" "preserves I (act_emit (AvPolled p))" "preserves I (act_emit (AvReply i r))"
  using assms by (simp_all add: mute_emit)

lemma mute_snapshot [quiet]: "mute I \<Longrightarrow> preserves I (on_snapshot f)"
  unfolding on_snapshot_def by (rule mute_upd) simp_all

lemma mute_fence_open [quiet]: "mute I \<Longrightarrow> preserves I fence_open"
  unfolding fence_open_def by (intro quiet)

lemma mute_fence [quiet]:
  assumes "mute I" "\<And>r open. access_labels [e r open] = []"
  shows "preserves I (fenced_call f e late)"
  unfolding fenced_call_def by (intro quiet mute_emit assms)

lemma mute_reply_closed [quiet]: "mute I \<Longrightarrow> preserves I (reply_closed i)"
  unfolding reply_closed_def by (intro quiet)

lemma mute_answer [quiet]: "mute I \<Longrightarrow> preserves I (answer_client i r)"
  unfolding answer_client_def by (intro quiet)

lemma mute_publish [quiet]: "mute I \<Longrightarrow> preserves I publish_source"
  unfolding publish_source_def by (intro quiet mute_upd) simp_all

lemma mute_fault [quiet]: "mute I \<Longrightarrow> preserves I (source_fault e)"
  unfolding source_fault_def by (intro quiet mute_upd) simp_all

lemma mute_resume [quiet]: "mute I \<Longrightarrow> preserves I resume_actor"
  unfolding resume_actor_def by (intro quiet mute_upd) simp_all

lemma mute_fault_if_lost [quiet]: "mute I \<Longrightarrow> preserves I (fault_if_lost r)"
  unfolding fault_if_lost_def by (intro quiet)

lemma mute_sample_again [quiet]: "mute I \<Longrightarrow> preserves I sample_again"
  unfolding sample_again_def by (intro quiet)

section \<open>Connecting and retiring\<close>

lemma leads_keep:
  assumes "preserves P m" "\<And>s. P s \<Longrightarrow> R s" "\<And>x. leads P (f x) Q R"
  shows "leads P (bnd m f) Q R"
proof (rule leads_bnd)
  show "leads P m (\<lambda>_. P) R"
    by (rule leads_weaken [OF leads_preserves [OF assms(1)]]) (auto intro: assms(2))
qed (rule assms(3))

lemma leads_stay: "preserves P m \<Longrightarrow> (\<And>s. P s \<Longrightarrow> R s) \<Longrightarrow> (\<And>x s. P s \<Longrightarrow> Q x s) \<Longrightarrow> leads P m Q R"
  by (rule leads_weaken [where P' = P and Q' = "\<lambda>_. P" and R' = P]) (auto intro: leads_preserves)

text \<open>Assertions that the latch cannot break.\<close>

definition latchable :: "(actor \<Rightarrow> bool) \<Rightarrow> bool" where
  "latchable I \<longleftrightarrow> mute I \<and> (\<forall>s. I s \<longrightarrow> I (s\<lparr>ac_write_uncertain := True\<rparr>))"

lemma latchable_mute: "latchable I \<Longrightarrow> mute I"
  by (simp add: latchable_def)

lemma latchable_course: "latchable (course a h)"
proof -
  have "course a h (s\<lparr>ac_write_uncertain := True\<rparr>)" if "course a h s" for s
    by (rule course_silent [OF that]) (use access_step.latch [of "access_of s"] in \<open>simp_all add: access_of_def\<close>)
  then show ?thesis by (simp add: latchable_def muted)
qed

lemma latchable_leases: "latchable I \<Longrightarrow> latchable (\<lambda>s. I s \<and> P (ac_leases s) (ac_controller s))"
  by (simp add: latchable_def muted)

lemma connect_leads:
  assumes I: "latchable I" and J: "mute J"
  shows "leads (\<lambda>s. I s \<and> J s) source_connect (\<lambda>r s. I s \<and> (is_ok r \<longrightarrow> J s)) I"
proof -
  let ?P = "\<lambda>s. I s \<and> J s"
  note mI = latchable_mute [OF I]
  have P: "mute ?P" using mI J by (rule mute_conj)
  have kept: "leads I (bnd m (\<lambda>_. ret (Inl e))) (\<lambda>r s. I s \<and> (is_ok r \<longrightarrow> J s)) I"
    if "preserves I m" for m :: "unit acting" and e :: source_error
    using that by (rule leads_keep) (auto intro: leads_return)
  have held: "leads ?P (bnd m (\<lambda>_. ret r)) (\<lambda>r s. I s \<and> (is_ok r \<longrightarrow> J s)) I"
    if "preserves ?P m" for m :: "unit acting" and r :: "source_error + unit"
    using that by (rule leads_keep) (auto intro: leads_return)
  have upd: "preserves ?P (upd f)" if "\<And>s. ac_leases (f s) = ac_leases s \<and> ac_controller (f s) = ac_controller s
      \<and> ac_write_uncertain (f s) = ac_write_uncertain s \<and> access_labels (ac_trace (f s)) = access_labels (ac_trace s)
      \<and> ac_env (f s) = ac_env s" for f :: "actor \<Rightarrow> actor"
    using P that by (rule mute_upd)
  show ?thesis
    unfolding source_connect_def
  proof (intro leads_keep [where P = ?P] leads_if quiet P upd)
    fix result :: "source_error + bool"
    show "leads ?P (case result of
       Inr False \<Rightarrow>
         (let error = source_error_new KConnecting ''Source connection is in progress'' in
          bnd (on_snapshot (\<lambda>t. t\<lparr>sn_error := Some error\<rparr>)) (\<lambda>_.
          bnd publish_source (\<lambda>_. ret (Inl error))))
     | Inr True \<Rightarrow>
         bnd (upd (\<lambda>s. s\<lparr>ac_connection_started := None\<rparr>)) (\<lambda>_.
         bnd fresh_uuid (\<lambda>g.
         bnd (on_snapshot (\<lambda>t. (new_generation g t)\<lparr>sn_transport_connected := True, sn_error := None\<rparr>)) (\<lambda>_.
         bnd publish_source (\<lambda>_. ret (Inr ())))))
     | Inl e \<Rightarrow>
         bnd (upd (\<lambda>s. if so_kind e = KUncertain then s\<lparr>ac_write_uncertain := True\<rparr> else s)) (\<lambda>_.
         bnd (source_fault e) (\<lambda>_. ret (Inl e)))) (\<lambda>r s. I s \<and> (is_ok r \<longrightarrow> J s)) I"
    proof (cases result)
      case (Inl e)
      have "leads ?P (upd (\<lambda>s. if so_kind e = KUncertain then s\<lparr>ac_write_uncertain := True\<rparr> else s)) (\<lambda>_. I) I"
        by (rule leads_modify) (use I in \<open>auto simp: latchable_def\<close>)
      then show ?thesis unfolding Inl sum.case by (rule leads_bnd) (intro kept quiet mI)
    next
      case (Inr b)
      show ?thesis
      proof (cases b)
        case True
        then have "b = True" by simp
        show ?thesis unfolding Inr \<open>b = True\<close> sum.case bool.case
          by (intro leads_keep [where P = ?P] quiet P upd leads_return) auto
      next
        case False
        then have "b = False" by simp
        show ?thesis unfolding Inr \<open>b = False\<close> sum.case bool.case Let_def
          by (intro leads_keep [where P = ?P] quiet P upd leads_return) auto
      qed
    qed
  qed (auto intro!: leads_return)
qed

lemma connect_keeps: "latchable I \<Longrightarrow> preserves I source_connect"
  using leads_ends [OF leads_weaken [OF connect_leads [of I "\<lambda>_. True"]], of I I] 
  by (auto simp: preserves_def muted)

lemma first_lease_keeps: "latchable I \<Longrightarrow> preserves I first_lease"
  using latchable_mute [of I] unfolding first_lease_def by (intro quiet connect_keeps mute_upd) simp_all

lemma reach_keeps: "latchable I \<Longrightarrow> preserves I (reach_source admitted expected message)"
  unfolding reach_source_def by (intro quiet connect_keeps)

text \<open>The source is retired when no client is left, and only then.\<close>

lemma disconnect_keeps: "preserves (\<lambda>s. course a h s \<and> ac_leases s = []) source_disconnect"
proof -
  let ?I = "\<lambda>s. course a h s \<and> ac_leases s = []"
  have mI: "mute ?I"
    by (rule mute_conj [OF mute_due mute_leases [where P = "\<lambda>ls _. ls = []"]])
  have retire: "preserves ?I (upd f)"
    if "\<And>s. access_of (f s) = (access_of s)\<lparr>controller := None, latched := False\<rparr> \<and> ac_leases (f s) = ac_leases s
        \<and> access_labels (ac_trace (f s)) = access_labels (ac_trace s) @ [Retired] \<and> ac_env (f s) = ac_env s"
    for f :: "actor \<Rightarrow> actor"
  proof (rule preserves_upd)
    fix s assume s: "?I s"
    then have "lessees (access_of s) = {}" by (simp add: access_of_def)
    then have "course a h (f s)"
      using that [of s] s course_label [of a h s "[Retired]" "f s"] access_step.retire [of "access_of s"] by simp
    then show "?I (f s)" using that [of s] s by simp
  qed
  have upd: "preserves ?I (upd (ac_connection_started_update (\<lambda>_. None)))"
    by (rule mute_upd [OF mI]) simp
  show ?thesis unfolding source_disconnect_def
    by (intro quiet upd mI retire) (simp_all add: access_of_def)
qed

lemma sends_then: "sends P m R \<Longrightarrow> (\<And>x. preserves R (f x)) \<Longrightarrow> sends P (bnd m f) R"
  unfolding sends_def preserves_def bnd_def by (auto split: prod.split result.split; metis snd_conv)

lemma preserves_after_get: "(\<And>x. sends (\<lambda>s. P s \<and> g s = x) (f x) P) \<Longrightarrow> preserves P (bnd (get g) f)"
  unfolding preserves_iff_sends by (rule sends_got)

lemma empty_disconnect:
  "sends (\<lambda>s. course a h s \<and> ac_leases s = []) (bnd source_disconnect (\<lambda>_. ret ())) (course a h)"
proof (rule sends_weaken)
  show "sends (\<lambda>s. course a h s \<and> ac_leases s = []) (bnd source_disconnect (\<lambda>_. ret ()))
      (\<lambda>s. course a h s \<and> ac_leases s = [])"
    unfolding preserves_iff_sends [symmetric] by (intro quiet disconnect_keeps)
qed simp_all

lemma retire_last:
  assumes "\<And>x. preserves (course a h) (f x)"
  shows "preserves (course a h) (bnd (get (\<lambda>s. c s \<and> ac_leases s = []))
    (\<lambda>last. bnd (if last then bnd source_disconnect (\<lambda>_. ret ()) else ret ()) f))"
proof (rule preserves_after_get, rule sends_then [OF _ assms])
  fix last :: bool
  show "sends (\<lambda>s. course a h s \<and> (c s \<and> ac_leases s = []) = last)
      (if last then bnd source_disconnect (\<lambda>_. ret ()) else ret ()) (course a h)"
    by (cases last) (auto intro: sends_ret sends_weaken [OF empty_disconnect])
qed

section \<open>Every command is a run of the protocol\<close>

lemma course_remove: "course a h s \<Longrightarrow> course a h (s\<lparr>ac_leases := removeAll l (ac_leases s)\<rparr>)"
  by (erule course_silent) (use access_step.leave [of "access_of s" "{l}"] in \<open>simp_all add: access_of_def\<close>)

lemma course_dismiss: "course a h s \<Longrightarrow> course a h (s\<lparr>ac_leases := []\<rparr>)"
  by (erule course_silent) (use access_step.leave [of "access_of s" "set (ac_leases s)"] in \<open>simp_all add: access_of_def\<close>)

lemma course_yield: "course a h s \<Longrightarrow> course a h (s\<lparr>ac_controller := None\<rparr>)"
  by (erule course_silent) (use access_step.yield_control [of "access_of s"] in \<open>simp_all add: access_of_def\<close>)

lemma course_take:
  "course a h s \<Longrightarrow> l \<in> set (ac_leases s) \<Longrightarrow> ac_controller s = None \<Longrightarrow> course a h (s\<lparr>ac_controller := Some l\<rparr>)"
  by (erule course_silent) (use access_step.take_control [of l "access_of s"] in \<open>simp_all add: access_of_def\<close>)

lemma course_enter: "course a h s \<Longrightarrow> l \<noteq> 0 \<Longrightarrow> course a h (s\<lparr>ac_leases := List.insert l (ac_leases s)\<rparr>)"
  by (erule course_silent) (use access_step.enter [of l "access_of s"] in \<open>simp_all add: access_of_def\<close>)

lemma simulation_course: "preserves (course a h) (do_simulation lease update i)"
  unfolding do_simulation_def by (intro quiet muted mute_upd) simp_all

lemma refresh_course: "preserves (course a h) (do_refresh lease i)"
  unfolding do_refresh_def refresh_failed_def by (intro quiet muted mute_upd) simp_all

lemma image_course: "preserves (course a h) (do_image lease expected i)"
  unfolding do_image_def by (intro quiet muted reach_keeps latchable_course) simp_all

lemma read_course: "preserves (course a h) (do_read lease expected member i)"
  unfolding do_read_def by (intro quiet muted reach_keeps latchable_course) simp_all

lemma release_course: "preserves (course a h) (do_release lease i)"
  unfolding do_release_def
  by (intro quiet muted preserves_upd retire_last course_remove) (auto intro: course_yield)

lemma acquire_course: "preserves (course a h) (do_acquire lease i)"
proof (cases "lease = 0")
  case True
  then show ?thesis unfolding do_acquire_def by (simp add: quiet muted)
next
  case False
  have finish: "preserves (course a h) (bnd (get (\<lambda>s. ac_leases s = []))
      (\<lambda>empty. if empty then bnd source_disconnect (\<lambda>_. ret ()) else publish_source))"
  proof (rule preserves_after_get)
    fix empty :: bool
    have "sends (course a h) publish_source (course a h)"
      unfolding preserves_iff_sends [symmetric] by (intro quiet muted)
    then show "sends (\<lambda>s. course a h s \<and> (ac_leases s = []) = empty)
        (if empty then bnd source_disconnect (\<lambda>_. ret ()) else publish_source) (course a h)"
      by (cases empty) (auto intro: sends_weaken [OF empty_disconnect] sends_weaken)
  qed
  have "preserves (course a h) (upd (\<lambda>s. s\<lparr>ac_leases := List.insert lease (ac_leases s)\<rparr>))"
    using False by (intro preserves_upd course_enter)
  moreover have "preserves (course a h) (upd (\<lambda>s. s\<lparr>ac_leases := removeAll lease (ac_leases s)\<rparr>))"
    by (intro preserves_upd course_remove)
  ultimately show ?thesis
    using False unfolding do_acquire_def if_not_P [OF False]
    by - (assumption | rule finish first_lease_keeps latchable_course muted quiet)+
qed

lemma authorized_ok:
  "authorized l wr s = Inr () \<longleftrightarrow> l \<in> set (ac_leases s) \<and> (wr \<longrightarrow> \<not> ac_write_uncertain s \<and> ac_controller s = Some l)"
  by (auto simp: authorized_def ensure_def and_then_def)

lemma control_course: "preserves (course a h) (do_control lease acquire i)"
  unfolding do_control_def
proof (intro preserves_after_get sends_got)
  fix previous result
  let ?K = "\<lambda>s. course a h s
    \<and> (acquire \<longrightarrow> ac_controller s = Some lease \<longrightarrow> previous = None \<or> previous = Some lease)"
  have K: "mute ?K"
    by (rule mute_conj [OF mute_due mute_leases
          [where P = "\<lambda>_ c. acquire \<longrightarrow> c = Some lease \<longrightarrow> previous = None \<or> previous = Some lease"]])
  have same: "course a h (s\<lparr>ac_controller := Some lease\<rparr>)" if "course a h s" "ac_controller s = Some lease" for s
    using that by (auto simp: due_def access_of_def)
  have undo: "sends ?K (upd (\<lambda>s. if \<not> sent \<and> acquire \<and> ac_controller s = Some lease
      then s\<lparr>ac_controller := previous\<rparr> else s)) (course a h)" for sent
    by (rule sendsI) (auto simp: upd_def intro: course_yield same)
  show "sends (\<lambda>s. (course a h s \<and> ac_controller s = previous) \<and> admit_control lease acquire s = result)
     (bnd (upd (\<lambda>s. if \<not> is_ok result then s
        else if acquire then s\<lparr>ac_controller := Some lease\<rparr>
        else if ac_controller s = Some lease then s\<lparr>ac_controller := None\<rparr> else s)) (\<lambda>_.
     bnd (answer_client i (map_sum id (\<lambda>_. AnUnit) result)) (\<lambda>sent.
     upd (\<lambda>s. if \<not> sent \<and> acquire \<and> ac_controller s = Some lease then s\<lparr>ac_controller := previous\<rparr> else s))))
     (course a h)"
  proof (rule sends_upd [where R = ?K])
    fix s assume s: "(course a h s \<and> ac_controller s = previous) \<and> admit_control lease acquire s = result"
    have "result = Inr () \<Longrightarrow> lease \<in> set (ac_leases s) \<and> (acquire \<longrightarrow> previous = None \<or> previous = Some lease)"
      using s by (auto simp: admit_control_def and_then_def ensure_def authorized_ok split: sum.splits if_splits)
    then show "?K (if \<not> is_ok result then s
        else if acquire then s\<lparr>ac_controller := Some lease\<rparr>
        else if ac_controller s = Some lease then s\<lparr>ac_controller := None\<rparr> else s)"
      using s same [of s] course_take [of a h s lease] course_yield [of a h s] by (cases result) auto
  next
    show "sends ?K (bnd (answer_client i (map_sum id (\<lambda>_. AnUnit) result)) (\<lambda>sent.
       upd (\<lambda>s. if \<not> sent \<and> acquire \<and> ac_controller s = Some lease then s\<lparr>ac_controller := previous\<rparr> else s)))
       (course a h)"
      by (rule sends_bnd) (use undo K in \<open>auto intro: quiet\<close>)
  qed
qed

section \<open>A write and its outcome\<close>

lemma honest_sleep:
  assumes "clock_honest env" "ae_epoch env m = e" "ae_clock_valid env m" "m \<le> n"
    and "\<not> (ae_epoch env n = e \<and> ae_clock_valid env n)" "n \<le> k"
  shows "ae_epoch env k \<noteq> e"
proof
  assume k: "ae_epoch env k = e"
  have "mono (ae_epoch env)" using assms(1) by (simp add: clock_honest_def)
  then have "ae_epoch env m \<le> ae_epoch env n" "ae_epoch env n \<le> ae_epoch env k"
    using assms(4,6) by (auto dest: monoD)
  then have "ae_epoch env n = ae_epoch env m" using assms(2) k by simp
  moreover from this have "ae_clock_valid env n = ae_clock_valid env m"
    using assms(1) unfolding clock_honest_def by blast
  ultimately show False using assms(2,3,5) by simp
qed

text \<open>What holds once a write was offered to the backend and answered with \<open>r\<close>.\<close>

definition written :: "access \<Rightarrow> access_label list \<Rightarrow> source_error + json \<Rightarrow> actor \<Rightarrow> bool" where
  "written a h r s \<longleftrightarrow> course a h s
     \<or> due a h True s \<and> (asleep s \<or> (\<exists>e. r = Inl e \<and> write_unknown e))"

lemma uncertain_unknown: "write_unknown source_uncertain"
  by (simp add: write_unknown_def source_uncertain_def source_error_new_def)

lemma fence_writes:
  "leads (\<lambda>s. course a h s \<and> may_write l s) (fenced_call ae_write (AvWrite l member) source_uncertain) (written a h) (\<lambda>_. False)"
proof (rule leadsI)
  fix s assume s: "course a h s \<and> may_write l s"
  let ?e = "sn_resume_epoch (ac_state s)" and ?n = "ac_tick s" and ?env = "ac_env s"
  define before where "before = (ae_epoch ?env ?n = ?e \<and> ae_clock_valid ?env ?n \<and> ae_epoch ?env (Suc ?n) = ?e)"
  define after where "after = (ae_epoch ?env (?n + 3) = ?e \<and> ae_clock_valid ?env (?n + 3))"
  define r where "r = ae_write ?env (?n + 2)"
  define t where "t = s\<lparr>ac_tick := ?n + 4, ac_trace := ac_trace s @ [AvWrite l member r after]\<rparr>"
  define x where "x = (if \<not> after then Inl resume_interrupted else case r of Some r \<Rightarrow> r | None \<Rightarrow> Inl source_uncertain)"
  have run: "fenced_call ae_write (AvWrite l member) source_uncertain s =
      (if before then (Returned x, t) else (Returned (Inl resume_interrupted), s\<lparr>ac_tick := ?n + 2\<rparr>))"
    unfolding fenced_call_def fence_open_def current_epoch_def scripted_def act_tick_def act_emit_def
    by (simp add: bnd_def get_def upd_def ret_def before_def after_def r_def t_def x_def eval_nat_numeral)
  have quiet: "course a h (s\<lparr>ac_tick := ?n + 2\<rparr>)"
    using s by (auto simp: due_def access_of_def)
  have "written a h x t" if before
  proof -
    obtain ls where ls: "access_labels (ac_trace s) = h @ ls" "access_run a ls (access_of s)"
      using s by (auto simp: due_def)
    have "access_step (access_of s) [Wrote l (unknown_outcome r after)]
        ((access_of s)\<lparr>latched := unknown_outcome r after\<rparr>)"
      using s by (intro access_step.wrote) (auto simp: access_of_def may_write_def)
    then have "access_run a (ls @ [Wrote l (unknown_outcome r after)])
        ((access_of s)\<lparr>latched := unknown_outcome r after\<rparr>)"
      using ls(2) by (blast intro: access_run.step)
    moreover have "access_of t = access_of s" "\<not> latched (access_of s)"
      using s by (auto simp: t_def access_of_def may_write_def)
    ultimately have d: "due a h (unknown_outcome r after) t"
      using s ls(1) by (auto simp: due_def t_def)
    have "asleep t" if "\<not> after"
    proof -
      have "clock_honest ?env" using s by (simp add: due_def)
      then have "ae_epoch ?env k \<noteq> ?e" if "?n + 3 \<le> k" for k
        using honest_sleep [of ?env ?n ?e "?n + 3" k] \<open>before\<close> \<open>\<not> after\<close> that by (simp add: before_def after_def)
      then show ?thesis by (simp add: asleep_def t_def)
    qed
    moreover have "\<exists>e. x = Inl e \<and> write_unknown e" if "unknown_outcome r after" after
      using that uncertain_unknown by (auto simp: unknown_outcome_def x_def split: option.splits sum.splits)
    ultimately show ?thesis
      using d by (cases "unknown_outcome r after"; cases after) (auto simp: written_def)
  qed
  then show "case fenced_call ae_write (AvWrite l member) source_uncertain s of
      (Returned x, t) \<Rightarrow> written a h x t | (_, t) \<Rightarrow> False"
    using quiet by (simp add: run written_def)
qed

lemma reach_leads:
  assumes "latchable I" "mute J"
  shows "leads (\<lambda>s. I s \<and> (is_ok admitted \<longrightarrow> J s)) (reach_source admitted expected message)
    (\<lambda>r s. I s \<and> (is_ok r \<longrightarrow> J s)) I"
proof (cases admitted)
  case (Inl e)
  then show ?thesis by (auto simp: reach_source_def intro: leads_return)
next
  case (Inr u)
  have "leads (\<lambda>s. I s \<and> (is_ok r \<longrightarrow> J s)) (case r of
           Inl e \<Rightarrow> ret (Inl e)
         | Inr _ \<Rightarrow>
             bnd (get (\<lambda>s. none_or expected (\<lambda>g. g = sn_generation (ac_state s)))) (\<lambda>same.
             ret (if same then Inr () else Inl (generation_changed message)))) (\<lambda>r s. I s \<and> (is_ok r \<longrightarrow> J s)) I"
    for r :: "source_error + unit"
    by (cases r) (auto intro!: leads_return leads_bnd [OF leads_read])
  note chosen = leads_bnd [OF connect_leads [OF assms] this]
  show ?thesis unfolding reach_source_def Inr sum.case
    by (rule leads_weaken [OF chosen]) auto
qed

definition outstanding :: "access \<Rightarrow> access_label list \<Rightarrow> source_error + json \<Rightarrow> actor \<Rightarrow> bool" where
  "outstanding a h r s \<longleftrightarrow> course a h s \<or> due a h True s \<and> (\<exists>e. r = Inl e \<and> write_unknown e)"

lemma settle_leads: "leads (outstanding a h r) (settle_write r) (\<lambda>_. course a h) (course a h)"
proof (cases "\<exists>e. r = Inl e \<and> write_unknown e")
  case True
  then obtain e where e: "r = Inl e" "write_unknown e" by blast
  have latches: "course a h (s\<lparr>ac_write_uncertain := True\<rparr>)" if "outstanding a h r s" for s
    using that latchable_course [of a h] by (auto simp: outstanding_def latchable_def due_def access_of_def)
  show ?thesis
    unfolding settle_write_def e sum.case if_P [OF e(2)] Let_def
  proof (rule leads_bnd)
    show "leads (outstanding a h (Inl e)) (upd (\<lambda>s. s\<lparr>ac_write_uncertain := True\<rparr>)) (\<lambda>_. course a h) (course a h)"
      using latches unfolding e by (rule leads_modify)
  qed (intro leads_preserves quiet muted)
next
  case False
  have "preserves (course a h) (settle_write r)"
    using False unfolding settle_write_def
    by (cases r) (auto intro!: quiet muted mute_upd split: if_splits)
  then show ?thesis
    by (rule leads_weaken [OF leads_preserves]) (use False in \<open>auto simp: outstanding_def\<close>)
qed

lemma epoch_leads:
  "leads (written a h r) current_epoch
     (\<lambda>epoch s. outstanding a h (if epoch = sn_resume_epoch (ac_state s) then r else Inl source_uncertain) s) (\<lambda>_. False)"
  unfolding current_epoch_def scripted_def act_tick_def
  by (rule leadsI) (use uncertain_unknown in \<open>auto simp: bnd_def get_def written_def outstanding_def due_def
      access_of_def asleep_def\<close>)

lemma leads_failing: "leads P m Q (\<lambda>_. False) \<Longrightarrow> leads P m Q R"
  by (erule leads_weaken) simp_all

lemma write_course: "preserves (course a h) (do_write lease expected member i)"
proof -
  let ?C = "course a h"
  let ?A = "\<lambda>(r :: source_error + unit) s. ?C s \<and> (is_ok r \<longrightarrow> may_write lease s)"
  let ?settle = "\<lambda>result same. bnd (settle_write (if same then result else Inl source_uncertain)) (\<lambda>result.
         bnd (answer_client i (map_sum id AnValue result)) (\<lambda>_. ret ()))"
  have settled: "leads (\<lambda>s. outstanding a h (if same then result else Inl source_uncertain) s)
      (?settle result same) (\<lambda>_. ?C) ?C" for result same
    by (rule leads_bnd [OF settle_leads]) (intro leads_preserves quiet muted)
  have epoch: "leads (\<lambda>s. outstanding a h (if epoch = sn_resume_epoch (ac_state s) then result else Inl source_uncertain) s)
      (bnd (get (\<lambda>s. epoch = sn_resume_epoch (ac_state s))) (?settle result)) (\<lambda>_. ?C) ?C" for epoch result
    by (rule leads_bnd [OF leads_get settled])
  have dispatched: "leads (\<lambda>s. ?C s \<and> may_write lease s)
      (bnd (fenced_call ae_write (AvWrite lease member) source_uncertain) (\<lambda>result.
         bnd current_epoch (\<lambda>epoch. bnd (get (\<lambda>s. epoch = sn_resume_epoch (ac_state s))) (?settle result)))) (\<lambda>_. ?C) ?C"
    by (intro leads_bnd [OF leads_failing [OF fence_writes]] leads_bnd [OF leads_failing [OF epoch_leads] epoch])
  have reached: "leads (?A r) (case r of
       Inl e \<Rightarrow> bnd (answer_client i (Inl e)) (\<lambda>_. ret ())
     | Inr _ \<Rightarrow> bnd (fenced_call ae_write (AvWrite lease member) source_uncertain) (\<lambda>result.
         bnd current_epoch (\<lambda>epoch. bnd (get (\<lambda>s. epoch = sn_resume_epoch (ac_state s))) (?settle result)))) (\<lambda>_. ?C) ?C"
    for r
  proof (cases r)
    case (Inl e)
    have "preserves ?C (bnd (answer_client i (Inl e)) (\<lambda>_. ret ()))" by (intro quiet muted)
    then show ?thesis unfolding Inl by (simp add: leads_preserves)
  next
    case (Inr u)
    show ?thesis unfolding Inr using dispatched by simp
  qed
  have "leads ?C (do_write lease expected member i) (\<lambda>_. ?C) ?C"
    unfolding do_write_def
  proof (rule leads_bnd)
    show "leads ?C (get (authorized lease True)) ?A ?C"
      by (rule leads_weaken [OF leads_get]) (auto simp: is_ok_iff authorized_ok may_write_def)
  next
    fix admitted
    show "leads (?A admitted) (bnd (reach_source admitted expected ''Source generation changed before dispatch'') (\<lambda>reached.
     case reached of
       Inl e \<Rightarrow> bnd (answer_client i (Inl e)) (\<lambda>_. ret ())
     | Inr _ \<Rightarrow> bnd (fenced_call ae_write (AvWrite lease member) source_uncertain) (\<lambda>result.
         bnd current_epoch (\<lambda>epoch. bnd (get (\<lambda>s. epoch = sn_resume_epoch (ac_state s))) (?settle result)))))
      (\<lambda>_. ?C) ?C"
      by (rule leads_bnd [OF reach_leads [OF latchable_course mute_may_write] reached])
  qed
  then show ?thesis unfolding preserves_def by (blast dest: leads_ends)
qed

lemma command_course: "preserves (course a h) (run_command c)"
  by (cases c) (simp_all add: unless_closed_def quiet muted simulation_course refresh_course acquire_course
      release_course control_course image_course read_course write_course)

lemma poll_course: "preserves (course a h) source_poll"
  unfolding source_poll_def finish_poll_def
  by (intro quiet muted connect_keeps latchable_course mute_upd) (simp_all split: sum.split)

lemma round_course: "preserves (course a h) (source_round w)"
  unfolding source_round_def reject_command_def
  by (cases w) (auto intro!: quiet muted poll_course command_course split: option.split)

lemma stop_course: "preserves (course a h) source_stop"
  unfolding source_stop_def preserves_iff_sends
proof (rule sends_upd)
  show "course a h (s\<lparr>ac_leases := []\<rparr>) \<and> ac_leases (s\<lparr>ac_leases := []\<rparr>) = []" if "course a h s" for s
    using that course_dismiss by simp
next
  show "sends (\<lambda>s. course a h s \<and> ac_leases s = []) (bnd source_disconnect (\<lambda>result.
     bnd (act_emit AvFinished) (\<lambda>_.
     bnd (scripted ae_finish) (\<lambda>drained.
     let result = and_then result (\<lambda>_. drained) in
     bnd (upd (\<lambda>s. s\<lparr>ac_state := (ac_state s)\<lparr>sn_error := Some (case result of Inl e \<Rightarrow> e
            | Inr _ \<Rightarrow> source_error_new KDisconnected ''Source actor stopped'')\<rparr>, ac_stopped := True\<rparr>)) (\<lambda>_.
     bnd publish_source (\<lambda>_.
     upd (\<lambda>s. s\<lparr>ac_completion := Some result\<rparr>))))))) (course a h)"
    (is "sends ?P (bnd source_disconnect ?rest) _")
  proof (rule sends_bnd [OF disconnect_keeps])
    fix result
    have "sends (course a h) (?rest result) (course a h)"
      unfolding preserves_iff_sends [symmetric] by (intro quiet muted mute_upd) simp_all
    then show "sends ?P (?rest result) (course a h)" by (rule sends_weaken) simp_all
  qed simp
qed

end
