(* ===== verification/Source_Safety.thy ===== *)
theory Source_Safety imports Source_Access begin

text \<open>
  The promises of a source to its clients: it refines the access protocol, it never writes again
  after a write of unknown outcome, and what it shows is what the device said since it was last
  connected. The witnesses run an actor against a device that loses every answer to a write.
\<close>

section \<open>An actor at work\<close>

definition quiet_environment :: "(nat \<Rightarrow> (source_error + json) option) \<Rightarrow> actor_environment" where
  "quiet_environment writes = \<lparr>ae_now = (\<lambda>_. 0), ae_instant = (\<lambda>_. 0), ae_epoch = (\<lambda>_. 0), ae_clock_valid = (\<lambda>_. True),
     ae_closed = (\<lambda>_ _. False), ae_connect = (\<lambda>_. Some (Inr True)), ae_disconnect = (\<lambda>_. Some (Inr ())),
     ae_finish = (\<lambda>_. Inr ()), ae_read = (\<lambda>_. Some (Inr JNull)), ae_write = writes,
     ae_sample = (\<lambda>_. Some (Inr batch_default)), ae_image = (\<lambda>_. None), ae_refresh = (\<lambda>_. None),
     ae_simulate = (\<lambda>_. Inr JNull), ae_connection_info = (\<lambda>_. None), ae_simulation_status = (\<lambda>_. None),
     ae_uuid = (\<lambda>n. n), ae_derive = (\<lambda>g e. g + e), ae_raise_to = (\<lambda>_ _. 1), ae_jitter = (\<lambda>_. 0)\<rparr>"

lemma quiet_honest: "clock_honest (quiet_environment writes)"
  by (simp add: clock_honest_def quiet_environment_def mono_def)

named_theorems running \<open>the steps of an actor in a quiet environment\<close>

lemma quiet_env [running]: 
 "ae_now (quiet_environment w) n = 0" "ae_instant (quiet_environment w) n = 0" "ae_epoch (quiet_environment w) n = 0"
 "ae_clock_valid (quiet_environment w) n" "\<not> ae_closed (quiet_environment w) n i" "ae_connect (quiet_environment w) n = Some (Inr True)"
 "ae_disconnect (quiet_environment w) n = Some (Inr ())" "ae_write (quiet_environment w) n = w n" "ae_connection_info (quiet_environment w) n = None"
 "ae_simulation_status (quiet_environment w) n = None" "ae_uuid (quiet_environment w) n = n"
 by (simp_all add: quiet_environment_def)

text \<open>A step is run before the rest of the program is looked at.\<close>

lemma bnd_opaque: "bnd m f s = bnd m f s"
  by (rule refl)

lemmas [running] = source_connect_def [THEN fun_cong] source_disconnect_def [THEN fun_cong]
  scripted_def [THEN fun_cong] act_tick_def act_emit_def [THEN fun_cong] instant_def [THEN fun_cong] fresh_uuid_def [THEN fun_cong]
  current_epoch_def [THEN fun_cong] on_snapshot_def [THEN fun_cong] fence_open_def [THEN fun_cong] fenced_call_def [THEN fun_cong]
  reply_closed_def [THEN fun_cong] answer_client_def [THEN fun_cong] source_fault_def [THEN fun_cong] resume_actor_def [THEN fun_cong]
  sample_again_def [THEN fun_cong] first_lease_def [THEN fun_cong] do_acquire_def [THEN fun_cong] do_release_def [THEN fun_cong] do_control_def [THEN fun_cong]
  reach_source_def [THEN fun_cong] settle_write_def [THEN fun_cong] do_write_def [THEN fun_cong] unless_closed_def [THEN fun_cong] source_round_def [THEN fun_cong]
  bnd_def get_def upd_def ret_def whenever_def authorized_def admit_control_def Let_def unknown_outcome_def new_generation_def clear_samples_def
  ensure_def and_then_def fault_if_lost_def [THEN fun_cong] is_cleanup_def reject_command_def [THEN fun_cong] write_unknown_def source_uncertain_def source_timeout_def
  source_error_new_def deadline_after_def max_instant_def

text \<open>Publishing touches only what is published.\<close>

definition shown :: "actor \<Rightarrow> actor" where "shown s = snd (publish_source s)"

lemma publish_shown [running]: "publish_source s = (Returned (), shown s)"
  by (simp add: shown_def publish_source_def running cong: bnd_opaque)

lemma shown_simps [simp]:
  "ac_leases (shown s) = ac_leases s" "ac_controller (shown s) = ac_controller s" "ac_write_uncertain (shown s) = ac_write_uncertain s"
  "ac_trace (shown s) = ac_trace s" "ac_env (shown s) = ac_env s" "sn_transport_connected (ac_state (shown s)) = sn_transport_connected (ac_state s)"
  "sn_resume_epoch (ac_state (shown s)) = sn_resume_epoch (ac_state s)" "ac_completion (shown s) = ac_completion s"
  "ac_connection_started (shown s) = ac_connection_started s" "ac_disconnect_result (shown s) = ac_disconnect_result s"
  "ac_connection_allowance (shown s) = ac_connection_allowance s" "ac_retrying (shown s) = ac_retrying s"
  by (simp_all add: shown_def publish_source_def running cong: bnd_opaque)

definition attended :: "(nat \<Rightarrow> (source_error + json) option) \<Rightarrow> actor \<Rightarrow> bool" where
  "attended w s \<longleftrightarrow> ac_env s = quiet_environment w \<and> sn_resume_epoch (ac_state s) = 0 \<and> ac_completion s = None"

lemma acquire_round:
  assumes "attended w s" "ac_leases s = []" "l \<noteq> 0" "\<not> sn_transport_connected (ac_state s)" "ac_connection_started s = None"
    "0 < ac_connection_allowance s"
  shows "\<exists>t. source_round (Queued 0 (CmdAcquire l i)) s = (Returned (), t) \<and> attended w t \<and> ac_leases t = [l]
    \<and> ac_controller t = ac_controller s \<and> ac_write_uncertain t = ac_write_uncertain s
    \<and> sn_transport_connected (ac_state t) \<and> access_labels (ac_trace t) = access_labels (ac_trace s)
    \<and> ac_disconnect_result t = None \<and> ac_connection_allowance t = ac_connection_allowance s"
  using assms by (simp add: attended_def running cong: bnd_opaque)

lemma control_round:
  assumes "attended w s" "l \<in> set (ac_leases s)" "ac_controller s = None"
  shows "\<exists>t. source_round (Queued 0 (CmdControl l True i)) s = (Returned (), t) \<and> attended w t
    \<and> ac_leases t = ac_leases s \<and> ac_controller t = Some l \<and> ac_write_uncertain t = ac_write_uncertain s
    \<and> sn_transport_connected (ac_state t) = sn_transport_connected (ac_state s)
    \<and> access_labels (ac_trace t) = access_labels (ac_trace s) \<and> ac_disconnect_result t = ac_disconnect_result s
    \<and> ac_connection_allowance t = ac_connection_allowance s"
  using assms by (simp add: attended_def running cong: bnd_opaque)

lemma lost_write_round:
  assumes "attended (\<lambda>_. None) s" "may_write l s" "sn_transport_connected (ac_state s)"
  shows "\<exists>t. source_round (Queued 0 (CmdWrite l None m ps i)) s = (Returned (), t) \<and> attended (\<lambda>_. None) t
    \<and> ac_leases t = ac_leases s \<and> access_labels (ac_trace t) = access_labels (ac_trace s) @ [Wrote l True]
    \<and> ac_disconnect_result t = ac_disconnect_result s \<and> ac_connection_allowance t = ac_connection_allowance s"
  using assms by (simp add: attended_def may_write_def running cong: bnd_opaque)

lemma release_round:
  assumes "attended w s" "ac_leases s = [l]" "ac_disconnect_result s = None"
  shows "\<exists>t. source_round (Queued 0 (CmdRelease l i)) s = (Returned (), t) \<and> attended w t \<and> ac_leases t = []
    \<and> ac_controller t = None \<and> \<not> ac_write_uncertain t \<and> \<not> sn_transport_connected (ac_state t)
    \<and> ac_connection_started t = None \<and> access_labels (ac_trace t) = access_labels (ac_trace s) @ [Retired]
    \<and> ac_connection_allowance t = ac_connection_allowance s"
  using assms by (simp add: attended_def running cong: bnd_opaque)

inductive actor_reaches :: "actor \<Rightarrow> actor \<Rightarrow> bool" for s where
  here: "actor_reaches s s"
| onward: "actor_reaches s t \<Longrightarrow> actor_step t u \<Longrightarrow> actor_reaches s u"

lemma attended_step: "attended w s \<Longrightarrow> source_round c s = (Returned (), t) \<Longrightarrow> actor_reaches r s \<Longrightarrow> actor_reaches r t"
  by (rule actor_reaches.onward [OF _ actor_step.step_round]) (simp_all add: attended_def)

text \<open>A client that takes a lease and control and writes, and one that lets go.\<close>

definition vacant :: "actor \<Rightarrow> bool" where
  "vacant s \<longleftrightarrow> attended (\<lambda>_. None) s \<and> ac_leases s = [] \<and> ac_controller s = None \<and> \<not> ac_write_uncertain s
     \<and> \<not> sn_transport_connected (ac_state s) \<and> ac_connection_started s = None \<and> 0 < ac_connection_allowance s"

definition holding :: "nat \<Rightarrow> actor \<Rightarrow> bool" where
  "holding l s \<longleftrightarrow> attended (\<lambda>_. None) s \<and> ac_leases s = [l] \<and> ac_disconnect_result s = None
     \<and> 0 < ac_connection_allowance s"

lemma reach_control:
  assumes "vacant s" "actor_reaches r s" "l \<noteq> 0"
  shows "\<exists>t. actor_reaches r t \<and> holding l t \<and> may_write l t \<and> sn_transport_connected (ac_state t)
    \<and> access_labels (ac_trace t) = access_labels (ac_trace s)"
proof -
  obtain t where t: "source_round (Queued 0 (CmdAcquire l 1)) s = (Returned (), t)" "attended (\<lambda>_. None) t"
      "ac_leases t = [l]" "ac_controller t = None" "\<not> ac_write_uncertain t" "sn_transport_connected (ac_state t)"
      "access_labels (ac_trace t) = access_labels (ac_trace s)" "ac_disconnect_result t = None" "0 < ac_connection_allowance t"
    using acquire_round [of "\<lambda>_. None" s l 1] assms(1,3) by (auto simp: vacant_def)
  have reached: "actor_reaches r t"
    using attended_step t(1) assms(1,2) by (auto simp: vacant_def)
  obtain u where u: "source_round (Queued 0 (CmdControl l True 2)) t = (Returned (), u)" "attended (\<lambda>_. None) u"
      "ac_leases u = [l]" "ac_controller u = Some l" "\<not> ac_write_uncertain u" "sn_transport_connected (ac_state u)"
      "access_labels (ac_trace u) = access_labels (ac_trace s)" "ac_disconnect_result u = None" "0 < ac_connection_allowance u"
    using control_round [of "\<lambda>_. None" t l 2] t by auto
  have "actor_reaches r u" using t(2) u(1) reached by (rule attended_step)
  then show ?thesis using u by (auto simp: holding_def may_write_def)
qed

lemma reach_lost_write:
  assumes "holding l s" "may_write l s" "sn_transport_connected (ac_state s)"
  shows "\<exists>t. actor_step s t \<and> holding l t \<and> access_labels (ac_trace t) = access_labels (ac_trace s) @ [Wrote l True]"
proof -
  obtain t where "source_round (Queued 0 (CmdWrite l None ''setpoint'' [] 3)) s = (Returned (), t)" "holding l t"
      "access_labels (ac_trace t) = access_labels (ac_trace s) @ [Wrote l True]"
    using lost_write_round [of s l "''setpoint''" "[]" 3] assms by (auto simp: holding_def)
  then show ?thesis using assms(1) by (auto simp: holding_def attended_def intro: actor_step.step_round)
qed

lemma reach_release:
  assumes "holding l s" "actor_reaches r s"
  shows "\<exists>t. actor_reaches r t \<and> vacant t \<and> access_labels (ac_trace t) = access_labels (ac_trace s) @ [Retired]"
proof -
  obtain t where t: "source_round (Queued 0 (CmdRelease l 5)) s = (Returned (), t)" "vacant t"
      "access_labels (ac_trace t) = access_labels (ac_trace s) @ [Retired]"
    using release_round [of "\<lambda>_. None" s l 5] assms(1) by (auto simp: holding_def vacant_def)
  have "actor_reaches r t" using attended_step t(1) assms by (auto simp: holding_def)
  then show ?thesis using t by blast
qed

definition demo_source :: "field_error list + actor" where
  "demo_source = source_spawn (quiet_environment (\<lambda>_. None)) 1 2 default_poll_policy False 30000000000"

lemma demo_starts: "\<exists>s. demo_source = Inr s \<and> vacant s \<and> ac_env s = quiet_environment (\<lambda>_. None) \<and> ac_trace s = []"
  by (simp add: demo_source_def source_spawn_def default_poll_policy_valid Let_def vacant_def attended_def quiet_env)

section \<open>Refinement and safety\<close>

lemma actor_step_course: "actor_step s t \<Longrightarrow> course a h s \<Longrightarrow> course a h t"
  by (induction rule: actor_step.induct) (auto dest: preservesD [OF round_course] preservesD [OF stop_course])

lemma course_start: "clock_honest (ac_env s) \<Longrightarrow> course (access_of s) (access_labels (ac_trace s)) s"
  by (simp add: due_def access_run.stay)

text \<open>
  C9: The actor of a source refines the access protocol. Every round of its loop (a notification, a
  due poll, any command with any interleaving of timeouts, lost answers, host resumes and vanished
  clients) and its shutdown is a run of the protocol: a write is dispatched only for a client that
  holds a lease and the control lease while no earlier outcome is unknown, a write of unknown outcome
  latches the source, and the source is retired only when no lease is left.
\<close>

theorem actor_refines_access:
  assumes "actor_step s t" "clock_honest (ac_env s)"
  shows "\<exists>ls. access_labels (ac_trace t) = access_labels (ac_trace s) @ ls \<and> access_run (access_of s) ls (access_of t)"
  using actor_step_course [OF assms(1) course_start [OF assms(2)]] by (auto simp: due_def)

lemma actor_refines_access_witness:
  "\<exists>s t. actor_step s t \<and> clock_honest (ac_env s) \<and> access_labels (ac_trace t) = access_labels (ac_trace s) @ [Wrote 7 True]
     \<and> access_run (access_of s) [Wrote 7 True] (access_of t)"
proof -
  obtain r s where "vacant r" and s: "holding 7 s" "may_write 7 s" "sn_transport_connected (ac_state s)"
    using demo_starts reach_control [OF _ actor_reaches.here, of _ 7] by fastforce
  then obtain t where t: "actor_step s t" "access_labels (ac_trace t) = access_labels (ac_trace s) @ [Wrote 7 True]"
    using reach_lost_write by blast
  have honest: "clock_honest (ac_env s)" using s(1) by (simp add: holding_def attended_def quiet_honest)
  show ?thesis using actor_refines_access [OF t(1) honest] t honest by auto
qed
lemma reaches_course: "actor_reaches s t \<Longrightarrow> course a h s \<Longrightarrow> course a h t"
  by (induction rule: actor_reaches.induct) (auto dest: actor_step_course)

text \<open>
  C3: From its start, under an honest resume clock, a source never sends another write to its device
  after a write whose outcome is unknown (no answer in time, a lost connection, a host sleep in the
  middle), until every client has let go and the source was retired.
\<close>

theorem unknown_write_bars_further_writes:
  assumes "source_spawn env source revision policy simulated allowance = Inr s" "clock_honest env"
    and "actor_reaches s t"
    and "access_labels (ac_trace t) = xs @ Wrote l True # ys @ Wrote k u # zs"
  shows "Retired \<in> set ys"
proof -
  have s: "ac_env s = env" "ac_trace s = []"
    using assms(1) by (auto simp: source_spawn_def Let_def split: if_splits)
  have "course (access_of s) [] t"
    using reaches_course [OF assms(3)] course_start [of s] s assms(2) by simp
  then have "access_run (access_of s) (xs @ Wrote l True # ys @ Wrote k u # zs) (access_of t)"
    using assms(4) by (auto simp: due_def)
  then show ?thesis by (rule unknown_write_bars_writes)
qed


lemma unknown_write_bars_further_writes_witness:
  "\<exists>s t. demo_source = Inr s \<and> actor_reaches s t
     \<and> access_labels (ac_trace t) = [] @ Wrote 7 True # [Retired] @ Wrote 7 True # [] \<and> Retired \<in> set [Retired]"
proof -
  obtain s where s: "demo_source = Inr s" "vacant s" "ac_trace s = []" using demo_starts by blast
  obtain t1 where t1: "actor_reaches s t1" "holding 7 t1" "may_write 7 t1" "sn_transport_connected (ac_state t1)"
      "access_labels (ac_trace t1) = []"
    using reach_control [OF s(2) actor_reaches.here, of 7] s(3) by auto
  obtain t2 where t2: "actor_step t1 t2" "holding 7 t2" "access_labels (ac_trace t2) = [Wrote 7 True]"
    using reach_lost_write [OF t1(2-4)] t1(5) by auto
  obtain t3 where t3: "actor_reaches s t3" "vacant t3" "access_labels (ac_trace t3) = [Wrote 7 True, Retired]"
    using reach_release [OF t2(2) actor_reaches.onward [OF t1(1) t2(1)]] t2(3) by auto
  obtain t4 where t4: "actor_reaches s t4" "holding 7 t4" "may_write 7 t4" "sn_transport_connected (ac_state t4)"
      "access_labels (ac_trace t4) = [Wrote 7 True, Retired]"
    using reach_control [OF t3(2,1), of 7] t3(3) by auto
  obtain t5 where t5: "actor_step t4 t5"
      "access_labels (ac_trace t5) = [] @ Wrote 7 True # [Retired] @ Wrote 7 True # []"
    using reach_lost_write [OF t4(2-4)] t4(5) by auto
  have "actor_reaches s t5" using t4(1) t5(1) by (rule actor_reaches.onward)
  then show ?thesis
    using unknown_write_bars_further_writes [OF _ quiet_honest _ t5(2), of "\<lambda>_. None" 1 2 default_poll_policy False 30000000000 s]
      s(1) t5(2) by (auto simp: demo_source_def)
qed

end
