(* ===== verification/Source_Cache.thy ===== *)
theory Source_Cache imports Source_Safety begin

text \<open>
  The sample cache of a source: bounded, consistent, and empty whenever the device is not connected or
  the host has slept since the values were taken.
\<close>

section \<open>Keys\<close>

lemma bt_keys_insert [simp]: "bt_keys (bt_insert k v m) = insert k (bt_keys m)"
  by (induction k v m rule: bt_insert.induct) (auto simp: bt_keys_def)

lemma bt_keys_remove [simp]: "bt_wf m \<Longrightarrow> bt_keys (bt_remove k m) = bt_keys m - {k}"
  by (induction k m rule: bt_remove.induct) (auto simp: bt_keys_def)

lemma bt_keys_Nil [simp]: "bt_keys [] = {}"
  by (simp add: bt_keys_def)

section \<open>The invariant\<close>

definition tidy :: "source_snapshot \<Rightarrow> bool" where
  "tidy n \<longleftrightarrow> bt_wf (sn_values n) \<and> bt_wf (sn_sample_errors n) \<and> bt_wf (sn_sample_ages_seconds n)
     \<and> bt_wf (sn_sample_started_seconds n)
     \<and> bt_keys (sn_sample_ages_seconds n) = bt_keys (sn_values n)
     \<and> bt_keys (sn_sample_started_seconds n) = bt_keys (sn_values n)
     \<and> bt_keys (sn_values n) \<subseteq> bt_keys (sn_sample_sequences n)
     \<and> bt_keys (sn_values n) \<inter> bt_keys (sn_sample_errors n) = {}"

definition cached_keys :: "source_snapshot \<Rightarrow> string set" where
  "cached_keys n = bt_keys (sn_sample_sequences n) \<union> bt_keys (sn_sample_errors n)"

definition cache_ok :: "source_snapshot \<Rightarrow> bool" where
  "cache_ok n \<longleftrightarrow> tidy n \<and> card (cached_keys n) \<le> max_sample_keys
     \<and> (\<not> sn_transport_connected n \<longrightarrow> sn_values n = [])"

lemma cache_ok_irrelevant [simp]:
  "cache_ok (n\<lparr>sn_error := e\<rparr>) = cache_ok n" "cache_ok (n\<lparr>sn_sequence := i\<rparr>) = cache_ok n"
  "cache_ok (n\<lparr>sn_completed_passes := i\<rparr>) = cache_ok n" "cache_ok (n\<lparr>sn_connection_info := c\<rparr>) = cache_ok n"
  "cache_ok (n\<lparr>sn_simulation := c\<rparr>) = cache_ok n" "cache_ok (n\<lparr>sn_write_uncertain := b\<rparr>) = cache_ok n"
  "cache_ok (n\<lparr>sn_lease_count := i\<rparr>) = cache_ok n" "cache_ok (n\<lparr>sn_polling := p\<rparr>) = cache_ok n"
  by (simp_all add: cache_ok_def tidy_def cached_keys_def)

lemma cache_ok_renewed [simp]: "cache_ok (new_generation g n)"
  by (simp add: new_generation_def clear_samples_def cache_ok_def tidy_def cached_keys_def)

lemma cache_ok_connection [simp]:
  "cache_ok ((new_generation g n)\<lparr>sn_transport_connected := b\<rparr>)"
  "cache_ok ((new_generation g n)\<lparr>sn_transport_connected := b, sn_error := e\<rparr>)"
  "cache_ok ((new_generation g n)\<lparr>sn_error := e, sn_transport_connected := b\<rparr>)"
  by (simp_all add: new_generation_def clear_samples_def cache_ok_def tidy_def cached_keys_def)

lemma cache_ok_cleared: "cache_ok n \<Longrightarrow> cache_ok (clear_samples n)"
proof -
  assume ok: "cache_ok n"
  have "finite (cached_keys n)" by (simp add: cached_keys_def bt_keys_def)
  then have "card (bt_keys (sn_sample_sequences n)) \<le> card (cached_keys n)"
    by (rule card_mono) (simp add: cached_keys_def)
  then show ?thesis using ok by (simp add: clear_samples_def cache_ok_def tidy_def cached_keys_def)
qed

lemma cache_ok_invalidated [simp]: "cache_ok (invalidate_resume d e n)"
  by (simp add: invalidate_resume_def cache_ok_def tidy_def cached_keys_def)

section \<open>Merging a batch\<close>

lemma tidy_keep_value: "tidy n \<Longrightarrow> tidy (keep_value started b kv n)"
  by (cases kv) (auto simp: tidy_def keep_value_def bt_simps)

lemma tidy_keep_error: "tidy n \<Longrightarrow> tidy (keep_error ke n)"
  by (cases ke) (auto simp: tidy_def keep_error_def bt_simps)

lemma keys_keep_value:
  "tidy n \<Longrightarrow> cached_keys (keep_value started b kv n) \<subseteq> insert (fst kv) (cached_keys n)"
  by (cases kv) (auto simp: tidy_def keep_value_def cached_keys_def)

lemma keys_keep_error: "cached_keys (keep_error ke n) \<subseteq> insert (fst ke) (cached_keys n)"
  by (cases ke) (auto simp: keep_error_def cached_keys_def)

lemma connected_kept [simp]:
  "sn_transport_connected (keep_value started b kv n) = sn_transport_connected n"
  "sn_transport_connected (keep_error ke n) = sn_transport_connected n"
  by (simp_all add: keep_value_def keep_error_def split: prod.split)

lemma keep_values:
  "tidy n \<Longrightarrow> tidy (fold (keep_value started b) kvs n)
     \<and> cached_keys (fold (keep_value started b) kvs n) \<subseteq> fst ` set kvs \<union> cached_keys n
     \<and> sn_transport_connected (fold (keep_value started b) kvs n) = sn_transport_connected n"
proof (induction kvs arbitrary: n)
  case (Cons kv kvs)
  from Cons.IH [OF tidy_keep_value [OF Cons.prems]] keys_keep_value [OF Cons.prems] connected_kept(1)
  show ?case unfolding fold_simps list.set image_insert by blast
qed simp

lemma keep_errors:
  "tidy n \<Longrightarrow> tidy (fold keep_error kes n)
     \<and> cached_keys (fold keep_error kes n) \<subseteq> fst ` set kes \<union> cached_keys n
     \<and> sn_transport_connected (fold keep_error kes n) = sn_transport_connected n"
proof (induction kes arbitrary: n)
  case (Cons ke kes)
  from Cons.IH [OF tidy_keep_error [OF Cons.prems]] keys_keep_error [of ke n] connected_kept(2)
  show ?case unfolding fold_simps list.set image_insert by blast
qed simp

lemma merge_ok:
  assumes "cache_ok n" "sn_transport_connected n" "validate_batch n b = Inr ()"
  shows "cache_ok (merge_batch started b n)"
proof -
  define n0 where "n0 = (if ba_partial b then n
               else n\<lparr>sn_values := [], sn_sample_errors := [], sn_sample_ages_seconds := [], sn_sample_started_seconds := []\<rparr>)"
  define n1 where "n1 = fold (keep_value started b) (ba_values b) n0"
  define n2 where "n2 = fold keep_error (ba_errors b) n1"
  have n0: "tidy n0" "sn_transport_connected n0"
    "cached_keys n0 \<subseteq> bt_keys (sn_sample_sequences n) \<union> (if ba_partial b then bt_keys (sn_sample_errors n) else {})"
    using assms(1,2) by (auto simp: n0_def cache_ok_def tidy_def cached_keys_def)
  have n1: "tidy n1" "sn_transport_connected n1" "cached_keys n1 \<subseteq> fst ` set (ba_values b) \<union> cached_keys n0"
    using keep_values [OF n0(1), of started b "ba_values b"] n0(2) by (auto simp: n1_def)
  have n2: "tidy n2" "sn_transport_connected n2" "cached_keys n2 \<subseteq> fst ` set (ba_errors b) \<union> cached_keys n1"
    using keep_errors [OF n1(1), of "ba_errors b"] n1(2) by (auto simp: n2_def)
  have "cached_keys n2 \<subseteq> set (cache_keys n b)"
    using n0(3) n1(3) n2(3) by (auto simp: cache_keys_def bt_keys_def split: if_splits)
  then have "card (cached_keys n2) \<le> card (set (cache_keys n b))"
    by (rule card_mono [rotated]) simp
  also have "\<dots> = length (cache_keys n b)"
    by (rule distinct_card) (simp add: cache_keys_def)
  also have "\<dots> \<le> max_sample_keys"
    using assms(3) by (auto simp: validate_batch_def ensure_def split: if_splits)
  finally show ?thesis
    using n2(1,2) by (simp add: merge_batch_def n0_def [symmetric] n1_def [symmetric] n2_def [symmetric]
        cache_ok_def tidy_def cached_keys_def)
qed

section \<open>What the actor's operations keep\<close>

text \<open>Assertions on the snapshot the actor works on and the one it has published.\<close>

definition view :: "(source_snapshot \<Rightarrow> source_snapshot \<Rightarrow> bool) \<Rightarrow> actor \<Rightarrow> bool" where
  "view P s \<longleftrightarrow> P (ac_state s) (ac_published s)"

definition publishable :: "(source_snapshot \<Rightarrow> source_snapshot \<Rightarrow> bool) \<Rightarrow> bool" where
  "publishable P \<longleftrightarrow> (\<forall>n p c m w l q. P n p \<longrightarrow> (let n = n\<lparr>sn_connection_info := c, sn_simulation := m,
     sn_write_uncertain := w, sn_lease_count := l, sn_polling := q\<rparr> in P n n))"

named_theorems viewed \<open>what actions keep of the snapshots\<close>

lemmas [viewed] = preserves_bnd preserves_simple preserves_whenever preserves_if preserves_option preserves_sum preserves_let

lemma view_upd: "(\<And>s. view P s \<Longrightarrow> view P (f s)) \<Longrightarrow> preserves (view P) (upd f)"
  by (rule preserves_upd)

lemma view_tick [viewed]: "preserves (view P) act_tick"
  by (simp add: preserves_def view_def act_tick_def)

lemma view_emit [viewed]: "preserves (view P) (act_emit e)"
  unfolding act_emit_def by (rule view_upd) (simp add: view_def)

lemma view_scripted [viewed]: "preserves (view P) (scripted f)"
  unfolding scripted_def by (intro viewed)

lemma view_named [viewed]: "preserves (view P) instant" "preserves (view P) fresh_uuid" "preserves (view P) current_epoch"
  by (simp_all add: instant_def fresh_uuid_def current_epoch_def view_scripted)

lemma view_fence [viewed]: "preserves (view P) fence_open" "preserves (view P) (fenced_call f e late)"
  unfolding fenced_call_def fence_open_def by (intro viewed)+

lemma view_reply [viewed]: "preserves (view P) (reply_closed i)" "preserves (view P) (answer_client i r)"
  unfolding answer_client_def reply_closed_def by (intro viewed)+

lemma view_publish [viewed]:
  assumes "publishable P" shows "preserves (view P) publish_source"
proof (rule preservesI)
  fix s assume "view P s"
  then show "view P (snd (publish_source s))"
    using assms unfolding publishable_def view_def
    by (simp add: publish_source_def running cong: bnd_opaque) blast
qed

abbreviation sound :: "source_snapshot \<Rightarrow> source_snapshot \<Rightarrow> bool" where
  "sound n p \<equiv> cache_ok n \<and> cache_ok p"

definition fresh :: "sample_batch \<Rightarrow> source_snapshot \<Rightarrow> source_snapshot \<Rightarrow> bool" where
  "fresh b n p \<longleftrightarrow> sound n p \<and> sn_transport_connected n \<and> validate_batch n b = Inr ()"

lemma publishable_sound [viewed]: "publishable sound"
  by (simp add: publishable_def)

lemma publishable_fresh [viewed]: "publishable (fresh b)"
  by (simp add: publishable_def fresh_def validate_batch_def retained_values_def cache_keys_def)

lemma publishable_connected [viewed]: "publishable (\<lambda>n p. sound n p \<and> sn_transport_connected n)"
  by (simp add: publishable_def)

lemma view_snapshot: "(\<And>n p. P n p \<Longrightarrow> P (f n) p) \<Longrightarrow> preserves (view P) (on_snapshot f)"
  unfolding on_snapshot_def by (rule view_upd) (simp add: view_def)

lemma sound_fault [viewed]: "preserves (view sound) (source_fault e)"
  unfolding source_fault_def by (intro viewed view_upd view_snapshot) (simp_all add: view_def)

lemma sound_resume [viewed]: "preserves (view sound) resume_actor"
  unfolding resume_actor_def by (intro viewed view_upd) (simp_all add: view_def)

lemma sound_sample_again [viewed]: "preserves (view sound) sample_again"
  unfolding sample_again_def by (intro viewed view_snapshot) (simp add: cache_ok_cleared)

lemma sound_fault_if_lost [viewed]: "preserves (view sound) (fault_if_lost r)"
  unfolding fault_if_lost_def by (intro viewed)

lemma sound_connect: "leads (view sound) source_connect
   (\<lambda>r s. view sound s \<and> (is_ok r \<longrightarrow> sn_transport_connected (ac_state s))) (view sound)"
proof -
  let ?I = "view sound" and ?C = "view (\<lambda>n p. sound n p \<and> sn_transport_connected n)"
  let ?Q = "\<lambda>r s. ?I s \<and> (is_ok r \<longrightarrow> sn_transport_connected (ac_state s))"
  have fails: "leads ?I (bnd m (\<lambda>_. ret (Inl e))) ?Q ?I" if "preserves ?I m" for m :: "unit acting" and e :: source_error
    using that by (rule leads_keep) (auto intro: leads_return)
  have settled: "leads ?I (case result of
       Inr False \<Rightarrow>
         (let error = source_error_new KConnecting ''Source connection is in progress'' in
          bnd (on_snapshot (\<lambda>t. t\<lparr>sn_error := Some error\<rparr>)) (\<lambda>_.
          bnd publish_source (\<lambda>_. ret (Inl error))))
     | Inr True \<Rightarrow>
         bnd (upd (\<lambda>s. s\<lparr>ac_connection_started := None\<rparr>)) (\<lambda>_.
         bnd fresh_uuid (\<lambda>g.
         bnd (on_snapshot (\<lambda>t. (new_generation g t)\<lparr>sn_transport_connected := True, sn_error := None\<rparr>)) (\<lambda>_.
         bnd publish_source (\<lambda>_. ret (Inr ())))))
     | Inl e \<Rightarrow>
         bnd (upd (\<lambda>s. if so_kind e = KUncertain then s\<lparr>ac_write_uncertain := True\<rparr> else s)) (\<lambda>_.
         bnd (source_fault e) (\<lambda>_. ret (Inl e)))) ?Q ?I" for result :: "source_error + bool"
  proof (cases result)
    case (Inl e)
    show ?thesis unfolding Inl sum.case
      by (intro leads_keep [where P = ?I] fails viewed view_upd) (auto simp: view_def)
  next
    case (Inr b)
    consider "b = True" | "b = False" by blast
    then show ?thesis
    proof cases
      case 1
      have "leads ?I (on_snapshot (\<lambda>t. (new_generation g t)\<lparr>sn_transport_connected := True, sn_error := None\<rparr>)) (\<lambda>_. ?C) ?I" for g
        unfolding on_snapshot_def by (rule leads_modify) (simp add: view_def)
      moreover have "leads ?C (bnd publish_source (\<lambda>_. ret (Inr ()))) ?Q ?I"
        by (intro leads_keep [where P = ?C] leads_return viewed) (auto simp: view_def)
      ultimately have renew: "leads ?I (bnd (on_snapshot (\<lambda>t. (new_generation g t)\<lparr>sn_transport_connected := True, sn_error := None\<rparr>))
          (\<lambda>_. bnd publish_source (\<lambda>_. ret (Inr ())))) ?Q ?I" for g
        by (rule leads_bnd)
      show ?thesis unfolding Inr 1 sum.case bool.case
        by (rule leads_keep [OF _ _ leads_keep [OF _ _ renew]]) (auto intro: viewed view_upd simp: view_def)
    next
      case 2
      show ?thesis unfolding Inr 2 sum.case bool.case Let_def
        by (intro leads_keep [where P = ?I] fails viewed view_snapshot) auto
    qed
  qed
  have connecting: "leads ?I m ?Q ?I \<Longrightarrow> leads (\<lambda>s. ?I s \<and> (connected \<longrightarrow> sn_transport_connected (ac_state s)))
      (if connected then ret (Inr ()) else m) ?Q ?I" for connected and m :: "(source_error + unit) acting"
    by (cases connected) (auto intro: leads_return)
  show ?thesis
    unfolding source_connect_def
  proof (rule leads_bnd [where I = "\<lambda>c s. ?I s \<and> (c \<longrightarrow> sn_transport_connected (ac_state s))"])
    show "leads ?I (get (\<lambda>s. sn_transport_connected (ac_state s)))
        (\<lambda>c s. ?I s \<and> (c \<longrightarrow> sn_transport_connected (ac_state s))) ?I"
      by (rule leadsI) (simp add: get_def)
  qed (rule connecting, intro leads_keep [where P = ?I and R = ?I] settled viewed view_upd; simp add: view_def)
qed

lemma sound_disconnect [viewed]: "preserves (view sound) source_disconnect"
  unfolding source_disconnect_def by (intro viewed view_upd) (auto simp: view_def)

lemma sound_connects [viewed]: "preserves (view sound) source_connect"
  using leads_ends [OF leads_weaken [OF sound_connect]] unfolding preserves_def by blast

section \<open>Every round keeps the cache sound\<close>

lemma sound_simulation [viewed]: "preserves (view sound) (do_simulation lease update i)"
  unfolding do_simulation_def
  by (intro viewed view_upd) (simp_all add: view_def)

lemma sound_refresh [viewed]: "preserves (view sound) (do_refresh lease i)"
  unfolding do_refresh_def refresh_failed_def
  by (intro viewed view_upd) (simp_all add: view_def)

lemma sound_acquire [viewed]: "preserves (view sound) (do_acquire lease i)"
  unfolding do_acquire_def first_lease_def
  by (intro viewed view_upd) (simp_all add: view_def)

lemma sound_release [viewed]: "preserves (view sound) (do_release lease i)"
  unfolding do_release_def
  by (intro viewed view_upd) (simp_all add: view_def)

lemma sound_control [viewed]: "preserves (view sound) (do_control lease acquire i)"
  unfolding do_control_def
  by (intro viewed view_upd) (simp_all add: view_def)

lemma sound_reach [viewed]: "preserves (view sound) (reach_source admitted expected message)"
  unfolding reach_source_def
  by (intro viewed)

lemma sound_image [viewed]: "preserves (view sound) (do_image lease expected i)"
  unfolding do_image_def
  by (intro viewed)

lemma sound_read [viewed]: "preserves (view sound) (do_read lease expected member i)"
  unfolding do_read_def
  by (intro viewed)

lemma sound_settle [viewed]: "preserves (view sound) (settle_write r)"
  unfolding settle_write_def Let_def
  by (intro viewed view_upd) (simp_all add: view_def)

lemma sound_write [viewed]: "preserves (view sound) (do_write lease expected member i)"
  unfolding do_write_def
  by (intro viewed)

lemma sound_command [viewed]: "preserves (view sound) (run_command c)"
  by (cases c) (auto simp: unless_closed_def intro: viewed)

lemma sends_quietly: "preserves (view P) m \<Longrightarrow> (\<And>s. view P s \<Longrightarrow> Q s) \<Longrightarrow> (\<And>x. sends (view P) (f x) Q)
    \<Longrightarrow> sends (view P) (bnd m f) Q"
  by (rule sends_bnd)

lemma fresh_sound: "view (fresh b) s \<Longrightarrow> view sound s"
  by (simp add: view_def fresh_def)

lemma finish_lost: "preserves (view sound) (finish_poll started sampled (Inl e))"
  unfolding finish_poll_def Let_def
  by (intro viewed view_upd view_snapshot) (simp_all add: view_def)

lemma validate_sequence [simp]: "validate_batch (n\<lparr>sn_sequence := k\<rparr>) b = validate_batch n b"
  by (simp add: validate_batch_def retained_values_def cache_keys_def)

lemma merge_step:
  assumes "\<And>x. preserves (view sound) (f x)"
  shows "sends (view (fresh b)) (bnd (upd (\<lambda>s. s\<lparr>ac_state := merge_batch t b (ac_state s), ac_backoff_failures := k s\<rparr>)) f) (view sound)"
proof (rule sends_upd)
  show "view sound (s\<lparr>ac_state := merge_batch t b (ac_state s), ac_backoff_failures := k s\<rparr>)" if "view (fresh b) s" for s
    using that merge_ok [of "ac_state s" b t] by (simp add: view_def fresh_def)
qed (use assms in \<open>simp add: preserves_iff_sends\<close>)

lemma finish_fresh: "sends (view (fresh b)) (finish_poll started sampled (Inr b)) (view sound)"
  unfolding finish_poll_def Let_def fault_if_lost_def sum.case
  by (rule merge_step sends_option sends_quietly viewed view_upd view_snapshot
    | simp add: view_def fresh_def sends_def throw_def)+

lemma poll_sound [viewed]: "preserves (view sound) source_poll"
proof -
  let ?I = "view sound"
  let ?C = "view (\<lambda>n p. sound n p \<and> sn_transport_connected n)"
  define F where "F = (\<lambda>(r :: source_error + sample_batch) s. ?I s \<and> (\<forall>b. r = Inr b \<longrightarrow> view (fresh b) s))"
  have I: "leads (F r) m Q ?I" if "leads ?I m Q ?I" "\<And>b. r \<noteq> Inr b" for r m Q
    using that(1) by (rule leads_weaken) (auto simp: F_def)
  have settle: "leads (F r) (bnd current_epoch (\<lambda>epoch.
       bnd (get (\<lambda>s. epoch = sn_resume_epoch (ac_state s))) (\<lambda>same.
       if same then finish_poll started sampled r else resume_actor))) (\<lambda>_. ?I) ?I" for r started sampled
  proof (cases r)
    case (Inl e)
    have "preserves ?I (bnd current_epoch (\<lambda>epoch.
       bnd (get (\<lambda>s. epoch = sn_resume_epoch (ac_state s))) (\<lambda>same.
       if same then finish_poll started sampled r else resume_actor)))"
      unfolding Inl by (intro viewed finish_lost)
    then show ?thesis by (intro I leads_preserves) (simp_all add: Inl)
  next
    case (Inr b)
    have "leads (view (fresh b)) (if same then finish_poll started sampled r else resume_actor) (\<lambda>_. ?I) ?I" for same
      using finish_fresh [of b started sampled] sound_resume fresh_sound
      unfolding Inr leads_def sends_def preserves_def by (auto split: prod.split result.split; metis snd_conv)
    then have "leads (view (fresh b)) (bnd current_epoch (\<lambda>epoch.
       bnd (get (\<lambda>s. epoch = sn_resume_epoch (ac_state s))) (\<lambda>same.
       if same then finish_poll started sampled r else resume_actor))) (\<lambda>_. ?I) ?I"
      by (intro leads_keep [where P = "view (fresh b)" and R = ?I] viewed) (auto intro: fresh_sound)
    then show ?thesis by (rule leads_weaken) (auto simp: F_def Inr)
  qed
  let ?settle = "\<lambda>started sampled r. bnd current_epoch (\<lambda>epoch.
       bnd (get (\<lambda>s. epoch = sn_resume_epoch (ac_state s))) (\<lambda>same.
       if same then finish_poll started sampled r else resume_actor))"
  have answered: "leads (\<lambda>s. ?I s \<and> (is_ok answer \<longrightarrow> ?C s))
      (bnd (get (\<lambda>s. and_then answer (\<lambda>b. and_then (validate_batch (ac_state s) b) (\<lambda>_. Inr b))))
        (?settle started sampled)) (\<lambda>_. ?I) ?I" for answer started sampled
  proof (rule leads_bnd [OF _ settle])
    show "leads (\<lambda>s. ?I s \<and> (is_ok answer \<longrightarrow> ?C s))
        (get (\<lambda>s. and_then answer (\<lambda>b. and_then (validate_batch (ac_state s) b) (\<lambda>_. Inr b)))) F ?I"
      by (rule leadsI) (auto simp: get_def F_def view_def fresh_def and_then_def is_ok_iff split: sum.splits)
  qed
  have "leads (\<lambda>s. ?I s \<and> (is_ok c \<longrightarrow> sn_transport_connected (ac_state s)))
     (if (case c of Inl e \<Rightarrow> so_kind e = KConnecting | Inr _ \<Rightarrow> False) then
       bnd instant (\<lambda>t.
       bnd (upd (\<lambda>s. s\<lparr>ac_next_poll := Some (t + 100000000), ac_poll_reason := Some PrConnection\<rparr>)) (\<lambda>_.
       publish_source))
     else
       bnd (upd (\<lambda>s. s\<lparr>ac_attempt := ac_attempt s + 1, ac_last_attempt := ac_attempt s + 1,
          ac_last_cycle_exhausted := None\<rparr>)) (\<lambda>_.
       bnd (whenever (is_ok c)
          (bnd (upd (\<lambda>s. s\<lparr>ac_poll_operation := Some PhSampling\<rparr>)) (\<lambda>_. publish_source))) (\<lambda>_.
       bnd (case c of
           Inl e \<Rightarrow> ret (Inl e)
         | Inr _ \<Rightarrow> fenced_call ae_sample (\<lambda>_ _. AvSample) source_timeout) (\<lambda>answer.
       bnd (get (\<lambda>s. and_then answer (\<lambda>b. and_then (validate_batch (ac_state s) b) (\<lambda>_. Inr b))))
        (?settle started sampled))))) (\<lambda>_. ?I) ?I" (is "leads ?A (if _ then ?wait else ?go) _ _")
    for c :: "source_error + unit" and started sampled
  proof (rule leads_if)
    have "preserves ?I ?wait" by (intro viewed view_upd) (simp add: view_def)
    then show "leads ?A ?wait (\<lambda>_. ?I) ?I" by (rule leads_weaken [OF leads_preserves]) simp_all
  next
    show "leads ?A ?go (\<lambda>_. ?I) ?I"
    proof (cases c)
      case (Inl e)
      have "leads ?I (bnd (ret (Inl e)) (\<lambda>answer. bnd (get (\<lambda>s. and_then answer (\<lambda>b. and_then (validate_batch (ac_state s) b) (\<lambda>_. Inr b))))
        (?settle started sampled))) (\<lambda>_. ?I) ?I"
        by (rule leads_bnd [OF leads_return answered]) simp
      note answer = this
      have "leads ?I ?go (\<lambda>_. ?I) ?I"
        unfolding Inl sum.case
        by (rule leads_keep [OF _ _ leads_keep [OF _ _ answer]])
          (rule viewed view_upd | force simp: view_def)+
      then show ?thesis by (rule leads_weaken) simp_all
    next
      case (Inr u)
      have "leads ?C (bnd (fenced_call ae_sample (\<lambda>_ _. AvSample) source_timeout)
          (\<lambda>answer. bnd (get (\<lambda>s. and_then answer (\<lambda>b. and_then (validate_batch (ac_state s) b) (\<lambda>_. Inr b))))
        (?settle started sampled))) (\<lambda>_. ?I) ?I"
        by (rule leads_keep [OF view_fence(2) _ leads_weaken [OF answered]]) (auto simp: view_def)
      note answer = this
      have "leads ?C ?go (\<lambda>_. ?I) ?I"
        unfolding Inr sum.case
        by (rule leads_keep [OF _ _ leads_keep [OF _ _ answer]])
          (rule viewed view_upd | force simp: view_def)+
      then show ?thesis by (rule leads_weaken) (auto simp: Inr view_def)
    qed
  qed
  then have "leads ?I source_poll (\<lambda>_. ?I) ?I"
    unfolding source_poll_def
    by (intro leads_keep [OF view_scripted] leads_bnd [OF sound_connect]) simp_all
  then show ?thesis unfolding preserves_def by (blast dest: leads_ends)
qed

lemma round_sound: "preserves (view sound) (source_round w)"
  unfolding source_round_def reject_command_def by (cases w) (auto intro!: viewed)

lemma stop_sound: "preserves (view sound) source_stop"
  unfolding source_stop_def Let_def by (intro viewed view_upd) (simp_all add: view_def)

lemma step_sound: "actor_step s t \<Longrightarrow> view sound s \<Longrightarrow> view sound t"
  by (induction rule: actor_step.induct) (auto dest: preservesD [OF round_sound] preservesD [OF stop_sound])

lemma reaches_sound: "actor_reaches s t \<Longrightarrow> view sound s \<Longrightarrow> view sound t"
  by (induction rule: actor_reaches.induct) (auto dest: step_sound)



end
