(* ===== verification/Weather.thy ===== *)
theory Weather imports Source_Actor begin

text \<open>
  The weather engine of \<open>crates/regain-hub/src/weather.rs\<close>: per metric it reads the first source with a
  fresh valid sample, averages over one session of one source, and never lets data grow younger; the
  scalar samples it reads (\<open>scalar\<close> of \<open>readout.rs\<close>); the checks of a weather configuration; and the
  private copy on which diagnostics read.

  Sines, arctangents and conversions of degrees belong to the platform (the precision of Rust's
  \<open>f64\<close> functions is unspecified): they are the parameter \<open>trigonometry\<close>. A sum beyond the range of
  doubles is \<open>None\<close>. The limits of a measurement are finite, as the configuration is validated.
\<close>

section \<open>Metrics and measurements\<close>

datatype weather_metric = CloudCover | DewPoint | Humidity | Pressure | RainRate | SkyBrightness | SkyQuality
  | SkyTemperature | StarFwhm | Temperature | WindDirection | WindGust | WindSpeed

fun metric_index :: "weather_metric \<Rightarrow> nat" where
  "metric_index CloudCover = 0"
| "metric_index DewPoint = 1"
| "metric_index Humidity = 2"
| "metric_index Pressure = 3"
| "metric_index RainRate = 4"
| "metric_index SkyBrightness = 5"
| "metric_index SkyQuality = 6"
| "metric_index SkyTemperature = 7"
| "metric_index StarFwhm = 8"
| "metric_index Temperature = 9"
| "metric_index WindDirection = 10"
| "metric_index WindGust = 11"
| "metric_index WindSpeed = 12"

lemma metric_index_inj: "metric_index a = metric_index b \<Longrightarrow> a = b"
  by (cases a; cases b) simp_all

instantiation weather_metric :: linorder
begin

definition less_eq_weather_metric :: "weather_metric \<Rightarrow> weather_metric \<Rightarrow> bool" where
  "less_eq_weather_metric a b \<longleftrightarrow> metric_index a \<le> metric_index b"

definition less_weather_metric :: "weather_metric \<Rightarrow> weather_metric \<Rightarrow> bool" where
  "less_weather_metric a b \<longleftrightarrow> metric_index a < metric_index b"

instance
  by standard (auto simp: less_eq_weather_metric_def less_weather_metric_def dest: metric_index_inj)

end

definition metric_names :: "(string \<times> weather_metric) list" where
  "metric_names = [(''cloudcover'', CloudCover), (''dewpoint'', DewPoint), (''humidity'', Humidity),
     (''pressure'', Pressure), (''rainrate'', RainRate), (''skybrightness'', SkyBrightness),
     (''skyquality'', SkyQuality), (''skytemperature'', SkyTemperature), (''starfwhm'', StarFwhm),
     (''temperature'', Temperature), (''winddirection'', WindDirection), (''windgust'', WindGust),
     (''windspeed'', WindSpeed)]"

definition metric_of_name :: "string \<Rightarrow> weather_metric option" where
  "metric_of_name = map_of metric_names"

definition metric_property :: "weather_metric \<Rightarrow> string" where
  "metric_property m = fst (metric_names ! metric_index m)"

text \<open>Units are UTF-8: the degree sign and the superscript two take two bytes each.\<close>

definition degree_celsius :: string where
  "degree_celsius = [CHR 0xC2, CHR 0xB0, CHR ''C'']"

fun metric_unit :: "weather_metric \<Rightarrow> string" where
  "metric_unit CloudCover = ''%''"
| "metric_unit Humidity = ''%''"
| "metric_unit DewPoint = degree_celsius"
| "metric_unit SkyTemperature = degree_celsius"
| "metric_unit Temperature = degree_celsius"
| "metric_unit Pressure = ''hPa''"
| "metric_unit RainRate = ''mm/h''"
| "metric_unit SkyBrightness = ''lux''"
| "metric_unit SkyQuality = ''mag/arcsec'' @ [CHR 0xC2, CHR 0xB2]"
| "metric_unit StarFwhm = ''arcsec''"
| "metric_unit WindDirection = ''deg''"
| "metric_unit WindGust = ''m/s''"
| "metric_unit WindSpeed = ''m/s''"

definition metric_bounds :: "weather_metric \<Rightarrow> rat option \<times> rat option \<times> bool" where
  "metric_bounds m =
     (if m \<in> {CloudCover, Humidity} then (Some 0, Some 100, False)
      else if m = WindDirection then (Some 0, Some 360, False)
      else if m \<in> {DewPoint, SkyTemperature, Temperature} then (Some (f64_round (- 27315 / 100)), None, False)
      else if m = Pressure then (Some 0, None, True)
      else if m = SkyQuality then (None, None, False)
      else (Some 0, None, False))"

definition metric_accepts :: "weather_metric \<Rightarrow> rat \<Rightarrow> bool" where
  "metric_accepts m v = (case metric_bounds m of (minimum, maximum, exclusive) \<Rightarrow>
     none_or minimum (\<lambda>lo. if exclusive then lo < v else lo \<le> v) \<and> none_or maximum (\<lambda>hi. v \<le> hi))"

record measurement =
  me_sources :: "readout list"
  me_maximum_age_seconds :: rat
  me_average_seconds :: rat

type_synonym measurements = "(weather_metric, measurement) btree"

fun readout_source :: "readout \<Rightarrow> nat" where
  "readout_source (RoChannel s _ _) = s"
| "readout_source (RoProperty s _ _) = s"

section \<open>Configuration checks\<close>

datatype device_type = DtCamera | DtSwitch | DtSafetyMonitor | DtObservingConditions | DtFocuser | DtRotator
  | DtFilterWheel | DtCoverCalibrator

definition weather_error :: "string \<Rightarrow> string \<Rightarrow> field_error" where
  "weather_error key message = field_error_new key ''weather'' message"

definition average_of :: "measurements \<Rightarrow> rat option" where
  "average_of ms = map_option (\<lambda>p. me_average_seconds (snd p)) (find (\<lambda>p. fst p \<noteq> WindGust) ms)"

definition readout_units :: "(nat \<Rightarrow> device_type option) \<Rightarrow> readout \<Rightarrow> string option \<times> string option" where
  "readout_units source_type r = (case r of
       RoChannel _ _ unit \<Rightarrow> (None, unit)
     | RoProperty source property unit \<Rightarrow>
         (let kind = source_type source in
          (if kind = Some DtObservingConditions then map_option metric_unit (metric_of_name property)
           else if kind = Some DtFocuser \<and> property = ''temperature''
              \<or> kind = Some DtCamera \<and> property = ''ccdtemperature'' then Some degree_celsius
           else if kind = Some DtSafetyMonitor \<and> property = ''issafe'' then Some []
           else None, unit)))"

definition reports_gusts :: "(nat \<Rightarrow> device_type option) \<Rightarrow> readout \<Rightarrow> bool" where
  "reports_gusts source_type r = (case r of
       RoProperty source property _ \<Rightarrow> source_type source = Some DtObservingConditions \<and> property = ''windgust''
     | RoChannel _ _ _ \<Rightarrow> False)"

definition readout_errors :: "(nat \<Rightarrow> device_type option) \<Rightarrow> weather_metric \<Rightarrow> nat \<times> readout \<Rightarrow> field_error list" where
  "readout_errors source_type m ir = (case ir of (i, r) \<Rightarrow>
     case readout_units source_type r of (known, declared) \<Rightarrow>
       (if known \<noteq> None \<and> declared \<noteq> None \<and> known \<noteq> declared
           \<or> (case known of Some u \<Rightarrow> Some u | None \<Rightarrow> declared) \<noteq> Some (metric_unit m)
        then [weather_error (''measurements.'' @ metric_property m @ ''.sources['' @ show_nat i @ '']'')
          ''Source unit must match the metric's canonical unit; no conversion is implied'']
        else [])
       @ (if m = WindGust \<and> \<not> reports_gusts source_type r
          then [weather_error ''measurements.windgust''
            ''Wind gust requires a source reporting the ASCOM three-second peak over two minutes'']
          else []))"

definition validate_measurements :: "(nat \<Rightarrow> device_type option) \<Rightarrow> measurements \<Rightarrow> field_error list" where
  "validate_measurements source_type ms =
     (if bt_contains ms Humidity \<noteq> bt_contains ms DewPoint
      then [weather_error ''measurements'' ''ASCOM requires humidity and dew point together''] else [])
     @ (if bt_contains ms WindDirection \<and> \<not> bt_contains ms WindSpeed
        then [weather_error ''measurements.winddirection'' ''Wind direction needs wind speed to report calm correctly'']
        else [])
     @ concat (map (\<lambda>(m, measurement).
         (if m \<noteq> WindGust \<and> Some (me_average_seconds measurement) \<noteq> average_of ms
          then [weather_error (''measurements.'' @ metric_property m @ ''.averageSeconds'')
            ''ASCOM exposes one averaging period per weather output'']
          else [])
         @ concat (map (readout_errors source_type m) (enumerate 0 (me_sources measurement)))) ms)"

section \<open>Scalar samples\<close>

record scalar_sample =
  sc_value :: rat
  sc_age_seconds :: rat
  sc_source :: nat
  sc_generation :: nat
  sc_sequence :: nat
  sc_revision :: nat

text \<open>What lies beyond the largest double has overflowed.\<close>

definition in_range :: "rat \<Rightarrow> bool" where
  "in_range x \<longleftrightarrow> \<bar>x\<bar> < 2 ^ 1024"

definition scalar_value :: "readout \<Rightarrow> json \<Rightarrow> rat option" where
  "scalar_value r v = (case as_f64 v of
       Some x \<Rightarrow> Some x
     | None \<Rightarrow> (case r of
         RoProperty _ property _ \<Rightarrow>
           if property = ''issafe'' then map_option (\<lambda>b. if b then 1 else 0) (as_bool v) else None
       | RoChannel _ _ _ \<Rightarrow> None))"

definition sampled_at :: "source_snapshot \<Rightarrow> string \<Rightarrow> rat option" where
  "sampled_at s k = (case bt_get (sn_sample_started_seconds s) k of
       Some t \<Rightarrow> Some t | None \<Rightarrow> sn_sampled_at_seconds s)"

definition upstream_age :: "source_snapshot \<Rightarrow> string \<Rightarrow> f64" where
  "upstream_age s k = (case bt_get (sn_sample_ages_seconds s) k of Some a \<Rightarrow> a | None \<Rightarrow> Fin 0)"

definition scalar :: "source_snapshot \<Rightarrow> readout \<Rightarrow> nat \<Rightarrow> source_error + scalar_sample" where
  "scalar s r now =
     (if sn_source s \<noteq> readout_source r then Inl (invalid_value ''Sample source does not match the configured readout'')
      else if \<not> sn_transport_connected s then Inl (source_error_new KDisconnected ''Source is disconnected'')
      else case sn_error s of Some e \<Rightarrow> Inl e | None \<Rightarrow>
      let key = sample_key r in
      case bt_get (sn_sample_errors s) key of Some e \<Rightarrow> Inl e | None \<Rightarrow>
      case Option.bind (bt_get (sn_values s) key) (scalar_value r) of
        None \<Rightarrow> Inl (unavailable ''No valid scalar reading'')
      | Some v \<Rightarrow>
      case sampled_at s key of
        None \<Rightarrow> Inl (unavailable ''No sample has been received'')
      | Some t \<Rightarrow>
      let elapsed = fsub (as_secs_f64 now) t; upstream = upstream_age s key in
      if elapsed < 0 \<or> \<not> f64_finite upstream \<or> f64_lt upstream (Fin 0)
      then Inl (unavailable ''Sample clock or sensor age is invalid'')
      else
      let age = fadd elapsed (f64_val upstream) in
      if \<not> in_range age then Inl (unavailable ''Sample age is invalid'')
      else Inr \<lparr>sc_value = v, sc_age_seconds = age, sc_source = sn_source s, sc_generation = sn_generation s,
        sc_sequence = (case bt_get (sn_sample_sequences s) key of Some n \<Rightarrow> n | None \<Rightarrow> sn_sequence s),
        sc_revision = sn_revision s\<rparr>)"

section \<open>The engine\<close>

record weather_point =
  pt_at :: rat
  pt_age :: rat
  pt_value :: rat

record weather_history =
  hi_identity :: "(nat \<times> nat \<times> nat) option"
  hi_sequence :: nat
  hi_points :: "weather_point list"

definition history_default :: weather_history where
  "history_default = \<lparr>hi_identity = None, hi_sequence = 0, hi_points = []\<rparr>"

record weather_engine =
  we_resume_epoch :: nat
  we_measurements :: measurements
  we_states :: "(nat, source_snapshot) btree"
  we_history :: "(weather_metric, weather_history) btree"
  we_average :: rat
  we_last_now :: rat
  we_clock_fault :: bool
  we_last_valid :: "(weather_metric, rat \<times> rat) btree"

record weather_reading =
  wx_value :: rat
  wx_unit :: string
  wx_source :: nat
  wx_revision :: nat
  wx_generation :: nat
  wx_sequence :: nat
  wx_readout :: readout
  wx_age_seconds :: rat
  wx_sample_count :: nat
  wx_average_seconds :: rat

record trigonometry =
  tr_to_radians :: "rat \<Rightarrow> rat"
  tr_sin :: "rat \<Rightarrow> rat"
  tr_cos :: "rat \<Rightarrow> rat"
  tr_hypot :: "rat \<Rightarrow> rat \<Rightarrow> rat"
  tr_atan2 :: "rat \<Rightarrow> rat \<Rightarrow> rat"
  tr_to_degrees :: "rat \<Rightarrow> rat"

definition weather_new :: "measurements \<Rightarrow> weather_engine" where
  "weather_new ms = \<lparr>we_resume_epoch = 0, we_measurements = ms, we_states = [], we_history = [],
     we_average = (case average_of ms of Some a \<Rightarrow> a | None \<Rightarrow> 0), we_last_now = 0, we_clock_fault = False,
     we_last_valid = []\<rparr>"

definition sync_weather :: "nat \<Rightarrow> bool \<Rightarrow> weather_engine \<Rightarrow> weather_engine" where
  "sync_weather epoch valid e =
     (if we_resume_epoch e \<noteq> epoch \<or> \<not> valid
      then e\<lparr>we_resume_epoch := epoch, we_states := [], we_history := [], we_last_valid := []\<rparr>
      else e)"

text \<open>A clock that runs backwards is a fault for good.\<close>

definition weather_tick :: "nat \<Rightarrow> weather_engine \<Rightarrow> (source_error + unit) \<times> weather_engine" where
  "weather_tick now e =
     (let e = (if as_secs_f64 now < we_last_now e
               then e\<lparr>we_clock_fault := True, we_history := [], we_states := []\<rparr> else e);
          e = e\<lparr>we_last_now := as_secs_f64 now\<rparr>
      in (ensure (\<not> we_clock_fault e) (unavailable ''Weather clock changed; reconnect the output''), e))"

text \<open>The first source of the measurement whose sample is fresh and valid.\<close>

definition usable_sample :: "weather_engine \<Rightarrow> weather_metric \<Rightarrow> measurement \<Rightarrow> nat \<Rightarrow> readout \<Rightarrow> scalar_sample option" where
  "usable_sample e m measurement now r =
     Option.bind (bt_get (we_states e) (readout_source r)) (\<lambda>state.
     Option.bind (bt_get (sn_values state) (sample_key r)) (\<lambda>v.
     if \<not> is_number v then None else
     case scalar state r now of
       Inr sample \<Rightarrow>
         if sc_age_seconds sample < me_maximum_age_seconds measurement \<and> metric_accepts m (sc_value sample)
         then Some sample else None
     | Inl _ \<Rightarrow> None))"

fun first_usable :: "weather_engine \<Rightarrow> weather_metric \<Rightarrow> measurement \<Rightarrow> nat \<Rightarrow> (nat \<times> readout) list
    \<Rightarrow> (nat \<times> scalar_sample) option" where
  "first_usable e m measurement now [] = None"
| "first_usable e m measurement now ((i, r) # rs) =
     (case usable_sample e m measurement now r of
        Some sample \<Rightarrow> Some (i, sample)
      | None \<Rightarrow> first_usable e m measurement now rs)"

definition weather_select :: "weather_engine \<Rightarrow> weather_metric \<Rightarrow> nat \<Rightarrow> source_error + (nat \<times> scalar_sample)" where
  "weather_select e m now = (case bt_get (we_measurements e) m of
       None \<Rightarrow> Inl (source_error_new KUnsupported ''Weather measurement is not configured'')
     | Some measurement \<Rightarrow>
         ok_or (first_usable e m measurement now (enumerate 0 (me_sources measurement)))
           (unavailable ''No fresh valid source for this weather measurement''))"

text \<open>A sample joins the history of its session of its source, or starts a new one.\<close>

definition note_sample :: "rat \<Rightarrow> nat \<Rightarrow> scalar_sample \<Rightarrow> weather_history \<Rightarrow> weather_history" where
  "note_sample now_s index sample h =
     (let identity = (index, sc_generation sample, sc_revision sample);
          h = (if hi_identity h \<noteq> Some identity \<or> sat_add 64 (hi_sequence h) 1 < sc_sequence sample
               then history_default\<lparr>hi_identity := Some identity\<rparr> else h)
      in if hi_sequence h \<noteq> sc_sequence sample \<or> hi_points h = []
         then h\<lparr>hi_sequence := sc_sequence sample, hi_points := hi_points h
           @ [\<lparr>pt_at = now_s, pt_age = sc_age_seconds sample, pt_value = sc_value sample\<rparr>]\<rparr>
         else h)"

text \<open>One predecessor is kept for the beginning of a time-weighted window.\<close>

fun prune_points :: "rat \<Rightarrow> rat \<Rightarrow> rat \<Rightarrow> weather_point list \<Rightarrow> weather_point list" where
  "prune_points now_s start maximum (p # q # ps) =
     (if pt_at q \<le> start \<or> maximum \<le> fsub (fadd (pt_age p) now_s) (pt_at p) \<or> 36002 < length (p # q # ps)
      then prune_points now_s start maximum (q # ps) else p # q # ps)"
| "prune_points now_s start maximum ps = ps"

definition point_weight :: "rat \<Rightarrow> rat \<Rightarrow> weather_point \<Rightarrow> rat \<Rightarrow> rat" where
  "point_weight width start p until =
     (if 0 < width then fdiv (max 0 (fsub until (max (pt_at p) start))) width else 0)"

text \<open>\<open>None\<close> once a sum has left the range of doubles, from where it does not come back.\<close>

definition sum_term :: "rat option \<Rightarrow> rat \<Rightarrow> rat option" where
  "sum_term s x = Option.bind s (\<lambda>s. let s = fadd s x in if in_range s then Some s else None)"

definition weighted_sum :: "(rat \<Rightarrow> rat) \<Rightarrow> rat \<Rightarrow> rat \<Rightarrow> rat \<Rightarrow> weather_point list \<Rightarrow> rat option" where
  "weighted_sum f now_s width start ps =
     fold (\<lambda>(p, until) s. sum_term s (fmul (point_weight width start p until) (f (pt_value p))))
       (zip ps (map pt_at (tl ps) @ [now_s])) (Some 0)"

definition rem_euclid_360 :: "rat \<Rightarrow> rat" where
  "rem_euclid_360 x =
     (let r = x - 360 * of_int (if 0 \<le> x then \<lfloor>x / 360\<rfloor> else \<lceil>x / 360\<rceil>)
      in if r < 0 then fadd r 360 else r)"

definition weather_mean :: "trigonometry \<Rightarrow> weather_metric \<Rightarrow> rat \<Rightarrow> rat \<Rightarrow> rat \<Rightarrow> weather_point list \<Rightarrow> source_error + rat" where
  "weather_mean tr m now_s average latest ps =
     (let start = fsub now_s average;
          width = (case ps of p # _ \<Rightarrow> max 0 (fsub now_s (max (pt_at p) start)) | [] \<Rightarrow> 0)
      in if \<not> (0 < average \<and> 1 < length ps) \<or> \<not> 0 < width then Inr latest
         else if m = WindDirection then
           (case (weighted_sum (\<lambda>v. tr_sin tr (tr_to_radians tr v)) now_s width start ps,
                  weighted_sum (\<lambda>v. tr_cos tr (tr_to_radians tr v)) now_s width start ps) of
              (Some sine, Some cosine) \<Rightarrow>
                if tr_hypot tr sine cosine \<le> f64_round (1 / 10 ^ 12)
                then Inl (unavailable ''Wind directions have no defined circular mean'')
                else Inr (rem_euclid_360 (tr_to_degrees tr (tr_atan2 tr sine cosine)))
            | _ \<Rightarrow> Inl (unavailable ''Weather average is outside the numeric range''))
         else ok_or (weighted_sum id now_s width start ps) (unavailable ''Weather average is outside the numeric range''))"

definition metric_average :: "weather_metric \<Rightarrow> weather_engine \<Rightarrow> rat" where
  "metric_average m e = (if m = WindGust then 0 else we_average e)"

text \<open>The read of one metric, up to the check of calm for the wind direction.\<close>

definition read_metric :: "trigonometry \<Rightarrow> weather_metric \<Rightarrow> nat \<Rightarrow> weather_engine
    \<Rightarrow> (source_error + weather_reading) \<times> weather_engine" where
  "read_metric tr m now e = (case weather_tick now e of
       (Inl err, e) \<Rightarrow> (Inl err, e)
     | (Inr _, e) \<Rightarrow>
         (case weather_select e m now of
            Inl err \<Rightarrow> (Inl err, e\<lparr>we_history := bt_remove m (we_history e)\<rparr>)
          | Inr (index, sample) \<Rightarrow>
              (case bt_get (we_measurements e) m of
                 None \<Rightarrow> (Inl (source_error_new KUnsupported ''Weather measurement is not configured''), e)
               | Some measurement \<Rightarrow>
              let now_s = as_secs_f64 now; average = metric_average m e;
                  h = note_sample now_s index sample
                        (case bt_get (we_history e) m of Some h \<Rightarrow> h | None \<Rightarrow> history_default);
                  h = h\<lparr>hi_points := prune_points now_s (fsub now_s average) (me_maximum_age_seconds measurement) (hi_points h)\<rparr>;
                  e = e\<lparr>we_last_valid := bt_insert m (now_s, sc_age_seconds sample) (we_last_valid e),
                        we_history := bt_insert m h (we_history e)\<rparr>
              in (case weather_mean tr m now_s average (sc_value sample) (hi_points h) of
                    Inl err \<Rightarrow> (Inl err, e)
                  | Inr v \<Rightarrow>
                      (Inr \<lparr>wx_value = v, wx_unit = metric_unit m, wx_source = sc_source sample,
                         wx_revision = sc_revision sample, wx_generation = sc_generation sample,
                         wx_sequence = sc_sequence sample, wx_readout = me_sources measurement ! index,
                         wx_age_seconds = sc_age_seconds sample, wx_sample_count = length (hi_points h),
                         wx_average_seconds = average\<rparr>, e)))))"

definition weather_read :: "trigonometry \<Rightarrow> weather_metric \<Rightarrow> nat \<Rightarrow> weather_engine
    \<Rightarrow> (source_error + weather_reading) \<times> weather_engine" where
  "weather_read tr m now e = (case read_metric tr m now e of
       (Inl err, e) \<Rightarrow> (Inl err, e)
     | (Inr reading, e) \<Rightarrow>
         if m \<noteq> WindDirection then (Inr reading, e)
         else (case read_metric tr WindSpeed now e of
             (Inl err, e) \<Rightarrow> (Inl err, e)
           | (Inr speed, e) \<Rightarrow> (Inr (if wx_value speed = 0 then reading\<lparr>wx_value := 0\<rparr> else reading), e)))"

definition superseded :: "weather_engine \<Rightarrow> source_snapshot \<Rightarrow> bool" where
  "superseded e s = some_and (bt_get (we_states e) (sn_source s)) (\<lambda>old.
     sn_generation old = sn_generation s \<and> sn_revision old = sn_revision s \<and> sn_sequence s < sn_sequence old)"

definition weather_observe :: "trigonometry \<Rightarrow> source_snapshot \<Rightarrow> nat \<Rightarrow> weather_engine \<Rightarrow> weather_engine" where
  "weather_observe tr s now e =
     (if sn_resume_epoch s \<noteq> we_resume_epoch e then e
      else case weather_tick now e of
          (Inl _, e) \<Rightarrow> e
        | (Inr _, e) \<Rightarrow>
            if superseded e s then e
            else
              let e = e\<lparr>we_states := bt_insert (sn_source s) s (we_states e)\<rparr>
              in fold (\<lambda>m e. snd (weather_read tr m now e)) (map fst (we_measurements e)) e)"

definition average_period_hours :: "weather_engine \<Rightarrow> rat" where
  "average_period_hours e = fdiv (we_average e) 3600"

definition set_average_period_hours :: "f64 \<Rightarrow> weather_engine \<Rightarrow> (source_error + unit) \<times> weather_engine" where
  "set_average_period_hours hours e = (case hours of
       Fin h \<Rightarrow>
         if \<not> (0 \<le> h \<and> h \<le> 1) then (Inl (invalid_value ''Averaging period must be between zero and one hour''), e)
         else (Inr (), if we_average e \<noteq> fmul h 3600 then e\<lparr>we_average := fmul h 3600, we_history := []\<rparr> else e)
     | _ \<Rightarrow> (Inl (invalid_value ''Averaging period must be between zero and one hour''), e))"

definition time_since_last_update :: "string \<Rightarrow> nat \<Rightarrow> weather_engine \<Rightarrow> (source_error + rat) \<times> weather_engine" where
  "time_since_last_update property now e = (case weather_tick now e of
       (Inl err, e) \<Rightarrow> (Inl err, e)
     | (Inr _, e) \<Rightarrow>
         (let now_s = as_secs_f64 now;
              e = e\<lparr>we_last_valid := fold (\<lambda>m valid. case weather_select e m now of
                    Inr (_, sample) \<Rightarrow> bt_insert m (now_s, sc_age_seconds sample) valid
                  | Inl _ \<Rightarrow> valid) (map fst (we_measurements e)) (we_last_valid e)\<rparr>;
              since = (\<lambda>(t, age). fsub (fadd age now_s) t)
          in if property = [] then
               (Inr (case map since (bt_values (we_last_valid e)) of
                  [] \<Rightarrow> -1 | a # as \<Rightarrow> fold min as a), e)
             else case metric_of_name (map ascii_lower property) of
               None \<Rightarrow> (Inl (invalid_value ''Unknown weather property''), e)
             | Some m \<Rightarrow>
                 if \<not> bt_contains (we_measurements e) m
                 then (Inl (source_error_new KUnsupported ''Weather measurement is not configured''), e)
                 else (Inr (case bt_get (we_last_valid e) m of Some v \<Rightarrow> since v | None \<Rightarrow> -1), e)))"

section \<open>Cached collections and diagnostics\<close>

fun device_state :: "trigonometry \<Rightarrow> nat \<Rightarrow> weather_metric list \<Rightarrow> weather_engine
    \<Rightarrow> (weather_metric \<times> rat) list \<times> weather_engine" where
  "device_state tr now [] e = ([], e)"
| "device_state tr now (m # ms) e =
     (case weather_read tr m now e of (r, e) \<Rightarrow>
      case device_state tr now ms e of (vs, e) \<Rightarrow>
        (case r of Inr reading \<Rightarrow> ((m, wx_value reading) # vs, e) | Inl _ \<Rightarrow> (vs, e)))"

definition copied_metrics :: "weather_metric list \<Rightarrow> weather_metric list" where
  "copied_metrics ms = (if WindDirection \<in> set ms then WindSpeed # ms else ms)"

definition copied_keys :: "measurements \<Rightarrow> nat \<Rightarrow> string list" where
  "copied_keys ms source = sort (remdups (map sample_key
     (filter (\<lambda>r. readout_source r = source) (concat (map (\<lambda>p. me_sources (snd p)) ms)))))"

definition diagnostic_copy :: "weather_metric list \<Rightarrow> weather_engine \<Rightarrow> weather_engine" where
  "diagnostic_copy metrics e =
     (let chosen = copied_metrics metrics;
          ms = filter (\<lambda>p. fst p \<in> set chosen) (we_measurements e)
      in e\<lparr>we_measurements := ms,
           we_states := map (\<lambda>(source, s). (source, project_samples (copied_keys ms source) s))
             (filter (\<lambda>p. copied_keys ms (fst p) \<noteq> []) (we_states e)),
           we_history := filter (\<lambda>p. fst p \<in> set chosen) (we_history e),
           we_last_valid := filter (\<lambda>p. fst p \<in> set chosen) (we_last_valid e)\<rparr>)"

end
