(* ===== verification/Weather_Evidence.thy ===== *)
theory Weather_Evidence imports Weather begin

text \<open>
  What a weather reading rests on: the snapshots observed since the last host resume, one session of
  the first usable source, and a window of bounded length.
\<close>

section \<open>Evidence\<close>

definition evidence :: "source_snapshot list \<Rightarrow> weather_metric \<Rightarrow> measurement \<Rightarrow> nat \<Rightarrow> nat \<Rightarrow> nat \<Rightarrow> weather_point \<Rightarrow> bool" where
  "evidence fed m measurement i g r p \<longleftrightarrow> (\<exists>s \<in> set fed. \<exists>now sample.
     sn_generation s = g \<and> sn_revision s = r \<and> scalar s (me_sources measurement ! i) now = Inr sample
     \<and> pt_at p = as_secs_f64 now \<and> pt_age p = sc_age_seconds sample \<and> pt_value p = sc_value sample
     \<and> sc_age_seconds sample < me_maximum_age_seconds measurement \<and> metric_accepts m (sc_value sample))"

definition founded :: "source_snapshot list \<Rightarrow> weather_metric \<Rightarrow> measurement \<Rightarrow> weather_history \<Rightarrow> bool" where
  "founded fed m measurement h \<longleftrightarrow> (\<exists>i g r. hi_identity h = Some (i, g, r) \<and> i < length (me_sources measurement)
     \<and> hi_points h \<noteq> [] \<and> length (hi_points h) \<le> 36002 \<and> (\<forall>p \<in> set (hi_points h). evidence fed m measurement i g r p))"

definition backed :: "measurements \<Rightarrow> source_snapshot list \<Rightarrow> weather_engine \<Rightarrow> bool" where
  "backed ms fed e \<longleftrightarrow> we_measurements e = ms
     \<and> (\<forall>s \<in> set fed. sn_resume_epoch s = we_resume_epoch e)
     \<and> (\<forall>k s. bt_get (we_states e) k = Some s \<longrightarrow> s \<in> set fed)
     \<and> bt_wf (we_states e) \<and> bt_wf (we_history e)
     \<and> (\<forall>m h. bt_get (we_history e) m = Some h \<longrightarrow> (\<exists>measurement. bt_get ms m = Some measurement \<and> founded fed m measurement h))"

lemma evidence_more: "evidence fed m measurement i g r p \<Longrightarrow> set fed \<subseteq> set fed' \<Longrightarrow> evidence fed' m measurement i g r p"
  unfolding evidence_def by blast

lemma founded_more: "founded fed m measurement h \<Longrightarrow> set fed \<subseteq> set fed' \<Longrightarrow> founded fed' m measurement h"
  unfolding founded_def using evidence_more by blast

section \<open>Selecting and pruning\<close>

lemma first_usable_some:
  "first_usable e m measurement now (enumerate k rs) = Some (i, sample) \<Longrightarrow>
     k \<le> i \<and> i < k + length rs \<and> usable_sample e m measurement now (rs ! (i - k)) = Some sample
     \<and> (\<forall>j < i - k. usable_sample e m measurement now (rs ! j) = None)"
proof (induction rs arbitrary: k)
  case (Cons r rs)
  show ?case
  proof (cases "usable_sample e m measurement now r")
    case None
    then have "first_usable e m measurement now (enumerate (Suc k) rs) = Some (i, sample)"
      using Cons.prems by simp
    note ih = Cons.IH [OF this]
    then have "i - k = Suc (i - Suc k)" by linarith
    then show ?thesis using ih None by (auto simp: less_Suc_eq_0_disj)
  qed (use Cons.prems in simp)
qed simp

lemma weather_select_some:
  assumes "weather_select e m now = Inr (i, sample)"
  obtains measurement where "bt_get (we_measurements e) m = Some measurement" "i < length (me_sources measurement)"
    "usable_sample e m measurement now (me_sources measurement ! i) = Some sample"
    "\<forall>j < i. usable_sample e m measurement now (me_sources measurement ! j) = None"
  using assms first_usable_some [of e m _ now 0 _ i sample]
  by (fastforce simp: weather_select_def ok_or_def split: option.splits)

lemma usable_sample_some:
  assumes "usable_sample e m measurement now r = Some sample"
  obtains s where "bt_get (we_states e) (readout_source r) = Some s" "scalar s r now = Inr sample"
    "sc_age_seconds sample < me_maximum_age_seconds measurement" "metric_accepts m (sc_value sample)"
  using assms by (auto simp: usable_sample_def bind_eq_Some_conv split: if_splits sum.splits)

lemma scalar_fields:
  "scalar s r now = Inr sample \<Longrightarrow> sn_source s = readout_source r \<and> sc_source sample = sn_source s
     \<and> sc_generation sample = sn_generation s \<and> sc_revision sample = sn_revision s"
  by (auto simp: scalar_def Let_def split: if_splits option.splits)

lemma prune_points_suffix:
  "ps \<noteq> [] \<Longrightarrow> set (prune_points n st mx ps) \<subseteq> set ps \<and> prune_points n st mx ps \<noteq> []
     \<and> length (prune_points n st mx ps) \<le> max 1 36002"
  by (induction n st mx ps rule: prune_points.induct) auto

section \<open>Every operation keeps the evidence\<close>

lemma tick_backed: "backed ms fed e \<Longrightarrow> backed ms fed (snd (weather_tick now e))"
  by (auto simp: backed_def weather_tick_def Let_def)

lemma tick_result: "weather_tick now e = (Inr u, e') \<Longrightarrow> e' = e\<lparr>we_last_now := as_secs_f64 now\<rparr>"
  by (auto simp: weather_tick_def Let_def ensure_def split: if_splits)

lemma note_sample_founded:
  assumes "i < length (me_sources measurement)" "s \<in> set fed" "scalar s (me_sources measurement ! i) now = Inr sample"
    and "sc_age_seconds sample < me_maximum_age_seconds measurement" "metric_accepts m (sc_value sample)"
    and "h = history_default \<or> founded fed m measurement h"
  shows "founded fed m measurement (let h = note_sample (as_secs_f64 now) i sample h
     in h\<lparr>hi_points := prune_points (as_secs_f64 now) st mx (hi_points h)\<rparr>)
     \<and> hi_identity (note_sample (as_secs_f64 now) i sample h) = Some (i, sc_generation sample, sc_revision sample)"
proof -
  define h' where "h' = note_sample (as_secs_f64 now) i sample h"
  let ?p = "\<lparr>pt_at = as_secs_f64 now, pt_age = sc_age_seconds sample, pt_value = sc_value sample\<rparr>"
  note f = scalar_fields [OF assms(3)]
  have new: "evidence fed m measurement i (sc_generation sample) (sc_revision sample) ?p"
    unfolding evidence_def using assms(2-5) f by (intro bexI [of _ s]) auto
  have id: "hi_identity h' = Some (i, sc_generation sample, sc_revision sample)"
    by (simp add: h'_def note_sample_def Let_def history_default_def)
  have ne: "hi_points h' \<noteq> []"
    by (simp add: h'_def note_sample_def Let_def history_default_def)
  have "set (hi_points h') \<subseteq> insert ?p
      (if hi_identity h = Some (i, sc_generation sample, sc_revision sample) then set (hi_points h) else {})"
    by (auto simp: h'_def note_sample_def Let_def history_default_def split: if_splits)
  then have ev: "\<forall>p \<in> set (hi_points h'). evidence fed m measurement i (sc_generation sample) (sc_revision sample) p"
    using new assms(6) by (auto simp: founded_def history_default_def split: if_splits)
  show ?thesis
    using prune_points_suffix [OF ne, of "as_secs_f64 now" st mx] ev id ne assms(1)
    unfolding founded_def h'_def [symmetric] Let_def by auto
qed

lemma backed_history:
  assumes "backed ms fed e" "bt_get ms m = Some measurement" "founded fed m measurement h"
  shows "backed ms fed (e\<lparr>we_last_valid := v, we_history := bt_insert m h (we_history e)\<rparr>)"
  using assms by (auto simp: backed_def bt_get_insert bt_wf_insert)

text \<open>What a read found in the source it selected, and the history it left.\<close>

definition grounds :: "source_snapshot list \<Rightarrow> weather_metric \<Rightarrow> nat \<Rightarrow> measurement \<Rightarrow> nat \<Rightarrow> scalar_sample \<Rightarrow> weather_history
    \<Rightarrow> weather_engine \<Rightarrow> bool" where
  "grounds fed m now measurement i sample h e \<longleftrightarrow>
     bt_get (we_measurements e) m = Some measurement \<and> i < length (me_sources measurement)
     \<and> (\<forall>j < i. usable_sample e m measurement now (me_sources measurement ! j) = None)
     \<and> (\<exists>s \<in> set fed. scalar s (me_sources measurement ! i) now = Inr sample)
     \<and> sc_age_seconds sample < me_maximum_age_seconds measurement \<and> metric_accepts m (sc_value sample)
     \<and> bt_get (we_history e) m = Some h \<and> founded fed m measurement h
     \<and> hi_identity h = Some (i, sc_generation sample, sc_revision sample)"

definition reading_of :: "weather_metric \<Rightarrow> rat \<Rightarrow> measurement \<Rightarrow> nat \<Rightarrow> scalar_sample \<Rightarrow> weather_history \<Rightarrow> rat \<Rightarrow> weather_reading" where
  "reading_of m average measurement i sample h v =
     \<lparr>wx_value = v, wx_unit = metric_unit m, wx_source = sc_source sample, wx_revision = sc_revision sample,
       wx_generation = sc_generation sample, wx_sequence = sc_sequence sample, wx_readout = me_sources measurement ! i,
       wx_age_seconds = sc_age_seconds sample, wx_sample_count = length (hi_points h), wx_average_seconds = average\<rparr>"

lemma read_metric_steps:
  assumes e: "backed ms fed e"
  shows "(\<exists>err e'. read_metric tr m now e = (Inl err, e') \<and> backed ms fed e')
    \<or> (\<exists>measurement i sample h e'. grounds fed m now measurement i sample h e' \<and> backed ms fed e'
         \<and> read_metric tr m now e = (case weather_mean tr m (as_secs_f64 now) (metric_average m e) (sc_value sample) (hi_points h) of
             Inl err \<Rightarrow> (Inl err, e')
           | Inr v \<Rightarrow> (Inr (reading_of m (metric_average m e) measurement i sample h v), e')))"
proof (cases "fst (weather_tick now e)")
  case (Inl err)
  then have "read_metric tr m now e = (Inl err, snd (weather_tick now e))"
    by (simp add: read_metric_def prod.case_eq_if)
  then show ?thesis using tick_backed [OF e] by blast
next
  case (Inr u)
  define e1 where "e1 = e\<lparr>we_last_now := as_secs_f64 now\<rparr>"
  have tick: "weather_tick now e = (Inr u, e1)"
    using Inr tick_result [of now e u] by (cases "weather_tick now e") (simp add: e1_def)
  have e1: "backed ms fed e1" using tick_backed [OF e, of now] tick by simp
  show ?thesis
  proof (cases "weather_select e1 m now")
    case (Inl err)
    have "backed ms fed (e1\<lparr>we_history := bt_remove m (we_history e1)\<rparr>)"
      using e1 by (auto simp: backed_def bt_get_remove bt_wf_remove split: if_splits)
    then show ?thesis using Inl by (auto simp: read_metric_def tick)
  next
    case (Inr selected)
    obtain i sample where sel: "selected = (i, sample)" by (cases selected)
    obtain measurement where ms: "bt_get (we_measurements e1) m = Some measurement" "i < length (me_sources measurement)"
        "usable_sample e1 m measurement now (me_sources measurement ! i) = Some sample"
        "\<forall>j < i. usable_sample e1 m measurement now (me_sources measurement ! j) = None"
      using weather_select_some Inr sel by metis
    obtain s where s: "bt_get (we_states e1) (readout_source (me_sources measurement ! i)) = Some s"
        "scalar s (me_sources measurement ! i) now = Inr sample"
        "sc_age_seconds sample < me_maximum_age_seconds measurement" "metric_accepts m (sc_value sample)"
      using usable_sample_some [OF ms(3)] by metis
    have fed: "s \<in> set fed" and m: "bt_get ms m = Some measurement"
      using e1 s(1) ms(1) by (auto simp: backed_def)
    define h0 where "h0 = (case bt_get (we_history e1) m of Some h \<Rightarrow> h | None \<Rightarrow> history_default)"
    have h0: "h0 = history_default \<or> founded fed m measurement h0"
    proof (cases "bt_get (we_history e1) m")
      case (Some h)
      then obtain measurement' where "bt_get ms m = Some measurement'" "founded fed m measurement' h"
        using e1 unfolding backed_def by blast
      then show ?thesis using m Some by (simp add: h0_def)
    qed (simp add: h0_def)
    define h where "h = (let h = note_sample (as_secs_f64 now) i sample h0 in h\<lparr>hi_points :=
        prune_points (as_secs_f64 now) (fsub (as_secs_f64 now) (metric_average m e)) (me_maximum_age_seconds measurement) (hi_points h)\<rparr>)"
    have h: "founded fed m measurement h" "hi_identity h = Some (i, sc_generation sample, sc_revision sample)"
      using note_sample_founded [OF ms(2) fed s(2-4) h0] by (simp_all add: h_def Let_def)
    define e2 where "e2 = e1\<lparr>we_last_valid := bt_insert m (as_secs_f64 now, sc_age_seconds sample) (we_last_valid e1),
        we_history := bt_insert m h (we_history e1)\<rparr>"
    have e2: "backed ms fed e2" unfolding e2_def using e1 m h(1) by (rule backed_history)
    have usable: "usable_sample e2 = usable_sample e1" by (simp add: usable_sample_def e2_def fun_eq_iff)
    have "bt_wf (we_history e1)" using e1 by (simp add: backed_def)
    then have "bt_get (we_history e2) m = Some h" "bt_get (we_measurements e2) m = Some measurement"
      using ms(1) by (simp_all add: e2_def bt_get_insert)
    then have "grounds fed m now measurement i sample h e2"
      using ms fed s h by (auto simp: grounds_def usable)
    moreover have "read_metric tr m now e = (case weather_mean tr m (as_secs_f64 now) (metric_average m e) (sc_value sample) (hi_points h) of
             Inl err \<Rightarrow> (Inl err, e2)
           | Inr v \<Rightarrow> (Inr (reading_of m (metric_average m e) measurement i sample h v), e2))"
    proof -
      have avg: "metric_average m e1 = metric_average m e" by (simp add: metric_average_def e1_def)
      have hp: "prune_points (as_secs_f64 now) (fsub (as_secs_f64 now) (metric_average m e))
          (me_maximum_age_seconds measurement) (hi_points (note_sample (as_secs_f64 now) i sample h0)) = hi_points h"
        "(note_sample (as_secs_f64 now) i sample h0)\<lparr>hi_points := hi_points h\<rparr> = h"
        by (simp_all add: h_def Let_def)
      show ?thesis
        unfolding read_metric_def tick prod.case sum.case Inr sel ms(1) option.case Let_def h0_def [symmetric] avg hp
        by (simp add: e2_def reading_of_def split: sum.split)
    qed
    ultimately show ?thesis using e2 by blast
  qed
qed

lemma read_metric_success:
  assumes "read_metric tr m now e = (Inr y, e1)" "backed ms fed e"
  obtains measurement i sample h v where "grounds fed m now measurement i sample h e1"
    "weather_mean tr m (as_secs_f64 now) (metric_average m e) (sc_value sample) (hi_points h) = Inr v"
    "y = reading_of m (metric_average m e) measurement i sample h v"
proof -
  obtain measurement i sample h e' where g: "grounds fed m now measurement i sample h e'"
      "(Inr y, e1) = (case weather_mean tr m (as_secs_f64 now) (metric_average m e) (sc_value sample) (hi_points h) of
             Inl err \<Rightarrow> (Inl err, e')
           | Inr v \<Rightarrow> (Inr (reading_of m (metric_average m e) measurement i sample h v), e'))"
    using read_metric_steps [OF assms(2), of tr m now] assms(1) by auto
  then show thesis
    using that by (cases "weather_mean tr m (as_secs_f64 now) (metric_average m e) (sc_value sample) (hi_points h)") auto
qed

lemma read_metric_backed: "backed ms fed e \<Longrightarrow> backed ms fed (snd (read_metric tr m now e))"
  using read_metric_steps [of ms fed e tr m now] by (fastforce split: sum.splits)

lemma weather_read_backed:
  assumes "backed ms fed e" shows "backed ms fed (snd (weather_read tr m now e))"
proof -
  obtain r e' where r: "read_metric tr m now e = (r, e')" by (cases "read_metric tr m now e")
  have e': "backed ms fed e'" using read_metric_backed [OF assms, of tr m now] r by simp
  obtain q e'' where q: "read_metric tr WindSpeed now e' = (q, e'')" by (cases "read_metric tr WindSpeed now e'")
  have "backed ms fed e''" using read_metric_backed [OF e', of tr WindSpeed now] q by simp
  then show ?thesis using e' by (simp add: weather_read_def r q split: sum.split)
qed

section \<open>Runs\<close>

text \<open>The engine at work, and what it was fed since the last host resume.\<close>

inductive weather_run :: "trigonometry \<Rightarrow> measurements \<Rightarrow> weather_engine \<Rightarrow> source_snapshot list \<Rightarrow> bool"
  for tr ms where
  started: "weather_run tr ms (weather_new ms) []"
| observed: "weather_run tr ms e fed \<Longrightarrow>
    weather_run tr ms (weather_observe tr s now e) (if sn_resume_epoch s = we_resume_epoch e then s # fed else fed)"
| read_by_client: "weather_run tr ms e fed \<Longrightarrow> weather_run tr ms (snd (weather_read tr m now e)) fed"
| asked: "weather_run tr ms e fed \<Longrightarrow> weather_run tr ms (snd (time_since_last_update property now e)) fed"
| averaged: "weather_run tr ms e fed \<Longrightarrow> weather_run tr ms (snd (set_average_period_hours hours e)) fed"
| resumed: "weather_run tr ms e fed \<Longrightarrow>
    weather_run tr ms (sync_weather epoch valid e) (if we_resume_epoch e \<noteq> epoch \<or> \<not> valid then [] else fed)"

lemma fold_backed: "backed ms fed e \<Longrightarrow> backed ms fed (fold (\<lambda>m e. snd (weather_read tr m now e)) metrics e)"
  by (induction metrics arbitrary: e) (auto intro: weather_read_backed)

lemma backed_fed: "backed ms fed e \<Longrightarrow> sn_resume_epoch s = we_resume_epoch e \<Longrightarrow> backed ms (s # fed) e"
  unfolding backed_def using founded_more [of fed _ _ _ "s # fed"] by (auto; blast)

lemma observe_backed:
  assumes "backed ms fed e"
  shows "backed ms (if sn_resume_epoch s = we_resume_epoch e then s # fed else fed) (weather_observe tr s now e)"
proof (cases "sn_resume_epoch s = we_resume_epoch e")
  case True
  obtain r e1 where r: "weather_tick now e = (r, e1)" by (cases "weather_tick now e")
  have e1: "backed ms (s # fed) e1" using tick_backed [OF backed_fed [OF assms True], of now] r by simp
  have "backed ms (s # fed) (e1\<lparr>we_states := bt_insert (sn_source s) s (we_states e1)\<rparr>)"
    using e1 by (auto simp: backed_def bt_get_insert bt_wf_insert)
  then show ?thesis using e1 True fold_backed by (auto simp: weather_observe_def r Let_def split: sum.split)
qed (simp add: weather_observe_def assms)

lemma run_backed: "weather_run tr ms e fed \<Longrightarrow> backed ms fed e"
proof (induction rule: weather_run.induct)
  case started
  show ?case by (simp add: backed_def weather_new_def)
next
  case (asked e fed property now)
  obtain r e1 where r: "weather_tick now e = (r, e1)" by (cases "weather_tick now e")
  have "backed ms fed e1" using tick_backed [OF asked.IH, of now] r by simp
  then have "backed ms fed (e1\<lparr>we_last_valid := v\<rparr>)" for v by (simp add: backed_def)
  then show ?case using \<open>backed ms fed e1\<close>
    by (auto simp: time_since_last_update_def r Let_def split: sum.split option.split)
next
  case (averaged e fed hours)
  then show ?case by (cases hours) (auto simp: set_average_period_hours_def backed_def)
next
  case (resumed e fed epoch valid)
  then show ?case by (auto simp: sync_weather_def backed_def)
next
  case (observed e fed s now)
  show ?case using observed.IH by (rule observe_backed)
qed (rule weather_read_backed)

lemma read_metric_frame:
  assumes "read_metric tr m now e = (Inr x, e')" "bt_wf (we_history e)"
  shows "we_states e' = we_states e \<and> we_measurements e' = we_measurements e
     \<and> (\<forall>k. k \<noteq> m \<longrightarrow> bt_get (we_history e') k = bt_get (we_history e) k)"
proof -
  obtain u e1 where t: "weather_tick now e = (Inr u, e1)"
    using assms(1) by (cases "weather_tick now e") (auto simp: read_metric_def split: sum.splits)
  then have "e1 = e\<lparr>we_last_now := as_secs_f64 now\<rparr>" by (rule tick_result)
  then show ?thesis
    using assms by (auto simp: read_metric_def t Let_def bt_get_insert split: sum.splits prod.splits option.splits)
qed

lemma usable_states: "we_states e' = we_states e \<Longrightarrow> usable_sample e' = usable_sample e"
  by (simp add: usable_sample_def fun_eq_iff)

text \<open>The check of calm only overwrites the value of a wind direction.\<close>

lemma weather_read_result:
  assumes "weather_read tr m now e = (Inr x, e')" "backed ms fed e"
  obtains y e1 where "read_metric tr m now e = (Inr y, e1)" "x = y \<or> m = WindDirection \<and> x = y\<lparr>wx_value := 0\<rparr>"
    "usable_sample e' = usable_sample e1" "bt_get (we_history e') m = bt_get (we_history e1) m"
    "backed ms fed e'" "we_measurements e' = we_measurements e1"
proof -
  obtain y e1 where y: "read_metric tr m now e = (Inr y, e1)"
    using assms(1) by (cases "read_metric tr m now e") (auto simp: weather_read_def split: sum.splits)
  have e': "backed ms fed e'" using weather_read_backed [OF assms(2), of tr m now] assms(1) by simp
  show thesis
  proof (cases "m = WindDirection")
    case False
    then show thesis using that [OF y] assms(1) e' by (simp add: weather_read_def y)
  next
    case True
    have d: "read_metric tr WindDirection now e = (Inr y, e1)" using y True by simp
    obtain q e2 where q: "read_metric tr WindSpeed now e1 = (q, e2)" by (cases "read_metric tr WindSpeed now e1")
    obtain z where "q = Inr z" "e2 = e'" "x = (if wx_value z = 0 then y\<lparr>wx_value := 0\<rparr> else y)"
      using assms(1) unfolding True weather_read_def d prod.case sum.case q by (cases q) simp_all
    then have z: "read_metric tr WindSpeed now e1 = (Inr z, e')" "x = y \<or> x = y\<lparr>wx_value := 0\<rparr>"
      using q by simp_all
    have "bt_wf (we_history e1)"
      using read_metric_backed [OF assms(2), of tr m now] y by (simp add: backed_def)
    note frame = read_metric_frame [OF z(1) this]
    show thesis
    proof (rule that [OF y _ _ _ e'])
      show "x = y \<or> m = WindDirection \<and> x = y\<lparr>wx_value := 0\<rparr>" using z(2) True by blast
      show "usable_sample e' = usable_sample e1" using frame usable_states by blast
      show "bt_get (we_history e') m = bt_get (we_history e1) m" "we_measurements e' = we_measurements e1"
        using frame True by simp_all
    qed
  qed
qed


section \<open>An engine at work\<close>

definition demo_trigonometry :: trigonometry where
  "demo_trigonometry = \<lparr>tr_to_radians = id, tr_sin = (\<lambda>_. 0), tr_cos = (\<lambda>_. 1), tr_hypot = (\<lambda>a b. \<bar>a\<bar> + \<bar>b\<bar>),
     tr_atan2 = (\<lambda>_ _. 0), tr_to_degrees = id\<rparr>"

definition demo_measurements :: measurements where
  "demo_measurements = [(CloudCover, \<lparr>me_sources = [RoProperty 1 ''cloudcover'' None],
     me_maximum_age_seconds = 60, me_average_seconds = 10\<rparr>)]"

definition demo_snapshot :: source_snapshot where
  "demo_snapshot = \<lparr>sn_resume_epoch = 0, sn_source = 1, sn_revision = 2, sn_generation = 3, sn_sequence = 1,
     sn_transport_connected = True, sn_write_uncertain = False, sn_connection_info = None, sn_simulated = False,
     sn_simulation = None, sn_lease_count = 1, sn_values = [(''cloudcover'', JInt 20)], sn_sample_errors = [],
     sn_sample_ages_seconds = [], sn_sample_started_seconds = [], sn_sample_sequences = [], sn_completed_passes = 1,
     sn_sampled_at_seconds = Some 0, sn_error = None, sn_polling = polling_idle default_poll_policy 0\<rparr>"

definition demo_engine :: weather_engine where
  "demo_engine = weather_observe demo_trigonometry demo_snapshot 0 (weather_new demo_measurements)"

lemma demo_engine_run: "weather_run demo_trigonometry demo_measurements demo_engine [demo_snapshot]"
  using weather_run.observed [OF weather_run.started, of demo_trigonometry demo_measurements demo_snapshot 0]
  by (simp add: demo_engine_def weather_new_def demo_snapshot_def)

lemma as_secs_zero: "as_secs_f64 0 = 0"
  by (simp add: as_secs_f64_def fadd_def fdiv_def)

lemma demo_reads:
  "\<exists>x e. weather_read demo_trigonometry CloudCover 0 demo_engine = (Inr x, e) \<and> wx_value x = 20 \<and> wx_sample_count x = 1"
  by (simp add: demo_engine_def weather_observe_def weather_new_def weather_tick_def demo_snapshot_def demo_measurements_def
      average_of_def ensure_def superseded_def some_and_def weather_read_def read_metric_def weather_select_def
      usable_sample_def scalar_def sample_key_def scalar_value_def sampled_at_def upstream_age_def as_secs_zero fadd_def
      fsub_def in_range_def metric_accepts_def metric_bounds_def none_or_def ok_or_def Let_def note_sample_def
      history_default_def weather_mean_def metric_average_def)


end
