(* ===== verification/Weather_Diagnostics.thy ===== *)
theory Weather_Diagnostics imports Weather_Evidence begin

text \<open>
  The private copy on which diagnostics read weather: it holds only the chosen metrics and the scalar
  values they need, and yet every read gives what a client would have got.
\<close>

section \<open>Projections of maps\<close>

lemma bt_get_filter_keys: "bt_get (filter (\<lambda>p. P (fst p)) m) k = (if P k then bt_get m k else None)"
proof (induction m)
  case (Cons p m)
  then show ?case by (cases p) auto
qed simp

lemma bt_wf_filter: "bt_wf m \<Longrightarrow> bt_wf (filter P m)"
proof (induction m)
  case (Cons p m)
  then show ?case by (cases p) auto
qed simp

lemma bt_get_map_with_key: "bt_get (map (\<lambda>(k, v). (k, f k v)) m) k = map_option (f k) (bt_get m k)"
  by (induction m k rule: bt_get.induct) auto

lemma bt_get_append: "bt_get (xs @ ys) k = (case bt_get xs k of Some v \<Rightarrow> Some v | None \<Rightarrow> bt_get ys k)"
  by (induction xs k rule: bt_get.induct) auto

lemma bt_get_select_keys: "bt_get (select_keys ks m) k = (if k \<in> set ks then bt_get m k else None)"
  by (induction ks) (auto simp: select_keys_def bt_get_append split: option.splits)

lemma bt_get_filter_values:
  "bt_get (filter (\<lambda>(k, v). P v) (select_keys ks m)) k
   = (if k \<in> set ks then Option.bind (bt_get m k) (\<lambda>v. if P v then Some v else None) else None)"
  by (induction ks) (auto simp: select_keys_def bt_get_append split: option.splits)

section \<open>Samples of a projected snapshot\<close>

lemma projected_fields:
  "sn_source (project_samples ks s) = sn_source s" "sn_transport_connected (project_samples ks s) = sn_transport_connected s"
  "sn_error (project_samples ks s) = sn_error s" "sn_sampled_at_seconds (project_samples ks s) = sn_sampled_at_seconds s"
  "sn_generation (project_samples ks s) = sn_generation s" "sn_revision (project_samples ks s) = sn_revision s"
  "sn_sequence (project_samples ks s) = sn_sequence s"
  by (simp_all add: project_samples_def)

lemma projected_keys:
  assumes "k \<in> set ks"
  shows "bt_get (sn_sample_errors (project_samples ks s)) k = bt_get (sn_sample_errors s) k"
    "bt_get (sn_sample_ages_seconds (project_samples ks s)) k = bt_get (sn_sample_ages_seconds s) k"
    "bt_get (sn_sample_started_seconds (project_samples ks s)) k = bt_get (sn_sample_started_seconds s) k"
    "bt_get (sn_sample_sequences (project_samples ks s)) k = bt_get (sn_sample_sequences s) k"
    "bt_get (sn_values (project_samples ks s)) k
      = Option.bind (bt_get (sn_values s) k) (\<lambda>v. if is_number v \<or> as_bool v \<noteq> None then Some v else None)"
  using assms by (simp_all add: project_samples_def bt_get_select_keys bt_get_filter_values)

lemma scalar_projected:
  assumes "sample_key r \<in> set ks" "bt_get (sn_values s) (sample_key r) = Some v" "is_number v"
  shows "scalar (project_samples ks s) r now = scalar s r now"
proof -
  have "bt_get (sn_values (project_samples ks s)) (sample_key r) = bt_get (sn_values s) (sample_key r)"
    using assms by (simp add: projected_keys(5))
  then show ?thesis
    unfolding scalar_def Let_def sampled_at_def upstream_age_def projected_fields projected_keys(1-4) [OF assms(1)]
    by (simp only:)
qed

definition usable_in :: "source_snapshot option \<Rightarrow> weather_metric \<Rightarrow> measurement \<Rightarrow> nat \<Rightarrow> readout \<Rightarrow> scalar_sample option" where
  "usable_in state m measurement now r =
     Option.bind state (\<lambda>state. Option.bind (bt_get (sn_values state) (sample_key r)) (\<lambda>v.
     if \<not> is_number v then None else
     case scalar state r now of
       Inr sample \<Rightarrow>
         if sc_age_seconds sample < me_maximum_age_seconds measurement \<and> metric_accepts m (sc_value sample)
         then Some sample else None
     | Inl _ \<Rightarrow> None))"

lemma usable_sample_in: "usable_sample e m measurement now r = usable_in (bt_get (we_states e) (readout_source r)) m measurement now r"
  by (simp add: usable_sample_def usable_in_def)

lemma usable_projected:
  assumes "sample_key r \<in> set ks"
  shows "usable_in (Some (project_samples ks s)) m measurement now r = usable_in (Some s) m measurement now r"
proof (cases "bt_get (sn_values s) (sample_key r)")
  case None
  then show ?thesis using assms by (simp add: usable_in_def projected_keys(5))
next
  case (Some v)
  show ?thesis
  proof (cases "is_number v")
    case True
    then have "bt_get (sn_values (project_samples ks s)) (sample_key r) = Some v"
      using Some assms by (simp add: projected_keys(5))
    then show ?thesis using Some True scalar_projected [OF assms Some True, of now] by (simp add: usable_in_def)
  next
    case False
    then show ?thesis using Some assms by (simp add: usable_in_def projected_keys(5))
  qed
qed

section \<open>Agreement of the copy with the engine\<close>

definition agree :: "weather_metric set \<Rightarrow> weather_engine \<Rightarrow> weather_engine \<Rightarrow> bool" where
  "agree C e d \<longleftrightarrow> we_average d = we_average e \<and> we_last_now d = we_last_now e \<and> we_clock_fault d = we_clock_fault e
     \<and> bt_wf (we_history e) \<and> bt_wf (we_history d)
     \<and> (\<forall>m \<in> C. bt_get (we_measurements d) m = bt_get (we_measurements e) m
          \<and> bt_get (we_history d) m = bt_get (we_history e) m
          \<and> (\<forall>measurement now. \<forall>r. bt_get (we_measurements e) m = Some measurement \<longrightarrow> r \<in> set (me_sources measurement)
               \<longrightarrow> usable_sample d m measurement now r = usable_sample e m measurement now r))"

lemma tick_agrees:
  assumes "agree C e d"
  shows "fst (weather_tick now d) = fst (weather_tick now e) \<and> agree C (snd (weather_tick now e)) (snd (weather_tick now d))"
  using assms by (auto simp: agree_def weather_tick_def Let_def usable_sample_in)

lemma first_usable_agrees:
  "(\<And>r. r \<in> snd ` set irs \<Longrightarrow> usable_sample d m measurement now r = usable_sample e m measurement now r)
   \<Longrightarrow> first_usable d m measurement now irs = first_usable e m measurement now irs"
  by (induction irs) (auto split: option.split)

lemma select_agrees:
  assumes "agree C e d" "m \<in> C"
  shows "weather_select d m now = weather_select e m now"
proof (cases "bt_get (we_measurements e) m")
  case None
  then show ?thesis using assms by (simp add: weather_select_def agree_def)
next
  case (Some measurement)
  have "snd ` set (enumerate 0 (me_sources measurement)) = set (me_sources measurement)"
    by (metis list.set_map map_snd_enumerate)
  then have "first_usable d m measurement now (enumerate 0 (me_sources measurement))
      = first_usable e m measurement now (enumerate 0 (me_sources measurement))"
    using assms Some by (intro first_usable_agrees) (simp add: agree_def)
  then show ?thesis using assms Some by (simp add: weather_select_def agree_def)
qed

lemma history_agrees:
  assumes "agree C e d"
  shows "agree C (e\<lparr>we_history := bt_remove m (we_history e)\<rparr>) (d\<lparr>we_history := bt_remove m (we_history d)\<rparr>)"
    "agree C (e\<lparr>we_last_valid := v, we_history := bt_insert m h (we_history e)\<rparr>)
       (d\<lparr>we_last_valid := w, we_history := bt_insert m h (we_history d)\<rparr>)"
  using assms by (auto simp: agree_def bt_get_remove bt_get_insert bt_wf_remove bt_wf_insert usable_sample_in)

lemma read_metric_agrees:
  assumes "agree C e d" "m \<in> C"
  shows "fst (read_metric tr m now d) = fst (read_metric tr m now e)
    \<and> agree C (snd (read_metric tr m now e)) (snd (read_metric tr m now d))"
proof -
  obtain r e1 where e1: "weather_tick now e = (r, e1)" by (cases "weather_tick now e")
  obtain d1 where d1: "weather_tick now d = (r, d1)" and a: "agree C e1 d1"
    using tick_agrees [OF assms(1), of now] e1 by (cases "weather_tick now d") auto
  have get: "bt_get (we_measurements d1) m = bt_get (we_measurements e1) m"
      "bt_get (we_history d1) m = bt_get (we_history e1) m" "we_average d1 = we_average e1"
    using a assms(2) by (auto simp: agree_def)
  note sel = select_agrees [OF a assms(2), of now]
  show ?thesis
    using a history_agrees [OF a]
    by (auto simp: read_metric_def e1 d1 sel get metric_average_def Let_def split: sum.split option.split prod.split)
qed

lemma weather_read_agrees:
  assumes "agree C e d" "m \<in> C" "m = WindDirection \<Longrightarrow> WindSpeed \<in> C"
  shows "fst (weather_read tr m now d) = fst (weather_read tr m now e)"
proof -
  obtain r e1 where e1: "read_metric tr m now e = (r, e1)" by (cases "read_metric tr m now e")
  obtain d1 where d1: "read_metric tr m now d = (r, d1)" and a: "agree C e1 d1"
    using read_metric_agrees [OF assms(1,2), of tr now] e1 by (cases "read_metric tr m now d") auto
  show ?thesis
  proof (cases "m = WindDirection")
    case True
    have "fst (read_metric tr WindSpeed now d1) = fst (read_metric tr WindSpeed now e1)"
      using read_metric_agrees [OF a assms(3) [OF True]] by blast
    then show ?thesis unfolding weather_read_def e1 d1
      by (cases "read_metric tr WindSpeed now d1"; cases "read_metric tr WindSpeed now e1") (auto split: sum.split)
  qed (simp add: weather_read_def e1 d1 split: sum.split)
qed

lemma copied_key:
  assumes "bt_get ms m = Some measurement" "r \<in> set (me_sources measurement)"
  shows "sample_key r \<in> set (copied_keys ms (readout_source r))"
proof -
  have "(m, measurement) \<in> set ms" using assms(1) by (rule bt_get_in_set)
  then show ?thesis using assms(2) by (force simp: copied_keys_def)
qed

lemma copy_agrees:
  assumes "bt_wf (we_history e)"
  shows "agree (set (copied_metrics metrics)) e (diagnostic_copy metrics e)"
proof -
  let ?C = "set (copied_metrics metrics)"
  define ms where "ms = filter (\<lambda>p. fst p \<in> ?C) (we_measurements e)"
  have ms: "bt_get ms m = (if m \<in> ?C then bt_get (we_measurements e) m else None)" for m
    unfolding ms_def by (rule bt_get_filter_keys)
  have "usable_sample (diagnostic_copy metrics e) m measurement now r = usable_sample e m measurement now r"
    if m: "m \<in> ?C" "bt_get (we_measurements e) m = Some measurement" "r \<in> set (me_sources measurement)" for m measurement now r
  proof -
    have key: "sample_key r \<in> set (copied_keys ms (readout_source r))"
      using m ms copied_key [of ms m measurement r] by simp
    have "bt_get (we_states (diagnostic_copy metrics e)) (readout_source r)
        = map_option (project_samples (copied_keys ms (readout_source r))) (bt_get (we_states e) (readout_source r))"
      using key by (auto simp: diagnostic_copy_def Let_def ms_def [symmetric] bt_get_map_with_key
          bt_get_filter_keys [where P = "\<lambda>k. copied_keys ms k \<noteq> []"])
    then show ?thesis
      using usable_projected [OF key] by (cases "bt_get (we_states e) (readout_source r)") (simp_all add: usable_sample_in)
  qed
  moreover have "we_measurements (diagnostic_copy metrics e) = ms"
      "we_history (diagnostic_copy metrics e) = filter (\<lambda>p. fst p \<in> ?C) (we_history e)"
      "we_average (diagnostic_copy metrics e) = we_average e" "we_last_now (diagnostic_copy metrics e) = we_last_now e"
      "we_clock_fault (diagnostic_copy metrics e) = we_clock_fault e"
    by (simp_all add: diagnostic_copy_def Let_def ms_def)
  ultimately show ?thesis
    using assms ms by (simp add: agree_def bt_get_filter_keys [where P = "\<lambda>k. k \<in> ?C"] bt_wf_filter)
qed

text \<open>
  C30: Diagnostics show what a client would read: for every metric a diagnostic page asks about, reading
  from the private copy of the engine, which drops all other metrics and all values that are not
  scalars, gives exactly the result (reading or error) that reading from the live engine gives, and
  leaves the live engine out of it.
\<close>

theorem diagnostics_show_what_clients_read:
  assumes "weather_run tr ms e fed" "m \<in> set metrics"
  shows "fst (weather_read tr m now (diagnostic_copy metrics e)) = fst (weather_read tr m now e)"
proof (rule weather_read_agrees)
  show "agree (set (copied_metrics metrics)) e (diagnostic_copy metrics e)"
    using run_backed [OF assms(1)] by (intro copy_agrees) (simp add: backed_def)
  show "m \<in> set (copied_metrics metrics)" "m = WindDirection \<Longrightarrow> WindSpeed \<in> set (copied_metrics metrics)"
    using assms(2) by (auto simp: copied_metrics_def)
qed

lemma diagnostics_show_what_clients_read_witness:
  "\<exists>x. fst (weather_read demo_trigonometry CloudCover 0 (diagnostic_copy [CloudCover, WindDirection] demo_engine)) = Inr x
     \<and> wx_value x = 20"
proof -
  obtain x e where "weather_read demo_trigonometry CloudCover 0 demo_engine = (Inr x, e)" "wx_value x = 20"
    using demo_reads by blast
  then show ?thesis
    using diagnostics_show_what_clients_read [OF demo_engine_run, of CloudCover "[CloudCover, WindDirection]" 0] by simp
qed

end
