(* ===== verification/Dependency.thy ===== *)
theory Dependency imports Ordered_Map begin

text \<open>
  The dependency check of a hub configuration: the nested function \<open>visit\<close> and the loop over it in
  \<open>HubConfig::validate\<close> (\<open>crates/regain-hub/src/config.rs\<close>). Identifiers are numbers; \<open>edges\<close> is the
  map from every source and output to what it refers to. The sets \<open>active\<close> and \<open>done\<close> are the
  mutable sets of the code, returned updated; \<open>visit_any\<close> is the loop of \<open>next.iter().any(...)\<close>, which
  stops at the first cycle.
\<close>

section \<open>The search\<close>

type_synonym graph = "(nat, nat list) btree"

function visit :: "graph \<Rightarrow> nat \<Rightarrow> nat set \<Rightarrow> nat set \<Rightarrow> bool \<times> nat set \<times> nat set"
  and visit_any :: "graph \<Rightarrow> nat list \<Rightarrow> nat set \<Rightarrow> nat set \<Rightarrow> bool \<times> nat set \<times> nat set" where
  "visit edges n active finished =
     (if n \<in> finished then (False, active, finished)
      else if n \<in> active then (True, active, finished)
      else case bt_get edges n of
          None \<Rightarrow> (False, insert n active - {n}, insert n finished)
        | Some ns \<Rightarrow>
            (case visit_any edges ns (insert n active) finished of (cyclic, active', finished') \<Rightarrow>
               if cyclic then (True, active', finished')
               else (False, active' - {n}, insert n finished')))"
| "visit_any edges [] active finished = (False, active, finished)"
| "visit_any edges (n # ns) active finished =
     (case visit edges n active finished of (cyclic, active', finished') \<Rightarrow>
        if cyclic then (True, active', finished') else visit_any edges ns active' finished')"
  by pat_completeness auto

text \<open>A search that finds no cycle leaves the active set as it was.\<close>

lemma search_keeps_active:
  "visit_visit_any_dom (Inl (edges, n, active, finished)) \<Longrightarrow>
     \<not> fst (visit edges n active finished) \<Longrightarrow> fst (snd (visit edges n active finished)) = active"
  "visit_visit_any_dom (Inr (edges, ns, active, finished)) \<Longrightarrow>
     \<not> fst (visit_any edges ns active finished) \<Longrightarrow> fst (snd (visit_any edges ns active finished)) = active"
proof (induction edges n active finished and edges ns active finished rule: visit_visit_any.pinduct)
  case (1 edges n active finished)
  then show ?case by (auto simp: visit.psimps split: prod.splits option.splits if_splits)
next
  case (2 edges active finished)
  then show ?case by (simp add: visit_any.psimps)
next
  case (3 edges n ns active finished)
  then show ?case by (auto simp: visit_any.psimps split: prod.splits if_splits)
qed

definition unvisited :: "graph \<Rightarrow> nat set \<Rightarrow> nat" where
  "unvisited edges active = card (bt_keys edges - active)"

lemma unvisited_insert:
  assumes "bt_get edges n = Some ns" "n \<notin> active"
  shows "unvisited edges (insert n active) < unvisited edges active"
  unfolding unvisited_def
proof (rule psubset_card_mono)
  show "finite (bt_keys edges - active)" by (simp add: bt_keys_def)
  have "n \<in> bt_keys edges - active" using assms by (simp add: bt_keys_get)
  then show "bt_keys edges - insert n active \<subset> bt_keys edges - active" by blast
qed

lemma visit_returns_active:
  "visit_visit_any_dom (Inl (edges, n, active, finished)) \<Longrightarrow> (False, a, f) = visit edges n active finished \<Longrightarrow> a = active"
  using search_keeps_active(1) [of edges n active finished] by (metis fst_conv snd_conv)

termination visit
  by (relation "inv_image (less_than <*lex*> less_than <*lex*> less_than)
      (\<lambda>call. case call of Inl (edges, n, active, finished) \<Rightarrow> (unvisited edges active, 0, 0)
         | Inr (edges, ns, active, finished) \<Rightarrow> (unvisited edges active, Suc 0, length ns))")
    (auto simp: unvisited_insert dest: visit_returns_active)

declare visit.simps [simp del]

lemma search_keeps_active_total:
  "\<not> fst (visit edges n active finished) \<Longrightarrow> fst (snd (visit edges n active finished)) = active"
  "\<not> fst (visit_any edges ns active finished) \<Longrightarrow> fst (snd (visit_any edges ns active finished)) = active"
proof (induction edges n active finished and edges ns active finished rule: visit_visit_any.induct)
  case (1 edges n active finished)
  then show ?case by (auto simp: visit.simps [of edges n] split: prod.splits option.splits if_splits)
qed (auto split: prod.splits if_splits)

fun visit_roots :: "graph \<Rightarrow> nat list \<Rightarrow> nat set \<Rightarrow> bool" where
  "visit_roots edges [] finished = False"
| "visit_roots edges (n # ns) finished =
     (case visit edges n {} finished of (cyclic, _, finished') \<Rightarrow> cyclic \<or> visit_roots edges ns finished')"

definition dependency_cycle :: "graph \<Rightarrow> bool" where
  "dependency_cycle edges = visit_roots edges (map fst edges) {}"

section \<open>What it decides\<close>

definition depends :: "graph \<Rightarrow> (nat \<times> nat) set" where
  "depends edges = {(a, b). \<exists>ns. bt_get edges a = Some ns \<and> b \<in> set ns}"

text \<open>What has been finished is closed under the dependencies and lies on no cycle.\<close>

definition settled :: "graph \<Rightarrow> nat set \<Rightarrow> bool" where
  "settled edges D \<longleftrightarrow> (\<forall>a \<in> D. \<forall>b. (a, b) \<in> depends edges \<longrightarrow> b \<in> D)
     \<and> (\<forall>a \<in> D. (a, a) \<notin> (depends edges)\<^sup>+)"

lemma settled_closed: "(a, b) \<in> (depends edges)\<^sup>+ \<Longrightarrow> settled edges D \<Longrightarrow> a \<in> D \<Longrightarrow> b \<in> D"
  by (induction rule: trancl.induct) (auto simp: settled_def)

lemma settled_insert:
  assumes "settled edges D" "\<forall>b. (n, b) \<in> depends edges \<longrightarrow> b \<in> D"
  shows "settled edges (insert n D)"
proof (cases "n \<in> D")
  case True
  with assms show ?thesis by (simp add: insert_absorb)
next
  case False
  have "(n, n) \<notin> (depends edges)\<^sup>+"
  proof
    assume "(n, n) \<in> (depends edges)\<^sup>+"
    then show False
    proof (rule converse_tranclE)
      assume "(n, n) \<in> depends edges"
      with assms(2) False show False by blast
    next
      fix b
      assume "(n, b) \<in> depends edges" "(b, n) \<in> (depends edges)\<^sup>+"
      with assms(2) settled_closed [OF _ assms(1)] False show False by blast
    qed
  qed
  with assms show ?thesis by (auto simp: settled_def)
qed

definition reaching :: "graph \<Rightarrow> nat set \<Rightarrow> nat \<Rightarrow> bool" where
  "reaching edges A n \<longleftrightarrow> (\<forall>a \<in> A. (a, n) \<in> (depends edges)\<^sup>+)"

lemma search_correct:
  "settled edges finished \<Longrightarrow> reaching edges active n \<Longrightarrow>
     (fst (visit edges n active finished) \<longrightarrow> (\<exists>a. (a, a) \<in> (depends edges)\<^sup>+))
     \<and> (\<not> fst (visit edges n active finished) \<longrightarrow>
          settled edges (snd (snd (visit edges n active finished)))
          \<and> insert n finished \<subseteq> snd (snd (visit edges n active finished)))"
  "settled edges finished \<Longrightarrow> \<forall>n \<in> set ns. reaching edges active n \<Longrightarrow>
     (fst (visit_any edges ns active finished) \<longrightarrow> (\<exists>a. (a, a) \<in> (depends edges)\<^sup>+))
     \<and> (\<not> fst (visit_any edges ns active finished) \<longrightarrow>
          settled edges (snd (snd (visit_any edges ns active finished)))
          \<and> set ns \<union> finished \<subseteq> snd (snd (visit_any edges ns active finished)))"
proof (induction edges n active finished and edges ns active finished rule: visit_visit_any.induct)
  case (1 edges n active finished)
  show ?case
  proof (cases "n \<in> finished \<or> n \<in> active \<or> bt_get edges n = None")
    case True
    then show ?thesis
      using 1(2, 3) settled_insert [OF 1(2), of n]
      by (auto simp: visit.simps [of edges n] reaching_def depends_def)
  next
    case False
    then obtain ns where ns: "bt_get edges n = Some ns" by blast
    have reach: "\<forall>m \<in> set ns. reaching edges (insert n active) m"
      using 1(3) ns by (auto simp: reaching_def depends_def intro: trancl_into_trancl)
    obtain c a f where v: "visit_any edges ns (insert n active) finished = (c, a, f)" by (metis prod_cases3)
    have ih: "(c \<longrightarrow> (\<exists>a. (a, a) \<in> (depends edges)\<^sup>+)) \<and> (\<not> c \<longrightarrow> settled edges f \<and> set ns \<union> finished \<subseteq> f)"
      using 1(1) [OF _ _ ns 1(2) reach] False v by simp
    show ?thesis
      using False ns v ih settled_insert [of edges f n]
      by (auto simp: visit.simps [of edges n] depends_def)
  qed
next
  case (2 edges active finished)
  then show ?case by simp
next
  case (3 edges n ns active finished)
  obtain c a f where v: "visit edges n active finished = (c, a, f)" by (metis prod_cases3)
  have ih: "(c \<longrightarrow> (\<exists>a. (a, a) \<in> (depends edges)\<^sup>+)) \<and> (\<not> c \<longrightarrow> settled edges f \<and> insert n finished \<subseteq> f)"
    using 3(1) [OF 3(3)] 3(4) v by simp
  show ?case
  proof (cases c)
    case True
    with v ih show ?thesis by simp
  next
    case False
    have "a = active" using search_keeps_active_total(1) [of edges n active finished] v False by simp
    with 3(2) [OF v [symmetric] _ False] ih 3(4) False v show ?thesis by auto
  qed
qed

lemma visit_roots_correct:
  "settled edges finished \<Longrightarrow>
     visit_roots edges ns finished \<longrightarrow> (\<exists>a. (a, a) \<in> (depends edges)\<^sup>+)"
  "settled edges finished \<Longrightarrow> \<not> visit_roots edges ns finished \<Longrightarrow> n \<in> set ns \<Longrightarrow> (n, n) \<notin> (depends edges)\<^sup>+"
proof (induction ns arbitrary: finished)
  case (Cons m ns)
  note ok = search_correct(1) [of edges _ "{}" m, simplified reaching_def, simplified]
  { case 1
    with ok [OF 1] Cons(1) show ?case by (auto split: prod.splits)
  next
    case 2
    with ok [OF 2(1)] Cons(2) show ?case by (auto simp: settled_def split: prod.splits) }
qed simp_all

theorem dependency_cycle_iff: "dependency_cycle edges \<longleftrightarrow> (\<exists>a. (a, a) \<in> (depends edges)\<^sup>+)"
proof
  have start: "settled edges {}" by (simp add: settled_def)
  show "dependency_cycle edges \<Longrightarrow> \<exists>a. (a, a) \<in> (depends edges)\<^sup>+"
    using visit_roots_correct(1) [OF start] by (simp add: dependency_cycle_def)
  assume "\<exists>a. (a, a) \<in> (depends edges)\<^sup>+"
  then obtain a where a: "(a, a) \<in> (depends edges)\<^sup>+" by blast
  then obtain b where "(a, b) \<in> depends edges" by (meson tranclD)
  then have "a \<in> set (map fst edges)" by (force simp: depends_def dest: bt_get_in_set)
  with visit_roots_correct(2) [OF start] a show "dependency_cycle edges"
    unfolding dependency_cycle_def by blast
qed

text \<open>
  C37: The search for circular dependencies decides exactly whether the graph has a cycle. It ends on
  every graph, however deep or cyclic: every call adds to the active set an element of the finite map.
\<close>

theorem dependency_check_exact: "dependency_cycle edges \<longleftrightarrow> \<not> acyclic (depends edges)"
  by (simp add: dependency_cycle_iff acyclic_def)

end
