(* ===== verification/Hub_Data.thy ===== *)
theory Hub_Data imports Dependency Weather Focuser_Group Recovery begin

text \<open>
  The hub configuration of \<open>crates/regain-hub/src/config.rs\<close> as data: sources and their backends,
  outputs, the identity ledger, and the lookups over them; with the settings it embeds, of
  \<open>camera/config.rs\<close>, \<open>filterwheel.rs\<close>, \<open>coordination/camera.rs\<close>, \<open>parameters.rs\<close> and the grid of
  \<open>switch.rs\<close>, each with its checks.

  Text is UTF-8, a list of bytes. UUIDs are natural numbers, 0 the nil UUID. Limits of measurements
  and recovery settings are read from JSON, hence finite doubles; all other doubles are arbitrary.
  URLs and the text of UUIDs belong to the \<open>url\<close> and \<open>uuid\<close> crates: they are the parameter \<open>platform\<close>.
\<close>

section \<open>Text\<close>

definition to_ascii_lowercase :: "string \<Rightarrow> string" where
  "to_ascii_lowercase s =
     map (\<lambda>c. if CHR ''A'' \<le> c \<and> c \<le> CHR ''Z'' then char_of ((of_char c :: nat) + 32) else c) s"

definition alphanumeric_or :: "string \<Rightarrow> string \<Rightarrow> bool" where
  "alphanumeric_or extra s \<longleftrightarrow> list_all (\<lambda>c. is_parameter_char c \<or> c \<in> set extra) s"

definition en_dash :: string where
  "en_dash = [CHR 0xE2, CHR 0x80, CHR 0x93]"

definition prefixed :: "string \<Rightarrow> field_error list \<Rightarrow> field_error list" where
  "prefixed p es = map (\<lambda>e. field_error_new (p @ fe_path e) (fe_code e) (fe_message e)) es"

definition report :: "bool \<Rightarrow> string \<Rightarrow> string \<Rightarrow> string \<Rightarrow> field_error list" where
  "report wrong path code message = (if wrong then [field_error_new path code message] else [])"

lemma report_Nil [simp]: "report wrong path code message = [] \<longleftrightarrow> \<not> wrong"
  by (simp add: report_def)

lemma prefixed_Nil [simp]: "prefixed p es = [] \<longleftrightarrow> es = []"
  by (simp add: prefixed_def)

section \<open>Embedded settings\<close>

record filter_metadata =
  fl_names :: "string list"
  fl_focus_offsets :: "int list"

definition slots_fit :: "'a list \<Rightarrow> bool" where
  "slots_fit xs \<longleftrightarrow> xs \<noteq> [] \<and> length xs \<le> 1024"

definition filter_validate :: "filter_metadata \<Rightarrow> field_error list" where
  "filter_validate m =
     report (\<not> (slots_fit (fl_names m) \<and> sum_list (map length (fl_names m)) \<le> 1024 * 1024))
       ''names'' ''filterMetadata'' (''Use 1'' @ en_dash @ ''1024 names with at most one MiB of UTF-8 text'')
     @ report (\<not> (slots_fit (fl_focus_offsets m) \<and> 0 \<in> set (fl_focus_offsets m)))
       ''focusOffsets'' ''filterMetadata''
       (''Use 1'' @ en_dash @ ''1024 signed Int32 offsets with at least one zero reference'')
     @ report (length (fl_names m) \<noteq> length (fl_focus_offsets m))
       ''focusOffsets'' ''filterMetadata'' ''Names and focus offsets must have matching slot counts''"

record native_camera_config =
  cc_model :: string
  cc_sdk_fallback :: bool
  cc_recovery :: recovery_options

definition recovery_labels :: "(string \<times> string) list" where
  "recovery_labels =
    [(''maxRetries'', ''Replacement exposures''),
     (''preExposureReconnectAttempts'', ''Pre-exposure reconnect attempts''),
     (''maximumRetryExposureSeconds'', ''Replacement exposure limit''),
     (''reconnectDelaySeconds'', ''Reconnect delay''),
     (''commandTimeoutSeconds'', ''Command timeout''),
     (''downloadTimeoutSeconds'', ''Download timeout''),
     (''exposureGraceSeconds'', ''Exposure grace''),
     (''coolingTimeoutSeconds'', ''Cooling recovery timeout''),
     (''temperatureToleranceC'', ''Temperature tolerance''),
     (''coolingStableSamples'', ''Stable cooling samples''),
     (''coolingSampleSeconds'', ''Cooling check interval''),
     (''readyFrameDownloadRetries'', ''SDK ready-frame rereads''),
     (''directReadRetries'', ''Direct USB rereads''),
     (''directReadChunkKiB'', ''Direct USB read size''),
     (''transferLogMode'', ''Transfer logging''),
     (''coolerMaxPowerChangePer5Seconds'', ''Direct cooler maximum power change''),
     (''usbResetAfterFailures'', ''USB reset threshold''),
     (''usbPortCycle'', ''Linux USB port cycle'')]"

definition recovery_label :: "string \<Rightarrow> string" where
  "recovery_label key = (case map_of recovery_labels key of Some l \<Rightarrow> l | None \<Rightarrow> [])"

definition camera_recovery_validate :: "recovery_options \<Rightarrow> field_error list" where
  "camera_recovery_validate ops = (let values = options_value ops in
     map (\<lambda>f. field_error_new (rf_key f) ''range''
         (recovery_label (rf_key f) @ '' is outside the native camera recovery range''))
       (filter (\<lambda>f. \<not> accepts (rf_type f) (jindex values (rf_key f))) recovery_fields))"

definition native_camera_validate :: "native_camera_config \<Rightarrow> bool \<Rightarrow> field_error list" where
  "native_camera_validate c direct =
     report (bad_label (cc_model c) \<or> has_control (cc_model c)) ''model'' ''identity''
       ''Select an exact camera model name''
     @ report (cc_sdk_fallback c \<and> \<not> direct) ''sdkFallback'' ''type''
       ''SDK fallback is only available for direct USB sources''
     @ prefixed ''recovery.'' (camera_recovery_validate (cc_recovery c))"

definition camera_selection :: "native_camera_config \<Rightarrow> string \<Rightarrow> bool \<Rightarrow> selection" where
  "camera_selection c serial direct =
     \<lparr>sl_name = cc_model c, sl_serial = Some serial, sl_direct = direct,
      sl_sdk_fallback = cc_sdk_fallback c, sl_recovery = cc_recovery c\<rparr>"

text \<open>\<open>SafetyPolicy::validate_source\<close>; the sum of two doubles is rounded and may be infinite.\<close>

fun f64_add :: "f64 \<Rightarrow> f64 \<Rightarrow> f64" where
  "f64_add (Fin a) (Fin b) = (let s = f64_round (a + b) in
     if in_range s then Fin s else if 0 < s then PosInf else NegInf)"
| "f64_add NaN _ = NaN"
| "f64_add _ NaN = NaN"
| "f64_add PosInf NegInf = NaN"
| "f64_add NegInf PosInf = NaN"
| "f64_add PosInf _ = PosInf"
| "f64_add NegInf _ = NegInf"
| "f64_add _ y = y"

definition validate_source :: "safety_policy \<Rightarrow> poll_policy \<Rightarrow> field_error list" where
  "validate_source p poll =
     safety_validate p
     @ report (f64_le (maximum_safe_age_seconds p) (f64_add (poll_seconds poll) (request_timeout_seconds poll)))
       ''maximumSafeAgeSeconds'' ''timing''
       ''Safe age must exceed the source check interval plus request timeout''
     @ report (f64_le (maximum_safe_age_seconds p) (confirmation_seconds p))
       ''confirmationSeconds'' ''timing''
       ''Confirmation interval must be shorter than the safe evidence lifetime''"

text \<open>\<open>SafetyPolicy::nominal_recovery_seconds\<close> of a valid policy, whose durations are finite.\<close>

definition nominal_recovery_seconds :: "safety_policy \<Rightarrow> rat" where
  "nominal_recovery_seconds p =
     (let confirmation = f64_val (confirmation_seconds p);
          lower_bound = max (f64_round (of_nat (safe_readings_to_safe p - 1) * confirmation))
            (f64_val (return_to_safe_hold_seconds p))
      in f64_round (of_int \<lceil>f64_round (lower_bound / confirmation)\<rceil> * confirmation))"

datatype camera_failure_policy = ContinueHealthy | AbortStartedOnFailure
datatype camera_cancellation_policy = LeaveRunning | AbortStartedOnCancellation

record camera_group_config =
  cg_id :: nat
  cg_label :: string
  cg_timeout_seconds :: f64
  cg_failure_policy :: camera_failure_policy
  cg_cancellation_policy :: camera_cancellation_policy
  cg_members :: "nat list"

definition camera_group_validate :: "camera_group_config \<Rightarrow> source_error + unit" where
  "camera_group_validate g =
     ensure (\<not> (cg_id g = 0
        \<or> bad_label (cg_label g)
        \<or> \<not> f64_finite (cg_timeout_seconds g)
        \<or> \<not> (f64_le (Fin (1/100)) (cg_timeout_seconds g) \<and> f64_le (cg_timeout_seconds g) (Fin 604800))
        \<or> \<not> (2 \<le> length (cg_members g) \<and> length (cg_members g) \<le> 32)
        \<or> \<not> distinct (cg_members g)
        \<or> 0 \<in> set (cg_members g)))
       (invalid_value ''Invalid camera group configuration'')"

definition requires_abort :: "camera_group_config \<Rightarrow> bool" where
  "requires_abort g \<longleftrightarrow> cg_failure_policy g = AbortStartedOnFailure
     \<or> cg_cancellation_policy g = AbortStartedOnCancellation"

section \<open>The grid of a switch channel\<close>

text \<open>\<open>f64::round\<close> rounds halves away from zero.\<close>

definition f64_nearest :: "rat \<Rightarrow> rat" where
  "f64_nearest x = (if 0 \<le> x then of_int \<lfloor>x + 1 / 2\<rfloor> else - of_int \<lfloor>1 / 2 - x\<rfloor>)"

definition near :: "rat \<Rightarrow> rat \<Rightarrow> bool" where
  "near a b \<longleftrightarrow> \<bar>f64_round (a - b)\<bar> \<le> f64_round (8 * (1 / 2 ^ 52) * max (max \<bar>a\<bar> \<bar>b\<bar>) 1)"

record grid =
  gd_minimum :: rat
  gd_maximum :: rat
  gd_step :: rat

text \<open>The number of steps; a span or quotient beyond the range of doubles has overflowed.\<close>

definition grid_steps :: "rat \<Rightarrow> rat \<Rightarrow> rat \<Rightarrow> rat option" where
  "grid_steps lo hi step = (let span = f64_round (hi - lo); steps = f64_round (span / step) in
     if in_range span \<and> in_range steps then Some steps else None)"

definition grid_error :: source_error where
  "grid_error = invalid_value ''Switch bounds must span a whole, representable number of positive steps''"

fun grid_new :: "f64 \<Rightarrow> f64 \<Rightarrow> f64 \<Rightarrow> source_error + grid" where
  "grid_new (Fin lo) (Fin hi) (Fin step) =
     (if hi \<le> lo \<or> step \<le> 0 then Inl grid_error
      else case grid_steps lo hi step of
          None \<Rightarrow> Inl grid_error
        | Some steps \<Rightarrow>
            if \<not> (1 \<le> steps \<and> steps \<le> 4503599627370496) \<or> \<not> near steps (f64_nearest steps) then Inl grid_error
            else Inr \<lparr>gd_minimum = lo, gd_maximum = hi, gd_step = step\<rparr>)"
| "grid_new _ _ _ = Inl grid_error"

end
