(* ===== verification/Hub_Config.thy ===== *)
theory Hub_Config imports Hub_Data begin

text \<open>
  The configuration document of the hub, \<open>crates/regain-hub/src/config.rs\<close>: sources, outputs and the
  identity ledger, the lookups over them, the checks of \<open>HubConfig::validate\<close>, and the identities
  of the native ASCOM registrations (\<open>ascom_export.rs\<close>) the checks compare with.

  The mutable sets of \<open>validate\<close> are threaded through its loops: every loop returns its errors and
  the identifiers seen so far. \<open>BTreeSet::insert\<close> answers whether its element is new; where the code
  combines insertions with a short-circuiting \<open>||\<close>, the later insertion does not happen.
\<close>

section \<open>What the url and uuid crates provide\<close>

datatype url_host = HostDomain string | HostIpv4 nat | HostIpv6 nat

record parsed_url =
  ur_scheme :: string
  ur_host :: "url_host option"
  ur_port_or_known_default :: "nat option"
  ur_username :: string
  ur_password :: "string option"
  ur_query :: "string option"
  ur_fragment :: "string option"
  ur_path :: string

record platform =
  pf_parse_url :: "string \<Rightarrow> parsed_url option"
  pf_set_path :: "string \<Rightarrow> parsed_url \<Rightarrow> parsed_url"
  pf_url_text :: "parsed_url \<Rightarrow> string"
  pf_parse_uuid :: "string \<Rightarrow> nat option"
  pf_uuid_text :: "nat \<Rightarrow> string"
  pf_uuid_simple :: "nat \<Rightarrow> string"
  pf_url_namespace_v5 :: "string \<Rightarrow> nat"

definition trim_slashes :: "string \<Rightarrow> string" where
  "trim_slashes s = rev (dropWhile (\<lambda>c. c = CHR ''/'') (rev s))"

definition normalized_url :: "platform \<Rightarrow> string \<Rightarrow> string + string" where
  "normalized_url pf input =
     (case pf_parse_url pf input of
        None \<Rightarrow> Inl ''Use an absolute HTTP(S) URL''
      | Some url \<Rightarrow>
          if ur_scheme url \<notin> {''http'', ''https''} \<or> ur_host url = None \<or> ur_username url \<noteq> []
             \<or> ur_password url \<noteq> None \<or> ur_query url \<noteq> None \<or> ur_fragment url \<noteq> None
          then Inl ''Use HTTP(S) without credentials, query, or fragment''
          else Inr (pf_url_text pf (pf_set_path pf (trim_slashes (ur_path url) @ ''/'') url)))"

text \<open>\<open>Ipv6Addr::is_unicast_link_local\<close>: the first ten bits are those of \<open>fe80::/10\<close>.\<close>

definition is_unicast_link_local :: "nat \<Rightarrow> bool" where
  "is_unicast_link_local a \<longleftrightarrow> a div 2 ^ 118 = 0x3FA"

text \<open>Of the socket address only the scope is used here.\<close>

definition scoped_address :: "parsed_url \<Rightarrow> nat option \<Rightarrow> string + nat option" where
  "scoped_address url scope =
     (let local = (case ur_host url of Some (HostIpv6 a) \<Rightarrow> is_unicast_link_local a | _ \<Rightarrow> False) in
      case scope of
        Some s \<Rightarrow>
          if local \<and> s \<noteq> 0
          then (if ur_port_or_known_default url = None then Inl ''Invalid HTTP port'' else Inr (Some s))
          else if local then Inl ''A link-local IPv6 server requires a positive interface scope ID''
          else Inl ''An interface scope ID is only valid for a literal link-local IPv6 server''
      | None \<Rightarrow>
          if local then Inl ''A link-local IPv6 server requires a positive interface scope ID'' else Inr None)"

definition normalized_alpaca_url :: "platform \<Rightarrow> string \<Rightarrow> nat option \<Rightarrow> string + string" where
  "normalized_alpaca_url pf input scope =
     and_then (normalized_url pf input) (\<lambda>normalized.
     and_then (ok_or (pf_parse_url pf normalized) ''Use an absolute HTTP(S) URL'') (\<lambda>url.
     and_then (scoped_address url scope) (\<lambda>address.
       Inr (case address of Some s \<Rightarrow> normalized @ ''|scope='' @ show_nat s | None \<Rightarrow> normalized))))"

definition valid_alpaca_id :: "string \<Rightarrow> bool" where
  "valid_alpaca_id s \<longleftrightarrow> \<not> blank s \<and> length s \<le> 256
     \<and> list_all (\<lambda>c. 32 \<le> (of_char c :: nat) \<and> (of_char c :: nat) < 127) s"

definition normalize_alpaca_id :: "platform \<Rightarrow> string \<Rightarrow> string" where
  "normalize_alpaca_id pf s = (case pf_parse_uuid pf s of Some u \<Rightarrow> pf_uuid_text pf u | None \<Rightarrow> s)"

section \<open>The document\<close>

datatype connection_policy = ExternallyManaged | ManagedConnection
datatype bitness = BitX86 | BitX64
datatype native_device = NdCameraDirect | NdCameraSdk | NdCaa | NdEfw | NdEaf | NdFc3 | NdFalcon | NdOfp2 | NdEta

fun native_device_type :: "native_device \<Rightarrow> device_type" where
  "native_device_type NdCameraDirect = DtCamera"
| "native_device_type NdCameraSdk = DtCamera"
| "native_device_type NdCaa = DtRotator"
| "native_device_type NdFalcon = DtRotator"
| "native_device_type NdEfw = DtFilterWheel"
| "native_device_type NdEaf = DtFocuser"
| "native_device_type NdFc3 = DtFocuser"
| "native_device_type NdEta = DtFocuser"
| "native_device_type NdOfp2 = DtCoverCalibrator"

record alpaca_backend =
  al_base_url :: string
  al_scope_id :: "nat option"
  al_device_type :: device_type
  al_device_number :: nat
  al_unique_id :: "string option"
  al_connection_policy :: connection_policy
  al_credential_reference :: "string option"

datatype source_backend =
    BkNative native_device string "filter_metadata option" "native_camera_config option"
  | BkAlpaca alpaca_backend
  | BkCom string device_type bitness connection_policy
  | BkVirtual nat
  | BkSimulated device_type

record source_config =
  scf_id :: nat
  scf_label :: string
  scf_backend :: source_backend
  scf_polling :: poll_policy

record safety_member =
  mb_source :: nat
  mb_enabled :: bool
  mb_policy :: safety_policy

record switch_channel =
  swc_id :: nat
  swc_number :: nat
  swc_label :: string
  swc_readout :: readout
  swc_writable :: bool
  swc_minimum :: f64
  swc_maximum :: f64
  swc_step :: f64
  swc_units :: string

datatype virtual_device =
    VdSafety "safety_member list"
  | VdSwitch "switch_channel list"
  | VdWeather measurements
  | VdProxy nat device_type

fun virtual_device_type :: "virtual_device \<Rightarrow> device_type" where
  "virtual_device_type (VdSafety _) = DtSafetyMonitor"
| "virtual_device_type (VdSwitch _) = DtSwitch"
| "virtual_device_type (VdWeather _) = DtObservingConditions"
| "virtual_device_type (VdProxy _ t) = t"

fun device_sources :: "virtual_device \<Rightarrow> nat list" where
  "device_sources (VdSafety members) = map mb_source members"
| "device_sources (VdSwitch channels) = map (\<lambda>c. readout_source (swc_readout c)) channels"
| "device_sources (VdWeather ms) = concat (map (\<lambda>m. map readout_source (me_sources m)) (bt_values ms))"
| "device_sources (VdProxy source _) = [source]"

record output_config =
  out_id :: nat
  out_number :: nat
  out_label :: string
  out_device :: virtual_device

record output_identity =
  oid_number :: nat
  oid_device_type :: device_type

record channel_identity =
  cid_output :: nat
  cid_number :: nat
  cid_readout :: readout

record identity_ledger =
  led_sources :: "(nat, string) btree"
  led_pins :: "(nat, string) btree"
  led_outputs :: "(nat, output_identity) btree"
  led_channels :: "(nat, channel_identity) btree"
  led_groups :: "nat set"
  led_camera_groups :: "nat set"

definition empty_ledger :: identity_ledger where
  "empty_ledger = \<lparr>led_sources = [], led_pins = [], led_outputs = [], led_channels = [],
     led_groups = {}, led_camera_groups = {}\<rparr>"

record hub_config =
  hc_schema_version :: nat
  hc_revision :: nat
  hc_instance_id :: nat
  hc_sources :: "source_config list"
  hc_outputs :: "output_config list"
  hc_focuser_groups :: "focuser_group_config list"
  hc_camera_groups :: "camera_group_config list"
  hc_identities :: identity_ledger

definition schema_version :: nat where
  "schema_version = 1"

definition max_devices :: nat where
  "max_devices = 256"

definition max_switch_channels :: nat where
  "max_switch_channels = 1024"

text \<open>The identities of an empty document are drawn at random.\<close>

definition empty_config :: "nat \<Rightarrow> nat \<Rightarrow> hub_config" where
  "empty_config revision instance_id = \<lparr>hc_schema_version = schema_version, hc_revision = revision,
     hc_instance_id = instance_id, hc_sources = [], hc_outputs = [], hc_focuser_groups = [],
     hc_camera_groups = [], hc_identities = empty_ledger\<rparr>"

section \<open>Names\<close>

fun device_debug :: "device_type \<Rightarrow> string" where
  "device_debug DtCamera = ''Camera''"
| "device_debug DtSwitch = ''Switch''"
| "device_debug DtSafetyMonitor = ''SafetyMonitor''"
| "device_debug DtObservingConditions = ''ObservingConditions''"
| "device_debug DtFocuser = ''Focuser''"
| "device_debug DtRotator = ''Rotator''"
| "device_debug DtFilterWheel = ''FilterWheel''"
| "device_debug DtCoverCalibrator = ''CoverCalibrator''"

fun native_debug :: "native_device \<Rightarrow> string" where
  "native_debug NdCameraDirect = ''CameraDirect''"
| "native_debug NdCameraSdk = ''CameraSdk''"
| "native_debug NdCaa = ''Caa''"
| "native_debug NdEfw = ''Efw''"
| "native_debug NdEaf = ''Eaf''"
| "native_debug NdFc3 = ''Fc3''"
| "native_debug NdFalcon = ''Falcon''"
| "native_debug NdOfp2 = ''Ofp2''"
| "native_debug NdEta = ''Eta''"

definition device_text :: "device_type \<Rightarrow> string" where
  "device_text t = to_ascii_lowercase (device_debug t)"

fun prog_prefix :: "device_type \<Rightarrow> string" where
  "prog_prefix DtSwitch = ''Rgn.HS.''"
| "prog_prefix DtSafetyMonitor = ''Rgn.HM.''"
| "prog_prefix DtObservingConditions = ''Rgn.HW.''"
| "prog_prefix DtFocuser = ''Rgn.HF.''"
| "prog_prefix DtRotator = ''Rgn.HR.''"
| "prog_prefix DtFilterWheel = ''Rgn.HL.''"
| "prog_prefix DtCoverCalibrator = ''Rgn.HC.''"
| "prog_prefix DtCamera = ''Rgn.HA.''"

definition class_id :: "platform \<Rightarrow> nat \<Rightarrow> nat \<Rightarrow> device_type \<Rightarrow> nat" where
  "class_id pf inst output t =
     pf_url_namespace_v5 pf (''https://pulsarfab.com/regain/ascom-hub/output/'' @ pf_uuid_text pf inst
       @ ''/'' @ pf_uuid_text pf output @ ''/'' @ device_text t)"

definition own_prog_id :: "platform \<Rightarrow> nat \<Rightarrow> nat \<Rightarrow> device_type \<Rightarrow> string" where
  "own_prog_id pf inst output t = prog_prefix t @ pf_uuid_simple pf (class_id pf inst output t)"

section \<open>Lookups\<close>

definition find_source :: "hub_config \<Rightarrow> nat \<Rightarrow> source_config option" where
  "find_source c i = find (\<lambda>s. scf_id s = i) (hc_sources c)"

definition find_output :: "hub_config \<Rightarrow> nat \<Rightarrow> output_config option" where
  "find_output c i = find (\<lambda>s. out_id s = i) (hc_outputs c)"

definition source_type :: "hub_config \<Rightarrow> nat \<Rightarrow> device_type option" where
  "source_type c i = Option.bind (find_source c i) (\<lambda>s. case scf_backend s of
       BkNative device _ _ _ \<Rightarrow> Some (native_device_type device)
     | BkAlpaca a \<Rightarrow> Some (al_device_type a)
     | BkCom _ t _ _ \<Rightarrow> Some t
     | BkSimulated t \<Rightarrow> Some t
     | BkVirtual output \<Rightarrow> map_option (\<lambda>o'. virtual_device_type (out_device o')) (find_output c output))"

text \<open>\<open>SourceConfig::identity\<close>: what the source really is, whatever it is called.\<close>

definition source_identity :: "platform \<Rightarrow> source_config \<Rightarrow> string + string" where
  "source_identity pf s = (case scf_backend s of
       BkAlpaca a \<Rightarrow>
         and_then (normalized_alpaca_url pf (al_base_url a) (al_scope_id a)) (\<lambda>url.
           Inr (''alpaca:'' @ url @ '':'' @ device_debug (al_device_type a) @ '':'' @ show_nat (al_device_number a)))
     | BkNative device identity _ _ \<Rightarrow>
         Inr (''native:'' @ (if device \<in> {NdCameraDirect, NdCameraSdk} then ''Camera'' else native_debug device)
           @ '':'' @ identity)
     | BkCom prog_id t _ _ \<Rightarrow> Inr (''com:'' @ to_ascii_lowercase prog_id @ '':'' @ device_debug t)
     | BkVirtual output \<Rightarrow> Inr (''virtual:'' @ pf_uuid_text pf output)
     | BkSimulated t \<Rightarrow> Inr (''simulation:'' @ device_debug t @ '':'' @ pf_uuid_text pf (scf_id s)))"

definition switch_numbers :: "virtual_device \<Rightarrow> nat list" where
  "switch_numbers d = (case d of VdSwitch channels \<Rightarrow> map swc_number channels | _ \<Rightarrow> [])"

text \<open>Numbers are \<open>u32\<close>.\<close>

definition switch_slot_count :: "hub_config \<Rightarrow> nat \<Rightarrow> nat" where
  "switch_slot_count c output =
     (let active = (case find_output c output of Some o' \<Rightarrow> switch_numbers (out_device o') | None \<Rightarrow> []);
          retired = map cid_number (filter (\<lambda>ch. cid_output ch = output) (bt_values (led_channels (hc_identities c))))
      in case active @ retired of
           [] \<Rightarrow> 0
         | n # ns \<Rightarrow> sat_add 32 (fold max ns n) 1)"

definition output_numbers :: "identity_ledger \<Rightarrow> (device_type \<times> nat) set" where
  "output_numbers l = set (map (\<lambda>i. (oid_device_type i, oid_number i)) (bt_values (led_outputs l)))"

definition export_config :: "hub_config \<Rightarrow> hub_config" where
  "export_config c = c\<lparr>hc_sources := map (\<lambda>s. case scf_backend s of
       BkAlpaca a \<Rightarrow> s\<lparr>scf_backend := BkAlpaca (a\<lparr>al_credential_reference := None\<rparr>)\<rparr>
     | _ \<Rightarrow> s) (hc_sources c)\<rparr>"

end
