(* ===== verification/Hub_Validate.thy ===== *)
theory Hub_Validate imports Hub_Config begin

text \<open>
  \<open>HubConfig::validate\<close> of \<open>crates/regain-hub/src/config.rs\<close> with \<open>validate_readout\<close>, the alias
  resolution \<open>physical_source\<close>, and the dependency graph. The errors appear in the order of the code.
\<close>

section \<open>Loops\<close>

text \<open>A loop over a numbered list that collects errors and threads a state.\<close>

fun each_numbered :: "(nat \<Rightarrow> 'a \<Rightarrow> 's \<Rightarrow> field_error list \<times> 's) \<Rightarrow> nat \<Rightarrow> 'a list \<Rightarrow> 's \<Rightarrow> field_error list \<times> 's" where
  "each_numbered f i [] s = ([], s)"
| "each_numbered f i (x # xs) s =
     (case f i x s of (es, s') \<Rightarrow> case each_numbered f (Suc i) xs s' of (es', s'') \<Rightarrow> (es @ es', s''))"

definition indexed :: "string \<Rightarrow> nat \<Rightarrow> string" where
  "indexed p i = p @ ''['' @ show_nat i @ '']''"

text \<open>\<open>id.is_nil() || !ids.insert(id)\<close>\<close>

definition claim_id :: "nat \<Rightarrow> nat set \<Rightarrow> bool \<times> nat set" where
  "claim_id i ids = (if i = 0 then (True, ids) else (i \<in> ids, insert i ids))"

section \<open>Readouts\<close>

definition validate_readout :: "hub_config \<Rightarrow> readout \<Rightarrow> field_error list" where
  "validate_readout c r =
     (let unit = (case r of RoChannel _ _ u \<Rightarrow> u | RoProperty _ _ u \<Rightarrow> u) in
      if some_and unit (\<lambda>u. 80 < char_count u)
      then [field_error_new ''unit'' ''range'' ''Unit labels are limited to 80 characters'']
      else case r of
          RoChannel source channel _ \<Rightarrow>
            if 32766 < channel
            then [field_error_new [] ''range'' ''ASCOM channel IDs must fit the Switch interface range'']
            else report (source_type c source \<noteq> Some DtSwitch) [] ''type'' ''Channel readouts require a Switch source''
        | RoProperty source property _ \<Rightarrow>
            report (source_type c source = None \<or> property = [] \<or> 80 < length property
                \<or> \<not> list_all (\<lambda>ch. CHR ''a'' \<le> ch \<and> ch \<le> CHR ''z'') property)
              [] ''property'' ''Select a source and a lowercase scalar property'')"

section \<open>Sources\<close>

type_synonym source_marks = "nat set \<times> string set \<times> string set"

definition check_alpaca :: "platform \<Rightarrow> string \<Rightarrow> alpaca_backend \<Rightarrow> string set \<Rightarrow> field_error list \<times> string option \<times> string set" where
  "check_alpaca pf p a pins =
     (let early =
        report (some_and (al_unique_id a) (\<lambda>i. \<not> valid_alpaca_id i)) (p @ ''.backend.uniqueId'') ''identity''
          ''Use a nonempty ASCII catalog identity of at most 256 bytes''
        @ report (some_and (al_credential_reference a) (\<lambda>r. r = [] \<or> 200 < length r \<or> \<not> alphanumeric_or ''-_.'' r))
            (p @ ''.backend.credentialReference'') ''credential''
            ''Use a local credential reference, never inline credentials''
      in case normalized_alpaca_url pf (al_base_url a) (al_scope_id a) of
           Inl why \<Rightarrow> (early @ [field_error_new (p @ ''.backend.baseUrl'') ''url'' why], None, pins)
         | Inr url \<Rightarrow>
             (case al_unique_id a of
                None \<Rightarrow> (early, Some (''alpaca:'' @ url @ '':'' @ device_debug (al_device_type a) @ '':''
                  @ show_nat (al_device_number a)), pins)
              | Some i \<Rightarrow> (let pin = normalize_alpaca_id pf i in
                  (early @ report (pin \<in> pins) (p @ ''.backend.uniqueId'') ''duplicate''
                     ''Configure a pinned Alpaca device once and share its source ID'',
                   Some (''alpaca:'' @ url @ '':'' @ device_debug (al_device_type a) @ '':''
                     @ show_nat (al_device_number a)), insert pin pins))))"

definition check_native :: "string \<Rightarrow> native_device \<Rightarrow> string \<Rightarrow> filter_metadata option \<Rightarrow> native_camera_config option
    \<Rightarrow> field_error list" where
  "check_native p device identity filter_wheel camera =
     report (bad_label identity) (p @ ''.backend.identity'') ''identity'' ''Select a physical device identity''
     @ (case filter_wheel of
          None \<Rightarrow> []
        | Some metadata \<Rightarrow>
            report (device \<noteq> NdEfw) (p @ ''.backend.filterWheel'') ''type''
              ''Filter metadata is only supported by direct EFW sources''
            @ prefixed (p @ ''.backend.filterWheel.'') (filter_validate metadata))
     @ (let is_camera = native_device_type device = DtCamera in
        case camera of
          Some settings \<Rightarrow>
            if is_camera
            then prefixed (p @ ''.backend.camera.'') (native_camera_validate settings (device = NdCameraDirect))
            else [field_error_new (p @ ''.backend.camera'') ''type''
              ''Camera settings are only supported by native camera sources'']
        | None \<Rightarrow> report is_camera (p @ ''.backend.camera'') ''required'' ''Select native camera settings'')"

definition check_com :: "platform \<Rightarrow> hub_config \<Rightarrow> string \<Rightarrow> string \<Rightarrow> field_error list" where
  "check_com pf c p prog_id =
     report (prog_id = [] \<or> 200 < length prog_id \<or> \<not> alphanumeric_or ''._-'' prog_id)
       (p @ ''.backend.progId'') ''identity'' ''Use a registered COM ProgID''
     @ report (list_ex (\<lambda>o'. to_ascii_lowercase (own_prog_id pf (hc_instance_id c) (out_id o')
           (virtual_device_type (out_device o'))) = to_ascii_lowercase prog_id) (hc_outputs c))
         (p @ ''.backend.progId'') ''cycle'' ''Use a virtual source for an output of this hub''"

definition check_backend :: "platform \<Rightarrow> hub_config \<Rightarrow> string \<Rightarrow> source_config \<Rightarrow> string set
    \<Rightarrow> field_error list \<times> string option \<times> string set" where
  "check_backend pf c p s pins = (case scf_backend s of
       BkAlpaca a \<Rightarrow> check_alpaca pf p a pins
     | BkNative device identity filter_wheel camera \<Rightarrow>
         (check_native p device identity filter_wheel camera,
          (case source_identity pf s of Inr i \<Rightarrow> Some i | Inl _ \<Rightarrow> None), pins)
     | BkCom prog_id t _ _ \<Rightarrow>
         (check_com pf c p prog_id, Some (''com:'' @ to_ascii_lowercase prog_id @ '':'' @ device_debug t), pins)
     | BkVirtual output \<Rightarrow>
         (report (find_output c output = None) (p @ ''.backend.output'') ''reference''
            ''Virtual output does not exist'', Some (''virtual:'' @ pf_uuid_text pf output), pins)
     | BkSimulated _ \<Rightarrow> ([], None, pins))"

definition label_message :: string where
  "label_message = ''Use a label of 1'' @ en_dash @ ''200 bytes''"

definition check_source :: "platform \<Rightarrow> hub_config \<Rightarrow> nat \<Rightarrow> source_config \<Rightarrow> source_marks
    \<Rightarrow> field_error list \<times> source_marks" where
  "check_source pf c i s marks = (case marks of (ids, identities, pins) \<Rightarrow>
     (let p = indexed ''sources'' i; (bad_id, ids') = claim_id (scf_id s) ids;
          (backend_errors, identity, pins') = check_backend pf c p s pins
      in (report bad_id (p @ ''.id'') ''identity'' ''Source IDs must be non-nil and unique''
          @ report (bad_label (scf_label s)) (p @ ''.label'') ''label'' label_message
          @ prefixed (p @ ''.polling.'') (validate_timing (scf_polling s))
          @ backend_errors
          @ report (some_and identity (\<lambda>k. k \<in> identities)) (p @ ''.backend'') ''duplicate''
              ''Configure a source once and share its ID'',
          (ids', (case identity of Some k \<Rightarrow> insert k identities | None \<Rightarrow> identities), pins'))))"

section \<open>Outputs\<close>

definition check_member :: "hub_config \<Rightarrow> string \<Rightarrow> nat \<Rightarrow> safety_member \<Rightarrow> nat set \<Rightarrow> field_error list \<times> nat set" where
  "check_member c p j m seen =
     (let path = indexed (p @ ''.device.members'') j in
      (report (mb_source m \<in> seen) path ''duplicate'' ''A source may only appear once in a safety output''
       @ report (source_type c (mb_source m) \<noteq> Some DtSafetyMonitor) (path @ ''.source'') ''type''
           ''Safety inputs must be SafetyMonitor devices''
       @ (case find_source c (mb_source m) of
            None \<Rightarrow> []
          | Some s \<Rightarrow> prefixed (path @ ''.policy.'') (validate_source (mb_policy m) (scf_polling s))),
       insert (mb_source m) seen))"

text \<open>The insertions of one condition: the number is claimed only if the identifier is good.\<close>

definition claim_channel :: "switch_channel \<Rightarrow> nat set \<times> nat set \<Rightarrow> bool \<times> nat set \<times> nat set" where
  "claim_channel ch marks = (case marks of (ids, numbers) \<Rightarrow> case claim_id (swc_id ch) ids of (bad, ids') \<Rightarrow>
     if bad then (True, ids', numbers)
     else (swc_number ch \<in> numbers \<or> max_switch_channels \<le> swc_number ch, ids', insert (swc_number ch) numbers))"

definition check_channel :: "hub_config \<Rightarrow> string \<Rightarrow> nat \<Rightarrow> switch_channel \<Rightarrow> nat set \<times> nat set
    \<Rightarrow> field_error list \<times> nat set \<times> nat set" where
  "check_channel c p j ch marks =
     (let path = indexed (p @ ''.device.channels'') j; (bad, marks') = claim_channel ch marks in
      (report bad (path @ ''.id'') ''identity'' ''Use unique non-nil channel IDs and distinct channel numbers''
       @ report (bad_label (swc_label ch) \<or> 80 < char_count (swc_units ch)) path ''label''
           ''Channel label/units are missing or too long''
       @ report (\<not> is_ok (grid_new (swc_minimum ch) (swc_maximum ch) (swc_step ch))) path ''range''
           ''Use finite increasing bounds spanning whole positive steps''
       @ map (\<lambda>e. field_error_new (path @ ''.readout'') (fe_code e) (fe_message e)) (validate_readout c (swc_readout ch))
       @ report (swc_writable ch \<and> (case swc_readout ch of RoProperty _ _ _ \<Rightarrow> True | RoChannel _ _ _ \<Rightarrow> False))
           (path @ ''.writable'') ''capability'' ''Scalar property gauges are read-only'',
       marks'))"

definition check_measurement :: "hub_config \<Rightarrow> string \<Rightarrow> weather_metric \<times> measurement \<Rightarrow> field_error list" where
  "check_measurement c p mm = (case mm of (metric, m) \<Rightarrow>
     (let path = p @ ''.device.measurements.'' @ metric_property metric in
      report (\<not> (me_sources m \<noteq> [] \<and> length (me_sources m) \<le> 16)) path ''required''
        (''Select 1'' @ en_dash @ ''16 sources in fallback order'')
      @ report (\<not> (1/10 \<le> me_maximum_age_seconds m \<and> me_maximum_age_seconds m \<le> 3600
            \<and> 0 \<le> me_average_seconds m \<and> me_average_seconds m \<le> 3600)) path ''range''
          (''Use a maximum age of 0.1'' @ en_dash @ ''3600 seconds and averaging of 0'' @ en_dash @ ''3600 seconds'')
      @ concat (map (\<lambda>r. map (\<lambda>e. field_error_new path (fe_code e) (fe_message e)) (validate_readout c r))
          (me_sources m))))"

definition check_device :: "hub_config \<Rightarrow> string \<Rightarrow> virtual_device \<Rightarrow> nat set \<Rightarrow> field_error list \<times> nat set" where
  "check_device c p d ids = (case d of
       VdSafety members \<Rightarrow>
         (report (64 < length members \<or> \<not> list_ex mb_enabled members) (p @ ''.device.members'') ''required''
            (''Use 1'' @ en_dash @ ''64 memberships with at least one enabled source'')
          @ fst (each_numbered (check_member c p) 0 members {}), ids)
     | VdSwitch channels \<Rightarrow>
         (case each_numbered (check_channel c p) 0 channels (ids, {}) of (es, ids', _) \<Rightarrow>
           (report (channels = [] \<or> max_switch_channels < length channels) (p @ ''.device.channels'') ''required''
              (''Use 1'' @ en_dash @ ''1024 switch channels'') @ es, ids'))
     | VdWeather ms \<Rightarrow>
         (prefixed (p @ ''.device.'') (validate_measurements (source_type c) ms)
          @ report (ms = []) (p @ ''.device.measurements'') ''required'' ''Select at least one weather measurement''
          @ concat (map (check_measurement c p) ms), ids)
     | VdProxy source t \<Rightarrow>
         (report (source_type c source \<noteq> Some t) (p @ ''.device.source'') ''type''
            ''Proxy device type must match its source'', ids))"

type_synonym output_marks = "nat set \<times> (device_type \<times> nat) set"

definition check_output :: "hub_config \<Rightarrow> nat \<Rightarrow> output_config \<Rightarrow> output_marks \<Rightarrow> field_error list \<times> output_marks" where
  "check_output c i o' marks = (case marks of (ids, numbers) \<Rightarrow>
     (let p = indexed ''outputs'' i; (bad_id, ids1) = claim_id (out_id o') ids;
          number = (virtual_device_type (out_device o'), out_number o');
          (device_errors, ids2) = check_device c p (out_device o') ids1
      in (report bad_id (p @ ''.id'') ''identity'' ''Output IDs must be non-nil and distinct from other IDs''
          @ report (number \<in> numbers) (p @ ''.number'') ''identity'' ''Device number must be unique within its device class''
          @ report (bad_label (out_label o')) (p @ ''.label'') ''label'' label_message
          @ concat (map (\<lambda>s. report (find_source c s = None) (p @ ''.device'') ''reference''
              ''Referenced source does not exist'') (device_sources (out_device o')))
          @ device_errors,
          (ids2, insert number numbers))))"

section \<open>Dependencies and aliases\<close>

definition config_edges :: "hub_config \<Rightarrow> graph" where
  "config_edges c = bt_of_list
     (map (\<lambda>s. (scf_id s, case scf_backend s of BkVirtual output \<Rightarrow> [output] | _ \<Rightarrow> [])) (hc_sources c)
      @ map (\<lambda>o'. (out_id o', device_sources (out_device o'))) (hc_outputs c))"

text \<open>The loop of \<open>physical_source\<close> ends because every round visits a further source, 256 at most.\<close>

function physical_loop :: "hub_config \<Rightarrow> device_type \<Rightarrow> nat list \<Rightarrow> nat \<Rightarrow> string + nat" where
  "physical_loop c expected visited source =
     (if source \<in> set visited \<or> max_devices < length (source # visited) then Inl ''Source aliases contain a cycle''
      else case find_source c source of
          None \<Rightarrow> Inl ''Group source does not exist''
        | Some s \<Rightarrow>
            (case scf_backend s of
               BkVirtual output \<Rightarrow>
                 (case find_output c output of
                    None \<Rightarrow> Inl ''Group alias output does not exist''
                  | Some o' \<Rightarrow>
                      (case out_device o' of
                         VdProxy next_source t \<Rightarrow>
                           if t = expected then physical_loop c expected (source # visited) next_source
                           else Inl ''Group members must resolve through matching proxy outputs''
                       | _ \<Rightarrow> Inl ''Group members must resolve through matching proxy outputs''))
             | _ \<Rightarrow> if source_type c source = Some expected then Inr source
                   else Inl ''Group member source has the wrong device class''))"
  by pat_completeness auto
termination
  by (relation "measure (\<lambda>(c, expected, visited, source). max_devices - length visited)") auto

declare physical_loop.simps [simp del]

definition physical_source :: "hub_config \<Rightarrow> nat \<Rightarrow> device_type \<Rightarrow> string + nat" where
  "physical_source c source expected = physical_loop c expected [] source"

section \<open>Groups\<close>

text \<open>A member of a group must be a physical device no other member names.\<close>

definition check_leaf :: "hub_config \<Rightarrow> device_type \<Rightarrow> string \<Rightarrow> (nat \<Rightarrow> string) \<Rightarrow> nat \<Rightarrow> nat \<Rightarrow> nat set
    \<Rightarrow> field_error list \<times> nat set" where
  "check_leaf c expected plural reference i source leaves =
     (case physical_source c source expected of
        Inl problem \<Rightarrow> ([field_error_new (reference i) ''source'' problem], leaves)
      | Inr leaf \<Rightarrow>
          (report (leaf \<in> leaves) (reference i) ''duplicate''
            (''Group members must resolve to different physical '' @ plural), insert leaf leaves))"

definition check_group :: "field_error list \<Rightarrow> string \<Rightarrow> nat \<Rightarrow> source_error + unit \<Rightarrow> nat set
    \<Rightarrow> field_error list \<times> nat set" where
  "check_group member_errors path i validated ids =
     (case claim_id i ids of (bad_id, ids') \<Rightarrow>
        (report bad_id (path @ ''.id'') ''identity'' ''Group IDs must be non-nil and distinct from other IDs''
         @ (case validated of
              Inl problem \<Rightarrow> [field_error_new path ''group'' (so_message problem)]
            | Inr _ \<Rightarrow> member_errors), ids'))"

definition check_focuser_group :: "hub_config \<Rightarrow> nat \<Rightarrow> focuser_group_config \<Rightarrow> nat set \<Rightarrow> field_error list \<times> nat set" where
  "check_focuser_group c i g ids = (let path = indexed ''focuserGroups'' i in
     check_group (fst (each_numbered
         (check_leaf c DtFocuser ''focusers'' (\<lambda>j. indexed (path @ ''.members'') j @ ''.source''))
         0 (map fk_source (fg_members g)) {}))
       path (fg_id g) (group_validate g) ids)"

definition check_camera_group :: "hub_config \<Rightarrow> nat \<Rightarrow> camera_group_config \<Rightarrow> nat set \<Rightarrow> field_error list \<times> nat set" where
  "check_camera_group c i g ids = (let path = indexed ''cameraGroups'' i in
     check_group (fst (each_numbered
         (check_leaf c DtCamera ''cameras'' (\<lambda>j. indexed (path @ ''.members'') j)) 0 (cg_members g) {}))
       path (cg_id g) (camera_group_validate g) ids)"

section \<open>The document\<close>

definition header_errors :: "hub_config \<Rightarrow> field_error list" where
  "header_errors c =
     report (hc_schema_version c \<noteq> schema_version) ''schemaVersion'' ''version''
       ''Unsupported hub schema version; migrate explicitly before loading''
     @ report (hc_revision c = 0) ''revision'' ''identity'' ''Revision cannot be nil''
     @ report (hc_instance_id c = 0) ''instanceId'' ''identity'' ''Instance ID cannot be nil''
     @ report (list_ex (\<lambda>(i, pin). i = 0 \<or> \<not> valid_alpaca_id pin
           \<or> \<not> bt_contains (led_sources (hc_identities c)) i) (led_pins (hc_identities c)))
         ''identities.alpacaPins'' ''identity''
         ''Saved Alpaca pins must refer to known source IDs and valid catalog identities''
     @ report (list_ex (\<lambda>ch. max_switch_channels \<le> cid_number ch) (bt_values (led_channels (hc_identities c))))
         ''identities.channels'' ''range'' ''Retired switch slots must stay within the supported channel range''"

definition too_large :: "hub_config \<Rightarrow> bool" where
  "too_large c \<longleftrightarrow> max_devices < length (hc_sources c) \<or> max_devices < length (hc_outputs c)
     \<or> 64 < length (hc_focuser_groups c) \<or> 64 < length (hc_camera_groups c)"

definition config_validate :: "platform \<Rightarrow> hub_config \<Rightarrow> field_error list" where
  "config_validate pf c =
     header_errors c
     @ (if too_large c
        then [field_error_new ''sources'' ''limit''
          ''At most 256 sources, 256 outputs and 64 groups of each kind are supported'']
        else
          (case each_numbered (check_source pf c) 0 (hc_sources c) ({}, {}, {}) of (source_errors, ids1, _) \<Rightarrow>
           case each_numbered (check_output c) 0 (hc_outputs c) (ids1, {}) of (output_errors, ids2, _) \<Rightarrow>
           case each_numbered (check_focuser_group c) 0 (hc_focuser_groups c) ids2 of (focuser_errors, ids3) \<Rightarrow>
           case each_numbered (check_camera_group c) 0 (hc_camera_groups c) ids3 of (camera_errors, ids4) \<Rightarrow>
             source_errors @ output_errors
             @ report (dependency_cycle (config_edges c)) ''outputs'' ''cycle''
                 ''Virtual devices must not depend on themselves, directly or indirectly''
             @ focuser_errors @ camera_errors))"

end
