(* ===== verification/Hub_Sound.thy ===== *)
theory Hub_Sound imports Hub_Validate begin

text \<open>
  What a configuration without errors guarantees: identifiers that are unique over the whole document,
  references that resolve, dependencies without cycles, and groups of different physical devices.
  The loops of \<open>validate\<close> that mark what they have seen share the locale \<open>marking\<close>.
\<close>

section \<open>Loops that mark what they have seen\<close>

lemma each_numbered_all:
  "each_numbered f i xs s = ([], s') \<Longrightarrow> (\<And>i x s s'. f i x s = ([], s') \<Longrightarrow> P x) \<Longrightarrow> x \<in> set xs \<Longrightarrow> P x"
  by (induction xs arbitrary: i s) (auto split: prod.splits)

locale marking =
  fixes step :: "nat \<Rightarrow> 'a \<Rightarrow> 's \<Rightarrow> field_error list \<times> 's"
    and marks :: "'s \<Rightarrow> 'k set"
    and keys :: "'a \<Rightarrow> 'k list"
  assumes accepted: "step i x s = ([], s') \<Longrightarrow>
    distinct (keys x) \<and> set (keys x) \<inter> marks s = {} \<and> marks s' = marks s \<union> set (keys x)"
begin

lemma loop:
  "each_numbered step i xs s = ([], s') \<Longrightarrow>
     distinct (concat (map keys xs)) \<and> set (concat (map keys xs)) \<inter> marks s = {}
     \<and> marks s' = marks s \<union> set (concat (map keys xs))"
proof (induction xs arbitrary: i s)
  case (Cons x xs)
  then obtain s1 where s1: "step i x s = ([], s1)" "each_numbered step (Suc i) xs s1 = ([], s')"
    by (auto split: prod.splits)
  from accepted [OF s1(1)] Cons.IH [OF s1(2)] show ?case by auto
qed simp

end

locale marking_ids = marking step marks keys
  for step :: "nat \<Rightarrow> 'a \<Rightarrow> 's \<Rightarrow> field_error list \<times> 's" and marks :: "'s \<Rightarrow> nat set" and keys :: "'a \<Rightarrow> nat list" +
  assumes accepted_nonzero: "step i x s = ([], s') \<Longrightarrow> 0 \<notin> set (keys x)"
begin

lemma loop_nonzero: "each_numbered step i xs s = ([], s') \<Longrightarrow> 0 \<notin> set (concat (map keys xs))"
  using each_numbered_all [of step i xs s s' "\<lambda>x. 0 \<notin> set (keys x)"] accepted_nonzero by auto

end

lemma claim_id_ok: "claim_id i ids = (False, ids') \<longleftrightarrow> i \<noteq> 0 \<and> i \<notin> ids \<and> ids' = insert i ids"
  by (auto simp: claim_id_def)

interpretation source_ids: marking_ids "check_source pf c" fst "\<lambda>s. [scf_id s]" for pf c
  by unfold_locales (auto simp: check_source_def Let_def claim_id_ok split: prod.splits)

interpretation channel_ids: marking_ids "check_channel c p" fst "\<lambda>ch. [swc_id ch]" for c p
  by unfold_locales
    (auto simp: check_channel_def claim_channel_def Let_def claim_id_ok split: prod.splits if_splits)

fun channel_list :: "virtual_device \<Rightarrow> switch_channel list" where
  "channel_list (VdSwitch channels) = channels"
| "channel_list _ = []"

definition output_ids :: "output_config \<Rightarrow> nat list" where
  "output_ids o' = out_id o' # map swc_id (channel_list (out_device o'))"

lemma check_device_ids:
  assumes "check_device c p d ids = ([], ids')"
  shows "distinct (map swc_id (channel_list d)) \<and> set (map swc_id (channel_list d)) \<inter> ids = {}
    \<and> ids' = ids \<union> set (map swc_id (channel_list d)) \<and> 0 \<notin> set (map swc_id (channel_list d))"
proof (cases d)
  case (VdSwitch channels)
  with assms obtain marks where "each_numbered (check_channel c p) 0 channels (ids, {}) = ([], marks)" "fst marks = ids'"
    by (auto simp: check_device_def split: prod.splits)
  with channel_ids.loop [OF this(1)] channel_ids.loop_nonzero [OF this(1)] VdSwitch show ?thesis by auto
qed (use assms in \<open>auto simp: check_device_def\<close>)

lemma check_output_ids:
  assumes "check_output c i x s = ([], s')"
  shows "distinct (output_ids x) \<and> set (output_ids x) \<inter> fst s = {}
    \<and> fst s' = fst s \<union> set (output_ids x) \<and> 0 \<notin> set (output_ids x)"
proof -
  from assms obtain ids1 where ids1: "claim_id (out_id x) (fst s) = (False, ids1)"
    and dev: "check_device c (indexed ''outputs'' i) (out_device x) ids1 = ([], fst s')"
    by (auto simp: check_output_def Let_def split: prod.splits)
  with check_device_ids [OF dev] show ?thesis by (auto simp: output_ids_def claim_id_ok)
qed

interpretation output_marks: marking_ids "check_output c" fst output_ids for c
  by unfold_locales (blast dest: check_output_ids)+

interpretation output_classes: marking "check_output c" snd
  "\<lambda>o'. [(virtual_device_type (out_device o'), out_number o')]" for c
  by unfold_locales (auto simp: check_output_def Let_def split: prod.splits)

lemma check_group_ok:
  "check_group es path i v ids = ([], ids') \<longleftrightarrow>
     i \<noteq> 0 \<and> i \<notin> ids \<and> ids' = insert i ids \<and> v = Inr () \<and> es = []"
  by (auto simp: check_group_def claim_id_def split: sum.splits)

interpretation focuser_group_ids: marking_ids "check_focuser_group c" "\<lambda>ids. ids" "\<lambda>g. [fg_id g]" for c
  by unfold_locales (auto simp: check_focuser_group_def Let_def check_group_ok)

interpretation camera_group_ids: marking_ids "check_camera_group c" "\<lambda>ids. ids" "\<lambda>g. [cg_id g]" for c
  by unfold_locales (auto simp: check_camera_group_def Let_def check_group_ok)

section \<open>An accepted document\<close>

definition config_ids :: "hub_config \<Rightarrow> nat list" where
  "config_ids c = map scf_id (hc_sources c) @ concat (map output_ids (hc_outputs c))
     @ map fg_id (hc_focuser_groups c) @ map cg_id (hc_camera_groups c)"

definition refers :: "hub_config \<Rightarrow> (nat \<times> nat) set" where
  "refers c = {(scf_id s, output) | s output. s \<in> set (hc_sources c) \<and> scf_backend s = BkVirtual output}
     \<union> {(out_id o', s) | o' s. o' \<in> set (hc_outputs c) \<and> s \<in> set (device_sources (out_device o'))}"

text \<open>The loops of an accepted document, each run without errors.\<close>

lemma config_validate_loops:
  assumes "config_validate pf c = []"
  obtains s1 s2 ids3 ids4 where
    "header_errors c = []" "\<not> too_large c"
    "each_numbered (check_source pf c) 0 (hc_sources c) ({}, {}, {}) = ([], s1)"
    "each_numbered (check_output c) 0 (hc_outputs c) (fst s1, {}) = ([], s2)"
    "each_numbered (check_focuser_group c) 0 (hc_focuser_groups c) (fst s2) = ([], ids3)"
    "each_numbered (check_camera_group c) 0 (hc_camera_groups c) ids3 = ([], ids4)"
    "\<not> dependency_cycle (config_edges c)"
  using assms by (auto simp: config_validate_def split: prod.splits if_splits)

text \<open>Identifiers are unique over the document, so the edges are what the document says.\<close>

lemma accepted_ids:
  assumes "config_validate pf c = []"
  shows "distinct (config_ids c)" "0 \<notin> set (config_ids c)"
proof -
  obtain s1 s2 ids3 ids4 where
    loops: "each_numbered (check_source pf c) 0 (hc_sources c) ({}, {}, {}) = ([], s1)"
      "each_numbered (check_output c) 0 (hc_outputs c) (fst s1, {}) = ([], s2)"
      "each_numbered (check_focuser_group c) 0 (hc_focuser_groups c) (fst s2) = ([], ids3)"
      "each_numbered (check_camera_group c) 0 (hc_camera_groups c) ids3 = ([], ids4)"
    using config_validate_loops [OF assms] by metis
  have unroll: "concat (map (\<lambda>x. [h x]) xs) = map h xs" for h :: "'x \<Rightarrow> nat" and xs
    by (induction xs) simp_all
  note marked = source_ids.loop [OF loops(1)] output_marks.loop [OF loops(2)]
    focuser_group_ids.loop [OF loops(3)] camera_group_ids.loop [OF loops(4)]
  from marked show "distinct (config_ids c)"
    by (simp add: config_ids_def unroll Int_Un_distrib Int_Un_distrib2 Int_commute)
  from source_ids.loop_nonzero [OF loops(1)] output_marks.loop_nonzero [OF loops(2)]
    focuser_group_ids.loop_nonzero [OF loops(3)] camera_group_ids.loop_nonzero [OF loops(4)]
  show "0 \<notin> set (config_ids c)" by (simp add: config_ids_def unroll)
qed

lemma depends_of_list:
  assumes "distinct (map fst xs)"
  shows "depends (bt_of_list xs) = {(a, b). \<exists>bs. (a, bs) \<in> set xs \<and> b \<in> set bs}"
proof -
  have "map_of (rev xs) a = Some bs \<longleftrightarrow> (a, bs) \<in> set xs" for a bs
    using map_of_eq_Some_iff [of "rev xs" a bs] assms by (simp add: rev_map [symmetric])
  then show ?thesis by (simp add: depends_def bt_get_of_list)
qed

lemma virtual_target: "b \<in> set (case k of BkVirtual output \<Rightarrow> [output] | _ \<Rightarrow> []) \<longleftrightarrow> k = BkVirtual b"
  by (cases k) auto

lemma distinct_first: "distinct (concat (map output_ids os)) \<Longrightarrow> distinct (map out_id os)"
  by (induction os) (auto simp: output_ids_def)

lemma accepted_edges:
  assumes "config_validate pf c = []"
  shows "depends (config_edges c) = refers c"
proof -
  let ?target = "\<lambda>s. case scf_backend s of BkVirtual output \<Rightarrow> [output] | _ \<Rightarrow> []"
  let ?xs = "map (\<lambda>s. (scf_id s, ?target s)) (hc_sources c)
      @ map (\<lambda>o'. (out_id o', device_sources (out_device o'))) (hc_outputs c)"
  have ids: "distinct (concat (map output_ids (hc_outputs c)))" "distinct (map scf_id (hc_sources c))"
    "set (map scf_id (hc_sources c)) \<inter> set (concat (map output_ids (hc_outputs c))) = {}"
    using accepted_ids(1) [OF assms] unfolding config_ids_def distinct_append set_append by blast+
  have "set (map out_id (hc_outputs c)) \<subseteq> set (concat (map output_ids (hc_outputs c)))"
    by (auto simp: output_ids_def)
  with ids distinct_first [OF ids(1)] have "distinct (map scf_id (hc_sources c) @ map out_id (hc_outputs c))"
    unfolding distinct_append by blast
  then have "distinct (map fst ?xs)" by (simp add: comp_def)
  from depends_of_list [OF this]
  have "depends (config_edges c) = {(a, b). \<exists>bs. (a, bs) \<in> set ?xs \<and> b \<in> set bs}"
    unfolding config_edges_def .
  also have "\<dots> = {(scf_id s, b) | s b. s \<in> set (hc_sources c) \<and> b \<in> set (?target s)}
      \<union> {(out_id o', s) | o' s. o' \<in> set (hc_outputs c) \<and> s \<in> set (device_sources (out_device o'))}"
    unfolding set_append set_map by blast
  finally show ?thesis unfolding refers_def virtual_target .
qed

lemma check_output_sources:
  assumes "check_output c i o' s = ([], s')"
  shows "\<forall>r \<in> set (device_sources (out_device o')). find_source c r \<noteq> None"
proof -
  let ?f = "\<lambda>r. report (find_source c r = None) (indexed ''outputs'' i @ ''.device'') ''reference''
    ''Referenced source does not exist''"
  from assms have "concat (map ?f (device_sources (out_device o'))) = []"
    unfolding check_output_def by (simp only: Let_def split: prod.splits) simp
  then show ?thesis by simp
qed

lemma check_source_target:
  assumes "check_source pf c i s m = ([], m')"
  shows "\<forall>output. scf_backend s = BkVirtual output \<longrightarrow> find_output c output \<noteq> None"
proof (intro allI impI)
  fix u
  assume v: "scf_backend s = BkVirtual u"
  from assms have "fst (check_backend pf c (indexed ''sources'' i) s (snd (snd m))) = []"
    unfolding check_source_def by (cases m) (auto simp: Let_def split: prod.splits)
  with v show "find_output c u \<noteq> None" by (simp add: check_backend_def)
qed

text \<open>
  C14: A configuration that \<open>HubConfig::validate\<close> accepts identifies everything it holds: no identifier
  is nil or used twice anywhere in the document, no two outputs of a device class share a number,
  every output's sources and every virtual source's output exist, and no source or output depends on
  itself through any chain of references.
\<close>

theorem accepted_config_is_sound:
  assumes "config_validate pf c = []"
  shows "distinct (config_ids c) \<and> 0 \<notin> set (config_ids c)
    \<and> distinct (map (\<lambda>o'. (virtual_device_type (out_device o'), out_number o')) (hc_outputs c))
    \<and> (\<forall>o' \<in> set (hc_outputs c). \<forall>s \<in> set (device_sources (out_device o')). find_source c s \<noteq> None)
    \<and> (\<forall>s \<in> set (hc_sources c). \<forall>output. scf_backend s = BkVirtual output \<longrightarrow> find_output c output \<noteq> None)
    \<and> acyclic (refers c)"
proof (intro conjI)
  obtain s1 s2 where
    loops: "each_numbered (check_source pf c) 0 (hc_sources c) ({}, {}, {}) = ([], s1)"
      "each_numbered (check_output c) 0 (hc_outputs c) (fst s1, {}) = ([], s2)"
    and cyc: "\<not> dependency_cycle (config_edges c)"
    using config_validate_loops [OF assms] by metis
  show "distinct (config_ids c)" "0 \<notin> set (config_ids c)" by (fact accepted_ids [OF assms])+
  have unroll: "concat (map (\<lambda>x. [h x]) xs) = map h xs" for h :: "output_config \<Rightarrow> device_type \<times> nat" and xs
    by (induction xs) simp_all
  show "distinct (map (\<lambda>o'. (virtual_device_type (out_device o'), out_number o')) (hc_outputs c))"
    using output_classes.loop [OF loops(2)] by (simp add: unroll)
  show "\<forall>o' \<in> set (hc_outputs c). \<forall>s \<in> set (device_sources (out_device o')). find_source c s \<noteq> None"
    by (rule ballI, rule each_numbered_all [OF loops(2)], rule check_output_sources)
  show "\<forall>s \<in> set (hc_sources c). \<forall>output. scf_backend s = BkVirtual output \<longrightarrow> find_output c output \<noteq> None"
    by (rule ballI, rule each_numbered_all [OF loops(1)], rule check_source_target)
  show "acyclic (refers c)"
    using cyc by (simp add: dependency_cycle_iff accepted_edges [OF assms] acyclic_def)
qed

definition demo_platform :: platform where
  "demo_platform = \<lparr>pf_parse_url = (\<lambda>_. None), pf_set_path = (\<lambda>p u. u\<lparr>ur_path := p\<rparr>), pf_url_text = ur_path,
     pf_parse_uuid = (\<lambda>_. None), pf_uuid_text = show_nat, pf_uuid_simple = show_nat,
     pf_url_namespace_v5 = length\<rparr>"

definition demo_source :: "nat \<Rightarrow> source_backend \<Rightarrow> source_config" where
  "demo_source i b = \<lparr>scf_id = i, scf_label = ''input'', scf_backend = b, scf_polling = default_poll_policy\<rparr>"

definition demo_output :: "nat \<Rightarrow> virtual_device \<Rightarrow> output_config" where
  "demo_output i d = \<lparr>out_id = i, out_number = i, out_label = ''output'', out_device = d\<rparr>"

text \<open>
  A safety monitor, republished, and a combined output over the republished one; two focusers that move
  together.
\<close>

definition demo_calibration :: "nat \<Rightarrow> calibration" where
  "demo_calibration s = \<lparr>fk_source = s, fk_scale_numerator = 1, fk_scale_denominator = 1, fk_offset = 0,
     fk_minimum = 0, fk_maximum = 1000\<rparr>"

definition demo_group :: focuser_group_config where
  "demo_group = \<lparr>fg_id = 8, fg_label = ''group'', fg_minimum = 0, fg_maximum = 1000, fg_timeout_seconds = Fin 10,
     fg_poll_seconds = Fin 1, fg_members = [demo_calibration 6, demo_calibration 7]\<rparr>"

definition demo_config :: hub_config where
  "demo_config = (empty_config 90 91)\<lparr>
     hc_sources := [demo_source 5 (BkSimulated DtSafetyMonitor), demo_source 3 (BkVirtual 2),
       demo_source 6 (BkSimulated DtFocuser), demo_source 7 (BkSimulated DtFocuser)],
     hc_focuser_groups := [demo_group],
     hc_outputs := [demo_output 2 (VdProxy 5 DtSafetyMonitor),
       demo_output 4 (VdSafety [\<lparr>mb_source = 3, mb_enabled = True, mb_policy = default_safety_policy\<rparr>])]\<rparr>"

lemma demo_config_fields:
  "hc_schema_version demo_config = schema_version" "hc_revision demo_config = 90" "hc_instance_id demo_config = 91"
  "hc_sources demo_config = [demo_source 5 (BkSimulated DtSafetyMonitor), demo_source 3 (BkVirtual 2),
     demo_source 6 (BkSimulated DtFocuser), demo_source 7 (BkSimulated DtFocuser)]"
  "hc_outputs demo_config =
     [demo_output 2 (VdProxy 5 DtSafetyMonitor),
      demo_output 4 (VdSafety [\<lparr>mb_source = 3, mb_enabled = True, mb_policy = default_safety_policy\<rparr>])]"
  "hc_focuser_groups demo_config = [demo_group]" "hc_camera_groups demo_config = []" "hc_identities demo_config = empty_ledger"
  by (simp_all add: demo_config_def empty_config_def)

lemma demo_record_fields:
  "scf_id (demo_source i b) = i" "scf_backend (demo_source i b) = b" "scf_polling (demo_source i b) = default_poll_policy"
  "bad_label (scf_label (demo_source i b)) = False"
  "out_id (demo_output i d) = i" "out_number (demo_output i d) = i" "out_device (demo_output i d) = d"
  "bad_label (out_label (demo_output i d)) = False"
  by (simp_all add: demo_source_def demo_output_def bad_label_def byte_in_def max_label_chars_def char_count_def)

lemma demo_config_lookups:
  "find_source demo_config 5 = Some (demo_source 5 (BkSimulated DtSafetyMonitor))"
  "find_source demo_config 3 = Some (demo_source 3 (BkVirtual 2))"
  "find_output demo_config 2 = Some (demo_output 2 (VdProxy 5 DtSafetyMonitor))"
  "find_source demo_config 6 = Some (demo_source 6 (BkSimulated DtFocuser))"
  "find_source demo_config 7 = Some (demo_source 7 (BkSimulated DtFocuser))"
  "source_type demo_config 6 = Some DtFocuser" "source_type demo_config 7 = Some DtFocuser"
  "source_type demo_config 5 = Some DtSafetyMonitor" "source_type demo_config 3 = Some DtSafetyMonitor"
  by (simp_all add: find_source_def find_output_def source_type_def demo_config_fields demo_record_fields)

lemma default_policies_fit: "validate_source default_safety_policy default_poll_policy = []"
  by (simp add: validate_source_def default_safety_policy_valid) (simp add: default_safety_policy_def default_poll_policy_def f64_round_of_nat [of 31, simplified] in_range_def)

lemma demo_config_acyclic: "\<not> dependency_cycle (config_edges demo_config)"
  by (simp add: dependency_cycle_def config_edges_def demo_config_fields demo_record_fields bt_of_list_def
      visit.simps)

lemma demo_group_valid: "group_validate demo_group = Inr ()"
  by (simp add: group_validate_def demo_group_def demo_calibration_def calibration_validate_def ensure_def and_then_def
      bad_label_def byte_in_def max_label_chars_def char_count_def)

lemma demo_group_fields: "fg_id demo_group = 8" "map fk_source (fg_members demo_group) = [6, 7]"
  by (simp_all add: demo_group_def demo_calibration_def)

lemma demo_leaves: "physical_source demo_config 6 DtFocuser = Inr 6" "physical_source demo_config 7 DtFocuser = Inr 7"
  by (simp_all add: physical_source_def physical_loop.simps demo_config_lookups demo_record_fields max_devices_def)

lemmas demo_config_simps = demo_group_valid demo_group_fields demo_leaves demo_config_fields demo_record_fields demo_config_lookups default_policies_fit
  demo_config_acyclic default_poll_policy_valid

lemma demo_config_accepted: "config_validate demo_platform demo_config = []"
  by (simp add: config_validate_def header_errors_def too_large_def demo_config_simps empty_ledger_def bt_values_def
      max_devices_def check_source_def check_output_def check_backend_def check_device_def check_member_def
      check_focuser_group_def check_group_def check_leaf_def Let_def claim_id_def report_def prefixed_def demo_platform_def show_nat.simps)

theorem accepted_config_is_sound_witness: "acyclic (refers demo_config) \<and> distinct (config_ids demo_config)"
  using accepted_config_is_sound [OF demo_config_accepted] by blast

section \<open>Aliases\<close>

definition alias_of :: "hub_config \<Rightarrow> device_type \<Rightarrow> (nat \<times> nat) set" where
  "alias_of c t = {(s, s'). \<exists>k output o'. find_source c s = Some k \<and> scf_backend k = BkVirtual output
     \<and> find_output c output = Some o' \<and> out_device o' = VdProxy s' t}"

definition physical :: "hub_config \<Rightarrow> device_type \<Rightarrow> nat \<Rightarrow> bool" where
  "physical c t s \<longleftrightarrow> (\<exists>k. find_source c s = Some k \<and> (\<forall>output. scf_backend k \<noteq> BkVirtual output))
     \<and> source_type c s = Some t"

lemma alias_single: "(s, a) \<in> alias_of c t \<Longrightarrow> (s, b) \<in> alias_of c t \<Longrightarrow> a = b"
  by (auto simp: alias_of_def)

lemma physical_no_alias: "physical c t s \<Longrightarrow> (s, a) \<notin> (alias_of c t)\<^sup>+"
  by (auto simp: physical_def alias_of_def dest!: tranclD)

lemma cycle_moves:
  assumes "(s, l) \<in> (alias_of c t)\<^sup>*" "(s, s) \<in> (alias_of c t)\<^sup>+"
  shows "(l, l) \<in> (alias_of c t)\<^sup>+"
  using assms
proof (induction rule: rtrancl_induct)
  case (step y z)
  from step(3) [OF step(4)] obtain w where w: "(y, w) \<in> alias_of c t" "(w, y) \<in> (alias_of c t)\<^sup>*"
    by (meson tranclD)
  with step(2) alias_single have "w = z" by metis
  with w step(2) show ?case by (meson rtrancl_into_trancl1)
qed

lemma physical_loop_sound:
  "physical_loop c t visited s = Inr l \<Longrightarrow> (s, l) \<in> (alias_of c t)\<^sup>* \<and> physical c t l"
proof (induction c t visited s rule: physical_loop.induct)
  case (1 c t visited s)
  note unfold = physical_loop.simps [of c t visited s]
  show ?case
  proof (cases "\<exists>s'. (s, s') \<in> alias_of c t")
    case True
    then obtain k u o' s' where a: "find_source c s = Some k" "scf_backend k = BkVirtual u"
      "find_output c u = Some o'" "out_device o' = VdProxy s' t" by (auto simp: alias_of_def)
    with 1(2) have ok: "\<not> (s \<in> set visited \<or> max_devices < length (s # visited))"
      "physical_loop c t (s # visited) s' = Inr l"
      unfolding unfold by (auto split: if_splits)
    from 1(1) [OF ok(1) a refl ok(2)] a show ?thesis
      by (auto simp: alias_of_def intro: converse_rtrancl_into_rtrancl)
  next
    case False
    with 1(2) show ?thesis
      unfolding unfold
      by (auto simp: alias_of_def physical_def
          split: if_splits option.splits source_backend.splits virtual_device.splits)
  qed
qed

lemma find_source_in: "find_source c s \<noteq> None \<longleftrightarrow> s \<in> set (map scf_id (hc_sources c))"
  by (auto simp: find_source_def find_None_iff)

lemma visits_fit:
  assumes "distinct visits" "set visits \<subseteq> set (map scf_id (hc_sources c))" "\<not> too_large c"
  shows "\<not> max_devices < length visits"
proof -
  have "length visits = card (set visits)" using assms(1) by (simp add: distinct_card)
  also have "\<dots> \<le> card (set (map scf_id (hc_sources c)))" using assms(2) by (intro card_mono) simp_all
  also have "\<dots> \<le> length (hc_sources c)" using card_length [of "map scf_id (hc_sources c)"] by simp
  finally show ?thesis using assms(3) by (simp add: too_large_def)
qed

lemma physical_loop_complete:
  assumes "(s, l) \<in> (alias_of c t)\<^sup>*" "physical c t l" "\<not> too_large c"
    and "distinct visited" "set visited \<subseteq> set (map scf_id (hc_sources c))"
    and "\<forall>v \<in> set visited. (v, s) \<in> (alias_of c t)\<^sup>+"
  shows "physical_loop c t visited s = Inr l"
  using assms(1, 4-)
proof (induction s arbitrary: visited rule: converse_rtrancl_induct)
  case base
  have fresh: "l \<notin> set visited" using base(3) physical_no_alias [OF assms(2)] by blast
  have "l \<in> set (map scf_id (hc_sources c))" using assms(2) find_source_in by (auto simp: physical_def)
  with fresh base visits_fit [of "l # visited" c] assms(3) have short: "\<not> max_devices < length (l # visited)" by simp
  obtain k where "find_source c l = Some k" "\<forall>output. scf_backend k \<noteq> BkVirtual output" "source_type c l = Some t"
    using assms(2) by (auto simp: physical_def)
  with fresh short show ?case
    unfolding physical_loop.simps [of c t visited l] by (cases "scf_backend k") simp_all
next
  case (step s s')
  have fresh: "s \<notin> set visited"
  proof
    assume "s \<in> set visited"
    with step(6) have "(s, s) \<in> (alias_of c t)\<^sup>+" by blast
    with cycle_moves [of s l c t] step(1, 2) physical_no_alias [OF assms(2)]
    show False by (meson converse_rtrancl_into_rtrancl)
  qed
  obtain k u o' where a: "find_source c s = Some k" "scf_backend k = BkVirtual u"
    "find_output c u = Some o'" "out_device o' = VdProxy s' t" using step(1) by (auto simp: alias_of_def)
  then have "s \<in> set (map scf_id (hc_sources c))" using find_source_in by blast
  with step(5) have sub: "set (s # visited) \<subseteq> set (map scf_id (hc_sources c))" by simp
  have dist: "distinct (s # visited)" using fresh step(4) by simp
  have reach: "\<forall>v \<in> set (s # visited). (v, s') \<in> (alias_of c t)\<^sup>+"
    using step(1, 6) by (auto intro: trancl_into_trancl)
  from step(3) [OF dist sub reach] visits_fit [OF dist sub assms(3)] fresh a show ?case
    unfolding physical_loop.simps [of c t visited s] by simp
qed

text \<open>
  Alias resolution ends, and in a document of at most 256 sources it finds exactly the device at the
  end of the chain: \<open>physical_source\<close> returns a source if and only if following proxies of the expected
  class from the given source leads to it, it is not virtual, and it has that class.
\<close>

theorem physical_source_follows_aliases:
  assumes "\<not> too_large c"
  shows "physical_source c s t = Inr leaf \<longleftrightarrow> (s, leaf) \<in> (alias_of c t)\<^sup>* \<and> physical c t leaf"
  using physical_loop_sound [of c t "[]" s leaf] physical_loop_complete [of s leaf c t "[]"] assms
  unfolding physical_source_def by auto

theorem physical_source_follows_aliases_witness: "physical_source demo_config 3 DtSafetyMonitor = Inr 5"
proof -
  have small: "\<not> too_large demo_config" by (simp add: too_large_def demo_config_simps max_devices_def)
  have "(3, 5) \<in> alias_of demo_config DtSafetyMonitor" by (simp add: alias_of_def demo_config_simps)
  moreover have "physical demo_config DtSafetyMonitor 5" by (simp add: physical_def demo_config_simps)
  ultimately show ?thesis using physical_source_follows_aliases [OF small, of 3 DtSafetyMonitor 5] by blast
qed

section \<open>Groups of devices\<close>

lemma check_leaf_loop:
  "each_numbered (check_leaf c t plural reference) i ss seen = ([], seen') \<Longrightarrow>
     \<exists>leaves. list_all2 (\<lambda>s leaf. physical_source c s t = Inr leaf) ss leaves \<and> distinct leaves \<and> set leaves \<inter> seen = {}"
proof (induction ss arbitrary: i seen)
  case (Cons s ss)
  then obtain seen1 where s1: "check_leaf c t plural reference i s seen = ([], seen1)"
    "each_numbered (check_leaf c t plural reference) (Suc i) ss seen1 = ([], seen')"
    by (auto split: prod.splits)
  then obtain leaf where leaf: "physical_source c s t = Inr leaf" "leaf \<notin> seen" "seen1 = insert leaf seen"
    by (auto simp: check_leaf_def split: sum.splits)
  from Cons.IH [OF s1(2)] leaf obtain leaves where
    "list_all2 (\<lambda>s leaf. physical_source c s t = Inr leaf) ss leaves" "distinct leaves" "set leaves \<inter> seen1 = {}" by blast
  with leaf show ?case by (intro exI [of _ "leaf # leaves"]) auto
qed simp

definition moves_distinct_devices :: "hub_config \<Rightarrow> device_type \<Rightarrow> nat list \<Rightarrow> bool" where
  "moves_distinct_devices c t members \<longleftrightarrow>
     (\<exists>leaves. list_all2 (\<lambda>s leaf. (s, leaf) \<in> (alias_of c t)\<^sup>* \<and> physical c t leaf) members leaves \<and> distinct leaves)"

lemma leaves_are_devices:
  assumes "fst (each_numbered (check_leaf c t plural reference) 0 ss {}) = []"
  shows "moves_distinct_devices c t ss"
proof -
  from assms obtain seen' where "each_numbered (check_leaf c t plural reference) 0 ss {} = ([], seen')"
    by (cases "each_numbered (check_leaf c t plural reference) 0 ss {}") simp
  from check_leaf_loop [OF this] obtain leaves
    where leaves: "list_all2 (\<lambda>s leaf. physical_source c s t = Inr leaf) ss leaves" "distinct leaves" by blast
  have "physical_source c s t = Inr leaf \<longrightarrow> (s, leaf) \<in> (alias_of c t)\<^sup>* \<and> physical c t leaf" for s leaf
    using physical_loop_sound [of c t "[]" s leaf] by (simp add: physical_source_def)
  with leaves show ?thesis unfolding moves_distinct_devices_def by (blast intro: list_all2_mono)
qed

text \<open>
  C35: The members of a focuser or camera group of an accepted configuration are different physical
  devices of the group's class, however many aliases lie between: no device is commanded twice.
\<close>

theorem accepted_groups_hold_different_devices:
  assumes "config_validate pf c = []"
  shows "(\<forall>g \<in> set (hc_focuser_groups c). moves_distinct_devices c DtFocuser (map fk_source (fg_members g)))
    \<and> (\<forall>g \<in> set (hc_camera_groups c). moves_distinct_devices c DtCamera (cg_members g))"
proof -
  obtain s2 :: output_marks and ids3 ids4 where
    loops: "each_numbered (check_focuser_group c) 0 (hc_focuser_groups c) (fst s2) = ([], ids3)"
      "each_numbered (check_camera_group c) 0 (hc_camera_groups c) ids3 = ([], ids4)"
    using config_validate_loops [OF assms] by metis
  have "moves_distinct_devices c DtFocuser (map fk_source (fg_members g))" if "g \<in> set (hc_focuser_groups c)" for g
    by (rule each_numbered_all [OF loops(1) _ that])
      (auto simp: check_focuser_group_def Let_def check_group_ok intro: leaves_are_devices)
  moreover have "moves_distinct_devices c DtCamera (cg_members g)" if "g \<in> set (hc_camera_groups c)" for g
    by (rule each_numbered_all [OF loops(2) _ that])
      (auto simp: check_camera_group_def Let_def check_group_ok intro: leaves_are_devices)
  ultimately show ?thesis by blast
qed

theorem accepted_groups_hold_different_devices_witness: "moves_distinct_devices demo_config DtFocuser [6, 7]"
  using accepted_groups_hold_different_devices [OF demo_config_accepted] by (simp add: demo_config_simps)

end
