(* ===== verification/Identity_Ledger.thy ===== *)
theory Identity_Ledger imports Hub_Sound begin

text \<open>
  The identity ledger of the hub configuration, \<open>IdentityLedger::register\<close> of
  \<open>crates/regain-hub/src/config.rs\<close>. The four loops of \<open>register\<close> (sources; outputs, each followed by
  its channels; focuser groups; camera groups) are one loop over the list of what they register. An
  identity once registered stays, so that the ledger decides what later documents may contain.
\<close>

section \<open>Registration\<close>

datatype ledger_entry =
    LeSource nat string "string option"
  | LeOutput nat output_identity
  | LeChannel nat channel_identity
  | LeGroup nat
  | LeCameraGroup nat

fun entry_id :: "ledger_entry \<Rightarrow> nat" where
  "entry_id (LeSource i _ _) = i"
| "entry_id (LeOutput i _) = i"
| "entry_id (LeChannel i _) = i"
| "entry_id (LeGroup i) = i"
| "entry_id (LeCameraGroup i) = i"

definition source_pin :: "platform \<Rightarrow> source_config \<Rightarrow> string option" where
  "source_pin pf s = (case scf_backend s of
     BkAlpaca a \<Rightarrow> map_option (normalize_alpaca_id pf) (al_unique_id a) | _ \<Rightarrow> None)"

definition source_entries :: "platform \<Rightarrow> source_config \<Rightarrow> ledger_entry list" where
  "source_entries pf s = (case source_identity pf s of
     Inl _ \<Rightarrow> [] | Inr identity \<Rightarrow> [LeSource (scf_id s) identity (source_pin pf s)])"

definition output_entries :: "output_config \<Rightarrow> ledger_entry list" where
  "output_entries o' =
     LeOutput (out_id o') \<lparr>oid_number = out_number o', oid_device_type = virtual_device_type (out_device o')\<rparr>
     # map (\<lambda>ch. LeChannel (swc_id ch)
         \<lparr>cid_output = out_id o', cid_number = swc_number ch, cid_readout = swc_readout ch\<rparr>)
         (channel_list (out_device o'))"

definition ledger_entries :: "platform \<Rightarrow> hub_config \<Rightarrow> ledger_entry list" where
  "ledger_entries pf c =
     concat (map (source_entries pf) (hc_sources c)) @ concat (map output_entries (hc_outputs c))
     @ map (\<lambda>g. LeGroup (fg_id g)) (hc_focuser_groups c)
     @ map (\<lambda>g. LeCameraGroup (cg_id g)) (hc_camera_groups c)"

text \<open>When an entry is refused, the error it gets, and what recording it does.\<close>

fun refused :: "ledger_entry \<Rightarrow> identity_ledger \<Rightarrow> bool" where
  "refused (LeSource i identity pin) l \<longleftrightarrow>
     some_and (bt_get (led_sources l) i) (\<lambda>old. old \<noteq> identity)
     \<or> some_and (bt_get (led_pins l) i) (\<lambda>old. pin \<noteq> Some old)
     \<or> bt_contains (led_outputs l) i \<or> bt_contains (led_channels l) i
     \<or> i \<in> led_groups l \<or> i \<in> led_camera_groups l"
| "refused (LeOutput i identity) l \<longleftrightarrow>
     some_and (bt_get (led_outputs l) i) (\<lambda>old. old \<noteq> identity)
     \<or> list_ex (\<lambda>(j, old). j \<noteq> i \<and> old = identity) (led_outputs l)
     \<or> bt_contains (led_sources l) i \<or> bt_contains (led_channels l) i
     \<or> i \<in> led_groups l \<or> i \<in> led_camera_groups l"
| "refused (LeChannel i identity) l \<longleftrightarrow>
     some_and (bt_get (led_channels l) i) (\<lambda>old. old \<noteq> identity)
     \<or> list_ex (\<lambda>(j, old). j \<noteq> i \<and> cid_output old = cid_output identity \<and> cid_number old = cid_number identity)
         (led_channels l)
     \<or> bt_contains (led_outputs l) i \<or> bt_contains (led_sources l) i
     \<or> i \<in> led_groups l \<or> i \<in> led_camera_groups l"
| "refused (LeGroup i) l \<longleftrightarrow>
     bt_contains (led_sources l) i \<or> bt_contains (led_outputs l) i \<or> bt_contains (led_channels l) i
     \<or> i \<in> led_camera_groups l"
| "refused (LeCameraGroup i) l \<longleftrightarrow>
     bt_contains (led_sources l) i \<or> bt_contains (led_outputs l) i \<or> bt_contains (led_channels l) i
     \<or> i \<in> led_groups l"

fun refusal :: "ledger_entry \<Rightarrow> field_error" where
  "refusal (LeSource _ _ _) =
     field_error_new ''sources'' ''identity'' ''Existing source IDs cannot be retargeted or repurposed''"
| "refusal (LeOutput _ _) =
     field_error_new ''outputs'' ''identity'' ''Existing or retired output IDs/numbers cannot be reassigned''"
| "refusal (LeChannel _ _) =
     field_error_new ''outputs'' ''identity'' ''Existing or retired channel IDs/numbers cannot move or retarget''"
| "refusal (LeGroup _) =
     field_error_new ''focuserGroups'' ''identity'' ''Group IDs cannot repurpose source, output or channel identities''"
| "refusal (LeCameraGroup _) =
     field_error_new ''cameraGroups'' ''identity'' ''Camera group IDs cannot repurpose other identities''"

fun record_entry :: "ledger_entry \<Rightarrow> identity_ledger \<Rightarrow> identity_ledger" where
  "record_entry (LeSource i identity pin) l =
     l\<lparr>led_sources := bt_insert i identity (led_sources l),
       led_pins := (case pin of Some p \<Rightarrow> bt_insert i p (led_pins l) | None \<Rightarrow> led_pins l)\<rparr>"
| "record_entry (LeOutput i identity) l = l\<lparr>led_outputs := bt_insert i identity (led_outputs l)\<rparr>"
| "record_entry (LeChannel i identity) l = l\<lparr>led_channels := bt_insert i identity (led_channels l)\<rparr>"
| "record_entry (LeGroup i) l = l\<lparr>led_groups := insert i (led_groups l)\<rparr>"
| "record_entry (LeCameraGroup i) l = l\<lparr>led_camera_groups := insert i (led_camera_groups l)\<rparr>"

definition register_entry :: "ledger_entry \<Rightarrow> identity_ledger \<Rightarrow> field_error list \<times> identity_ledger" where
  "register_entry e l = (if refused e l then ([refusal e], l) else ([], record_entry e l))"

lemma register_entry_ok: "register_entry e l = ([], l') \<longleftrightarrow> \<not> refused e l \<and> l' = record_entry e l"
  by (auto simp: register_entry_def)

fun register_all :: "ledger_entry list \<Rightarrow> identity_ledger \<Rightarrow> field_error list \<times> identity_ledger" where
  "register_all [] l = ([], l)"
| "register_all (e # es) l =
     (case register_entry e l of (errors, l') \<Rightarrow> case register_all es l' of (errors', l'') \<Rightarrow> (errors @ errors', l''))"

definition register_identities :: "platform \<Rightarrow> hub_config \<Rightarrow> identity_ledger \<Rightarrow> field_error list \<times> identity_ledger" where
  "register_identities pf c l = register_all (ledger_entries pf c) l"

section \<open>What a ledger knows\<close>

definition ledger_wf :: "identity_ledger \<Rightarrow> bool" where
  "ledger_wf l \<longleftrightarrow> bt_wf (led_sources l) \<and> bt_wf (led_pins l) \<and> bt_wf (led_outputs l) \<and> bt_wf (led_channels l)"

fun knows :: "identity_ledger \<Rightarrow> ledger_entry \<Rightarrow> bool" where
  "knows l (LeSource i identity pin) \<longleftrightarrow> bt_get (led_sources l) i = Some identity
     \<and> none_or pin (\<lambda>p. bt_get (led_pins l) i = Some p)"
| "knows l (LeOutput i identity) \<longleftrightarrow> bt_get (led_outputs l) i = Some identity"
| "knows l (LeChannel i identity) \<longleftrightarrow> bt_get (led_channels l) i = Some identity"
| "knows l (LeGroup i) \<longleftrightarrow> i \<in> led_groups l"
| "knows l (LeCameraGroup i) \<longleftrightarrow> i \<in> led_camera_groups l"

text \<open>
  What a later entry may be, given an earlier one: the same identifier stands for the same thing, and
  output and channel numbers are never given away.
\<close>

fun same_identity :: "ledger_entry \<Rightarrow> ledger_entry \<Rightarrow> bool" where
  "same_identity (LeSource i k pin) (LeSource j k' pin') \<longleftrightarrow>
     (i = j \<longrightarrow> k = k' \<and> none_or pin (\<lambda>p. pin' = Some p))"
| "same_identity (LeOutput i x) (LeOutput j y) \<longleftrightarrow> (i = j \<longleftrightarrow> x = y)"
| "same_identity (LeChannel i x) (LeChannel j y) \<longleftrightarrow>
     (i = j \<longrightarrow> x = y) \<and> (cid_output x = cid_output y \<and> cid_number x = cid_number y \<longrightarrow> i = j)"
| "same_identity (LeGroup i) (LeGroup j) \<longleftrightarrow> True"
| "same_identity (LeCameraGroup i) (LeCameraGroup j) \<longleftrightarrow> True"
| "same_identity e e' \<longleftrightarrow> entry_id e \<noteq> entry_id e'"

lemma list_ex_bt: "bt_wf m \<Longrightarrow> list_ex (\<lambda>(j, old). P j old) m \<longleftrightarrow> (\<exists>j old. bt_get m j = Some old \<and> P j old)"
  by (auto simp: list_ex_iff bt_get_iff)

lemma bt_insert_again: "bt_wf m \<Longrightarrow> bt_get m k = Some v \<Longrightarrow> bt_insert k v m = m"
proof (induction m)
  case (Cons p m)
  obtain a b where p: "p = (a, b)" by (cases p)
  show ?case
  proof (cases "a = k")
    case False
    with Cons p have "(k, v) \<in> set m" by (auto dest: bt_get_in_set)
    with Cons p have "a < k" by auto
    with Cons p show ?thesis by auto
  qed (use Cons p in auto)
qed simp

lemma record_entry_wf: "ledger_wf l \<Longrightarrow> ledger_wf (record_entry e l)"
  by (cases e) (simp_all add: ledger_wf_def bt_wf_insert split: option.splits)

lemma record_entry_knows: "ledger_wf l \<Longrightarrow> knows (record_entry e l) e"
  by (cases e) (simp_all add: ledger_wf_def bt_get_insert none_or_def split: option.splits)

text \<open>The maps as functions: what the entries of each kind look like after recording.\<close>

lemma record_source_get:
  assumes "ledger_wf l"
  shows "bt_get (led_sources (record_entry e l)) k
     = (case e of LeSource i identity _ \<Rightarrow> if k = i then Some identity else bt_get (led_sources l) k
        | _ \<Rightarrow> bt_get (led_sources l) k)"
  using assms by (cases e) (simp_all add: ledger_wf_def bt_get_insert)

lemma record_pin_get:
  assumes "ledger_wf l"
  shows "bt_get (led_pins (record_entry e l)) k
     = (case e of LeSource i _ (Some p) \<Rightarrow> if k = i then Some p else bt_get (led_pins l) k
        | _ \<Rightarrow> bt_get (led_pins l) k)"
  using assms by (cases e) (simp_all add: ledger_wf_def bt_get_insert split: option.splits)

lemma record_output_get:
  assumes "ledger_wf l"
  shows "bt_get (led_outputs (record_entry e l)) k
     = (case e of LeOutput i identity \<Rightarrow> if k = i then Some identity else bt_get (led_outputs l) k
        | _ \<Rightarrow> bt_get (led_outputs l) k)"
  using assms by (cases e) (simp_all add: ledger_wf_def bt_get_insert)

lemma record_channel_get:
  assumes "ledger_wf l"
  shows "bt_get (led_channels (record_entry e l)) k
     = (case e of LeChannel i identity \<Rightarrow> if k = i then Some identity else bt_get (led_channels l) k
        | _ \<Rightarrow> bt_get (led_channels l) k)"
  using assms by (cases e) (simp_all add: ledger_wf_def bt_get_insert)

lemma record_groups:
  "led_groups (record_entry e l) = (case e of LeGroup i \<Rightarrow> insert i (led_groups l) | _ \<Rightarrow> led_groups l)"
  "led_camera_groups (record_entry e l)
     = (case e of LeCameraGroup i \<Rightarrow> insert i (led_camera_groups l) | _ \<Rightarrow> led_camera_groups l)"
  by (cases e; simp)+

lemmas record_gets = record_source_get record_pin_get record_output_get record_channel_get

lemma refused_iff:
  assumes "ledger_wf l"
  shows "refused (LeSource i identity pin) l \<longleftrightarrow>
      (\<exists>old. bt_get (led_sources l) i = Some old \<and> old \<noteq> identity)
      \<or> (\<exists>old. bt_get (led_pins l) i = Some old \<and> pin \<noteq> Some old)
      \<or> bt_get (led_outputs l) i \<noteq> None \<or> bt_get (led_channels l) i \<noteq> None
      \<or> i \<in> led_groups l \<or> i \<in> led_camera_groups l"
    and "refused (LeOutput i x) l \<longleftrightarrow>
      (\<exists>j old. bt_get (led_outputs l) j = Some old \<and> (j = i) \<noteq> (old = x))
      \<or> bt_get (led_sources l) i \<noteq> None \<or> bt_get (led_channels l) i \<noteq> None
      \<or> i \<in> led_groups l \<or> i \<in> led_camera_groups l"
    and "refused (LeChannel i y) l \<longleftrightarrow>
      (\<exists>j old. bt_get (led_channels l) j = Some old \<and> (j = i \<and> old \<noteq> y
          \<or> j \<noteq> i \<and> cid_output old = cid_output y \<and> cid_number old = cid_number y))
      \<or> bt_get (led_outputs l) i \<noteq> None \<or> bt_get (led_sources l) i \<noteq> None
      \<or> i \<in> led_groups l \<or> i \<in> led_camera_groups l"
    and "refused (LeGroup i) l \<longleftrightarrow>
      bt_get (led_sources l) i \<noteq> None \<or> bt_get (led_outputs l) i \<noteq> None \<or> bt_get (led_channels l) i \<noteq> None
      \<or> i \<in> led_camera_groups l"
    and "refused (LeCameraGroup i) l \<longleftrightarrow>
      bt_get (led_sources l) i \<noteq> None \<or> bt_get (led_outputs l) i \<noteq> None \<or> bt_get (led_channels l) i \<noteq> None
      \<or> i \<in> led_groups l"
proof -
  have wf: "bt_wf (led_outputs l)" "bt_wf (led_channels l)" using assms by (simp_all add: ledger_wf_def)
  have some: "some_and m P \<longleftrightarrow> (\<exists>x. m = Some x \<and> P x)" for m :: "'z option" and P
    by (cases m) (simp_all add: some_and_def)
  note unfolded = refused.simps some list_ex_bt [OF wf(1)] list_ex_bt [OF wf(2)] bt_contains_def
  show "refused (LeOutput i x) l \<longleftrightarrow>
      (\<exists>j old. bt_get (led_outputs l) j = Some old \<and> (j = i) \<noteq> (old = x))
      \<or> bt_get (led_sources l) i \<noteq> None \<or> bt_get (led_channels l) i \<noteq> None
      \<or> i \<in> led_groups l \<or> i \<in> led_camera_groups l"
    unfolding unfolded by blast
  show "refused (LeChannel i y) l \<longleftrightarrow>
      (\<exists>j old. bt_get (led_channels l) j = Some old \<and> (j = i \<and> old \<noteq> y
          \<or> j \<noteq> i \<and> cid_output old = cid_output y \<and> cid_number old = cid_number y))
      \<or> bt_get (led_outputs l) i \<noteq> None \<or> bt_get (led_sources l) i \<noteq> None
      \<or> i \<in> led_groups l \<or> i \<in> led_camera_groups l"
    unfolding unfolded by blast
qed (simp_all add: some_and_def bt_contains_def split: option.splits)

lemma knows_get:
  "knows l (LeSource i k pin) \<longleftrightarrow> bt_get (led_sources l) i = Some k \<and> (pin = None \<or> bt_get (led_pins l) i = pin)"
  by (cases pin) (auto simp: none_or_def)

declare refused.simps [simp del] record_entry.simps [simp del] knows.simps(1) [simp del] knows_get [simp] record_groups [simp]

text \<open>Recording an accepted entry forgets nothing, and contradicts nothing that is known.\<close>

lemma record_entry_keeps:
  assumes wf: "ledger_wf l" and "\<not> refused e l" "knows l e'"
  shows "knows (record_entry e l) e'"
proof (cases e')
  case (LeSource j k pin)
  with assms(2,3) show ?thesis
    by (cases e; cases "bt_get (led_pins l) j") (auto simp: record_gets [OF wf] refused_iff [OF wf] split: option.splits)
next
  case (LeOutput j x)
  with assms(2,3) show ?thesis by (cases e) (auto simp: record_gets [OF wf] refused_iff [OF wf])
next
  case (LeChannel j x)
  with assms(2,3) show ?thesis by (cases e) (auto simp: record_gets [OF wf] refused_iff [OF wf])
qed (use assms(3) in \<open>cases e; simp\<close>)+

lemma accepted_entry_compatible:
  assumes wf: "ledger_wf l" and "\<not> refused e l" "knows l e'"
  shows "same_identity e' e"
  using assms(2,3) by (cases e; cases e'; clarsimp simp: refused_iff [OF wf] none_or_def split: option.splits) (fastforce)+

section \<open>Registering again\<close>

text \<open>An entry is settled if registering it again is accepted and changes nothing.\<close>

definition settled_entry :: "ledger_entry \<Rightarrow> identity_ledger \<Rightarrow> bool" where
  "settled_entry e l \<longleftrightarrow> \<not> refused e l \<and> record_entry e l = l"

lemma record_entry_again:
  assumes "ledger_wf l" "knows l e"
  shows "record_entry e l = l"
  using assms
  by (cases e) (auto simp: ledger_wf_def bt_insert_again insert_absorb record_entry.simps split: option.splits)

lemma recorded_not_refused:
  assumes wf: "ledger_wf l" and "\<not> refused e l"
  shows "\<not> refused e (record_entry e l)"
  using assms(2)
  by (cases e; clarsimp simp: record_gets [OF wf] refused_iff [OF wf] refused_iff [OF record_entry_wf [OF wf]]
      split: option.splits if_splits) fastforce+

lemma settles: "ledger_wf l \<Longrightarrow> \<not> refused e l \<Longrightarrow> settled_entry e (record_entry e l)"
  by (simp add: settled_entry_def recorded_not_refused record_entry_again record_entry_wf record_entry_knows)

lemma settled_knows:
  assumes "ledger_wf l" "settled_entry e l"
  shows "knows l e"
  using record_entry_knows [OF assms(1), of e] assms(2) by (simp add: settled_entry_def)

lemma settled_stays:
  assumes wf: "ledger_wf l" and "\<not> refused e l" "settled_entry e' l" "entry_id e \<noteq> entry_id e'"
  shows "settled_entry e' (record_entry e l)"
proof -
  have known: "knows l e'" by (rule settled_knows [OF wf assms(3)])
  note refused_simps = refused_iff [OF wf] refused_iff [OF record_entry_wf [OF wf]]
  have no: "\<not> refused e l" "\<not> refused e' l" "entry_id e \<noteq> entry_id e'"
    using assms(2-) by (simp_all add: settled_entry_def)
  have "\<not> refused e' (record_entry e l)"
  proof (cases e')
    case (LeSource i k pin)
    with no show ?thesis by (cases e) (auto simp: record_gets [OF wf] refused_simps split: option.splits)
  next
    case (LeOutput i x)
    with no known have old: "bt_get (led_outputs l) i = Some x" by simp
    show ?thesis
    proof (cases "\<exists>j y. e = LeOutput j y")
      case True
      then obtain j y where e: "e = LeOutput j y" by blast
      have ne: "j \<noteq> i" using no(3) LeOutput e by simp
      have xy: "x \<noteq> y" using no(1) old ne unfolding e refused_simps(2) by metis
      show ?thesis
        using no(2) ne xy unfolding LeOutput e refused_simps record_gets [OF wf] record_groups by simp
    qed (use LeOutput no(2, 3) in \<open>cases e; simp add: record_gets [OF wf] refused_simps\<close>)
  next
    case (LeChannel i x)
    with no known have old: "bt_get (led_channels l) i = Some x" by simp
    show ?thesis
    proof (cases "\<exists>j y. e = LeChannel j y")
      case True
      then obtain j y where e: "e = LeChannel j y" by blast
      have ne: "j \<noteq> i" using no(3) LeChannel e by simp
      have xy: "\<not> (cid_output x = cid_output y \<and> cid_number x = cid_number y)"
        using no(1) old ne unfolding e refused_simps(3) by metis
      show ?thesis
        using no(2) ne xy unfolding LeChannel e refused_simps record_gets [OF wf] record_groups by simp metis
    qed (use LeChannel no(2, 3) in \<open>cases e; simp add: record_gets [OF wf] refused_simps\<close>)
  qed (use no(2, 3) in \<open>cases e; simp add: record_gets [OF wf] refused_simps\<close>)+
  with record_entry_again [OF record_entry_wf [OF wf] record_entry_keeps [OF wf assms(2) known]]
  show ?thesis by (simp add: settled_entry_def)
qed

section \<open>Whole documents\<close>

lemma register_all_ok:
  assumes "ledger_wf l" "register_all es l = ([], l')"
  shows "ledger_wf l'" "knows l e \<Longrightarrow> knows l' e" "e \<in> set es \<Longrightarrow> knows l' e"
    "knows l e \<Longrightarrow> e' \<in> set es \<Longrightarrow> same_identity e e'"
proof -
  have "ledger_wf l' \<and> (\<forall>e. knows l e \<longrightarrow> knows l' e) \<and> (\<forall>e \<in> set es. knows l' e)
      \<and> (\<forall>e e'. knows l e \<longrightarrow> e' \<in> set es \<longrightarrow> same_identity e e')"
    using assms
  proof (induction es arbitrary: l)
    case (Cons x xs)
    then have x: "\<not> refused x l" "register_all xs (record_entry x l) = ([], l')"
      by (auto simp: register_entry_def split: prod.splits if_splits)
    note ih = Cons.IH [OF record_entry_wf [OF Cons.prems(1)] x(2)]
    from ih record_entry_keeps [OF Cons.prems(1) x(1)] record_entry_knows [OF Cons.prems(1), of x]
      accepted_entry_compatible [OF Cons.prems(1) x(1)]
    show ?case by simp
  qed simp
  then show "ledger_wf l'" "knows l e \<Longrightarrow> knows l' e" "e \<in> set es \<Longrightarrow> knows l' e"
    "knows l e \<Longrightarrow> e' \<in> set es \<Longrightarrow> same_identity e e'" by blast+
qed

lemma register_all_settles:
  assumes "ledger_wf l" "register_all es l = ([], l')" "distinct (map entry_id es)"
    and "\<forall>e \<in> set done_before. settled_entry e l" "entry_id ` set done_before \<inter> entry_id ` set es = {}"
  shows "\<forall>e \<in> set done_before \<union> set es. settled_entry e l'"
  using assms
proof (induction es arbitrary: l done_before)
  case (Cons x xs)
  then have x: "\<not> refused x l" "register_all xs (record_entry x l) = ([], l')"
    by (auto simp: register_entry_def split: prod.splits if_splits)
  have "\<forall>e \<in> set (x # done_before). settled_entry e (record_entry x l)"
    using settles [OF Cons.prems(1) x(1)] settled_stays [OF Cons.prems(1) x(1)] Cons.prems(4, 5) by fastforce
  moreover have "entry_id ` set (x # done_before) \<inter> entry_id ` set xs = {}" using Cons.prems(3, 5) by auto
  moreover have "distinct (map entry_id xs)" using Cons.prems(3) by simp
  ultimately have "\<forall>e \<in> set (x # done_before) \<union> set xs. settled_entry e l'"
    by (rule Cons.IH [OF record_entry_wf [OF Cons.prems(1)] x(2), rotated])
  then show ?case by auto
qed simp

lemma register_all_again: "\<forall>e \<in> set es. settled_entry e l \<Longrightarrow> register_all es l = ([], l)"
  by (induction es) (auto simp: settled_entry_def register_entry_def)

end
