(* ===== verification/Config_Store.thy ===== *)
theory Config_Store imports Identity_Ledger Reachability begin

text \<open>
  The configuration store of the hub, \<open>ConfigStore\<close> and \<open>PreparedConfig\<close> of
  \<open>crates/regain-hub/src/config.rs\<close>: creating, opening, preparing and committing documents, each checked
  against the revision it replaces.

  The file system, JSON text and the generator of UUIDs are the environment: what an operation gets from
  them is an argument (the first error of writing and flushing the staged file, the length of the
  document, the errors of replacing the file and of making that durable, the UUID drawn). \<open>cst_file\<close> is
  the content of the destination file, as far as the store wrote it. Every method takes the store's
  mutex for its decisions, so operations do not interleave within one.
\<close>

section \<open>The store\<close>

datatype apply_error =
    AeInvalid "field_error list"
  | AeConflict
  | AeConnected
  | AeIo string
  | AeCommitted hub_config string

record config_store =
  cst_identity :: nat
  cst_persisted :: bool
  cst_current :: hub_config
  cst_file :: "hub_config option"

record prepared_config =
  pre_store :: nat
  pre_expected :: nat
  pre_next :: hub_config
  pre_staged :: bool

definition max_config_bytes :: nat where
  "max_config_bytes = 4 * 1024 * 1024"

definition oversized :: apply_error where
  "oversized = AeInvalid [field_error_new [] ''limit'' ''Hub configuration exceeds 4 MiB'']"

text \<open>\<open>ConfigStore::new\<close>; \<open>file\<close> is what the destination holds.\<close>

definition store_new :: "platform \<Rightarrow> nat \<Rightarrow> bool \<Rightarrow> hub_config option \<Rightarrow> hub_config \<Rightarrow> apply_error + config_store" where
  "store_new pf identity persisted file initial =
     (case register_identities pf initial (hc_identities initial) of (conflicts, ledger) \<Rightarrow>
        if config_validate pf initial @ conflicts \<noteq> [] then Inl (AeInvalid (config_validate pf initial @ conflicts))
        else Inr \<lparr>cst_identity = identity, cst_persisted = persisted,
          cst_current = initial\<lparr>hc_identities := ledger\<rparr>, cst_file = file\<rparr>)"

text \<open>
  \<open>ConfigStore::create\<close>: the path must be absolute and name a file whose parent exists, and the new file
  must not exist yet (\<open>persist_noclobber\<close>).
\<close>

record creation =
  cre_path_valid :: bool
  cre_parent_error :: "string option"
  cre_stage_error :: "string option"
  cre_exists :: "hub_config option"
  cre_exists_error :: string
  cre_persist_error :: "string option"
  cre_durability_error :: "string option"

definition store_create :: "platform \<Rightarrow> nat \<Rightarrow> nat \<Rightarrow> nat \<Rightarrow> creation \<Rightarrow> (apply_error + config_store) \<times> hub_config option" where
  "store_create pf identity revision instance_id io =
     (if \<not> cre_path_valid io
      then (Inl (AeIo ''New hub configuration path must be an absolute file path''), cre_exists io)
      else case cre_parent_error io of
          Some e \<Rightarrow> (Inl (AeIo e), cre_exists io)
        | None \<Rightarrow>
            (case store_new pf identity True None (empty_config revision instance_id) of
               Inl e \<Rightarrow> (Inl e, cre_exists io)
             | Inr store \<Rightarrow>
                 (case cre_stage_error io of
                    Some e \<Rightarrow> (Inl (AeIo e), cre_exists io)
                  | None \<Rightarrow>
                      if cre_exists io \<noteq> None then (Inl (AeIo (cre_exists_error io)), cre_exists io)
                      else case cre_persist_error io of
                          Some e \<Rightarrow> (Inl (AeIo e), None)
                        | None \<Rightarrow>
                            (case cre_durability_error io of
                               Some e \<Rightarrow> (Inl (AeCommitted (cst_current store) e), Some (cst_current store))
                             | None \<Rightarrow> (Inr (store\<lparr>cst_file := Some (cst_current store)\<rparr>), Some (cst_current store))))))"

text \<open>\<open>ConfigStore::load\<close>; \<open>decode\<close> is the JSON parser.\<close>

definition store_load :: "platform \<Rightarrow> nat \<Rightarrow> (nat list \<Rightarrow> hub_config option) \<Rightarrow> string + nat list \<Rightarrow> apply_error + config_store" where
  "store_load pf identity decode read = (case read of
       Inl e \<Rightarrow> Inl (AeIo e)
     | Inr content \<Rightarrow>
         (let bytes = take (max_config_bytes + 1) content in
          if max_config_bytes < length bytes then Inl oversized
          else case decode bytes of
              None \<Rightarrow> Inl (AeInvalid [field_error_new [] ''document''
                ''Invalid hub configuration JSON or unknown fields''])
            | Some initial \<Rightarrow> store_new pf identity True (Some initial) initial))"

record staging =
  stg_temp_error :: "string option"
  stg_document :: "string + nat"
  stg_write_error :: "string option"

text \<open>Staging a document: the temporary file, its text within the limit, its content flushed.\<close>

definition stage_document :: "staging \<Rightarrow> apply_error + unit" where
  "stage_document io =
     (case stg_temp_error io of Some e \<Rightarrow> Inl (AeIo e) | None \<Rightarrow>
      case stg_document io of Inl e \<Rightarrow> Inl (AeIo e) | Inr len \<Rightarrow>
      if max_config_bytes < len then Inl oversized
      else case stg_write_error io of Some e \<Rightarrow> Inl (AeIo e) | None \<Rightarrow> Inr ())"

definition store_prepare :: "platform \<Rightarrow> config_store \<Rightarrow> nat \<Rightarrow> hub_config \<Rightarrow> bool \<Rightarrow> nat \<Rightarrow> staging
    \<Rightarrow> apply_error + prepared_config" where
  "store_prepare pf store expected new_config in_use fresh io =
     (let errors = config_validate pf new_config; current = cst_current store in
      if errors \<noteq> [] then Inl (AeInvalid errors)
      else if hc_revision current \<noteq> expected \<or> hc_revision new_config \<noteq> expected then Inl AeConflict
      else if in_use then Inl AeConnected
      else case register_identities pf new_config (hc_identities new_config) of (conflicts, ledger) \<Rightarrow>
        (let errors' =
            report (hc_instance_id current \<noteq> hc_instance_id new_config) ''instanceId'' ''identity''
              ''Instance identity cannot change during an update''
            @ report (hc_identities new_config \<noteq> hc_identities current) ''identities'' ''identity''
              ''Identity history is managed by the hub and cannot be edited''
            @ conflicts
         in if errors' \<noteq> [] then Inl (AeInvalid errors')
            else and_then (if cst_persisted store then stage_document io else Inr ()) (\<lambda>_.
              Inr \<lparr>pre_store = cst_identity store, pre_expected = expected,
                pre_next = new_config\<lparr>hc_identities := ledger, hc_revision := fresh\<rparr>,
                pre_staged = cst_persisted store\<rparr>)))"

record publication =
  pbl_persist_error :: "string option"
  pbl_durability_error :: "string option"

definition store_commit :: "config_store \<Rightarrow> prepared_config \<Rightarrow> publication
    \<Rightarrow> (apply_error + hub_config) \<times> config_store" where
  "store_commit store p io =
     (if pre_store p \<noteq> cst_identity store \<or> hc_revision (cst_current store) \<noteq> pre_expected p
      then (Inl AeConflict, store)
      else case (if pre_staged p then pbl_persist_error io else None) of
          Some e \<Rightarrow> (Inl (AeIo e), store)
        | None \<Rightarrow>
            (let store' = store\<lparr>cst_current := pre_next p,
               cst_file := (if pre_staged p then Some (pre_next p) else cst_file store)\<rparr>
             in case (if pre_staged p then pbl_durability_error io else None) of
                  Some e \<Rightarrow> (Inl (AeCommitted (pre_next p) e), store')
                | None \<Rightarrow> (Inr (pre_next p), store')))"

definition store_apply :: "platform \<Rightarrow> config_store \<Rightarrow> nat \<Rightarrow> hub_config \<Rightarrow> bool \<Rightarrow> nat \<Rightarrow> staging \<Rightarrow> publication
    \<Rightarrow> (apply_error + hub_config) \<times> config_store" where
  "store_apply pf store expected new_config in_use fresh staged published =
     (case store_prepare pf store expected new_config in_use fresh staged of
        Inl e \<Rightarrow> (Inl e, store)
      | Inr p \<Rightarrow> store_commit store p published)"

section \<open>Runs of a store\<close>

text \<open>
  What has happened to one store: the prepared documents that are neither committed nor dropped, the
  documents it published, newest first, each with the revision its update named, and all revisions
  drawn. A fresh revision is new and not nil: UUIDs of version 4 do not repeat.
\<close>

record config_world =
  cw_store :: config_store
  cw_prepared :: "prepared_config list"
  cw_published :: "(nat \<times> hub_config) list"
  cw_drawn :: "nat set"

definition config_initial :: "platform \<Rightarrow> config_world \<Rightarrow> bool" where
  "config_initial pf w \<longleftrightarrow>
     (\<exists>identity persisted file c. ledger_wf (hc_identities c)
        \<and> store_new pf identity persisted file c = Inr (cw_store w))
     \<and> cw_prepared w = [] \<and> cw_published w = [(0, cst_current (cw_store w))]
     \<and> cw_drawn w = {hc_revision (cst_current (cw_store w))}"

definition has_published :: "apply_error + hub_config \<Rightarrow> bool" where
  "has_published r = (case r of Inr _ \<Rightarrow> True | Inl (AeCommitted _ _) \<Rightarrow> True | _ \<Rightarrow> False)"

inductive config_step :: "platform \<Rightarrow> config_world \<Rightarrow> config_world \<Rightarrow> bool" for pf where
  step_prepare:
    "store_prepare pf (cw_store w) expected c in_use fresh io = Inr p \<Longrightarrow> fresh \<notin> cw_drawn w \<Longrightarrow> fresh \<noteq> 0
     \<Longrightarrow> config_step pf w (w\<lparr>cw_prepared := p # cw_prepared w, cw_drawn := insert fresh (cw_drawn w)\<rparr>)"
| step_commit:
    "p \<in> set (cw_prepared w) \<Longrightarrow> store_commit (cw_store w) p io = (r, store')
     \<Longrightarrow> config_step pf w (w\<lparr>cw_store := store', cw_prepared := remove1 p (cw_prepared w),
       cw_published := (if has_published r then (pre_expected p, cst_current store') # cw_published w
         else cw_published w)\<rparr>)"
| step_foreign:
    "pre_store p \<noteq> cst_identity (cw_store w) \<Longrightarrow> store_commit (cw_store w) p io = (r, store')
     \<Longrightarrow> config_step pf w (w\<lparr>cw_store := store'\<rparr>)"
| step_drop: "config_step pf w (w\<lparr>cw_prepared := remove1 p (cw_prepared w)\<rparr>)"

section \<open>Documents that follow one another\<close>

text \<open>The checks other than those of the header do not look at revision and ledger.\<close>

lemma checks_ignore_ledger:
  fixes c :: hub_config and r :: nat and l :: identity_ledger
  defines "c' \<equiv> c\<lparr>hc_identities := l, hc_revision := r\<rparr>"
  shows "source_type c' = source_type c" "find_source c' = find_source c" "find_output c' = find_output c"
    "physical_source c' = physical_source c" "config_edges c' = config_edges c"
proof -
  show find: "find_source c' = find_source c" "find_output c' = find_output c"
    by (rule ext, simp add: c'_def find_source_def find_output_def)+
  show type: "source_type c' = source_type c" by (rule ext) (simp only: source_type_def find)
  have "physical_loop d t visited s = physical_loop c t visited s" if "d = c'" for d t visited s
    using that
  proof (induction d t visited s rule: physical_loop.induct)
    case (1 d t visited s)
    then show ?case
      unfolding physical_loop.simps [of d t visited s] physical_loop.simps [of c t visited s]
      by (simp add: find type split: option.split source_backend.split virtual_device.split)
  qed
  then show "physical_source c' = physical_source c" by (simp add: physical_source_def fun_eq_iff)
  show "config_edges c' = config_edges c" by (simp add: config_edges_def c'_def)
qed

lemma validate_ignores_ledger:
  fixes c :: hub_config and r :: nat and l :: identity_ledger
  defines "c' \<equiv> c\<lparr>hc_identities := l, hc_revision := r\<rparr>"
  assumes "config_validate pf c = []" "header_errors c' = []"
  shows "config_validate pf c' = []"
proof -
  note same = checks_ignore_ledger [where c = c and l = l and r = r, folded c'_def]
  have fields: "hc_instance_id c' = hc_instance_id c" "hc_outputs c' = hc_outputs c" "hc_sources c' = hc_sources c"
    "hc_focuser_groups c' = hc_focuser_groups c" "hc_camera_groups c' = hc_camera_groups c"
    by (simp_all add: c'_def)
  have "check_source pf c' = check_source pf c"
    by (intro ext) (simp only: check_source_def check_backend_def check_com_def same fields)
  moreover have readout: "validate_readout c' = validate_readout c"
    by (intro ext) (simp only: validate_readout_def same)
  have "check_member c' = check_member c" "check_channel c' = check_channel c"
    "check_measurement c' = check_measurement c"
    by (intro ext, simp only: check_member_def check_channel_def check_measurement_def same readout)+
  then have "check_device c' = check_device c"
    by (intro ext) (simp only: check_device_def same)
  then have "check_output c' = check_output c"
    by (intro ext) (simp only: check_output_def same)
  moreover have "check_leaf c' = check_leaf c" by (intro ext) (simp only: check_leaf_def same)
  then have "check_focuser_group c' = check_focuser_group c" "check_camera_group c' = check_camera_group c"
    by (intro ext, simp only: check_focuser_group_def check_camera_group_def)+
  moreover have "too_large c' = too_large c" by (simp add: too_large_def fields)
  ultimately show ?thesis
    using assms(2, 3) by (simp add: config_validate_def same fields split: prod.splits if_splits)
qed

text \<open>What the \<open>uuid\<close> crate guarantees: the text of a UUID is short printable ASCII, not blank.\<close>

definition uuid_text_printable :: "platform \<Rightarrow> bool" where
  "uuid_text_printable pf \<longleftrightarrow> (\<forall>u. valid_alpaca_id (pf_uuid_text pf u))"

lemma registered_pin:
  assumes "ledger_wf l" "register_all es l = ([], l')" "bt_get (led_pins l') i = Some p"
  shows "bt_get (led_pins l) i = Some p \<or> (\<exists>k. LeSource i k (Some p) \<in> set es)"
  using assms
proof (induction es arbitrary: l)
  case (Cons x xs)
  then have x: "register_all xs (record_entry x l) = ([], l')"
    by (auto simp: register_entry_def split: prod.splits if_splits)
  from Cons.IH [OF record_entry_wf [OF Cons.prems(1)] x Cons.prems(3)] show ?case
    by (cases x) (auto simp: record_pin_get [OF Cons.prems(1)] split: option.splits if_splits)
qed simp

lemma registered_channel:
  assumes "ledger_wf l" "register_all es l = ([], l')" "bt_get (led_channels l') i = Some ch"
  shows "bt_get (led_channels l) i = Some ch \<or> LeChannel i ch \<in> set es"
  using assms
proof (induction es arbitrary: l)
  case (Cons x xs)
  then have x: "register_all xs (record_entry x l) = ([], l')"
    by (auto simp: register_entry_def split: prod.splits if_splits)
  from Cons.IH [OF record_entry_wf [OF Cons.prems(1)] x Cons.prems(3)] show ?case
    by (cases x) (auto simp: record_channel_get [OF Cons.prems(1)] split: if_splits)
qed simp

lemma entry_ids:
  assumes "distinct (config_ids c)"
  shows "distinct (map entry_id (ledger_entries pf c))" "set (map entry_id (ledger_entries pf c)) \<subseteq> set (config_ids c)"
proof -
  have sources: "distinct (map scf_id ss) \<Longrightarrow> distinct (map entry_id (concat (map (source_entries pf) ss)))
      \<and> set (map entry_id (concat (map (source_entries pf) ss))) \<subseteq> set (map scf_id ss)" for ss
    by (induction ss) (auto simp: source_entries_def split: sum.splits)
  have outputs: "map entry_id (concat (map output_entries os)) = concat (map output_ids os)" for os
    by (induction os) (simp_all add: output_entries_def output_ids_def comp_def)
  have groups: "map entry_id (map (\<lambda>g. LeGroup (fg_id g)) gs) = map fg_id gs"
    "map entry_id (map (\<lambda>g. LeCameraGroup (cg_id g)) cs) = map cg_id cs" for gs cs by simp_all
  note d = assms [unfolded config_ids_def distinct_append set_append]
  note s = sources [OF conjunct1 [OF d]]
  show "set (map entry_id (ledger_entries pf c)) \<subseteq> set (config_ids c)"
    unfolding ledger_entries_def map_append outputs groups config_ids_def set_append using s by blast
  show "distinct (map entry_id (ledger_entries pf c))"
    unfolding ledger_entries_def map_append outputs groups distinct_append set_append using s d by blast
qed

lemma entries_ignore_ledger: "ledger_entries pf (c\<lparr>hc_identities := l, hc_revision := r\<rparr>) = ledger_entries pf c"
  by (simp add: ledger_entries_def)

lemma accepted_pin:
  assumes "config_validate pf c = []" "uuid_text_printable pf" "LeSource i k (Some p) \<in> set (ledger_entries pf c)"
  shows "valid_alpaca_id p"
proof -
  obtain s1 where loop: "each_numbered (check_source pf c) 0 (hc_sources c) ({}, {}, {}) = ([], s1)"
    using config_validate_loops [OF assms(1)] by metis
  from assms(3) obtain s where s: "s \<in> set (hc_sources c)" "source_pin pf s = Some p"
    by (auto simp: ledger_entries_def source_entries_def output_entries_def split: sum.splits)
  then obtain a u where a: "scf_backend s = BkAlpaca a" "al_unique_id a = Some u" "p = normalize_alpaca_id pf u"
    by (auto simp: source_pin_def split: source_backend.splits)
  have "scf_backend s = BkAlpaca a \<longrightarrow> valid_alpaca_id u"
  proof (rule each_numbered_all [OF loop _ s(1)])
    fix j x m m'
    assume "check_source pf c j x m = ([], m')"
    then have "fst (check_backend pf c (indexed ''sources'' j) x (snd (snd m))) = []"
      unfolding check_source_def by (cases m) (auto simp: Let_def split: prod.splits)
    then show "scf_backend x = BkAlpaca a \<longrightarrow> valid_alpaca_id u"
      using a(2) by (auto simp: check_backend_def check_alpaca_def Let_def some_and_def split: sum.splits)
  qed
  with a assms(2) show ?thesis
    by (auto simp: normalize_alpaca_id_def uuid_text_printable_def split: option.splits)
qed

lemma accepted_channel:
  assumes "config_validate pf c = []" "LeChannel i x \<in> set (ledger_entries pf c)"
  shows "cid_number x < max_switch_channels"
proof -
  obtain s1 s2 where loop: "each_numbered (check_output c) 0 (hc_outputs c) (fst (s1 :: source_marks), {}) = ([], s2)"
    using config_validate_loops [OF assms(1)] by metis
  from assms(2) obtain o' ch where o': "o' \<in> set (hc_outputs c)" "ch \<in> set (channel_list (out_device o'))"
    "cid_number x = swc_number ch"
    by (auto simp: ledger_entries_def source_entries_def output_entries_def split: sum.splits)
  have "\<forall>ch \<in> set (channel_list (out_device o')). swc_number ch < max_switch_channels"
  proof (rule each_numbered_all [OF loop _ o'(1)])
    fix j y m m'
    assume "check_output c j y m = ([], m')"
    then obtain ids1 where dev: "check_device c (indexed ''outputs'' j) (out_device y) ids1 = ([], fst m')"
      by (auto simp: check_output_def Let_def split: prod.splits)
    show "\<forall>ch \<in> set (channel_list (out_device y)). swc_number ch < max_switch_channels"
    proof (cases "out_device y")
      case (VdSwitch channels)
      with dev obtain marks where run: "each_numbered (check_channel c (indexed ''outputs'' j)) 0 channels (ids1, {}) = ([], marks)"
        by (auto simp: check_device_def split: prod.splits)
      have "swc_number ch < max_switch_channels" if "ch \<in> set channels" for ch
        by (rule each_numbered_all [OF run _ that])
          (auto simp: check_channel_def claim_channel_def Let_def split: prod.splits if_splits)
      with VdSwitch show ?thesis by simp
    qed simp_all
  qed
  with o' show ?thesis by simp
qed

text \<open>A document as the store keeps it: accepted, and settled in its own ledger.\<close>

definition kept :: "platform \<Rightarrow> hub_config \<Rightarrow> bool" where
  "kept pf c \<longleftrightarrow> config_validate pf c = [] \<and> ledger_wf (hc_identities c)
     \<and> register_identities pf c (hc_identities c) = ([], hc_identities c)
     \<and> (\<forall>e \<in> set (ledger_entries pf c). knows (hc_identities c) e)"

lemma registered_header:
  assumes "config_validate pf c = []" "uuid_text_printable pf" "ledger_wf (hc_identities c)"
    and reg: "register_all (ledger_entries pf c) (hc_identities c) = ([], l)" and "r \<noteq> 0"
  shows "header_errors (c\<lparr>hc_identities := l, hc_revision := r\<rparr>) = []"
proof -
  note ids = accepted_ids(2) [OF assms(1)] entry_ids(2) [OF accepted_ids(1) [OF assms(1)], of pf]
  have wf: "ledger_wf l" by (rule register_all_ok(1) [OF assms(3) reg])
  have old: "header_errors c = []" using config_validate_loops [OF assms(1)] by metis
  have wfs: "bt_wf (led_pins l)" "bt_wf (led_channels l)" "bt_wf (led_pins (hc_identities c))"
    "bt_wf (led_channels (hc_identities c))"
    using wf assms(3) by (simp_all add: ledger_wf_def)
  have pin: "i \<noteq> 0 \<and> valid_alpaca_id p \<and> bt_contains (led_sources l) i" if "bt_get (led_pins l) i = Some p" for i p
    using registered_pin [OF assms(3) reg that]
  proof
    assume was: "bt_get (led_pins (hc_identities c)) i = Some p"
    with old wfs(3) have ok: "i \<noteq> 0" "valid_alpaca_id p" "bt_contains (led_sources (hc_identities c)) i"
      by (auto simp: header_errors_def list_ex_bt)
    then obtain k where "bt_get (led_sources (hc_identities c)) i = Some k" by (auto simp: bt_contains_def)
    then have "knows (hc_identities c) (LeSource i k None)" by simp
    from register_all_ok(2) [OF assms(3) reg this] ok show ?thesis by (simp add: bt_contains_def)
  next
    assume "\<exists>k. LeSource i k (Some p) \<in> set (ledger_entries pf c)"
    then obtain k where k: "LeSource i k (Some p) \<in> set (ledger_entries pf c)" by blast
    with ids have "i \<noteq> 0" by force
    with register_all_ok(3) [OF assms(3) reg k] accepted_pin [OF assms(1, 2) k]
    show ?thesis by (simp add: bt_contains_def)
  qed
  have channel: "cid_number x < max_switch_channels" if "bt_get (led_channels l) i = Some x" for i x
    using registered_channel [OF assms(3) reg that]
  proof
    assume "bt_get (led_channels (hc_identities c)) i = Some x"
    then have "x \<in> set (bt_values (led_channels (hc_identities c)))"
      by (force simp: bt_values_def dest: bt_get_in_set)
    with old show ?thesis by (auto simp: header_errors_def list_ex_iff)
  qed (rule accepted_channel [OF assms(1)])
  have "\<not> list_ex (\<lambda>(i, pin). i = 0 \<or> \<not> valid_alpaca_id pin \<or> \<not> bt_contains (led_sources l) i) (led_pins l)"
    using pin by (simp add: list_ex_bt [OF wfs(1)])
  moreover have "\<not> list_ex (\<lambda>ch. max_switch_channels \<le> cid_number ch) (bt_values (led_channels l))"
    using channel bt_get_of_set [OF wfs(2)] by (fastforce simp: list_ex_iff bt_values_def)
  ultimately show ?thesis using old assms(5) by (simp add: header_errors_def)
qed

lemma registered_kept:
  assumes "config_validate pf c = []" "uuid_text_printable pf" "ledger_wf (hc_identities c)"
    and reg: "register_identities pf c (hc_identities c) = ([], l)" and "r \<noteq> 0"
  shows "kept pf (c\<lparr>hc_identities := l, hc_revision := r\<rparr>)"
proof -
  let ?c = "c\<lparr>hc_identities := l, hc_revision := r\<rparr>"
  note all = reg [unfolded register_identities_def]
  have "\<forall>e \<in> set [] \<union> set (ledger_entries pf c). settled_entry e l"
    by (rule register_all_settles [OF assms(3) all entry_ids(1) [OF accepted_ids(1) [OF assms(1)]]]) simp_all
  then have "register_all (ledger_entries pf c) l = ([], l)" by (intro register_all_again) simp
  moreover have "config_validate pf ?c = []"
    by (rule validate_ignores_ledger [OF assms(1) registered_header [OF assms(1-3) all assms(5)]])
  ultimately show ?thesis
    using register_all_ok [OF assms(3) all] by (simp add: kept_def register_identities_def ledger_entries_def)
qed

lemma store_new_kept:
  assumes "store_new pf identity persisted file c = Inr store" "uuid_text_printable pf" "ledger_wf (hc_identities c)"
  shows "kept pf (cst_current store)" "hc_revision (cst_current store) \<noteq> 0"
proof -
  obtain conflicts l where reg: "register_identities pf c (hc_identities c) = (conflicts, l)" by fastforce
  with assms(1) have ok: "conflicts = []" "config_validate pf c = []" "cst_current store = c\<lparr>hc_identities := l\<rparr>"
    by (auto simp: store_new_def split: if_splits)
  have "header_errors c = []" using config_validate_loops [OF ok(2)] by metis
  then have r: "hc_revision c \<noteq> 0" by (simp add: header_errors_def)
  have "kept pf (c\<lparr>hc_identities := l, hc_revision := hc_revision c\<rparr>)"
    using registered_kept [OF ok(2) assms(2, 3) _ r] reg ok(1) by simp
  then show "kept pf (cst_current store)" "hc_revision (cst_current store) \<noteq> 0" using ok(3) r by simp_all
qed

text \<open>What a prepared document owes to the one it was prepared against.\<close>

definition successor :: "platform \<Rightarrow> hub_config \<Rightarrow> hub_config \<Rightarrow> bool" where
  "successor pf c n \<longleftrightarrow> kept pf n \<and> hc_instance_id n = hc_instance_id c
     \<and> (\<forall>e. knows (hc_identities c) e \<longrightarrow> knows (hc_identities n) e
          \<and> (\<forall>e' \<in> set (ledger_entries pf n). same_identity e e'))"

lemma store_prepare_ok:
  assumes "store_prepare pf store expected n in_use fresh io = Inr p" "uuid_text_printable pf"
    and "ledger_wf (hc_identities (cst_current store))" "fresh \<noteq> 0"
  shows "successor pf (cst_current store) (pre_next p)" "pre_store p = cst_identity store"
    "pre_expected p = hc_revision (cst_current store)" "hc_revision (pre_next p) = fresh"
    "pre_staged p = cst_persisted store"
proof -
  obtain conflicts l where reg: "register_identities pf n (hc_identities n) = (conflicts, l)" by fastforce
  from assms(1) reg have ok: "config_validate pf n = []" "hc_revision (cst_current store) = expected" "conflicts = []"
    "hc_instance_id (cst_current store) = hc_instance_id n" "hc_identities n = hc_identities (cst_current store)"
    and p: "p = \<lparr>pre_store = cst_identity store, pre_expected = expected,
      pre_next = n\<lparr>hc_identities := l, hc_revision := fresh\<rparr>, pre_staged = cst_persisted store\<rparr>"
    by (auto simp: store_prepare_def Let_def and_then_def split: if_splits sum.splits)
  have wf: "ledger_wf (hc_identities n)" using ok(5) assms(3) by simp
  have all: "register_all (ledger_entries pf n) (hc_identities n) = ([], l)"
    using reg ok(3) by (simp add: register_identities_def)
  have "kept pf (n\<lparr>hc_identities := l, hc_revision := fresh\<rparr>)"
    using registered_kept [OF ok(1) assms(2) wf _ assms(4)] reg ok(3) by simp
  then show "successor pf (cst_current store) (pre_next p)"
    using register_all_ok(2) [OF wf all] register_all_ok(4) [OF wf all] ok(4, 5)
    by (simp add: successor_def p entries_ignore_ledger)
qed (use assms(1) in \<open>auto simp: store_prepare_def Let_def and_then_def split: if_splits sum.splits prod.splits\<close>)

section \<open>The invariant of a run\<close>

text \<open>Newest first: each update names the revision of the document it replaced.\<close>

fun chained :: "(nat \<times> hub_config) list \<Rightarrow> bool" where
  "chained ((x, n) # (y, c) # rest) \<longleftrightarrow> x = hc_revision c \<and> chained ((y, c) # rest)"
| "chained _ \<longleftrightarrow> True"

definition consistent :: "platform \<Rightarrow> nat \<times> hub_config \<Rightarrow> nat \<times> hub_config \<Rightarrow> bool" where
  "consistent pf newer older \<longleftrightarrow>
     hc_instance_id (snd newer) = hc_instance_id (snd older) \<and> hc_revision (snd newer) \<noteq> hc_revision (snd older)
     \<and> (\<forall>e \<in> set (ledger_entries pf (snd older)). \<forall>e' \<in> set (ledger_entries pf (snd newer)). same_identity e e')"

definition revisions :: "(nat \<times> hub_config) list \<Rightarrow> nat set" where
  "revisions published = (\<lambda>p. hc_revision (snd p)) ` set published"

definition prepared_ok :: "platform \<Rightarrow> config_world \<Rightarrow> prepared_config \<Rightarrow> bool" where
  "prepared_ok pf w p \<longleftrightarrow> pre_store p = cst_identity (cw_store w) \<and> pre_staged p = cst_persisted (cw_store w)
     \<and> hc_revision (pre_next p) \<in> cw_drawn w \<and> hc_revision (pre_next p) \<notin> revisions (cw_published w)
     \<and> pre_expected p \<in> revisions (cw_published w)
     \<and> (pre_expected p = hc_revision (cst_current (cw_store w))
          \<longrightarrow> successor pf (cst_current (cw_store w)) (pre_next p))"

definition store_inv :: "platform \<Rightarrow> config_world \<Rightarrow> bool" where
  "store_inv pf w \<longleftrightarrow>
     kept pf (cst_current (cw_store w))
     \<and> cw_published w \<noteq> [] \<and> snd (hd (cw_published w)) = cst_current (cw_store w)
     \<and> chained (cw_published w) \<and> sorted_wrt (consistent pf) (cw_published w)
     \<and> (\<forall>q \<in> set (cw_published w). hc_instance_id (snd q) = hc_instance_id (cst_current (cw_store w))
          \<and> (\<forall>e \<in> set (ledger_entries pf (snd q)). knows (hc_identities (cst_current (cw_store w))) e))
     \<and> revisions (cw_published w) \<subseteq> cw_drawn w
     \<and> distinct (map (\<lambda>p. hc_revision (pre_next p)) (cw_prepared w))
     \<and> (\<forall>p \<in> set (cw_prepared w). prepared_ok pf w p)
     \<and> (cst_persisted (cw_store w) \<and> tl (cw_published w) \<noteq> [] \<longrightarrow> cst_file (cw_store w) = Some (cst_current (cw_store w)))"

lemma store_inv_initial:
  assumes "uuid_text_printable pf" "config_initial pf w"
  shows "store_inv pf w"
proof -
  from assms(2) have w: "cw_prepared w = []" "cw_published w = [(0, cst_current (cw_store w))]"
    "cw_drawn w = {hc_revision (cst_current (cw_store w))}" by (auto simp: config_initial_def)
  from assms have "kept pf (cst_current (cw_store w))" by (auto simp: config_initial_def intro: store_new_kept)
  with w show ?thesis by (simp add: store_inv_def revisions_def kept_def)
qed

text \<open>A commit either changes nothing or publishes its document.\<close>

lemma store_commit_cases:
  assumes "store_commit store p io = (r, store')"
  shows "\<not> has_published r \<and> store' = store
    \<or> has_published r \<and> pre_store p = cst_identity store \<and> pre_expected p = hc_revision (cst_current store)
      \<and> store' = store\<lparr>cst_current := pre_next p,
          cst_file := (if pre_staged p then Some (pre_next p) else cst_file store)\<rparr>"
  using assms
  by (auto simp: store_commit_def Let_def has_published_def split: if_splits option.splits)

lemma store_inv_prepare:
  assumes "uuid_text_printable pf" "store_inv pf w"
    and prep: "store_prepare pf (cw_store w) expected c in_use fresh io = Inr p" "fresh \<notin> cw_drawn w" "fresh \<noteq> 0"
  shows "store_inv pf (w\<lparr>cw_prepared := p # cw_prepared w, cw_drawn := insert fresh (cw_drawn w)\<rparr>)"
proof -
  let ?w = "w\<lparr>cw_prepared := p # cw_prepared w, cw_drawn := insert fresh (cw_drawn w)\<rparr>"
  have inv: "ledger_wf (hc_identities (cst_current (cw_store w)))" "revisions (cw_published w) \<subseteq> cw_drawn w"
    "\<forall>p \<in> set (cw_prepared w). prepared_ok pf w p" "cw_published w \<noteq> []"
    "snd (hd (cw_published w)) = cst_current (cw_store w)"
    using assms(2) by (auto simp: store_inv_def kept_def)
  note p = store_prepare_ok [OF prep(1) assms(1) inv(1) prep(3)]
  have cur: "hc_revision (cst_current (cw_store w)) \<in> revisions (cw_published w)"
    using inv(4, 5) unfolding revisions_def by (metis hd_in_set image_eqI)
  have "prepared_ok pf ?w p" using p cur inv(2) prep(2) by (auto simp: prepared_ok_def)
  moreover have "\<forall>p' \<in> set (cw_prepared w). prepared_ok pf ?w p'" using inv(3) by (simp add: prepared_ok_def)
  moreover have "fresh \<notin> (\<lambda>p. hc_revision (pre_next p)) ` set (cw_prepared w)"
    using inv(3) prep(2) by (auto simp: prepared_ok_def)
  ultimately show ?thesis using assms(2) p(4) by (auto simp: store_inv_def)
qed

lemma store_inv_forget: "store_inv pf w \<Longrightarrow> store_inv pf (w\<lparr>cw_prepared := remove1 p (cw_prepared w)\<rparr>)"
proof -
  assume inv: "store_inv pf w"
  then have "distinct (map (\<lambda>p. hc_revision (pre_next p)) (remove1 p (cw_prepared w)))"
    by (auto simp: store_inv_def distinct_map distinct_remove1 intro: inj_on_subset dest: notin_set_remove1)
  moreover have "\<forall>q \<in> set (remove1 p (cw_prepared w)). prepared_ok pf (w\<lparr>cw_prepared := remove1 p (cw_prepared w)\<rparr>) q"
    using inv by (auto simp: store_inv_def prepared_ok_def dest: notin_set_remove1)
  ultimately show ?thesis using inv by (simp add: store_inv_def)
qed

lemma store_inv_publish:
  assumes inv: "store_inv pf w" and p: "p \<in> set (cw_prepared w)"
    and now: "pre_expected p = hc_revision (cst_current (cw_store w))"
  shows "store_inv pf (w\<lparr>cw_store := (cw_store w)\<lparr>cst_current := pre_next p,
      cst_file := (if pre_staged p then Some (pre_next p) else cst_file (cw_store w))\<rparr>,
    cw_prepared := remove1 p (cw_prepared w), cw_published := (pre_expected p, pre_next p) # cw_published w\<rparr>)"
    (is "store_inv pf ?w")
proof -
  let ?c = "cst_current (cw_store w)" and ?n = "pre_next p" and ?old = "cw_published w"
  have ok: "prepared_ok pf w p" "distinct (map (\<lambda>p. hc_revision (pre_next p)) (cw_prepared w))"
    "\<forall>q \<in> set (cw_prepared w). prepared_ok pf w q" "?old \<noteq> []" "snd (hd ?old) = ?c" "chained ?old"
    "sorted_wrt (consistent pf) ?old" "revisions ?old \<subseteq> cw_drawn w"
    "\<forall>q \<in> set ?old. hc_instance_id (snd q) = hc_instance_id ?c
       \<and> (\<forall>e \<in> set (ledger_entries pf (snd q)). knows (hc_identities ?c) e)"
    using inv p by (simp_all add: store_inv_def)
  have suc: "successor pf ?c ?n" and fresh: "hc_revision ?n \<notin> revisions ?old" and drawn: "hc_revision ?n \<in> cw_drawn w"
    using ok(1) now by (simp_all add: prepared_ok_def)
  have "chained ((pre_expected p, ?n) # ?old)" using ok(4-6) now by (cases ?old) auto
  moreover have "\<forall>q \<in> set ?old. consistent pf (pre_expected p, ?n) q"
    using ok(9) suc fresh by (auto simp: consistent_def successor_def revisions_def)
  moreover have "\<forall>q \<in> set ((pre_expected p, ?n) # ?old). hc_instance_id (snd q) = hc_instance_id ?n
      \<and> (\<forall>e \<in> set (ledger_entries pf (snd q)). knows (hc_identities ?n) e)"
    using ok(9) suc by (auto simp: successor_def kept_def)
  moreover have "prepared_ok pf ?w q" if q: "q \<in> set (remove1 p (cw_prepared w))" for q
  proof -
    have q': "q \<in> set (cw_prepared w)" using q notin_set_remove1 by metis
    have "hc_revision (pre_next q) \<noteq> hc_revision ?n"
    proof -
      obtain as bs where split: "cw_prepared w = as @ p # bs" "p \<notin> set as" using p by (meson split_list_first)
      then have "q \<in> set as \<union> set bs" using q by (simp add: remove1_append)
      with ok(2) split(1) show ?thesis by (auto simp: image_iff)
    qed
    moreover have q_ok: "prepared_ok pf w q" using ok(3) q' by blast
    moreover have "pre_expected q \<noteq> hc_revision ?n" using q_ok fresh unfolding prepared_ok_def by metis
    moreover have "revisions ((pre_expected p, ?n) # ?old) = insert (hc_revision ?n) (revisions ?old)"
      by (simp add: revisions_def)
    ultimately show ?thesis by (simp add: prepared_ok_def)
  qed
  moreover have "distinct (map (\<lambda>p. hc_revision (pre_next p)) (remove1 p (cw_prepared w)))"
    using store_inv_forget [OF inv, of p] by (simp add: store_inv_def)
  moreover have "cst_persisted (cw_store w) \<longrightarrow> pre_staged p" using ok(1) by (simp add: prepared_ok_def)
  ultimately show ?thesis
    using suc drawn ok(7, 8) by (simp add: store_inv_def successor_def revisions_def)
qed

lemma store_inv_step:
  assumes "uuid_text_printable pf" "store_inv pf w" "config_step pf w w'"
  shows "store_inv pf w'"
  using assms(3)
proof cases
  case (step_prepare expected c in_use fresh io p)
  with store_inv_prepare [OF assms(1, 2)] show ?thesis by blast
next
  case (step_commit p io r store')
  from store_commit_cases [OF step_commit(3)] show ?thesis
  proof
    assume "\<not> has_published r \<and> store' = cw_store w"
    with step_commit(1) store_inv_forget [OF assms(2), of p] show ?thesis by simp
  qed (use store_inv_publish [OF assms(2) step_commit(2)] step_commit(1) in auto)
next
  case (step_foreign p io r store')
  then have "store' = cw_store w" using store_commit_cases [OF step_foreign(3)] by auto
  with step_foreign(1) assms(2) show ?thesis by simp
next
  case (step_drop p)
  with store_inv_forget [OF assms(2), of p] show ?thesis by simp
qed

interpretation config_runs: safe_system "config_initial pf" "config_step pf"
  "\<lambda>w. uuid_text_printable pf \<longrightarrow> store_inv pf w" for pf
  by unfold_locales (blast intro: store_inv_initial store_inv_step)+

lemma config_runs_inv:
  "uuid_text_printable pf \<Longrightarrow> reachable (config_initial pf) (config_step pf) w \<Longrightarrow> store_inv pf w"
  using config_runs.reachable_inv [of pf w] by blast

text \<open>A run: open a document, and replace its label once.\<close>

definition demo_words :: platform where
  "demo_words = demo_platform\<lparr>pf_uuid_text := \<lambda>_. ''uuid''\<rparr>"

lemma demo_words_printable: "uuid_text_printable demo_words"
  by (simp add: demo_words_def uuid_text_printable_def valid_alpaca_id_def byte_in_def)

definition demo_opened :: config_store where
  "demo_opened = \<lparr>cst_identity = 1, cst_persisted = True, cst_current = empty_config 90 91, cst_file = None\<rparr>"

definition demo_renamed :: hub_config where
  "demo_renamed = (empty_config 90 91)\<lparr>hc_sources := [demo_source 5 (BkSimulated DtFocuser)]\<rparr>"

definition demo_staging :: staging where
  "demo_staging = \<lparr>stg_temp_error = None, stg_document = Inr 300, stg_write_error = None\<rparr>"

definition demo_publication :: publication where
  "demo_publication = \<lparr>pbl_persist_error = None, pbl_durability_error = None\<rparr>"

definition demo_next :: hub_config where
  "demo_next = demo_renamed\<lparr>hc_identities := empty_ledger\<lparr>led_sources := [(5, ''simulation:Focuser:uuid'')]\<rparr>,
     hc_revision := 92\<rparr>"

definition demo_prepared :: prepared_config where
  "demo_prepared = \<lparr>pre_store = 1, pre_expected = 90, pre_next = demo_next, pre_staged = True\<rparr>"

definition demo_world :: config_world where
  "demo_world = \<lparr>cw_store = demo_opened\<lparr>cst_current := demo_next, cst_file := Some demo_next\<rparr>, cw_prepared = [],
     cw_published = [(90, demo_next), (0, empty_config 90 91)], cw_drawn = {92, 90}\<rparr>"

lemmas demo_document_simps = config_validate_def header_errors_def too_large_def empty_config_def empty_ledger_def
  schema_version_def max_devices_def bt_values_def

lemma demo_open: "store_new demo_words 1 True None (empty_config 90 91) = Inr demo_opened"
  by (simp add: store_new_def register_identities_def ledger_entries_def demo_opened_def demo_document_simps
      dependency_cycle_def config_edges_def bt_of_list_def)

lemma demo_renamed_accepted: "config_validate demo_words demo_renamed = []"
  by (simp add: demo_renamed_def demo_document_simps dependency_cycle_def config_edges_def bt_of_list_def visit.simps
      check_source_def check_backend_def Let_def claim_id_def report_def prefixed_def demo_record_fields
      default_poll_policy_valid)

lemma demo_registers:
  "register_identities demo_words demo_renamed empty_ledger = ([], empty_ledger\<lparr>led_sources := [(5, ''simulation:Focuser:uuid'')]\<rparr>)"
  by (simp add: register_identities_def ledger_entries_def source_entries_def source_identity_def source_pin_def
      demo_renamed_def empty_config_def demo_record_fields register_entry_def refused.simps record_entry.simps
      empty_ledger_def bt_contains_def some_and_def demo_words_def)

lemma demo_prepares: "store_prepare demo_words demo_opened 90 demo_renamed False 92 demo_staging = Inr demo_prepared"
proof -
  have fields: "hc_identities demo_renamed = empty_ledger" "hc_revision demo_renamed = 90" "hc_instance_id demo_renamed = 91"
    by (simp_all add: demo_renamed_def empty_config_def)
  show ?thesis
    by (simp add: store_prepare_def demo_renamed_accepted demo_registers fields demo_opened_def empty_config_def
        and_then_def stage_document_def demo_staging_def max_config_bytes_def demo_prepared_def demo_next_def report_def)
qed

lemma demo_world_reached: "reachable (config_initial demo_words) (config_step demo_words) demo_world"
proof -
  let ?w0 = "\<lparr>cw_store = demo_opened, cw_prepared = [], cw_published = [(0, empty_config 90 91)], cw_drawn = {90}\<rparr>"
  let ?w1 = "?w0\<lparr>cw_prepared := [demo_prepared], cw_drawn := {92, 90}\<rparr>"
  have "ledger_wf (hc_identities (empty_config 90 91))" by (simp add: empty_config_def empty_ledger_def ledger_wf_def)
  with demo_open have "config_initial demo_words ?w0"
    unfolding config_initial_def by (intro conjI exI) (assumption | simp add: demo_opened_def empty_config_def)+
  moreover have "config_step demo_words ?w0 ?w1"
    using step_prepare [of demo_words ?w0 90 demo_renamed False 92 demo_staging demo_prepared] demo_prepares by simp
  moreover have "config_step demo_words ?w1 demo_world"
    using step_commit [of demo_prepared ?w1 demo_publication "Inr demo_next"
        "demo_opened\<lparr>cst_current := demo_next, cst_file := Some demo_next\<rparr>" demo_words]
    by (simp add: store_commit_def demo_prepared_def demo_opened_def empty_config_def demo_publication_def
        has_published_def demo_world_def)
  ultimately show ?thesis by (blast intro: reachable.intros)
qed

section \<open>What the store guarantees\<close>

text \<open>
  C7: The identities of a hub never change their meaning: of any two documents a store published, the
  later one uses no identifier of the earlier for a different source, output, channel or group, gives
  no retired output or channel number to another device, and keeps the instance identity.
\<close>

theorem identities_keep_their_meaning:
  assumes "uuid_text_printable pf" "reachable (config_initial pf) (config_step pf) w"
    and "i < j" "j < length (cw_published w)"
  shows "hc_instance_id (snd (cw_published w ! i)) = hc_instance_id (snd (cw_published w ! j))
    \<and> (\<forall>earlier \<in> set (ledger_entries pf (snd (cw_published w ! j))).
         \<forall>later \<in> set (ledger_entries pf (snd (cw_published w ! i))). same_identity earlier later)"
proof -
  have "sorted_wrt (consistent pf) (cw_published w)"
    using config_runs_inv [OF assms(1, 2)] by (simp add: store_inv_def)
  from sorted_wrt_nth_less [OF this assms(3, 4)] show ?thesis by (simp add: consistent_def)
qed

theorem identities_keep_their_meaning_witness:
  "list_all (\<lambda>earlier. list_all (same_identity earlier) (ledger_entries demo_words (snd (cw_published demo_world ! 0))))
     (ledger_entries demo_words (snd (cw_published demo_world ! 1)))"
  using identities_keep_their_meaning [OF demo_words_printable demo_world_reached, of 0 1]
  by (simp add: demo_world_def list_all_iff)

lemma consistent_distinct: "sorted_wrt (consistent pf) ps \<Longrightarrow> distinct (map (\<lambda>p. hc_revision (snd p)) ps)"
  by (induction ps) (auto simp: consistent_def)

text \<open>
  C8: No update is lost: every document a store publishes replaces exactly the document whose revision
  the update named, and no two published documents have the same revision, so that of several updates
  prepared from one revision at most one takes effect.
\<close>

theorem updates_are_never_lost:
  assumes "uuid_text_printable pf" "reachable (config_initial pf) (config_step pf) w"
  shows "chained (cw_published w) \<and> distinct (map (\<lambda>p. hc_revision (snd p)) (cw_published w))
    \<and> snd (hd (cw_published w)) = cst_current (cw_store w)"
  using config_runs_inv [OF assms] consistent_distinct unfolding store_inv_def by blast

theorem updates_are_never_lost_witness: "chained (cw_published demo_world)"
  using updates_are_never_lost [OF demo_words_printable demo_world_reached] by blast

text \<open>
  C26: What a store keeps can be opened again: the current document passes every check it was admitted
  by, its own ledger included, and opening it gives back the same document; after an update the file
  holds it.
\<close>

theorem kept_configuration_reopens:
  assumes "uuid_text_printable pf" "reachable (config_initial pf) (config_step pf) w"
  shows "store_new pf identity persisted file (cst_current (cw_store w))
      = Inr \<lparr>cst_identity = identity, cst_persisted = persisted, cst_current = cst_current (cw_store w), cst_file = file\<rparr>
    \<and> (cst_persisted (cw_store w) \<and> 2 \<le> length (cw_published w)
        \<longrightarrow> cst_file (cw_store w) = Some (cst_current (cw_store w)))"
proof -
  have inv: "store_inv pf w" by (rule config_runs_inv [OF assms])
  have "2 \<le> length (cw_published w) \<Longrightarrow> tl (cw_published w) \<noteq> []" by (cases "cw_published w") auto
  with inv show ?thesis by (auto simp: store_inv_def kept_def store_new_def)
qed

theorem kept_configuration_reopens_witness:
  "\<exists>store. store_new demo_words 7 True None demo_next = Inr store \<and> cst_current store = demo_next"
  using kept_configuration_reopens [OF demo_words_printable demo_world_reached, of 7 True None]
  by (simp add: demo_world_def)

end
