(* ===== verification/Camera_Group.thy ===== *)
theory Camera_Group imports Hub_Data Reachability begin

text \<open>
  Coordinated camera bursts, \<open>crates/regain-hub/src/coordination/camera.rs\<close>: the admission of a burst and
  the task that prepares every camera, checks all of them again, starts all exposures, and follows
  them until the group is done, cancelled or out of time.

  The sessions of the cameras (\<open>camera/acquisition.rs\<close>) are the environment. The task is a system of
  steps: at every point where it waits, one step for each way the wait can end. Of the futures that are
  pending any may complete next, with any result; while one is ready the task takes it first
  (\<open>tokio::select!\<close> is biased), but when a future becomes ready is up to the environment. What the task
  asks of the sessions, and gets an answer to, is recorded in \<open>cb_trace\<close>. The lock that admits one burst at a time is the
  argument \<open>active\<close> of \<open>burst_start\<close>. Of an image its identity is kept; the pixels, the geometry and the
  metadata of the exposure are not. The parts of a group that observers hold (status, image, guard)
  are functions of the report.
\<close>

section \<open>Reports\<close>

record exposure_request =
  ex_duration_seconds :: f64
  ex_light :: bool

record camera_member_request =
  cq_source :: nat
  cq_exposure :: exposure_request
  cq_require_scalar_image :: bool

datatype camera_member_phase = CmNotStarted | CmPrepared | CmStarting | CmExposing | CmAborting | CmComplete
  | CmRejected | CmFailed | CmUncertain | CmAborted

datatype camera_group_phase = CgPreflight | CgCapturing | CgComplete | CgPreflightFailed | CgPartialFailure
  | CgCancelled | CgDeadline

definition camera_group_terminal :: "camera_group_phase \<Rightarrow> bool" where
  "camera_group_terminal p \<longleftrightarrow> p \<notin> {CgPreflight, CgCapturing}"

record image_identity =
  im_source :: nat
  im_generation :: nat
  im_acquisition :: nat

record camera_member_result =
  cm_source :: nat
  cm_generation :: nat
  cm_request :: exposure_request
  cm_require_scalar_image :: bool
  cm_capture_profile :: "nat option"
  cm_acquisition :: "nat option"
  cm_phase :: camera_member_phase
  cm_dispatch_seconds :: "rat option"
  cm_acknowledgement_seconds :: "rat option"
  cm_image :: "image_identity option"
  cm_error :: "source_error option"
  cm_abort_error :: "source_error option"

record camera_group_result =
  cr_operation :: nat
  cr_group :: nat
  cr_sequence :: nat
  cr_phase :: camera_group_phase
  cr_start_skew_seconds :: "rat option"
  cr_members :: "camera_member_result list"

text \<open>The session of a camera, as far as admission looks at it.\<close>

record camera_session_id =
  cs_source :: nat
  cs_generation :: nat

definition camera_group_new :: "camera_group_config \<Rightarrow> camera_session_id list \<Rightarrow> source_error + unit" where
  "camera_group_new g cs =
     and_then (camera_group_validate g) (\<lambda>_.
     ensure (length cs = length (cg_members g) \<and> map cs_source cs = cg_members g)
       (invalid_value ''Camera group sessions do not match physical sources''))"

definition burst_start :: "bool \<Rightarrow> camera_group_config \<Rightarrow> camera_session_id list \<Rightarrow> camera_member_request list \<Rightarrow> nat
    \<Rightarrow> source_error + camera_group_result" where
  "burst_start active g cs requests operation =
     and_then (ensure (length requests = length cs
        \<and> list_all (\<lambda>(r, i). cq_source r = i) (zip requests (cg_members g)))
       (invalid_value ''Camera requests do not match configured members'')) (\<lambda>_.
     and_then (ensure (list_all (\<lambda>r. f64_finite (ex_duration_seconds (cq_exposure r))
          \<and> \<not> f64_lt (ex_duration_seconds (cq_exposure r)) (Fin 0)) requests)
       (invalid_value ''Invalid camera exposure duration'')) (\<lambda>_.
     and_then (ensure (\<not> active) (source_error_new KBusy ''Camera group operation is already active'')) (\<lambda>_.
     Inr \<lparr>cr_operation = operation, cr_group = cg_id g, cr_sequence = 1, cr_phase = CgPreflight,
       cr_start_skew_seconds = None,
       cr_members = map (\<lambda>(c, r). \<lparr>cm_source = cq_source r, cm_generation = cs_generation c,
         cm_request = cq_exposure r, cm_require_scalar_image = cq_require_scalar_image r,
         cm_capture_profile = None, cm_acquisition = None, cm_phase = CmNotStarted,
         cm_dispatch_seconds = None, cm_acknowledgement_seconds = None, cm_image = None,
         cm_error = None, cm_abort_error = None\<rparr>) (zip cs requests)\<rparr>)))"

section \<open>The state of the task\<close>

datatype burst_action = AcPrepare nat | AcRecheck nat bool | AcRelease nat | AcDispatch nat nat | AcAbort nat nat

datatype burst_point = Preparing nat | Rechecking nat | Dispatching | Capturing | Ended

datatype burst_future = PendingStart nat | PendingImage nat | PendingAbort nat

record burst =
  cb_report :: camera_group_result
  cb_published :: "camera_group_result list"
  cb_point :: burst_point
  cb_plans :: "nat list"
  cb_events :: "burst_future list"
  cb_starts_pending :: nat
  cb_aborts_pending :: nat
  cb_abort_requested :: "bool list"
  cb_pending_images :: "bool list"
  cb_stop :: "camera_group_phase option"
  cb_deadline_hit :: bool
  cb_failure :: bool
  cb_images :: "image_identity option list"
  cb_trace :: "burst_action list"

definition burst_new :: "camera_group_result \<Rightarrow> burst" where
  "burst_new r = (let n = length (cr_members r) in
     \<lparr>cb_report = r, cb_published = [r], cb_point = Preparing 0, cb_plans = [], cb_events = [],
      cb_starts_pending = n, cb_aborts_pending = 0, cb_abort_requested = replicate n False,
      cb_pending_images = replicate n False, cb_stop = None, cb_deadline_hit = False, cb_failure = False,
      cb_images = replicate n None, cb_trace = []\<rparr>)"

definition member :: "burst \<Rightarrow> nat \<Rightarrow> camera_member_result" where
  "member b i = cr_members (cb_report b) ! i"

definition edit_camera :: "nat \<Rightarrow> (camera_member_result \<Rightarrow> camera_member_result) \<Rightarrow> burst \<Rightarrow> burst" where
  "edit_camera i f b = b\<lparr>cb_report := (cb_report b)\<lparr>cr_members := (cr_members (cb_report b))[i := f (member b i)]\<rparr>\<rparr>"

definition burst_phase :: "camera_group_phase \<Rightarrow> burst \<Rightarrow> burst" where
  "burst_phase p b = b\<lparr>cb_report := (cb_report b)\<lparr>cr_phase := p\<rparr>\<rparr>"

definition burst_emit :: "burst \<Rightarrow> burst" where
  "burst_emit b = (let r = (cb_report b)\<lparr>cr_sequence := cr_sequence (cb_report b) + 1\<rparr> in
     b\<lparr>cb_report := r, cb_published := cb_published b @ [r]\<rparr>)"

definition act :: "burst_action list \<Rightarrow> burst \<Rightarrow> burst" where
  "act as b = b\<lparr>cb_trace := cb_trace b @ as\<rparr>"

definition reject_camera :: "source_error \<Rightarrow> camera_member_result \<Rightarrow> camera_member_result" where
  "reject_camera e m = m\<lparr>cm_phase := CmRejected, cm_error := Some e\<rparr>"

definition fail_camera :: "source_error \<Rightarrow> camera_member_result \<Rightarrow> camera_member_result" where
  "fail_camera e m = m\<lparr>cm_phase := (if so_kind e = KUncertain \<or> so_transport_lost e then CmUncertain else CmFailed),
     cm_error := Some e\<rparr>"

section \<open>Preflight\<close>

text \<open>\<open>release\<close>: every reservation is given back; the results are those of the sessions.\<close>

fun release_from :: "nat \<Rightarrow> source_error option list \<Rightarrow> burst \<Rightarrow> burst" where
  "release_from i [] b = b"
| "release_from i (r # rs) b = release_from (Suc i) rs (act [AcRelease i]
     (case r of
        Some e \<Rightarrow> edit_camera i (fail_camera e) b
      | None \<Rightarrow> if cm_phase (member b i) = CmPrepared
          then edit_camera i (\<lambda>m. m\<lparr>cm_phase := CmNotStarted\<rparr>) b else b))"

text \<open>The end of a failed preflight: report it, release what is reserved, publish.\<close>

definition abandon :: "camera_group_phase \<Rightarrow> source_error option list \<Rightarrow> burst \<Rightarrow> burst" where
  "abandon p released b = (burst_emit (release_from 0 released (burst_phase p b)))\<lparr>cb_point := Ended\<rparr>"

definition prepared_camera :: "nat \<Rightarrow> nat option \<Rightarrow> nat \<Rightarrow> burst \<Rightarrow> burst" where
  "prepared_camera i profile plan b =
     (burst_emit (edit_camera i (\<lambda>m. m\<lparr>cm_capture_profile := profile, cm_phase := CmPrepared\<rparr>) (act [AcPrepare i] b)))
       \<lparr>cb_plans := cb_plans b @ [plan],
        cb_point := (if Suc i < length (cr_members (cb_report b)) then Preparing (Suc i) else Rechecking 0)\<rparr>"

definition rechecked_camera :: "camera_group_config \<Rightarrow> nat \<Rightarrow> burst \<Rightarrow> burst" where
  "rechecked_camera g i b = (act [AcRecheck i (requires_abort g)] b)
     \<lparr>cb_point := (if Suc i < length (cr_members (cb_report b)) then Rechecking (Suc i) else Dispatching)\<rparr>"

section \<open>The burst\<close>

definition dispatch_camera :: "nat \<Rightarrow> burst \<Rightarrow> burst" where
  "dispatch_camera i b = (act [AcDispatch i (cb_plans b ! i)]
     (edit_camera i (\<lambda>m. m\<lparr>cm_acquisition := Some (cb_plans b ! i), cm_phase := CmStarting\<rparr>) b))
       \<lparr>cb_events := cb_events b @ [PendingStart i]\<rparr>"

definition dispatch_cameras :: "burst \<Rightarrow> burst" where
  "dispatch_cameras b =
     (burst_emit (burst_phase CgCapturing (fold dispatch_camera [0..<length (cr_members (cb_report b))] b)))
       \<lparr>cb_point := Capturing\<rparr>"

definition abort_now :: "camera_group_config \<Rightarrow> burst \<Rightarrow> bool" where
  "abort_now g b \<longleftrightarrow> cb_failure b \<and> cg_failure_policy g = AbortStartedOnFailure
     \<or> cb_stop b \<noteq> None \<and> cg_cancellation_policy g = AbortStartedOnCancellation"

definition request_abort :: "nat \<Rightarrow> burst \<Rightarrow> burst" where
  "request_abort i b =
     (if cm_phase (member b i) = CmExposing \<and> \<not> cb_abort_requested b ! i
      then (act [AcAbort i (the (cm_acquisition (member b i)))] (edit_camera i (\<lambda>m. m\<lparr>cm_phase := CmAborting\<rparr>) b))
        \<lparr>cb_abort_requested := (cb_abort_requested b)[i := True], cb_aborts_pending := cb_aborts_pending b + 1,
         cb_events := cb_events b @ [PendingAbort i]\<rparr>
      else b)"

text \<open>The head of a round: aborts that are due.\<close>

definition round_head :: "camera_group_config \<Rightarrow> burst \<Rightarrow> burst" where
  "round_head g b =
     (if abort_now g b then burst_emit (fold request_abort [0..<length (cr_members (cb_report b))] b) else b)"

definition finishing :: "camera_group_config \<Rightarrow> burst \<Rightarrow> bool" where
  "finishing g b \<longleftrightarrow> cb_starts_pending b = 0 \<and> cb_aborts_pending b = 0 \<and> (cb_stop b \<noteq> None \<or> abort_now g b)
     \<and> (\<not> abort_now g b \<or> \<not> list_ex (\<lambda>p. p) (cb_pending_images b) \<or> cb_deadline_hit b)"

text \<open>What arrives: a start receipt (or its loss), an image, the outcome of an abort.\<close>

record start_receipt =
  rc_dispatched :: rat
  rc_acknowledged :: rat
  rc_result :: "source_error + nat"

definition started_ok :: "camera_member_result \<Rightarrow> source_error + start_receipt \<Rightarrow> bool" where
  "started_ok m r = (case r of Inr c \<Rightarrow> (case rc_result c of Inr i \<Rightarrow> Some i = cm_acquisition m | Inl _ \<Rightarrow> False) | Inl _ \<Rightarrow> False)"

definition start_error :: "source_error + start_receipt \<Rightarrow> source_error" where
  "start_error r = (case r of Inl e \<Rightarrow> e | Inr c \<Rightarrow> (case rc_result c of Inl e \<Rightarrow> e | Inr _ \<Rightarrow> source_uncertain))"

definition note_receipt :: "source_error + start_receipt \<Rightarrow> camera_member_result \<Rightarrow> camera_member_result" where
  "note_receipt r m = (case r of
       Inr c \<Rightarrow> m\<lparr>cm_dispatch_seconds := Some (rc_dispatched c), cm_acknowledgement_seconds := Some (rc_acknowledged c)\<rparr>
     | Inl _ \<Rightarrow> m)"

definition spread :: "rat list \<Rightarrow> rat" where
  "spread ts = (case ts of [] \<Rightarrow> 0 | t # ts \<Rightarrow> f64_round (fold max ts t - fold min ts t))"

definition note_skew :: "burst \<Rightarrow> burst" where
  "note_skew b =
     (let ms = cr_members (cb_report b) in
      if cb_starts_pending b = 0 \<and> list_all (\<lambda>m. cm_dispatch_seconds m \<noteq> None) ms
      then b\<lparr>cb_report := (cb_report b)\<lparr>cr_start_skew_seconds := Some (spread (List.map_filter cm_dispatch_seconds ms))\<rparr>\<rparr>
      else b)"

definition on_start :: "nat \<Rightarrow> source_error + start_receipt \<Rightarrow> burst \<Rightarrow> burst" where
  "on_start i r b =
     (let b = edit_camera i (note_receipt r) (b\<lparr>cb_starts_pending := cb_starts_pending b - 1\<rparr>) in
      note_skew
       (if started_ok (member b i) r
        then (edit_camera i (\<lambda>m. m\<lparr>cm_phase := CmExposing\<rparr>) b)
          \<lparr>cb_pending_images := (cb_pending_images b)[i := True], cb_events := cb_events b @ [PendingImage i]\<rparr>
        else (edit_camera i (fail_camera (start_error r)) b)\<lparr>cb_failure := True\<rparr>))"

definition own_image :: "camera_member_result \<Rightarrow> image_identity \<Rightarrow> bool" where
  "own_image m im \<longleftrightarrow> im_source im = cm_source m \<and> im_generation im = cm_generation m
     \<and> Some (im_acquisition im) = cm_acquisition m"

definition on_image :: "nat \<Rightarrow> source_error + image_identity \<Rightarrow> burst \<Rightarrow> burst" where
  "on_image i r b =
     (let b = b\<lparr>cb_pending_images := (cb_pending_images b)[i := False]\<rparr>; m = member b i in
      case r of
        Inr im \<Rightarrow>
          if own_image m im
          then (edit_camera i (\<lambda>m. m\<lparr>cm_image := Some im, cm_phase := CmComplete, cm_error := None\<rparr>) b)
            \<lparr>cb_images := (cb_images b)[i := Some im]\<rparr>
          else if cm_phase m \<in> {CmAborting, CmAborted} then b
          else (edit_camera i (\<lambda>m. m\<lparr>cm_phase := CmUncertain, cm_error := Some source_uncertain\<rparr>) b)\<lparr>cb_failure := True\<rparr>
      | Inl e \<Rightarrow>
          if cm_phase m \<in> {CmAborting, CmAborted} then b
          else (edit_camera i (\<lambda>m. m\<lparr>cm_phase := CmUncertain, cm_error := Some e\<rparr>) b)\<lparr>cb_failure := True\<rparr>)"

definition on_abort :: "nat \<Rightarrow> source_error + unit \<Rightarrow> burst \<Rightarrow> burst" where
  "on_abort i r b =
     (let b = b\<lparr>cb_aborts_pending := cb_aborts_pending b - 1\<rparr>; complete = (cm_phase (member b i) = CmComplete) in
      case r of
        Inr _ \<Rightarrow>
          if complete then b
          else (edit_camera i (\<lambda>m. m\<lparr>cm_phase := CmAborted\<rparr>) b)\<lparr>cb_pending_images := (cb_pending_images b)[i := False]\<rparr>
      | Inl e \<Rightarrow>
          edit_camera i (\<lambda>m. m\<lparr>cm_abort_error := Some e, cm_phase := (if complete then cm_phase m else CmUncertain)\<rparr>) b)"

definition burst_end :: "camera_group_phase option \<Rightarrow> burst \<Rightarrow> burst" where
  "burst_end last_word b =
     (burst_emit (burst_phase (case last_word of Some p \<Rightarrow> p | None \<Rightarrow>
       (case cb_stop b of Some p \<Rightarrow> p | None \<Rightarrow>
         if list_all (\<lambda>m. cm_phase m = CmComplete) (cr_members (cb_report b)) then CgComplete else CgPartialFailure)) b))
       \<lparr>cb_point := Ended\<rparr>"

section \<open>Steps\<close>

text \<open>The phase of an interruption: cancellation, or the deadline.\<close>

definition interruption_phase :: "camera_group_phase \<Rightarrow> bool" where
  "interruption_phase p \<longleftrightarrow> p = CgCancelled \<or> p = CgDeadline"

definition taken :: "burst_future \<Rightarrow> burst \<Rightarrow> burst" where
  "taken e b = b\<lparr>cb_events := remove1 e (cb_events b)\<rparr>"

inductive burst_step :: "camera_group_config \<Rightarrow> burst \<Rightarrow> burst \<Rightarrow> bool" for g where
  prepare_ok: "cb_point b = Preparing i \<Longrightarrow> burst_step g b (prepared_camera i profile plan b)"
| prepare_refused: "cb_point b = Preparing i \<Longrightarrow> length released = i \<Longrightarrow>
    burst_step g b (abandon CgPreflightFailed released (edit_camera i (reject_camera e) (act [AcPrepare i] b)))"
| prepare_interrupted: "cb_point b = Preparing i \<Longrightarrow> length released = i \<Longrightarrow> interruption_phase p \<Longrightarrow>
    burst_step g b (abandon p released b)"
| recheck_ok: "cb_point b = Rechecking i \<Longrightarrow> burst_step g b (rechecked_camera g i b)"
| recheck_refused: "cb_point b = Rechecking i \<Longrightarrow> length released = length (cr_members (cb_report b)) \<Longrightarrow>
    burst_step g b (abandon CgPreflightFailed released
      (edit_camera i (reject_camera e) (act [AcRecheck i (requires_abort g)] b)))"
| recheck_interrupted: "cb_point b = Rechecking i \<Longrightarrow> length released = length (cr_members (cb_report b))
    \<Longrightarrow> interruption_phase p \<Longrightarrow> burst_step g b (abandon p released b)"
| dispatch_interrupted: "cb_point b = Dispatching \<Longrightarrow> length released = length (cr_members (cb_report b))
    \<Longrightarrow> interruption_phase p \<Longrightarrow> burst_step g b (abandon p released b)"
| dispatch_all: "cb_point b = Dispatching \<Longrightarrow> burst_step g b (dispatch_cameras b)"
| event_start: "cb_point b = Capturing \<Longrightarrow> h = round_head g b \<Longrightarrow> PendingStart i \<in> set (cb_events h) \<Longrightarrow>
    burst_step g b (burst_emit (on_start i r (taken (PendingStart i) h)))"
| event_image: "cb_point b = Capturing \<Longrightarrow> h = round_head g b \<Longrightarrow> PendingImage i \<in> set (cb_events h) \<Longrightarrow>
    burst_step g b (burst_emit (on_image i im (taken (PendingImage i) h)))"
| event_abort: "cb_point b = Capturing \<Longrightarrow> h = round_head g b \<Longrightarrow> PendingAbort i \<in> set (cb_events h) \<Longrightarrow>
    burst_step g b (burst_emit (on_abort i a (taken (PendingAbort i) h)))"
| cancelled: "cb_point b = Capturing \<Longrightarrow> h = round_head g b \<Longrightarrow> \<not> finishing g h \<Longrightarrow> cb_events h \<noteq> [] \<Longrightarrow>
    cb_stop h = None \<Longrightarrow> burst_step g b (h\<lparr>cb_stop := Some CgCancelled\<rparr>)"
| deadline_passed: "cb_point b = Capturing \<Longrightarrow> h = round_head g b \<Longrightarrow> \<not> finishing g h \<Longrightarrow> cb_events h \<noteq> [] \<Longrightarrow>
    \<not> cb_deadline_hit h \<Longrightarrow> burst_step g b (h\<lparr>cb_deadline_hit := True,
      cb_stop := (if cb_stop h = None then Some CgDeadline else cb_stop h)\<rparr>)"
| burst_over: "cb_point b = Capturing \<Longrightarrow> h = round_head g b \<Longrightarrow> finishing g h \<or> cb_events h = [] \<Longrightarrow>
    last_word \<in> {None, Some CgCancelled, Some CgDeadline} \<Longrightarrow>
    burst_step g b (burst_end last_word h)"

section \<open>What observers hold\<close>

definition operation_image :: "burst \<Rightarrow> nat \<Rightarrow> source_error + image_identity" where
  "operation_image b source =
     and_then (ok_or (find (\<lambda>i. cm_source (member b i) = source) [0..<length (cr_members (cb_report b))])
       (invalid_value ''Camera is not a member of this operation'')) (\<lambda>i.
     ok_or (cb_images b ! i) (source_error_new KUnavailable ''Group image is not available''))"

text \<open>\<open>GroupTaskGuard::drop\<close>: a task that vanished leaves no member in doubt unmarked.\<close>

definition guard_dropped :: "camera_group_result \<Rightarrow> camera_group_result" where
  "guard_dropped r =
     (if camera_group_terminal (cr_phase r) then r
      else r\<lparr>cr_members := map (\<lambda>m. if cm_phase m \<in> {CmComplete, CmAborted, CmRejected, CmFailed, CmUncertain} then m
          else m\<lparr>cm_phase := CmUncertain, cm_error := Some source_uncertain\<rparr>) (cr_members r),
        cr_phase := CgPartialFailure, cr_sequence := cr_sequence r + 1\<rparr>)"

end
