(* ===== verification/Camera_Flight.thy ===== *)
theory Camera_Flight imports Camera_Group begin

text \<open>
  Facts on the operations of a camera burst: what each does to the members and fields of the state, and
  that phases, flags and pending futures stay in step while cameras are in flight (\<open>flight\<close>).
\<close>

section \<open>Members\<close>

abbreviation camera_count :: "burst \<Rightarrow> nat" where
  "camera_count b \<equiv> length (cr_members (cb_report b))"

lemma member_edit: "j < camera_count b \<Longrightarrow> member (edit_camera i f b) j = (if j = i then f (member b i) else member b j)"
  by (simp add: member_def edit_camera_def nth_list_update)

lemma member_simps [simp]:
  "member (act as b) = member b" "member (burst_emit b) = member b" "member (burst_phase p b) = member b"
  "member (taken e b) = member b" "member (b\<lparr>cb_point := x1\<rparr>) = member b" "member (b\<lparr>cb_plans := x2\<rparr>) = member b"
  "member (b\<lparr>cb_events := x3\<rparr>) = member b" "member (b\<lparr>cb_starts_pending := x4\<rparr>) = member b"
  "member (b\<lparr>cb_aborts_pending := x5\<rparr>) = member b" "member (b\<lparr>cb_abort_requested := x6\<rparr>) = member b"
  "member (b\<lparr>cb_pending_images := x7\<rparr>) = member b" "member (b\<lparr>cb_stop := x8\<rparr>) = member b"
  "member (b\<lparr>cb_deadline_hit := x9\<rparr>) = member b" "member (b\<lparr>cb_failure := x10\<rparr>) = member b"
  "member (b\<lparr>cb_images := x11\<rparr>) = member b"
  by (simp_all add: member_def fun_eq_iff act_def burst_emit_def burst_phase_def taken_def Let_def)

lemma members_nth: "i < camera_count b \<Longrightarrow> cr_members (cb_report b) ! i = member b i"
  by (simp add: member_def)

lemma edit_selectors [simp]:
  "cb_published (edit_camera i f b) = cb_published b" "cb_point (edit_camera i f b) = cb_point b"
  "cb_plans (edit_camera i f b) = cb_plans b" "cb_events (edit_camera i f b) = cb_events b"
  "cb_starts_pending (edit_camera i f b) = cb_starts_pending b"
  "cb_aborts_pending (edit_camera i f b) = cb_aborts_pending b"
  "cb_abort_requested (edit_camera i f b) = cb_abort_requested b"
  "cb_pending_images (edit_camera i f b) = cb_pending_images b" "cb_stop (edit_camera i f b) = cb_stop b"
  "cb_deadline_hit (edit_camera i f b) = cb_deadline_hit b" "cb_failure (edit_camera i f b) = cb_failure b"
  "cb_images (edit_camera i f b) = cb_images b" "cb_trace (edit_camera i f b) = cb_trace b"
  "camera_count (edit_camera i f b) = camera_count b"
  "cr_phase (cb_report (edit_camera i f b)) = cr_phase (cb_report b)"
  by (simp_all add: edit_camera_def)

lemma act_selectors [simp]:
  "cb_published (act as b) = cb_published b" "cb_point (act as b) = cb_point b"
  "cb_plans (act as b) = cb_plans b" "cb_events (act as b) = cb_events b"
  "cb_starts_pending (act as b) = cb_starts_pending b" "cb_aborts_pending (act as b) = cb_aborts_pending b"
  "cb_abort_requested (act as b) = cb_abort_requested b" "cb_pending_images (act as b) = cb_pending_images b"
  "cb_stop (act as b) = cb_stop b" "cb_deadline_hit (act as b) = cb_deadline_hit b"
  "cb_failure (act as b) = cb_failure b" "cb_images (act as b) = cb_images b"
  "cb_trace (act as b) = cb_trace b @ as" "cb_report (act as b) = cb_report b"
  by (simp_all add: act_def)

lemma emit_selectors [simp]:
  "cb_point (burst_emit b) = cb_point b" "cb_plans (burst_emit b) = cb_plans b" "cb_events (burst_emit b) = cb_events b"
  "cb_starts_pending (burst_emit b) = cb_starts_pending b" "cb_aborts_pending (burst_emit b) = cb_aborts_pending b"
  "cb_abort_requested (burst_emit b) = cb_abort_requested b" "cb_pending_images (burst_emit b) = cb_pending_images b"
  "cb_stop (burst_emit b) = cb_stop b" "cb_deadline_hit (burst_emit b) = cb_deadline_hit b"
  "cb_failure (burst_emit b) = cb_failure b" "cb_images (burst_emit b) = cb_images b"
  "cb_trace (burst_emit b) = cb_trace b" "cr_members (cb_report (burst_emit b)) = cr_members (cb_report b)"
  "cr_phase (cb_report (burst_emit b)) = cr_phase (cb_report b)"
  by (simp_all add: burst_emit_def Let_def)

lemma phase_selectors [simp]:
  "cb_published (burst_phase p b) = cb_published b" "cb_plans (burst_phase p b) = cb_plans b"
  "cb_events (burst_phase p b) = cb_events b" "cb_point (burst_phase p b) = cb_point b"
  "cb_starts_pending (burst_phase p b) = cb_starts_pending b" "cb_aborts_pending (burst_phase p b) = cb_aborts_pending b"
  "cb_abort_requested (burst_phase p b) = cb_abort_requested b" "cb_pending_images (burst_phase p b) = cb_pending_images b"
  "cb_stop (burst_phase p b) = cb_stop b" "cb_deadline_hit (burst_phase p b) = cb_deadline_hit b"
  "cb_failure (burst_phase p b) = cb_failure b" "cb_images (burst_phase p b) = cb_images b"
  "cb_trace (burst_phase p b) = cb_trace b" "cr_members (cb_report (burst_phase p b)) = cr_members (cb_report b)"
  "cr_phase (cb_report (burst_phase p b)) = p"
  by (simp_all add: burst_phase_def)

lemma taken_selectors [simp]:
  "cb_published (taken e b) = cb_published b" "cb_point (taken e b) = cb_point b" "cb_plans (taken e b) = cb_plans b"
  "cb_events (taken e b) = remove1 e (cb_events b)" "cb_report (taken e b) = cb_report b"
  "cb_starts_pending (taken e b) = cb_starts_pending b" "cb_aborts_pending (taken e b) = cb_aborts_pending b"
  "cb_abort_requested (taken e b) = cb_abort_requested b" "cb_pending_images (taken e b) = cb_pending_images b"
  "cb_stop (taken e b) = cb_stop b" "cb_deadline_hit (taken e b) = cb_deadline_hit b"
  "cb_failure (taken e b) = cb_failure b" "cb_images (taken e b) = cb_images b" "cb_trace (taken e b) = cb_trace b"
  by (simp_all add: taken_def)

section \<open>Cameras in flight\<close>

text \<open>
  How the phase of a camera, the flags of the task and the pending futures hang together while the
  burst runs: whether an abort was requested, an image is awaited, and which futures are pending.
\<close>

definition cell_ok :: "camera_member_phase \<Rightarrow> bool \<Rightarrow> bool \<Rightarrow> bool \<Rightarrow> bool \<Rightarrow> bool \<Rightarrow> bool" where
  "cell_ok ph requested awaited s im ab \<longleftrightarrow>
     (s \<longleftrightarrow> ph = CmStarting) \<and> (s \<longrightarrow> \<not> requested \<and> \<not> awaited \<and> \<not> im \<and> \<not> ab)
     \<and> (ph = CmExposing \<longrightarrow> awaited \<and> im \<and> \<not> requested) \<and> (ph = CmAborting \<longrightarrow> ab) \<and> (ab \<longrightarrow> requested)
     \<and> (awaited \<longrightarrow> im) \<and> ph \<notin> {CmNotStarted, CmPrepared, CmRejected}"

definition camera_ok :: "burst \<Rightarrow> nat \<Rightarrow> bool" where
  "camera_ok b i \<longleftrightarrow> cell_ok (cm_phase (member b i)) (cb_abort_requested b ! i) (cb_pending_images b ! i)
     (PendingStart i \<in> set (cb_events b)) (PendingImage i \<in> set (cb_events b)) (PendingAbort i \<in> set (cb_events b))"

fun pending_camera :: "burst_future \<Rightarrow> nat" where
  "pending_camera (PendingStart i) = i"
| "pending_camera (PendingImage i) = i"
| "pending_camera (PendingAbort i) = i"

fun is_start :: "burst_future \<Rightarrow> bool" where
  "is_start (PendingStart _) = True"
| "is_start _ = False"

fun is_abort :: "burst_future \<Rightarrow> bool" where
  "is_abort (PendingAbort _) = True"
| "is_abort _ = False"

definition flight :: "nat \<Rightarrow> burst \<Rightarrow> bool" where
  "flight n b \<longleftrightarrow> camera_count b = n \<and> length (cb_abort_requested b) = n \<and> length (cb_pending_images b) = n
     \<and> length (cb_images b) = n \<and> length (cb_plans b) = n
     \<and> distinct (cb_events b) \<and> (\<forall>e \<in> set (cb_events b). pending_camera e < n)
     \<and> cb_starts_pending b = length (filter is_start (cb_events b))
     \<and> cb_aborts_pending b = length (filter is_abort (cb_events b))
     \<and> (\<forall>i < n. camera_ok b i)
     \<and> (cb_deadline_hit b \<longrightarrow> cb_stop b \<noteq> None) \<and> cb_stop b \<in> {None, Some CgCancelled, Some CgDeadline}"

lemma flight_emit [simp]: "flight n (burst_emit b) = flight n b"
  by (simp add: flight_def camera_ok_def)

lemma flight_request:
  assumes "flight n b" "i < n"
  shows "flight n (request_abort i b)"
proof (cases "cm_phase (member b i) = CmExposing \<and> \<not> cb_abort_requested b ! i")
  case True
  let ?b = "request_abort i b"
  note f = assms(1) [unfolded flight_def]
  have ok: "camera_ok b i" using f assms(2) by simp
  then have new: "PendingAbort i \<notin> set (cb_events b)" and im: "PendingImage i \<in> set (cb_events b)"
    and s: "PendingStart i \<notin> set (cb_events b)"
    using True by (simp_all add: camera_ok_def cell_ok_def)
  have fields: "camera_count ?b = n" "cb_abort_requested ?b = (cb_abort_requested b)[i := True]"
    "cb_pending_images ?b = cb_pending_images b" "cb_events ?b = cb_events b @ [PendingAbort i]"
    "cb_images ?b = cb_images b" "cb_plans ?b = cb_plans b" "cb_stop ?b = cb_stop b" "cb_deadline_hit ?b = cb_deadline_hit b"
    "cb_starts_pending ?b = cb_starts_pending b" "cb_aborts_pending ?b = cb_aborts_pending b + 1"
    using True f by (simp_all add: request_abort_def)
  have m: "member ?b j = (if j = i then (member b i)\<lparr>cm_phase := CmAborting\<rparr> else member b j)" if "j < n" for j
    using True f that by (simp add: request_abort_def member_edit)
  have "camera_ok ?b i" using assms(2) f new im s by (simp add: camera_ok_def fields m cell_ok_def)
  moreover have "camera_ok ?b j" if "j < n" "j \<noteq> i" for j
    using f that by (simp add: camera_ok_def fields m)
  ultimately have "\<forall>j < n. camera_ok ?b j" by blast
  then show ?thesis using f new assms(2) unfolding flight_def fields by simp
qed (use assms in \<open>auto simp: request_abort_def\<close>)

lemma flight_count: "flight n b \<Longrightarrow> camera_count b = n"
  by (simp add: flight_def)

lemma flight_requests: "flight n b \<Longrightarrow> set is \<subseteq> {..<n} \<Longrightarrow> flight n (fold request_abort is b)"
  by (induction "is" arbitrary: b) (auto intro: flight_request)

lemma flight_head: "flight n b \<Longrightarrow> flight n (round_head g b)"
  using flight_requests [of n b "[0..<n]"] by (simp add: round_head_def flight_count atLeast0LessThan)

text \<open>An event concerns one camera: the others keep what is known of them.\<close>

lemma flight_event:
  assumes "flight n b" "e \<in> set (cb_events b)" "pending_camera e = i"
    and "camera_count c = n" "cb_plans c = cb_plans b" "cb_abort_requested c = cb_abort_requested b"
    and "length (cb_pending_images c) = n" "length (cb_images c) = n"
    and "cb_stop c = cb_stop b" "cb_deadline_hit c = cb_deadline_hit b"
    and "\<And>j. j < n \<Longrightarrow> j \<noteq> i \<Longrightarrow> cm_phase (member c j) = cm_phase (member b j)"
    and "\<And>j. j < n \<Longrightarrow> j \<noteq> i \<Longrightarrow> cb_pending_images c ! j = cb_pending_images b ! j"
    and "cb_events c = remove1 e (cb_events b) @ added"
    and "added = [] \<or> added = [PendingImage i] \<and> PendingImage i \<notin> set (cb_events b)"
    and "cb_starts_pending c = cb_starts_pending b - (if is_start e then 1 else 0)"
    and "cb_aborts_pending c = cb_aborts_pending b - (if is_abort e then 1 else 0)"
    and "camera_ok c i"
  shows "flight n c"
proof -
  note f = assms(1) [unfolded flight_def]
  have "camera_ok c j" if "j < n" "j \<noteq> i" for j
  proof -
    have "x \<in> set (cb_events c) \<longleftrightarrow> x \<in> set (cb_events b)" if "pending_camera x = j" for x
      using assms(3,13,14) that \<open>j \<noteq> i\<close> f by auto
    then have "PendingStart j \<in> set (cb_events c) \<longleftrightarrow> PendingStart j \<in> set (cb_events b)"
      "PendingImage j \<in> set (cb_events c) \<longleftrightarrow> PendingImage j \<in> set (cb_events b)"
      "PendingAbort j \<in> set (cb_events c) \<longleftrightarrow> PendingAbort j \<in> set (cb_events b)" by simp_all
    with f that assms(6,11,12) show ?thesis by (simp add: camera_ok_def)
  qed
  with assms(17) have all: "\<forall>j < n. camera_ok c j" by metis
  have count: "length (filter P (remove1 e (cb_events b))) = length (filter P (cb_events b)) - (if P e then 1 else 0)" for P
    using assms(2) by (simp add: filter_remove1 length_remove1)
  have "distinct (cb_events c)" using f assms(13,14) by auto
  moreover have "\<forall>x \<in> set (cb_events c). pending_camera x < n"
  proof
    fix x
    assume "x \<in> set (cb_events c)"
    then have "x \<in> set (cb_events b) \<or> x = PendingImage i" using assms(13,14) set_remove1_subset [of e "cb_events b"] by auto
    with f assms(2,3) show "pending_camera x < n" by auto
  qed
  moreover have "cb_starts_pending c = length (filter is_start (cb_events c))"
    "cb_aborts_pending c = length (filter is_abort (cb_events c))"
    using f assms(13-16) count [of is_start] count [of is_abort] by (elim disjE; simp)+
  ultimately show ?thesis
    unfolding flight_def using f all assms(4-10) by simp
qed

lemma camera_now:
  assumes "flight n b" "i < n"
  shows "cell_ok (cm_phase (member b i)) (cb_abort_requested b ! i) (cb_pending_images b ! i)
     (PendingStart i \<in> set (cb_events b)) (PendingImage i \<in> set (cb_events b)) (PendingAbort i \<in> set (cb_events b))"
    "distinct (cb_events b)" "length (cb_abort_requested b) = n" "length (cb_pending_images b) = n"
    "camera_count b = n" "length (cb_images b) = n"
  using assms by (simp_all add: flight_def camera_ok_def)

lemma event_camera: "flight n b \<Longrightarrow> e \<in> set (cb_events b) \<Longrightarrow> pending_camera e < n"
  by (simp add: flight_def)

lemma note_skew_selectors [simp]:
  "cb_events (note_skew b) = cb_events b" "member (note_skew b) = member b" "cb_plans (note_skew b) = cb_plans b"
  "cb_starts_pending (note_skew b) = cb_starts_pending b" "cb_aborts_pending (note_skew b) = cb_aborts_pending b"
  "cb_abort_requested (note_skew b) = cb_abort_requested b" "cb_pending_images (note_skew b) = cb_pending_images b"
  "cb_stop (note_skew b) = cb_stop b" "cb_deadline_hit (note_skew b) = cb_deadline_hit b"
  "cb_images (note_skew b) = cb_images b" "cb_trace (note_skew b) = cb_trace b" "cb_published (note_skew b) = cb_published b"
  "cr_members (cb_report (note_skew b)) = cr_members (cb_report b)" "cb_point (note_skew b) = cb_point b"
  "cr_phase (cb_report (note_skew b)) = cr_phase (cb_report b)"
  by (simp_all add: note_skew_def Let_def member_def fun_eq_iff)

lemma member_receipt [simp]:
  "cm_phase (note_receipt r m) = cm_phase m" "cm_acquisition (note_receipt r m) = cm_acquisition m"
  "cm_source (note_receipt r m) = cm_source m" "cm_generation (note_receipt r m) = cm_generation m"
  "cm_image (note_receipt r m) = cm_image m"
  by (simp_all add: note_receipt_def split: sum.split)

lemma started_ok_receipt [simp]: "started_ok (note_receipt r m) r' = started_ok m r'"
  by (simp add: started_ok_def split: sum.split)

lemma fail_camera_simps [simp]:
  "cm_acquisition (fail_camera e m) = cm_acquisition m" "cm_source (fail_camera e m) = cm_source m"
  "cm_generation (fail_camera e m) = cm_generation m" "cm_image (fail_camera e m) = cm_image m"
  "cm_phase (fail_camera e m) \<in> {CmUncertain, CmFailed}"
  by (simp_all add: fail_camera_def)

text \<open>The effect of an event on its camera, and that it leaves the others alone.\<close>

lemma on_start_member:
  assumes "i < camera_count b" "j < camera_count b"
  shows "member (on_start i r b) j =
     (if j \<noteq> i then member b j
      else if started_ok (member b i) r then (note_receipt r (member b i))\<lparr>cm_phase := CmExposing\<rparr>
      else fail_camera (start_error r) (note_receipt r (member b i)))"
  using assms by (simp add: on_start_def Let_def member_edit)

lemma on_start_fields [simp]:
  "camera_count (on_start i r b) = camera_count b" "cb_plans (on_start i r b) = cb_plans b"
  "cb_abort_requested (on_start i r b) = cb_abort_requested b" "cb_images (on_start i r b) = cb_images b"
  "cb_stop (on_start i r b) = cb_stop b" "cb_deadline_hit (on_start i r b) = cb_deadline_hit b"
  "cb_trace (on_start i r b) = cb_trace b" "cb_published (on_start i r b) = cb_published b"
  "cb_starts_pending (on_start i r b) = cb_starts_pending b - 1" "cb_aborts_pending (on_start i r b) = cb_aborts_pending b"
  "cb_point (on_start i r b) = cb_point b" "cr_phase (cb_report (on_start i r b)) = cr_phase (cb_report b)"
  by (simp_all add: on_start_def Let_def)

lemma on_start_arrays:
  assumes "i < camera_count b"
  shows "cb_pending_images (on_start i r b)
      = (if started_ok (member b i) r then (cb_pending_images b)[i := True] else cb_pending_images b)"
    and "cb_events (on_start i r b) = cb_events b @ (if started_ok (member b i) r then [PendingImage i] else [])"
  using assms by (simp_all add: on_start_def Let_def member_edit)

lemma flight_start:
  assumes "flight n b" "PendingStart i \<in> set (cb_events b)"
  shows "flight n (on_start i r (taken (PendingStart i) b))"
proof -
  let ?t = "taken (PendingStart i) b"
  have i: "i < n" using event_camera [OF assms] by simp
  note now = camera_now [OF assms(1) i]
  have cell: "cm_phase (member b i) = CmStarting" "\<not> cb_abort_requested b ! i" "\<not> cb_pending_images b ! i"
    "PendingImage i \<notin> set (cb_events b)" "PendingAbort i \<notin> set (cb_events b)"
    using now(1) assms(2) by (simp_all add: cell_ok_def)
  have it: "i < camera_count ?t" using i now by simp
  show ?thesis
  proof (rule flight_event [OF assms, where added = "if started_ok (member ?t i) r then [PendingImage i] else []"])
    show "camera_ok (on_start i r ?t) i"
      unfolding camera_ok_def on_start_member [OF it it] on_start_arrays [OF it]
      using cell now i assms(2) fail_camera_simps(5) [of "start_error r" "note_receipt r (member b i)"]
      by (auto simp: cell_ok_def)
  qed (use now i cell on_start_member [OF it] in \<open>simp_all add: on_start_arrays [OF it]\<close>)
qed

definition image_member :: "source_error + image_identity \<Rightarrow> camera_member_result \<Rightarrow> camera_member_result" where
  "image_member r m = (case r of
       Inr im \<Rightarrow>
         if own_image m im then m\<lparr>cm_image := Some im, cm_phase := CmComplete, cm_error := None\<rparr>
         else if cm_phase m \<in> {CmAborting, CmAborted} then m
         else m\<lparr>cm_phase := CmUncertain, cm_error := Some source_uncertain\<rparr>
     | Inl e \<Rightarrow>
         if cm_phase m \<in> {CmAborting, CmAborted} then m else m\<lparr>cm_phase := CmUncertain, cm_error := Some e\<rparr>)"

definition image_kept :: "source_error + image_identity \<Rightarrow> camera_member_result \<Rightarrow> image_identity option" where
  "image_kept r m = (case r of Inr im \<Rightarrow> if own_image m im then Some im else None | Inl _ \<Rightarrow> None)"

lemma on_image_member:
  assumes "i < camera_count b" "j < camera_count b"
  shows "member (on_image i r b) j = (if j = i then image_member r (member b i) else member b j)"
  using assms by (simp add: on_image_def Let_def member_edit image_member_def split: sum.split)

lemma on_image_fields [simp]:
  "camera_count (on_image i r b) = camera_count b" "cb_plans (on_image i r b) = cb_plans b"
  "cb_abort_requested (on_image i r b) = cb_abort_requested b" "cb_events (on_image i r b) = cb_events b"
  "cb_stop (on_image i r b) = cb_stop b" "cb_deadline_hit (on_image i r b) = cb_deadline_hit b"
  "cb_trace (on_image i r b) = cb_trace b" "cb_published (on_image i r b) = cb_published b"
  "cb_starts_pending (on_image i r b) = cb_starts_pending b" "cb_aborts_pending (on_image i r b) = cb_aborts_pending b"
  "cb_point (on_image i r b) = cb_point b" "cr_phase (cb_report (on_image i r b)) = cr_phase (cb_report b)"
  "cb_pending_images (on_image i r b) = (cb_pending_images b)[i := False]"
  by (cases r; simp add: on_image_def Let_def)+

lemma on_image_images:
  "cb_images (on_image i r b)
     = (case image_kept r (member b i) of Some im \<Rightarrow> (cb_images b)[i := Some im] | None \<Rightarrow> cb_images b)"
  by (simp add: on_image_def Let_def image_kept_def split: sum.split)

lemma flight_image:
  assumes "flight n b" "PendingImage i \<in> set (cb_events b)"
  shows "flight n (on_image i r (taken (PendingImage i) b))"
proof -
  let ?t = "taken (PendingImage i) b"
  have i: "i < n" using event_camera [OF assms] by simp
  note now = camera_now [OF assms(1) i]
  have cell: "cm_phase (member b i) \<noteq> CmStarting" "PendingStart i \<notin> set (cb_events b)"
    using now(1) assms(2) by (auto simp: cell_ok_def)
  have it: "i < camera_count ?t" using i now by simp
  show ?thesis
  proof (rule flight_event [OF assms, where added = "[]"])
    have "cm_phase (image_member r m) \<in> {CmComplete, CmUncertain} \<or> cm_phase (image_member r m) = cm_phase m
        \<and> cm_phase m \<in> {CmAborting, CmAborted}" for m
      by (auto simp: image_member_def split: sum.split)
    from this [of "member b i"] show "camera_ok (on_image i r ?t) i"
      unfolding camera_ok_def on_image_member [OF it it] using cell now i
      by (auto simp: cell_ok_def)
  qed (use now i on_image_member [OF it] in \<open>simp_all add: on_image_images split: option.split\<close>)
qed

definition abort_member :: "source_error + unit \<Rightarrow> camera_member_result \<Rightarrow> camera_member_result" where
  "abort_member r m = (case r of
       Inr _ \<Rightarrow> if cm_phase m = CmComplete then m else m\<lparr>cm_phase := CmAborted\<rparr>
     | Inl e \<Rightarrow> m\<lparr>cm_abort_error := Some e, cm_phase := (if cm_phase m = CmComplete then cm_phase m else CmUncertain)\<rparr>)"

lemma on_abort_member:
  assumes "i < camera_count b" "j < camera_count b"
  shows "member (on_abort i r b) j = (if j = i then abort_member r (member b i) else member b j)"
  using assms by (simp add: on_abort_def Let_def member_edit abort_member_def split: sum.split)

lemma on_abort_fields [simp]:
  "camera_count (on_abort i r b) = camera_count b" "cb_plans (on_abort i r b) = cb_plans b"
  "cb_abort_requested (on_abort i r b) = cb_abort_requested b" "cb_events (on_abort i r b) = cb_events b"
  "cb_stop (on_abort i r b) = cb_stop b" "cb_deadline_hit (on_abort i r b) = cb_deadline_hit b"
  "cb_trace (on_abort i r b) = cb_trace b" "cb_published (on_abort i r b) = cb_published b"
  "cb_starts_pending (on_abort i r b) = cb_starts_pending b" "cb_aborts_pending (on_abort i r b) = cb_aborts_pending b - 1"
  "cb_point (on_abort i r b) = cb_point b" "cr_phase (cb_report (on_abort i r b)) = cr_phase (cb_report b)"
  "cb_images (on_abort i r b) = cb_images b"
  "cb_pending_images (on_abort i r b)
     = (case r of Inr _ \<Rightarrow> if cm_phase (member b i) = CmComplete then cb_pending_images b else (cb_pending_images b)[i := False]
        | Inl _ \<Rightarrow> cb_pending_images b)"
  by (cases r; simp add: on_abort_def Let_def)+

lemma flight_abort:
  assumes "flight n b" "PendingAbort i \<in> set (cb_events b)"
  shows "flight n (on_abort i r (taken (PendingAbort i) b))"
proof -
  let ?t = "taken (PendingAbort i) b"
  have i: "i < n" using event_camera [OF assms] by simp
  note now = camera_now [OF assms(1) i]
  have cell: "cm_phase (member b i) \<noteq> CmStarting" "PendingStart i \<notin> set (cb_events b)"
    using now(1) assms(2) by (auto simp: cell_ok_def)
  have it: "i < camera_count ?t" using i now by simp
  show ?thesis
  proof (rule flight_event [OF assms, where added = "[]"])
    have awaited: "cb_pending_images b ! i \<longrightarrow> PendingImage i \<in> set (cb_events b)" using now(1) by (simp add: cell_ok_def)
    show "camera_ok (on_abort i r ?t) i"
    proof (cases r)
      case (Inl e)
      with cell now(2-) i awaited show ?thesis
        unfolding camera_ok_def on_abort_member [OF it it] by (simp add: cell_ok_def abort_member_def)
    next
      case (Inr u)
      with cell now(2-) i awaited show ?thesis
        unfolding camera_ok_def on_abort_member [OF it it]
        by (cases "cm_phase (member b i) = CmComplete") (simp_all add: cell_ok_def abort_member_def)
    qed
  qed (use now i on_abort_member [OF it] in \<open>simp_all split: sum.split\<close>)
qed

end
