(* ===== verification/Camera_Burst.thy ===== *)
theory Camera_Burst imports Camera_Flight begin

text \<open>
  What a camera burst promises: the invariant of its task, kept by every step, and the properties that
  follow from it.
\<close>

section \<open>The invariant of a burst\<close>

text \<open>A camera that is complete has an image, the images handed out are those of the report, and each is its member's own.\<close>

definition images_own :: "nat \<Rightarrow> burst \<Rightarrow> bool" where
  "images_own n b \<longleftrightarrow> length (cb_images b) = n \<and> (\<forall>i < n. cb_images b ! i = cm_image (member b i)
     \<and> (cm_phase (member b i) = CmComplete \<longrightarrow> cm_image (member b i) \<noteq> None)
     \<and> (\<forall>im. cm_image (member b i) = Some im \<longrightarrow> own_image (member b i) im))"

definition report_ok :: "camera_group_result \<Rightarrow> bool" where
  "report_ok r \<longleftrightarrow> (\<forall>m \<in> set (cr_members r). (cm_phase m = CmComplete \<longrightarrow> cm_image m \<noteq> None)
       \<and> (\<forall>im. cm_image m = Some im \<longrightarrow> own_image m im))
     \<and> (cr_phase r = CgComplete \<longrightarrow> (\<forall>m \<in> set (cr_members r). cm_phase m = CmComplete))"

lemma images_own_report:
  assumes "images_own n b" "camera_count b = n"
    and "cr_phase (cb_report b) = CgComplete \<longrightarrow> (\<forall>i < n. cm_phase (member b i) = CmComplete)"
  shows "report_ok (cb_report b)"
  using assms by (auto simp: images_own_def report_ok_def in_set_conv_nth member_def)

definition published_ok :: "burst \<Rightarrow> bool" where
  "published_ok b \<longleftrightarrow> cb_published b \<noteq> [] \<and> last (cb_published b) = cb_report b \<and> (\<forall>r \<in> set (cb_published b). report_ok r)"

lemma report_ok_sequence [simp]: "report_ok (r\<lparr>cr_sequence := s\<rparr>) = report_ok r"
  by (simp add: report_ok_def)

lemma published_emit: "(\<forall>r \<in> set (cb_published b). report_ok r) \<Longrightarrow> report_ok (cb_report b) \<Longrightarrow> published_ok (burst_emit b)"
  by (auto simp: published_ok_def burst_emit_def Let_def)

definition preflight_trace :: "camera_group_config \<Rightarrow> nat \<Rightarrow> burst_action list" where
  "preflight_trace g n = map AcPrepare [0..<n] @ map (\<lambda>i. AcRecheck i (requires_abort g)) [0..<n]"

definition burst_trace :: "camera_group_config \<Rightarrow> nat list \<Rightarrow> nat list \<Rightarrow> burst_action list" where
  "burst_trace g plans aborted = preflight_trace g (length plans)
     @ map (\<lambda>i. AcDispatch i (plans ! i)) [0..<length plans] @ map (\<lambda>i. AcAbort i (plans ! i)) aborted"

definition traced :: "camera_group_config \<Rightarrow> nat \<Rightarrow> burst \<Rightarrow> bool" where
  "traced g n b \<longleftrightarrow> length (cb_plans b) = n
     \<and> (\<exists>aborted. cb_trace b = burst_trace g (cb_plans b) aborted \<and> distinct aborted
        \<and> set aborted = {i. i < n \<and> cb_abort_requested b ! i} \<and> (aborted \<noteq> [] \<longrightarrow> requires_abort g))"

definition planned :: "nat \<Rightarrow> burst \<Rightarrow> bool" where
  "planned n b \<longleftrightarrow> (\<forall>i < n. cm_acquisition (member b i) = Some (cb_plans b ! i))"

text \<open>Before the burst: nothing is pending and there is no image.\<close>

definition early :: "nat \<Rightarrow> burst \<Rightarrow> bool" where
  "early n b \<longleftrightarrow> cb_events b = [] \<and> cb_starts_pending b = n \<and> cb_aborts_pending b = 0
     \<and> cb_abort_requested b = replicate n False \<and> cb_pending_images b = replicate n False
     \<and> cb_stop b = None \<and> \<not> cb_deadline_hit b \<and> cb_images b = replicate n None
     \<and> (\<forall>i < n. cm_image (member b i) = None \<and> cm_phase (member b i) \<noteq> CmComplete)"

definition settled_phases :: "camera_member_phase set" where
  "settled_phases = {CmComplete, CmFailed, CmUncertain, CmAborted}"

definition point_inv :: "camera_group_config \<Rightarrow> nat \<Rightarrow> burst \<Rightarrow> bool" where
  "point_inv g n b = (case cb_point b of
       Preparing i \<Rightarrow> i < n \<and> early n b \<and> length (cb_plans b) = i \<and> cb_trace b = map AcPrepare [0..<i]
         \<and> cr_phase (cb_report b) = CgPreflight
     | Rechecking i \<Rightarrow> i < n \<and> early n b \<and> length (cb_plans b) = n \<and> cr_phase (cb_report b) = CgPreflight
         \<and> cb_trace b = map AcPrepare [0..<n] @ map (\<lambda>i. AcRecheck i (requires_abort g)) [0..<i]
     | Dispatching \<Rightarrow> early n b \<and> length (cb_plans b) = n \<and> cb_trace b = preflight_trace g n
         \<and> cr_phase (cb_report b) = CgPreflight
     | Capturing \<Rightarrow> flight n b \<and> traced g n b \<and> planned n b \<and> cr_phase (cb_report b) = CgCapturing
     | Ended \<Rightarrow> (traced g n b \<and> planned n b
           \<or> (\<forall>a \<in> set (cb_trace b). \<forall>i p. a \<noteq> AcDispatch i p) \<and> (\<forall>i < n. cm_image (member b i) = None))
         \<and> camera_group_terminal (cr_phase (cb_report b))
         \<and> (cr_phase (cb_report b) \<in> {CgComplete, CgPartialFailure} \<longrightarrow>
              (\<forall>i < n. cm_phase (member b i) \<in> settled_phases)))"

definition burst_inv :: "camera_group_config \<Rightarrow> burst \<Rightarrow> bool" where
  "burst_inv g b \<longleftrightarrow> camera_count b = length (cg_members g)
     \<and> (\<forall>i < length (cg_members g). cm_source (member b i) = cg_members g ! i) \<and> images_own (length (cg_members g)) b \<and> published_ok b \<and> point_inv g (length (cg_members g)) b"

lemma burst_inv_count: "burst_inv g b \<Longrightarrow> camera_count b = length (cg_members g)"
  by (simp add: burst_inv_def)

definition burst_initial :: "camera_group_config \<Rightarrow> burst \<Rightarrow> bool" where
  "burst_initial g b \<longleftrightarrow> (\<exists>active cs requests operation r. camera_group_new g cs = Inr ()
     \<and> burst_start active g cs requests operation = Inr r \<and> b = burst_new r)"

lemma camera_group_new_ok:
  assumes "camera_group_new g cs = Inr ()"
  shows "2 \<le> length (cg_members g)" "length (cg_members g) \<le> 32" "distinct (cg_members g)" "map cs_source cs = cg_members g"
  using assms by (auto simp: camera_group_new_def and_then_def camera_group_validate_def ensure_def split: if_splits)

lemma burst_new_fields [simp]:
  "cb_report (burst_new r) = r" "cb_published (burst_new r) = [r]" "cb_point (burst_new r) = Preparing 0"
  "cb_plans (burst_new r) = []" "cb_events (burst_new r) = []" "cb_starts_pending (burst_new r) = length (cr_members r)"
  "cb_aborts_pending (burst_new r) = 0" "cb_abort_requested (burst_new r) = replicate (length (cr_members r)) False"
  "cb_pending_images (burst_new r) = replicate (length (cr_members r)) False" "cb_stop (burst_new r) = None"
  "\<not> cb_deadline_hit (burst_new r)" "cb_images (burst_new r) = replicate (length (cr_members r)) None"
  "cb_trace (burst_new r) = []" "member (burst_new r) i = cr_members r ! i"
  by (simp_all add: burst_new_def Let_def member_def)

lemma burst_inv_initial:
  assumes "burst_initial g b"
  shows "burst_inv g b"
proof -
  obtain active cs requests operation r where
    new: "camera_group_new g cs = Inr ()" and start: "burst_start active g cs requests operation = Inr r"
    and b: "b = burst_new r"
    using assms by (auto simp: burst_initial_def)
  note g = camera_group_new_ok [OF new]
  have len: "length cs = length (cg_members g)" using g(4) by (metis length_map)
  from start have req: "length requests = length cs"
    "list_all (\<lambda>(q, i). cq_source q = i) (zip requests (cg_members g))"
    and members: "cr_members r = map (\<lambda>(c, q). \<lparr>cm_source = cq_source q, cm_generation = cs_generation c,
         cm_request = cq_exposure q, cm_require_scalar_image = cq_require_scalar_image q,
         cm_capture_profile = None, cm_acquisition = None, cm_phase = CmNotStarted,
         cm_dispatch_seconds = None, cm_acknowledgement_seconds = None, cm_image = None,
         cm_error = None, cm_abort_error = None\<rparr>) (zip cs requests)" and "cr_phase r = CgPreflight"
    by (auto simp: burst_start_def and_then_def ensure_def split: if_splits)
  have n: "length (cr_members r) = length (cg_members g)" using members len req(1) by simp
  have src: "\<forall>i < length (cg_members g). cm_source (cr_members r ! i) = cg_members g ! i"
    using members len req by (auto simp: list_all_length)
  have fresh: "cm_image (member b i) = None \<and> cm_phase (member b i) = CmNotStarted" if "i < length (cg_members g)" for i
    using that members len req(1) by (simp add: b)
  have "report_ok r"
    using members \<open>cr_phase r = CgPreflight\<close> by (auto simp: report_ok_def)
  then have "published_ok b" by (simp add: published_ok_def b)
  moreover have "images_own (length (cg_members g)) b"
    using fresh n by (simp add: images_own_def b)
  moreover have "point_inv g (length (cg_members g)) b"
    using fresh n g(1) \<open>cr_phase r = CgPreflight\<close> by (auto simp: point_inv_def early_def b)
  ultimately show ?thesis using src n by (simp add: burst_inv_def b)
qed

section \<open>Steps of the preflight\<close>

text \<open>Releasing changes phases and errors, and nothing an observer of images sees.\<close>

lemma fail_camera_incomplete [simp]: "cm_phase (fail_camera e m) \<noteq> CmComplete"
  by (simp add: fail_camera_def)

lemma release_from_effect:
  "camera_count (release_from i rs b) = camera_count b \<and> cb_published (release_from i rs b) = cb_published b
   \<and> cb_images (release_from i rs b) = cb_images b \<and> cr_phase (cb_report (release_from i rs b)) = cr_phase (cb_report b)
   \<and> cb_trace (release_from i rs b) = cb_trace b @ map AcRelease [i..<i + length rs]
   \<and> (\<forall>j < camera_count b. cm_source (member (release_from i rs b) j) = cm_source (member b j)
      \<and> cm_image (member (release_from i rs b) j) = cm_image (member b j)
      \<and> (cm_phase (member (release_from i rs b) j) = CmComplete \<longrightarrow> cm_phase (member b j) = CmComplete))"
proof (induction rs arbitrary: i b)
  case (Cons r rs)
  let ?b = "act [AcRelease i] (case r of
        Some e \<Rightarrow> edit_camera i (fail_camera e) b
      | None \<Rightarrow> if cm_phase (member b i) = CmPrepared
          then edit_camera i (\<lambda>m. m\<lparr>cm_phase := CmNotStarted\<rparr>) b else b)"
  have step: "camera_count ?b = camera_count b" "cb_published ?b = cb_published b" "cb_images ?b = cb_images b"
    "cr_phase (cb_report ?b) = cr_phase (cb_report b)" "cb_trace ?b = cb_trace b @ [AcRelease i]"
    by (simp_all split: option.split)
  have mem: "cm_source (member ?b j) = cm_source (member b j) \<and> cm_image (member ?b j) = cm_image (member b j)
      \<and> (cm_phase (member ?b j) = CmComplete \<longrightarrow> cm_phase (member b j) = CmComplete)" if "j < camera_count b" for j
    using that by (cases r) (simp_all add: member_edit)
  have range: "[i..<i + length (r # rs)] = i # [Suc i..<Suc i + length rs]" by (simp add: upt_rec)
  show ?case using Cons.IH [of "Suc i" ?b] step mem unfolding range by simp
qed simp

lemma abandon_inv:
  assumes "camera_count b = length (cg_members g)" "\<forall>i < length (cg_members g). cm_source (member b i) = cg_members g ! i"
    and "\<forall>r \<in> set (cb_published b). report_ok r" "early (length (cg_members g)) b"
    and "p \<in> {CgPreflightFailed, CgCancelled, CgDeadline}" "\<forall>a \<in> set (cb_trace b). \<forall>i q. a \<noteq> AcDispatch i q"
  shows "burst_inv g (abandon p released b)"
proof -
  let ?n = "length (cg_members g)" and ?r = "release_from 0 released (burst_phase p b)"
  note effect = release_from_effect [of 0 released "burst_phase p b"]
  note n = assms(1)
  have own: "images_own ?n ?r" and source: "\<forall>i < ?n. cm_source (member ?r i) = cg_members g ! i"
    using effect assms(2,4) n by (auto simp: images_own_def early_def)
  have "report_ok (cb_report ?r)"
    using images_own_report [OF own] effect n assms(5) by auto
  then have "published_ok (burst_emit ?r)"
    using published_emit [of ?r] effect assms(3) by auto
  then have pub: "published_ok (abandon p released b)" by (simp add: abandon_def published_ok_def)
  have "point_inv g ?n (abandon p released b)"
    using effect assms(1,4-6) by (auto simp: abandon_def point_inv_def camera_group_terminal_def early_def)
  with own pub source n effect show ?thesis
    by (simp add: burst_inv_def abandon_def images_own_def)
qed

text \<open>What holds before the burst, whatever the preflight has reached.\<close>

definition preflight :: "camera_group_config \<Rightarrow> burst \<Rightarrow> bool" where
  "preflight g b \<longleftrightarrow> camera_count b = length (cg_members g)
     \<and> (\<forall>i < length (cg_members g). cm_source (member b i) = cg_members g ! i)
     \<and> (\<forall>r \<in> set (cb_published b). report_ok r) \<and> early (length (cg_members g)) b
     \<and> (\<forall>a \<in> set (cb_trace b). \<forall>i q. a \<noteq> AcDispatch i q)"

lemma preflight_abandon:
  "preflight g b \<Longrightarrow> p \<in> {CgPreflightFailed, CgCancelled, CgDeadline} \<Longrightarrow> burst_inv g (abandon p released b)"
  by (rule abandon_inv) (simp_all add: preflight_def)

lemma preflight_now:
  assumes "burst_inv g b" "cb_point b \<in> {Preparing i, Rechecking i, Dispatching}"
  shows "preflight g b"
  using assms by (auto simp: burst_inv_def point_inv_def preflight_def published_ok_def preflight_trace_def)

lemma preflight_edit:
  assumes "preflight g b" "\<And>m. cm_source (f m) = cm_source m" "\<And>m. cm_image (f m) = cm_image m"
    "\<And>m. cm_phase (f m) \<noteq> CmComplete"
  shows "preflight g (edit_camera i f b)"
  using assms by (auto simp: preflight_def early_def member_edit)

lemma preflight_act: "preflight g b \<Longrightarrow> (\<And>i q. a \<noteq> AcDispatch i q) \<Longrightarrow> preflight g (act [a] b)"
  by (simp add: preflight_def early_def)

lemma preflight_reject:
  "preflight g b \<Longrightarrow> (\<And>i q. a \<noteq> AcDispatch i q) \<Longrightarrow> preflight g (edit_camera i (reject_camera e) (act [a] b))"
  by (intro preflight_edit preflight_act) (simp_all add: reject_camera_def)

lemma early_images: "early n b \<Longrightarrow> images_own n b"
  by (simp add: early_def images_own_def)

lemma early_emit [simp]: "early n (burst_emit b) = early n b" "early n (b\<lparr>cb_plans := x\<rparr>) = early n b"
  "early n (b\<lparr>cb_point := y\<rparr>) = early n b"
  by (simp_all add: early_def)

text \<open>The invariant before the burst, with the phase of the report and the point of the task.\<close>

lemma preflight_inv:
  assumes "preflight g b" "last (cb_published b) = cb_report b" "cb_published b \<noteq> []" "point_inv g (length (cg_members g)) b"
  shows "burst_inv g b"
  using assms early_images [of "length (cg_members g)" b]
  by (simp add: preflight_def burst_inv_def published_ok_def)

lemma emitted [simp]: "cb_published (burst_emit b) = cb_published b @ [cb_report (burst_emit b)]"
  by (simp add: burst_emit_def Let_def)

lemma preflight_emit:
  assumes "preflight g b" "cr_phase (cb_report b) = CgPreflight"
  shows "preflight g (burst_emit b)"
proof -
  have "report_ok (cb_report b)"
    using images_own_report [of "length (cg_members g)" b, OF early_images] assms by (simp add: preflight_def)
  then have "report_ok (cb_report (burst_emit b))" by (simp add: burst_emit_def Let_def)
  with assms(1) show ?thesis by (simp add: preflight_def ball_Un)
qed

lemma range_last: "i < n \<Longrightarrow> \<not> Suc i < n \<Longrightarrow> [0..<n] = [0..<i] @ [i] \<and> n = Suc i"
  by (metis Suc_lessI upt_Suc_append zero_le)

lemma prepared_camera_inv:
  assumes "burst_inv g b" "cb_point b = Preparing i"
  shows "burst_inv g (prepared_camera i profile plan b)"
proof -
  let ?n = "length (cg_members g)"
  let ?e = "edit_camera i (\<lambda>m. m\<lparr>cm_capture_profile := profile, cm_phase := CmPrepared\<rparr>) (act [AcPrepare i] b)"
  let ?b = "prepared_camera i profile plan b"
  have now: "i < ?n" "early ?n b" "length (cb_plans b) = i" "cb_trace b = map AcPrepare [0..<i]"
    "cr_phase (cb_report b) = CgPreflight" and n: "camera_count b = ?n"
    using assms by (simp_all add: burst_inv_def point_inv_def)
  have p: "preflight g (burst_emit ?e)"
    by (intro preflight_emit preflight_edit preflight_act preflight_now [OF assms(1), of i]) (simp_all add: assms(2) now)
  then have q: "preflight g ?b" by (simp add: prepared_camera_def preflight_def)
  have "early ?n ?b" "0 < ?n" using q now(1) by (auto simp: preflight_def)
  then have "point_inv g ?n ?b"
    using now n range_last [of i ?n] by (simp add: prepared_camera_def point_inv_def)
  with q show ?thesis
    by (intro preflight_inv) (simp_all add: prepared_camera_def)
qed

lemma rechecked_camera_inv:
  assumes "burst_inv g b" "cb_point b = Rechecking i"
  shows "burst_inv g (rechecked_camera g i b)"
proof -
  let ?n = "length (cg_members g)" and ?b = "rechecked_camera g i b"
  have now: "i < ?n" "early ?n b" "length (cb_plans b) = ?n" "cr_phase (cb_report b) = CgPreflight"
    "cb_trace b = map AcPrepare [0..<?n] @ map (\<lambda>i. AcRecheck i (requires_abort g)) [0..<i]"
    "published_ok b" and n: "camera_count b = ?n"
    using assms by (simp_all add: burst_inv_def point_inv_def)
  have "preflight g (act [AcRecheck i (requires_abort g)] b)"
    by (intro preflight_act preflight_now [OF assms(1), of i]) (simp_all add: assms(2))
  then have q: "preflight g ?b" by (simp add: rechecked_camera_def preflight_def)
  have "early ?n ?b" using q by (simp add: preflight_def)
  then have "point_inv g ?n ?b"
    using now n range_last [of i ?n] by (simp add: rechecked_camera_def point_inv_def preflight_trace_def)
  with q now(6) show ?thesis
    by (intro preflight_inv) (simp_all add: rechecked_camera_def published_ok_def)
qed

end
