(* ===== verification/Camera_Capture.thy ===== *)
theory Camera_Capture imports Camera_Burst begin

text \<open>
  The burst itself: dispatch, the rounds of the capture loop and its end keep the invariant of
  \<open>Camera_Burst\<close>; every run ends, and what its reports and images are worth.
\<close>

section \<open>Dispatch\<close>

lemma dispatch_selectors [simp]:
  "camera_count (dispatch_camera i b) = camera_count b" "cb_plans (dispatch_camera i b) = cb_plans b"
  "cb_published (dispatch_camera i b) = cb_published b" "cb_images (dispatch_camera i b) = cb_images b"
  "cb_starts_pending (dispatch_camera i b) = cb_starts_pending b" "cb_aborts_pending (dispatch_camera i b) = cb_aborts_pending b"
  "cb_abort_requested (dispatch_camera i b) = cb_abort_requested b" "cb_stop (dispatch_camera i b) = cb_stop b"
  "cb_pending_images (dispatch_camera i b) = cb_pending_images b" "cb_deadline_hit (dispatch_camera i b) = cb_deadline_hit b"
  "cb_events (dispatch_camera i b) = cb_events b @ [PendingStart i]"
  "cb_trace (dispatch_camera i b) = cb_trace b @ [AcDispatch i (cb_plans b ! i)]"
  by (simp_all add: dispatch_camera_def)

lemma dispatched:
  "k \<le> camera_count b \<Longrightarrow> (let f = fold dispatch_camera [0..<k] b in
     camera_count f = camera_count b \<and> cb_plans f = cb_plans b \<and> cb_published f = cb_published b \<and> cb_images f = cb_images b
     \<and> cb_starts_pending f = cb_starts_pending b \<and> cb_aborts_pending f = cb_aborts_pending b
     \<and> cb_abort_requested f = cb_abort_requested b \<and> cb_stop f = cb_stop b \<and> cb_pending_images f = cb_pending_images b
     \<and> cb_deadline_hit f = cb_deadline_hit b \<and> cb_events f = cb_events b @ map PendingStart [0..<k]
     \<and> cb_trace f = cb_trace b @ map (\<lambda>i. AcDispatch i (cb_plans b ! i)) [0..<k]
     \<and> (\<forall>j < camera_count b. member f j =
          (if j < k then (member b j)\<lparr>cm_acquisition := Some (cb_plans b ! j), cm_phase := CmStarting\<rparr> else member b j)))"
proof (induction k)
  case (Suc k)
  let ?f = "fold dispatch_camera [0..<k] b"
  have n: "camera_count ?f = camera_count b" using Suc by (simp add: Let_def)
  have m: "member (dispatch_camera k ?f) j = (if j = k then (member ?f k)\<lparr>cm_acquisition := Some (cb_plans ?f ! k), cm_phase := CmStarting\<rparr>
      else member ?f j)" if "j < camera_count b" for j
    using that n by (simp add: dispatch_camera_def member_edit)
  from Suc show ?case by (simp add: Let_def m less_Suc_eq)
qed (simp add: Let_def)

lemma flight_dispatch:
  assumes "early n b" "camera_count b = n" "length (cb_plans b) = n"
  shows "flight n (dispatch_cameras b)" and "planned n (dispatch_cameras b)"
    and "cb_trace (dispatch_cameras b) = cb_trace b @ map (\<lambda>i. AcDispatch i (cb_plans b ! i)) [0..<n]"
    and "cb_plans (dispatch_cameras b) = cb_plans b" "cb_abort_requested (dispatch_cameras b) = replicate n False"
    and "\<forall>i < n. cm_source (member (dispatch_cameras b) i) = cm_source (member b i)"
    and "images_own n (dispatch_cameras b)" "cb_point (dispatch_cameras b) = Capturing"
    and "cr_phase (cb_report (dispatch_cameras b)) = CgCapturing" "camera_count (dispatch_cameras b) = n"
proof -
  let ?c = "dispatch_cameras b"
  note e = assms(1) [unfolded early_def]
  note d = dispatched [of n b, unfolded Let_def]
  have fields: "camera_count ?c = n" "cb_plans ?c = cb_plans b" "cb_events ?c = map PendingStart [0..<n]"
    "cb_starts_pending ?c = n" "cb_aborts_pending ?c = 0" "cb_abort_requested ?c = replicate n False"
    "cb_pending_images ?c = replicate n False" "cb_stop ?c = None" "\<not> cb_deadline_hit ?c" "cb_images ?c = replicate n None"
    "cb_trace ?c = cb_trace b @ map (\<lambda>i. AcDispatch i (cb_plans b ! i)) [0..<n]"
    using d e assms(2) by (simp_all add: dispatch_cameras_def)
  have m: "member ?c j = (member b j)\<lparr>cm_acquisition := Some (cb_plans b ! j), cm_phase := CmStarting\<rparr>" if "j < n" for j
    using d that assms(2) by (simp add: dispatch_cameras_def)
  have filters: "filter is_start (map PendingStart [0..<n]) = map PendingStart [0..<n]"
    "filter is_abort (map PendingStart [0..<n]) = []" by (simp_all add: filter_map comp_def)
  show "flight n ?c"
    unfolding flight_def fields filters using assms(3)
    by (auto simp: camera_ok_def cell_ok_def fields m distinct_map inj_on_def)
  show "images_own n ?c" unfolding images_own_def fields using e m by simp
  show "planned n ?c" by (simp add: planned_def m fields)
  show "\<forall>i < n. cm_source (member ?c i) = cm_source (member b i)" by (simp add: m)
  show "cb_point ?c = Capturing" "cr_phase (cb_report ?c) = CgCapturing" by (simp_all add: dispatch_cameras_def)
  show "cb_trace ?c = cb_trace b @ map (\<lambda>i. AcDispatch i (cb_plans b ! i)) [0..<n]" "cb_plans ?c = cb_plans b"
    "cb_abort_requested ?c = replicate n False" "camera_count ?c = n" by (fact fields)+
qed

lemma published_dispatch:
  "cb_published (dispatch_cameras b) = cb_published b @ [cb_report (dispatch_cameras b)]"
  using dispatched [of "camera_count b" b] by (simp add: dispatch_cameras_def Let_def)

lemma dispatch_cameras_inv:
  assumes "burst_inv g b" "cb_point b = Dispatching"
  shows "burst_inv g (dispatch_cameras b)"
proof -
  let ?n = "length (cg_members g)" and ?c = "dispatch_cameras b"
  have now: "early ?n b" "camera_count b = ?n" "length (cb_plans b) = ?n" "cb_trace b = preflight_trace g ?n"
    "published_ok b" "\<forall>i < ?n. cm_source (member b i) = cg_members g ! i"
    using assms by (simp_all add: burst_inv_def point_inv_def)
  note f = flight_dispatch [OF now(1-3)]
  have "cb_trace ?c = burst_trace g (cb_plans ?c) []" "set [] = {i. i < ?n \<and> cb_abort_requested ?c ! i}"
    using f(3-5) now(3,4) by (auto simp: burst_trace_def)
  then have "traced g ?n ?c" unfolding traced_def using f(4) now(3) by (metis distinct.simps(1))
  moreover have "report_ok (cb_report ?c)"
    using images_own_report [OF f(7)] f(9,10) by simp
  ultimately show ?thesis
    using f now(5,6) published_dispatch [of b] by (simp add: burst_inv_def point_inv_def published_ok_def)
qed

section \<open>What a round keeps\<close>

text \<open>Everything of the task but the phases of its members, their futures and flags, and the trace.\<close>

definition kept :: "burst \<Rightarrow> burst \<Rightarrow> bool" where
  "kept b c \<longleftrightarrow> camera_count c = camera_count b \<and> cb_images c = cb_images b \<and> cb_plans c = cb_plans b
     \<and> cb_point c = cb_point b \<and> cr_phase (cb_report c) = cr_phase (cb_report b) \<and> cb_published c = cb_published b
     \<and> (\<forall>j < camera_count b. cm_source (member c j) = cm_source (member b j)
        \<and> cm_generation (member c j) = cm_generation (member b j) \<and> cm_acquisition (member c j) = cm_acquisition (member b j)
        \<and> cm_image (member c j) = cm_image (member b j)
        \<and> (cm_phase (member c j) = CmComplete \<longrightarrow> cm_phase (member b j) = CmComplete))"

lemma kept_refl: "kept b b"
  by (simp add: kept_def)

lemma kept_trans: "kept b c \<Longrightarrow> kept c d \<Longrightarrow> kept b d"
  by (simp add: kept_def)

lemma kept_images: "kept b c \<Longrightarrow> camera_count b = n \<Longrightarrow> images_own n b \<Longrightarrow> images_own n c"
  by (auto simp: kept_def images_own_def own_image_def)

lemma kept_planned: "kept b c \<Longrightarrow> camera_count b = n \<Longrightarrow> planned n b \<Longrightarrow> planned n c"
  by (simp add: kept_def planned_def)

lemma kept_request: "kept b (request_abort i b)"
  by (auto simp: kept_def request_abort_def member_edit)

lemma kept_requests: "kept b (fold request_abort is b)"
  by (induction "is" arbitrary: b) (auto intro: kept_refl kept_trans kept_request)

lemma traced_request:
  assumes "traced g n b" "planned n b" "flight n b" "i < n" "requires_abort g"
  shows "traced g n (request_abort i b)"
proof (cases "cm_phase (member b i) = CmExposing \<and> \<not> cb_abort_requested b ! i")
  case True
  obtain aborted where a: "cb_trace b = burst_trace g (cb_plans b) aborted" "distinct aborted"
    "set aborted = {i. i < n \<and> cb_abort_requested b ! i}"
    using assms(1) by (auto simp: traced_def)
  let ?b = "request_abort i b"
  have fields: "cb_plans ?b = cb_plans b" "cb_trace ?b = cb_trace b @ [AcAbort i (cb_plans b ! i)]"
    "cb_abort_requested ?b = (cb_abort_requested b)[i := True]"
    using True assms(2,4) by (simp_all add: request_abort_def planned_def)
  have "cb_trace ?b = burst_trace g (cb_plans ?b) (aborted @ [i])" using a(1) by (simp add: fields burst_trace_def)
  moreover have "distinct (aborted @ [i])" using a(2,3) True by simp
  moreover have "length (cb_abort_requested b) = n" using assms(3) by (simp add: flight_def)
  then have "set (aborted @ [i]) = {j. j < n \<and> cb_abort_requested ?b ! j}"
    using a(3) assms(4) by (auto simp: fields nth_list_update)
  ultimately show ?thesis using assms(1,5) unfolding traced_def fields(1) by blast
qed (use assms in \<open>auto simp: request_abort_def\<close>)

lemma traced_requests:
  "traced g n b \<Longrightarrow> planned n b \<Longrightarrow> flight n b \<Longrightarrow> set is \<subseteq> {..<n} \<Longrightarrow> requires_abort g
    \<Longrightarrow> traced g n (fold request_abort is b)"
proof (induction "is" arbitrary: b)
  case (Cons i "is")
  then have i: "i < n" by simp
  have "planned n (request_abort i b)"
    using kept_planned [OF kept_request, of b n i] Cons.prems by (simp add: flight_def)
  with Cons.prems show ?case
    using Cons.IH [of "request_abort i b"] traced_request [of g n b i] flight_request [of n b i] i by simp
qed simp

text \<open>The state in the middle of the capture loop.\<close>

definition capture_inv :: "camera_group_config \<Rightarrow> burst \<Rightarrow> bool" where
  "capture_inv g b \<longleftrightarrow> (let n = length (cg_members g) in flight n b \<and> traced g n b \<and> planned n b \<and> images_own n b
     \<and> cr_phase (cb_report b) = CgCapturing \<and> cb_point b = Capturing
     \<and> (\<forall>i < n. cm_source (member b i) = cg_members g ! i) \<and> published_ok b)"

lemma capture_burst: "capture_inv g b \<Longrightarrow> burst_inv g b"
  by (simp add: capture_inv_def Let_def burst_inv_def point_inv_def flight_def)

lemma burst_capture: "burst_inv g b \<Longrightarrow> cb_point b = Capturing \<Longrightarrow> capture_inv g b"
  by (simp add: capture_inv_def Let_def burst_inv_def point_inv_def)

lemma capture_fields:
  assumes "capture_inv g b"
  shows "flight (length (cg_members g)) b" "traced g (length (cg_members g)) b" "planned (length (cg_members g)) b"
    "images_own (length (cg_members g)) b" "cr_phase (cb_report b) = CgCapturing" "cb_point b = Capturing"
    "\<forall>i < length (cg_members g). cm_source (member b i) = cg_members g ! i" "published_ok b"
    "camera_count b = length (cg_members g)"
  using assms by (simp_all add: capture_inv_def Let_def flight_count)

lemma traced_emit [simp]: "traced g n (burst_emit b) = traced g n b" "planned n (burst_emit b) = planned n b"
  "images_own n (burst_emit b) = images_own n b"
  by (simp_all add: traced_def planned_def images_own_def)

text \<open>Publishing what is known keeps the invariant.\<close>

lemma capture_emit:
  assumes "flight n b" "traced g n b" "planned n b" "images_own n b" "cr_phase (cb_report b) = CgCapturing"
    "cb_point b = Capturing" "\<forall>i < n. cm_source (member b i) = cg_members g ! i"
    "\<forall>r \<in> set (cb_published b). report_ok r" "n = length (cg_members g)"
  shows "capture_inv g (burst_emit b)"
proof -
  have "report_ok (cb_report b)" using images_own_report [OF assms(4)] assms(1,5) by (simp add: flight_def)
  with assms show ?thesis by (simp add: capture_inv_def Let_def published_emit)
qed

lemma capture_head:
  assumes "capture_inv g b"
  shows "capture_inv g (round_head g b)"
proof (cases "abort_now g b")
  case True
  let ?n = "length (cg_members g)" and ?f = "fold request_abort [0..<length (cg_members g)] b"
  note c = capture_fields [OF assms]
  have k: "kept b ?f" by (rule kept_requests)
  have r: "requires_abort g" using True by (auto simp: abort_now_def requires_abort_def)
  have "flight ?n ?f" using flight_requests [OF c(1), of "[0..<?n]"] by (simp add: atLeast0LessThan)
  moreover have "traced g ?n ?f" using traced_requests [OF c(2,3,1), of "[0..<?n]"] r by (simp add: atLeast0LessThan)
  moreover have "planned ?n ?f" "images_own ?n ?f" using k c(3,4,9) kept_planned kept_images by blast+
  ultimately have "capture_inv g (burst_emit ?f)"
    by (rule capture_emit) (use k c in \<open>auto simp: kept_def published_ok_def\<close>)
  with True c(9) show ?thesis by (simp add: round_head_def)
qed (use assms in \<open>simp add: round_head_def\<close>)

section \<open>Events\<close>

lemma traced_same:
  "traced g n b \<Longrightarrow> cb_trace c = cb_trace b \<Longrightarrow> cb_plans c = cb_plans b \<Longrightarrow> cb_abort_requested c = cb_abort_requested b
    \<Longrightarrow> traced g n c"
  by (simp add: traced_def)

lemma capture_kept:
  assumes "capture_inv g h" "kept h c" "flight (length (cg_members g)) c" "cb_trace c = cb_trace h"
    "cb_abort_requested c = cb_abort_requested h"
  shows "capture_inv g (burst_emit c)"
proof -
  note f = capture_fields [OF assms(1)]
  have "planned (length (cg_members g)) c" "images_own (length (cg_members g)) c" "cb_plans c = cb_plans h"
    using assms(2) f kept_planned kept_images by (blast, blast, simp add: kept_def)
  with assms(2-) traced_same [OF f(2)] f show ?thesis
    by (intro capture_emit) (auto simp: kept_def published_ok_def)
qed

lemma fail_camera_fields: "kept (taken e h) c \<Longrightarrow> kept h c"
  by (simp add: kept_def)

lemma kept_start:
  assumes "i < camera_count h"
  shows "kept h (on_start i r (taken e h))"
proof (rule fail_camera_fields)
  let ?t = "taken e h"
  have "member (on_start i r ?t) j = member ?t j \<or> j = i \<and>
      (member (on_start i r ?t) j = (note_receipt r (member ?t i))\<lparr>cm_phase := CmExposing\<rparr>
      \<or> member (on_start i r ?t) j = fail_camera (start_error r) (note_receipt r (member ?t i)))" if "j < camera_count h" for j
    using on_start_member [of i ?t j r] that assms by simp
  then show "kept ?t (on_start i r ?t)"
    unfolding kept_def by (intro conjI allI impI; (simp; fail)?; fastforce)
qed

lemma abort_member_simps:
  "cm_source (abort_member r m) = cm_source m" "cm_generation (abort_member r m) = cm_generation m"
  "cm_acquisition (abort_member r m) = cm_acquisition m" "cm_image (abort_member r m) = cm_image m"
  "cm_phase (abort_member r m) = CmComplete \<Longrightarrow> cm_phase m = CmComplete"
  by (auto simp: abort_member_def split: sum.splits if_splits)

lemma kept_abort:
  assumes "i < camera_count h"
  shows "kept h (on_abort i r (taken e h))"
proof (rule fail_camera_fields)
  let ?t = "taken e h"
  have m: "member (on_abort i r ?t) j = (if j = i then abort_member r (member h i) else member h j)"
    if "j < camera_count h" for j
    using on_abort_member [of i ?t j r] that assms by simp
  show "kept ?t (on_abort i r ?t)"
    unfolding kept_def using m abort_member_simps [of r "member h i"] by simp
qed

lemma image_member_simps:
  "cm_source (image_member r m) = cm_source m" "cm_generation (image_member r m) = cm_generation m"
  "cm_acquisition (image_member r m) = cm_acquisition m"
  "cm_image (image_member r m) = (case image_kept r m of Some im \<Rightarrow> Some im | None \<Rightarrow> cm_image m)"
  "image_kept r m = Some im \<Longrightarrow> own_image m im"
  "image_kept r m = None \<Longrightarrow> cm_phase (image_member r m) = CmComplete \<Longrightarrow> cm_phase m = CmComplete"
  by (auto simp: image_member_def image_kept_def split: sum.splits if_splits)

lemma own_image_member [simp]: "own_image (image_member r m) im = own_image m im"
  by (simp add: own_image_def image_member_simps)

lemma images_own_event:
  assumes "images_own n h" "camera_count h = n" "i < n"
  shows "images_own n (on_image i r (taken e h))"
proof -
  let ?c = "on_image i r (taken e h)" and ?m = "member h i"
  note own = assms(1) [unfolded images_own_def]
  have m: "member ?c j = (if j = i then image_member r ?m else member h j)" if "j < n" for j
    using on_image_member [of i "taken e h" j r] that assms by simp
  have images: "cb_images ?c = (case image_kept r ?m of Some im \<Rightarrow> (cb_images h)[i := Some im] | None \<Rightarrow> cb_images h)"
    by (simp add: on_image_images split: option.split)
  show ?thesis
  proof (cases "image_kept r ?m")
    case None
    with own m images show ?thesis
      using image_member_simps(4,6) [of r ?m] by (auto simp: images_own_def)
  next
    case (Some im)
    with own m images show ?thesis
      using image_member_simps(4,5) [of r ?m] assms(3) by (auto simp: images_own_def nth_list_update)
  qed
qed

lemma capture_event:
  assumes "capture_inv g h"
  shows "PendingStart i \<in> set (cb_events h) \<Longrightarrow> capture_inv g (burst_emit (on_start i r (taken (PendingStart i) h)))"
    and "PendingAbort i \<in> set (cb_events h) \<Longrightarrow> capture_inv g (burst_emit (on_abort i a (taken (PendingAbort i) h)))"
    and "PendingImage i \<in> set (cb_events h) \<Longrightarrow> capture_inv g (burst_emit (on_image i im (taken (PendingImage i) h)))"
proof -
  let ?n = "length (cg_members g)"
  note f = capture_fields [OF assms]
  have i: "e \<in> set (cb_events h) \<Longrightarrow> pending_camera e < ?n" for e using event_camera [OF f(1)] by simp
  show "capture_inv g (burst_emit (on_start i r (taken (PendingStart i) h)))" if e: "PendingStart i \<in> set (cb_events h)"
    by (rule capture_kept [OF assms kept_start flight_start]) (use i [OF e] e f in simp_all)
  show "capture_inv g (burst_emit (on_abort i a (taken (PendingAbort i) h)))" if e: "PendingAbort i \<in> set (cb_events h)"
    by (rule capture_kept [OF assms kept_abort flight_abort]) (use i [OF e] e f in simp_all)
  show "capture_inv g (burst_emit (on_image i im (taken (PendingImage i) h)))" if e: "PendingImage i \<in> set (cb_events h)"
  proof -
    let ?c = "on_image i im (taken (PendingImage i) h)"
    have m: "cm_source (member ?c j) = cm_source (member h j) \<and> cm_acquisition (member ?c j) = cm_acquisition (member h j)"
      if "j < ?n" for j
      using on_image_member [of i "taken (PendingImage i) h" j im] that i [OF e] f(9) by (simp add: image_member_simps)
    have "traced g ?n ?c" by (rule traced_same [OF f(2)]) simp_all
    moreover have "planned ?n ?c" using f(3) m by (simp add: planned_def)
    moreover have "images_own ?n ?c" using images_own_event [OF f(4,9)] i [OF e] by simp
    ultimately show ?thesis
      by (intro capture_emit [where n = ?n] flight_image [OF f(1) e]) (use f m in \<open>simp_all add: published_ok_def\<close>)
  qed
qed

lemma capture_interrupt:
  assumes "capture_inv g h" "p \<in> {Some CgCancelled, Some CgDeadline}"
  shows "capture_inv g (h\<lparr>cb_stop := p\<rparr>)" and "capture_inv g (h\<lparr>cb_deadline_hit := d, cb_stop := p\<rparr>)"
  using assms
  by (auto simp: capture_inv_def Let_def flight_def camera_ok_def traced_def planned_def images_own_def published_ok_def)

lemma capture_late: "capture_inv g h \<Longrightarrow> cb_stop h \<noteq> None \<Longrightarrow> capture_inv g (h\<lparr>cb_deadline_hit := d\<rparr>)"
  by (auto simp: capture_inv_def Let_def flight_def camera_ok_def traced_def planned_def images_own_def published_ok_def)

section \<open>The end\<close>

lemma settled:
  assumes "capture_inv g h" "finishing g h \<or> cb_events h = []" "cb_stop h = None" "i < length (cg_members g)"
  shows "cm_phase (member h i) \<in> settled_phases"
proof -
  note f = capture_fields [OF assms(1)]
  note now = camera_now(1) [OF f(1) assms(4)]
  have "PendingStart i \<notin> set (cb_events h) \<and> PendingAbort i \<notin> set (cb_events h) \<and> cm_phase (member h i) \<noteq> CmExposing"
  proof (cases "cb_events h = []")
    case False
    with assms(2,3) f(1) have fin: "cb_starts_pending h = 0" "cb_aborts_pending h = 0" "\<not> list_ex (\<lambda>p. p) (cb_pending_images h)"
      by (auto simp: finishing_def flight_def)
    then have "filter is_start (cb_events h) = []" "filter is_abort (cb_events h) = []"
      using f(1) by (simp_all add: flight_def)
    then have "PendingStart i \<notin> set (cb_events h)" "PendingAbort i \<notin> set (cb_events h)"
      by (auto simp: filter_empty_conv)
    moreover have "\<not> cb_pending_images h ! i" using fin(3) f(1) assms(4) by (simp add: list_ex_length flight_def)
    ultimately show ?thesis using now by (simp add: cell_ok_def)
  qed (use now in \<open>simp add: cell_ok_def\<close>)
  with now show ?thesis
    by (cases "cm_phase (member h i)") (simp_all add: cell_ok_def settled_phases_def)
qed

lemma burst_end_inv:
  assumes "capture_inv g h" "finishing g h \<or> cb_events h = []" "w \<in> {None, Some CgCancelled, Some CgDeadline}"
  shows "burst_inv g (burst_end w h)"
proof -
  let ?n = "length (cg_members g)"
  note f = capture_fields [OF assms(1)]
  obtain p where b: "burst_end w h = (burst_emit (burst_phase p h))\<lparr>cb_point := Ended\<rparr>"
    and p: "p \<in> {CgCancelled, CgDeadline} \<or> cb_stop h = None \<and> p = (if list_all (\<lambda>m. cm_phase m = CmComplete) (cr_members (cb_report h))
        then CgComplete else CgPartialFailure)"
    using assms(3) f(1) by (fastforce simp: burst_end_def flight_def split: option.splits)
  have own: "images_own ?n (burst_phase p h)" using f(4) by (simp add: images_own_def)
  have "p = CgComplete \<longrightarrow> (\<forall>i < ?n. cm_phase (member h i) = CmComplete)"
    using p f(9) by (auto simp: list_all_length member_def split: if_splits)
  then have "report_ok (cb_report (burst_phase p h))"
    using images_own_report [OF own] f(9) by simp
  then have pub: "published_ok (burst_end w h)"
    using published_emit [of "burst_phase p h"] f(8) by (simp add: b published_ok_def)
  have "camera_group_terminal p" using p by (auto simp: camera_group_terminal_def split: if_splits)
  moreover have "p \<in> {CgComplete, CgPartialFailure} \<longrightarrow> (\<forall>i < ?n. cm_phase (member h i) \<in> settled_phases)"
    using p settled [OF assms(1,2)] by auto
  ultimately have "point_inv g ?n (burst_end w h)"
    using f(2,3) traced_same [of g ?n h "burst_end w h"] by (simp add: point_inv_def planned_def b)
  with pub own f show ?thesis by (simp add: burst_inv_def b images_own_def)
qed

lemma burst_step_inv:
  assumes "burst_inv g b" "burst_step g b c"
  shows "burst_inv g c"
  using assms(2)
proof cases
  case (prepare_refused i released e)
  then show ?thesis using preflight_now [OF assms(1), of i] by (auto intro!: preflight_abandon preflight_reject)
next
  case (recheck_refused i released e)
  then show ?thesis using preflight_now [OF assms(1), of i] by (auto intro!: preflight_abandon preflight_reject)
next
  case (prepare_interrupted i)
  then show ?thesis using preflight_now [OF assms(1), of i] by (auto intro!: preflight_abandon simp: interruption_phase_def)
next
  case (recheck_interrupted i)
  then show ?thesis using preflight_now [OF assms(1), of i] by (auto intro!: preflight_abandon simp: interruption_phase_def)
next
  case dispatch_interrupted
  then show ?thesis using preflight_now [OF assms(1), of 0] by (auto intro!: preflight_abandon simp: interruption_phase_def)
qed (use assms(1) capture_head [OF burst_capture [OF assms(1)]] in
  \<open>auto intro: prepared_camera_inv rechecked_camera_inv dispatch_cameras_inv capture_burst capture_event capture_interrupt capture_late burst_end_inv\<close>)

interpretation camera_burst: safe_system "burst_initial g" "burst_step g" "burst_inv g"
  by unfold_locales (auto intro: burst_inv_initial burst_step_inv)

section \<open>Every run ends\<close>

text \<open>What is left to do: the cameras to prepare and to check, then the futures, the aborts and interruptions to come.\<close>

definition capture_work :: "burst \<Rightarrow> nat" where
  "capture_work b = length (cb_events b) + cb_starts_pending b + length (filter Not (cb_abort_requested b))
     + (if cb_stop b = None then 1 else 0) + (if cb_deadline_hit b then 0 else 1) + 1"

definition burst_work :: "burst \<Rightarrow> nat" where
  "burst_work b = (let n = camera_count b in case cb_point b of
       Preparing i \<Rightarrow> (n - i) + n + 3 * n + 4
     | Rechecking i \<Rightarrow> (n - i) + 3 * n + 4
     | Dispatching \<Rightarrow> 3 * n + 4
     | Capturing \<Rightarrow> capture_work b
     | Ended \<Rightarrow> 0)"

lemma filter_not_update: "i < length xs \<Longrightarrow> \<not> xs ! i \<Longrightarrow> Suc (length (filter Not (xs[i := True]))) = length (filter Not xs)"
proof (induction xs arbitrary: i)
  case (Cons x xs)
  then show ?case by (cases i) auto
qed simp

lemma work_request:
  "flight n b \<Longrightarrow> i < n \<Longrightarrow> capture_work (request_abort i b) = capture_work b"
  using filter_not_update [of i "cb_abort_requested b"]
  by (auto simp: request_abort_def capture_work_def flight_def)

lemma work_requests: "flight n b \<Longrightarrow> set is \<subseteq> {..<n} \<Longrightarrow> capture_work (fold request_abort is b) = capture_work b"
proof (induction "is" arbitrary: b)
  case (Cons i "is")
  then show ?case using flight_request [of n b i] work_request [of n b i] by simp
qed simp

lemma work_emit [simp]: "capture_work (burst_emit b) = capture_work b"
  by (simp add: capture_work_def)

lemma work_head: "flight n b \<Longrightarrow> capture_work (round_head g b) = capture_work b"
  using work_requests [of n b "[0..<n]"]
  by (simp add: round_head_def flight_count atLeast0LessThan)

lemma work_event:
  assumes "flight n h" "e \<in> set (cb_events h)"
  shows "e = PendingStart i \<Longrightarrow> capture_work (burst_emit (on_start i r (taken e h))) < capture_work h"
    and "e = PendingImage i \<Longrightarrow> capture_work (burst_emit (on_image i im (taken e h))) < capture_work h"
    and "e = PendingAbort i \<Longrightarrow> capture_work (burst_emit (on_abort i a (taken e h))) < capture_work h"
proof -
  have len: "length (remove1 e (cb_events h)) < length (cb_events h)"
    using assms(2) by (metis length_remove1 diff_less length_pos_if_in_set zero_less_one)
  have "capture_work (on_start i r (taken e h)) < capture_work h" if e: "e = PendingStart i"
  proof -
    have "0 < length (filter is_start (cb_events h))" using assms(2) e by (force simp: filter_empty_conv)
    then have "0 < cb_starts_pending h" using assms(1) by (simp add: flight_def)
    moreover have "i < camera_count (taken e h)" using event_camera [OF assms] assms(1) e by (simp add: flight_def)
    ultimately show ?thesis using len by (simp add: capture_work_def on_start_arrays)
  qed
  then show "e = PendingStart i \<Longrightarrow> capture_work (burst_emit (on_start i r (taken e h))) < capture_work h"
    by (simp add: capture_work_def)
  show "capture_work (burst_emit (on_image i im (taken e h))) < capture_work h"
    "capture_work (burst_emit (on_abort i a (taken e h))) < capture_work h"
    using len by (simp_all add: capture_work_def)
qed

lemma work_at:
  "cb_point b = Capturing \<Longrightarrow> burst_work b = capture_work b" "cb_point b = Ended \<Longrightarrow> burst_work b = 0"
  by (simp_all add: burst_work_def)

lemma ended_points: "cb_point (abandon p released b) = Ended" "cb_point (burst_end w b) = Ended"
  by (simp_all add: abandon_def burst_end_def)

lemma ended_work [simp]: "burst_work (abandon p released b) = 0" "burst_work (burst_end w b) = 0"
  by (rule work_at(2), rule ended_points)+

lemma work_dispatch:
  assumes "burst_inv g b" "cb_point b = Dispatching"
  shows "burst_work (dispatch_cameras b) < burst_work b"
proof -
  let ?n = "length (cg_members g)" and ?c = "dispatch_cameras b"
  have e: "early ?n b" "camera_count b = ?n" using assms by (simp_all add: burst_inv_def point_inv_def)
  have "cb_events ?c = map PendingStart [0..<?n]" "cb_starts_pending ?c = ?n" "cb_abort_requested ?c = replicate ?n False"
    "cb_point ?c = Capturing"
    using dispatched [of ?n b] e by (simp_all add: dispatch_cameras_def Let_def early_def)
  then show ?thesis using e assms(2) by (simp add: burst_work_def capture_work_def)
qed

lemma step_work:
  assumes "burst_inv g b" "burst_step g b c"
  shows "burst_work c < burst_work b"
proof -
  let ?n = "length (cg_members g)"
  have head: "capture_work (round_head g b) = burst_work b" "flight ?n (round_head g b)" "cb_point (round_head g b) = Capturing"
    if "cb_point b = Capturing"
    using capture_fields [OF burst_capture [OF assms(1) that]] work_head [of ?n b g] flight_head [of ?n b g] that
      capture_fields(6) [OF capture_head [OF burst_capture [OF assms(1) that]]]
    by (simp_all add: work_at)
  have now: "Preparing i = cb_point b \<or> Rechecking i = cb_point b \<Longrightarrow> i < camera_count b" for i
    using assms(1) by (auto simp: burst_inv_def point_inv_def split: burst_point.splits)
  from assms(2) show ?thesis
  proof cases
    case (prepare_ok i)
    then show ?thesis using now [of i]
      by (cases "Suc i < camera_count b") (simp_all add: burst_work_def Let_def prepared_camera_def)
  next
    case (recheck_ok i)
    then show ?thesis using now [of i]
      by (cases "Suc i < camera_count b") (simp_all add: burst_work_def Let_def rechecked_camera_def)
  next
    case dispatch_all
    then show ?thesis using work_dispatch [OF assms(1)] by simp
  next
    case (event_start h i r)
    then show ?thesis using head work_event(1) [of ?n h "PendingStart i" i r] by (simp add: work_at(1))
  next
    case (event_image h i im)
    then show ?thesis using head work_event(2) [of ?n h "PendingImage i" i im] by (simp add: work_at(1))
  next
    case (event_abort h i a)
    then show ?thesis using head work_event(3) [of ?n h "PendingAbort i" i a] by (simp add: work_at(1))
  next
    case (cancelled h)
    then have "capture_work c < capture_work h" by (simp add: capture_work_def)
    with cancelled show ?thesis using head by (simp add: work_at(1))
  next
    case (deadline_passed h)
    then have "capture_work c < capture_work h" by (simp add: capture_work_def)
    with deadline_passed show ?thesis using head by (simp add: work_at(1))
  next
    case (burst_over h w)
    then show ?thesis using head by (simp add: capture_work_def)
  qed (use now in \<open>auto simp: burst_work_def [of b] Let_def\<close>)
qed

lemma work_left: "burst_inv g b \<Longrightarrow> cb_point b \<noteq> Ended \<Longrightarrow> 0 < burst_work b"
  by (auto simp: burst_work_def Let_def capture_work_def split: burst_point.split)

lemma runs_shrink:
  assumes "burst_inv g b"
  shows "(burst_step g ^^ k) b c \<Longrightarrow> burst_inv g c \<and> burst_work c + k \<le> burst_work b"
proof (induction k arbitrary: c)
  case (Suc k)
  then obtain d where d: "(burst_step g ^^ k) b d" "burst_step g d c" by auto
  then show ?case
    using Suc.IH [OF d(1)] step_work [of g d c] burst_step_inv [of g d c] by fastforce
qed (use assms in simp)

lemma burst_moves: "cb_point b \<noteq> Ended \<Longrightarrow> \<exists>c. burst_step g b c"
proof (cases "cb_point b")
  case (Preparing i)
  then show ?thesis by (blast intro: prepare_ok)
next
  case (Rechecking i)
  then show ?thesis by (blast intro: recheck_ok)
next
  case Dispatching
  then show ?thesis by (blast intro: dispatch_all)
next
  case Capturing
  show ?thesis
  proof (cases "cb_events (round_head g b)")
    case Nil
    then show ?thesis using burst_over [OF Capturing refl, of g None] by blast
  next
    case (Cons e es)
    then have "e \<in> set (cb_events (round_head g b))" by simp
    then show ?thesis
      using event_start [OF Capturing refl, of _ g undefined] event_image [OF Capturing refl, of _ g undefined]
        event_abort [OF Capturing refl, of _ g undefined]
      by (cases e rule: burst_future.exhaust) blast+
  qed
qed simp

lemma ended_rests: "cb_point b = Ended \<Longrightarrow> \<not> burst_step g b c"
  by (auto elim: burst_step.cases)

lemma initial_work:
  assumes "burst_initial g b"
  shows "burst_work b = 5 * length (cg_members g) + 4"
proof -
  have "burst_inv g b" "cb_point b = Preparing 0"
    using burst_inv_initial [OF assms] assms by (auto simp: burst_initial_def)
  then show ?thesis by (simp add: burst_work_def burst_inv_def)
qed

section \<open>What the group promises\<close>

lemma burst_reached:
  assumes "reachable (burst_initial g) (burst_step g) b"
  shows "burst_inv g b"
  using camera_burst.reachable_inv [OF assms] .

text \<open>Before the end there is no other way to have dispatched than after the whole preflight.\<close>

lemma dispatched_traced:
  assumes "burst_inv g b" "AcDispatch i p \<in> set (cb_trace b)"
  shows "traced g (length (cg_members g)) b \<and> planned (length (cg_members g)) b"
  using assms by (auto simp: burst_inv_def point_inv_def preflight_trace_def split: burst_point.splits)

text \<open>C12: no exposure is started before every camera of the group was prepared and then checked again (with
  the ability to abort, where a policy may need it); then each is started once, with the acquisition its
  preparation reserved, and an abort goes at most once to a camera, to that acquisition, and only where a
  policy asks for aborts.\<close>

theorem exposures_start_after_full_preflight:
  assumes "reachable (burst_initial g) (burst_step g) b" "AcDispatch i plan \<in> set (cb_trace b)"
  shows "length (cb_plans b) = length (cg_members g)
    \<and> (\<exists>aborted. cb_trace b = burst_trace g (cb_plans b) aborted \<and> distinct aborted
        \<and> set aborted \<subseteq> {..<length (cg_members g)} \<and> (aborted \<noteq> [] \<longrightarrow> requires_abort g))"
proof -
  have "traced g (length (cg_members g)) b"
    using dispatched_traced [OF burst_reached [OF assms(1)] assms(2)] by blast
  then show ?thesis by (auto simp: traced_def)
qed

lemma dispatched_when_pictured:
  assumes "burst_inv g b" "i < length (cg_members g)" "cm_image (member b i) = Some im"
  shows "traced g (length (cg_members g)) b \<and> planned (length (cg_members g)) b"
  using assms by (auto simp: burst_inv_def point_inv_def early_def split: burst_point.splits)

lemma find_index:
  "find P [0..<n] = Some i \<Longrightarrow> i < n \<and> P i" "find P [0..<n] = None \<Longrightarrow> i < n \<Longrightarrow> \<not> P i"
  by (auto simp: find_Some_iff find_None_iff)

lemma operation_image_own:
  assumes "burst_inv g b" "operation_image b s = Inr im"
  obtains i where "i < length (cg_members g)" "cg_members g ! i = s" "cm_image (member b i) = Some im"
    "own_image (member b i) im"
proof -
  let ?n = "length (cg_members g)"
  have inv: "camera_count b = ?n" "images_own ?n b" "\<forall>i < ?n. cm_source (member b i) = cg_members g ! i"
    using assms(1) by (simp_all add: burst_inv_def)
  obtain i where i: "i < ?n" "cm_source (member b i) = s" "cb_images b ! i = Some im"
    using assms(2) inv(1) find_index(1) [of "\<lambda>i. cm_source (member b i) = s" ?n]
    by (auto simp: operation_image_def and_then_def ok_or_def split: option.splits)
  with inv show ?thesis by (intro that [of i]) (auto simp: images_own_def)
qed

text \<open>C19: an image that the operation hands out is of the camera asked for, taken in the session it was
  prepared in, by the exposure this burst dispatched to it: a later or foreign capture cannot take its place.\<close>

theorem group_images_are_of_this_burst:
  assumes "reachable (burst_initial g) (burst_step g) b" "operation_image b s = Inr im"
  shows "im_source im = s \<and> (\<exists>i < length (cg_members g). cg_members g ! i = s
    \<and> im_generation im = cm_generation (member b i) \<and> AcDispatch i (im_acquisition im) \<in> set (cb_trace b))"
proof -
  let ?n = "length (cg_members g)"
  note inv = burst_reached [OF assms(1)]
  obtain i where i: "i < ?n" "cg_members g ! i = s" "cm_image (member b i) = Some im" "own_image (member b i) im"
    using operation_image_own [OF inv assms(2)] by blast
  have src: "cm_source (member b i) = s" using inv i(1,2) by (simp add: burst_inv_def)
  have "traced g ?n b" "planned ?n b" using dispatched_when_pictured [OF inv i(1,3)] by simp_all
  then have "AcDispatch i (im_acquisition im) \<in> set (cb_trace b)"
    using i(1,4) by (auto simp: traced_def planned_def own_image_def burst_trace_def)
  with i src show ?thesis by (auto simp: own_image_def)
qed

text \<open>C20: the task of a burst is never stuck before its end and ends in at most five waits for each camera
  and four more, however its futures complete and whenever it is cancelled.\<close>

theorem every_burst_ends:
  assumes "burst_initial g b" "(burst_step g ^^ k) b c"
  shows "k \<le> 5 * length (cg_members g) + 4 \<and> ((\<exists>d. burst_step g c d) \<longleftrightarrow> cb_point c \<noteq> Ended)"
  using runs_shrink [OF burst_inv_initial [OF assms(1)] assms(2)] initial_work [OF assms(1)] burst_moves ended_rests
  by fastforce


section \<open>Two cameras\<close>

text \<open>A group of two cameras that aborts on failure, up to its dispatch; then both images arrive, or the second
  camera fails to start and the first is aborted.\<close>

definition pair_group :: camera_group_config where
  "pair_group = \<lparr>cg_id = 5, cg_label = ''Pair'', cg_timeout_seconds = Fin 60,
     cg_failure_policy = AbortStartedOnFailure, cg_cancellation_policy = AbortStartedOnCancellation, cg_members = [7, 8]\<rparr>"

definition pair_sessions :: "camera_session_id list" where
  "pair_sessions = [\<lparr>cs_source = 7, cs_generation = 3\<rparr>, \<lparr>cs_source = 8, cs_generation = 4\<rparr>]"

definition pair_requests :: "camera_member_request list" where
  "pair_requests = map (\<lambda>i. \<lparr>cq_source = i, cq_exposure = \<lparr>ex_duration_seconds = Fin 2, ex_light = True\<rparr>,
     cq_require_scalar_image = True\<rparr>) [7, 8]"

definition pair_started :: burst where
  "pair_started = (case burst_start False pair_group pair_sessions pair_requests 9 of Inr r \<Rightarrow> burst_new r | Inl _ \<Rightarrow> undefined)"

definition pair_receipt :: "nat \<Rightarrow> source_error + start_receipt" where
  "pair_receipt plan = Inr \<lparr>rc_dispatched = 1, rc_acknowledged = 2, rc_result = Inr plan\<rparr>"

definition pair_dispatched :: burst where
  "pair_dispatched = dispatch_cameras (rechecked_camera pair_group 1 (rechecked_camera pair_group 0
     (prepared_camera 1 None 12 (prepared_camera 0 None 11 pair_started))))"

definition pair_exposing :: burst where
  "pair_exposing = burst_emit (on_start 0 (pair_receipt 11) (taken (PendingStart 0) (round_head pair_group pair_dispatched)))"

definition pair_complete :: burst where
  "pair_complete =
     (let b = burst_emit (on_start 1 (pair_receipt 12) (taken (PendingStart 1) (round_head pair_group pair_exposing)));
          c = burst_emit (on_image 0 (Inr \<lparr>im_source = 7, im_generation = 3, im_acquisition = 11\<rparr>)
                (taken (PendingImage 0) (round_head pair_group b)));
          d = burst_emit (on_image 1 (Inr \<lparr>im_source = 8, im_generation = 4, im_acquisition = 12\<rparr>)
                (taken (PendingImage 1) (round_head pair_group c)))
      in burst_end None (round_head pair_group d))"

definition pair_aborted :: burst where
  "pair_aborted =
     (let b = burst_emit (on_start 1 (Inl source_uncertain) (taken (PendingStart 1) (round_head pair_group pair_exposing)))
      in burst_emit (on_abort 0 (Inr ()) (taken (PendingAbort 0) (round_head pair_group b))))"

lemma pair_started_initial: "burst_initial pair_group pair_started"
proof -
  have "camera_group_new pair_group pair_sessions = Inr ()" by code_simp
  moreover have "\<not> isl (burst_start False pair_group pair_sessions pair_requests 9)" by code_simp
  then obtain r where "burst_start False pair_group pair_sessions pair_requests 9 = Inr r" by (metis sum.collapse(2))
  ultimately show ?thesis unfolding burst_initial_def pair_started_def by fastforce
qed

lemma run_more: "(R ^^ k) a b \<Longrightarrow> R b c \<Longrightarrow> m = Suc k \<Longrightarrow> (R ^^ m) a c"
  by auto

lemma run_reachable: "initial a \<Longrightarrow> (step ^^ k) a b \<Longrightarrow> reachable initial step b"
  by (induction k arbitrary: b) (auto intro: reachable_initial reachable_step)

lemma pair_dispatched_run: "(burst_step pair_group ^^ 5) pair_started pair_dispatched"
proof -
  let ?s = "burst_step pair_group"
  let ?a = "prepared_camera 0 None 11 pair_started"
  let ?b = "prepared_camera 1 None 12 ?a"
  let ?c = "rechecked_camera pair_group 0 ?b"
  let ?d = "rechecked_camera pair_group 1 ?c"
  have a: "?s pair_started ?a" by (rule prepare_ok) code_simp
  have b: "?s ?a ?b" by (rule prepare_ok) code_simp
  have c: "?s ?b ?c" by (rule recheck_ok) code_simp
  have d: "?s ?c ?d" by (rule recheck_ok) code_simp
  have e: "?s ?d pair_dispatched" unfolding pair_dispatched_def by (rule dispatch_all) code_simp
  have "(?s ^^ 0) pair_started pair_started" by simp
  from run_more [OF run_more [OF run_more [OF run_more [OF this a refl] b refl] c refl] d refl] e
  show ?thesis by (rule run_more) simp
qed

lemma pair_exposing_run: "(burst_step pair_group ^^ 6) pair_started pair_exposing"
proof (rule run_more [OF pair_dispatched_run])
  show "burst_step pair_group pair_dispatched pair_exposing"
    unfolding pair_exposing_def by (rule event_start [OF _ refl]) code_simp+
qed simp

lemma pair_complete_run: "(burst_step pair_group ^^ 10) pair_started pair_complete"
proof -
  let ?s = "burst_step pair_group"
  let ?b = "burst_emit (on_start 1 (pair_receipt 12) (taken (PendingStart 1) (round_head pair_group pair_exposing)))"
  let ?c = "burst_emit (on_image 0 (Inr \<lparr>im_source = 7, im_generation = 3, im_acquisition = 11\<rparr>)
    (taken (PendingImage 0) (round_head pair_group ?b)))"
  let ?d = "burst_emit (on_image 1 (Inr \<lparr>im_source = 8, im_generation = 4, im_acquisition = 12\<rparr>)
    (taken (PendingImage 1) (round_head pair_group ?c)))"
  have b: "?s pair_exposing ?b" by (rule event_start [OF _ refl]) code_simp+
  have c: "?s ?b ?c" by (rule event_image [OF _ refl]) code_simp+
  have d: "?s ?c ?d" by (rule event_image [OF _ refl]) code_simp+
  have e: "?s ?d pair_complete" unfolding pair_complete_def Let_def by (rule burst_over [OF _ refl]) code_simp+
  from run_more [OF run_more [OF run_more [OF run_more [OF pair_exposing_run b refl] c refl] d refl] e]
  show ?thesis by simp
qed

lemma pair_aborted_run: "(burst_step pair_group ^^ 8) pair_started pair_aborted"
proof -
  let ?s = "burst_step pair_group"
  let ?b = "burst_emit (on_start 1 (Inl source_uncertain) (taken (PendingStart 1) (round_head pair_group pair_exposing)))"
  have b: "?s pair_exposing ?b" by (rule event_start [OF _ refl]) code_simp+
  have c: "?s ?b pair_aborted" unfolding pair_aborted_def Let_def by (rule event_abort [OF _ refl]) code_simp+
  from run_more [OF run_more [OF pair_exposing_run b refl] c]
  show ?thesis by simp
qed

lemma pair_reached:
  "reachable (burst_initial pair_group) (burst_step pair_group) pair_complete"
  "reachable (burst_initial pair_group) (burst_step pair_group) pair_aborted"
  by (rule run_reachable [where a = pair_started], rule pair_started_initial, rule pair_complete_run,
      rule run_reachable [where a = pair_started], rule pair_started_initial, rule pair_aborted_run)

theorem exposures_start_after_full_preflight_witness:
  "cb_trace pair_aborted = burst_trace pair_group [11, 12] [0] \<and> length (cb_plans pair_aborted) = length (cg_members pair_group)"
proof
  have "AcDispatch 1 12 \<in> set (cb_trace pair_aborted)" by code_simp
  then show "length (cb_plans pair_aborted) = length (cg_members pair_group)"
    using exposures_start_after_full_preflight [OF pair_reached(2)] by blast
  show "cb_trace pair_aborted = burst_trace pair_group [11, 12] [0]" by code_simp
qed

theorem group_images_are_of_this_burst_witness:
  "AcDispatch 1 12 \<in> set (cb_trace pair_complete)
    \<and> operation_image pair_complete 8 = Inr \<lparr>im_source = 8, im_generation = 4, im_acquisition = 12\<rparr>"
proof
  show image: "operation_image pair_complete 8 = Inr \<lparr>im_source = 8, im_generation = 4, im_acquisition = 12\<rparr>" by code_simp
  have at: "length (cg_members pair_group) = 2" "cg_members pair_group ! 0 = 7" by code_simp+
  obtain i where i: "i < 2" "cg_members pair_group ! i = 8" "AcDispatch i 12 \<in> set (cb_trace pair_complete)"
    using group_images_are_of_this_burst [OF pair_reached(1) image] at(1) by auto
  with at(2) have "i = 1" by (cases i) auto
  with i(3) show "AcDispatch 1 12 \<in> set (cb_trace pair_complete)" by simp
qed

theorem every_burst_ends_witness:
  "(10::nat) \<le> 5 * length (cg_members pair_group) + 4 \<and> \<not> (\<exists>d. burst_step pair_group pair_complete d)"
proof -
  have "cb_point pair_complete = Ended" by code_simp
  then show ?thesis using every_burst_ends [OF pair_started_initial pair_complete_run] by blast
qed


end
