(* ===== verification/Camera_Image.thy ===== *)
theory Camera_Image imports Session_Capture Source_Session begin

text \<open>
  Images of the hub's cameras, \<open>crates/regain-hub/src/camera/image.rs\<close>: descriptors, the memory budget
  that all captures and readers share, the export of an image in chunks of ImageBytes, and the reader of
  an ImageBytes response.

  Bytes are natural numbers below 256, \<open>usize\<close> has 64 bits. Whether an allocation succeeds is an argument
  (\<open>fits\<close>), and so is the JSON text of native metadata (\<open>to_vec\<close>).
\<close>

section \<open>Descriptors\<close>

datatype element_type = EtInt16 | EtInt32 | EtDouble | EtSingle | EtUInt64 | EtByte | EtInt64 | EtUInt16 | EtUInt32

datatype image_order = OrderAscom | OrderSensorRows

fun element_bytes :: "element_type \<Rightarrow> nat" where
  "element_bytes EtByte = 1"
| "element_bytes EtInt16 = 2"
| "element_bytes EtUInt16 = 2"
| "element_bytes EtInt32 = 4"
| "element_bytes EtUInt32 = 4"
| "element_bytes EtSingle = 4"
| "element_bytes EtInt64 = 8"
| "element_bytes EtUInt64 = 8"
| "element_bytes EtDouble = 8"

fun element_id :: "element_type \<Rightarrow> nat" where
  "element_id EtInt16 = 1"
| "element_id EtInt32 = 2"
| "element_id EtDouble = 3"
| "element_id EtSingle = 4"
| "element_id EtUInt64 = 5"
| "element_id EtByte = 6"
| "element_id EtInt64 = 7"
| "element_id EtUInt16 = 8"
| "element_id EtUInt32 = 9"

definition element_from_id :: "nat \<Rightarrow> source_error + element_type" where
  "element_from_id n =
     ok_or (map_of [(1, EtInt16), (2, EtInt32), (3, EtDouble), (4, EtSingle), (5, EtUInt64), (6, EtByte),
         (7, EtInt64), (8, EtUInt16), (9, EtUInt32)] n)
       (source_error_new KUnsupported ''Unknown camera image element type'')"

record image_descriptor =
  de_width :: nat
  de_height :: nat
  de_planes :: "nat option"
  de_element :: element_type
  de_transmission :: element_type
  de_order :: image_order

definition plane_count :: "image_descriptor \<Rightarrow> nat" where
  "plane_count d = (case de_planes d of Some n \<Rightarrow> n | None \<Rightarrow> 1)"

definition max_image_bytes :: nat where
  "max_image_bytes = 512 * 1024 * 1024"

definition image_chunk_bytes :: nat where
  "image_chunk_bytes = 64 * 1024"

definition native_metadata_bytes :: nat where
  "native_metadata_bytes = 128 * 1024"

definition native_worker_header_bytes :: nat where
  "native_worker_header_bytes = 64 * 1024"

definition max_error_bytes :: nat where
  "max_error_bytes = 4096"

definition lossless :: "element_type \<Rightarrow> element_type \<Rightarrow> bool" where
  "lossless logical encoded \<longleftrightarrow> logical = encoded \<or> logical = EtInt32 \<and> encoded \<in> {EtByte, EtInt16, EtUInt16}"

definition wire_bytes :: "image_descriptor \<Rightarrow> nat option" where
  "wire_bytes d =
     Option.bind (checked_mul 64 (de_width d) (de_height d)) (\<lambda>v.
     Option.bind (checked_mul 64 v (plane_count d)) (\<lambda>v.
     checked_mul 64 v (element_bytes (de_transmission d))))"

definition descriptor_check :: "image_descriptor \<Rightarrow> source_error + image_descriptor" where
  "descriptor_check d =
     and_then (ensure (list_all (\<lambda>n. \<not> (n = 0 \<or> 2147483647 < n)) [de_width d, de_height d, plane_count d])
       (invalid_value ''Camera image dimensions must be positive Int32 values'')) (\<lambda>_.
     and_then (ensure (lossless (de_element d) (de_transmission d))
       (source_error_new KUnsupported ''Camera image element conversion is not losslessly supported'')) (\<lambda>_.
     and_then (ensure (\<exists>v \<in> set_option (wire_bytes d). v \<le> max_image_bytes)
       (invalid_value ''Camera image exceeds the bounded image size'')) (\<lambda>_. Inr d)))"

definition byte_len :: "image_descriptor \<Rightarrow> nat" where
  "byte_len d = de_width d * de_height d * plane_count d * element_bytes (de_transmission d)"

definition imagebytes_header_bytes :: nat where
  "imagebytes_header_bytes = 44"

definition imagebytes_header :: "image_descriptor \<Rightarrow> nat \<Rightarrow> nat \<Rightarrow> nat list" where
  "imagebytes_header d client server = concat (map le32
     [1, 0, client, server, imagebytes_header_bytes, element_id (de_element d), element_id (de_transmission d),
      if de_planes d \<noteq> None then 3 else 2, de_width d, de_height d, (case de_planes d of Some n \<Rightarrow> n | None \<Rightarrow> 0)])"

text \<open>The offset, in the order of the source, of an element of the ASCOM order.\<close>

definition ascom_offset :: "image_descriptor \<Rightarrow> nat \<Rightarrow> nat" where
  "ascom_offset d element =
     (if de_order d = OrderAscom then element * element_bytes (de_transmission d)
      else let plane = element mod plane_count d; pixel = element div plane_count d;
             x = pixel div de_height d; y = pixel mod de_height d
        in ((y * de_width d + x) * plane_count d + plane) * element_bytes (de_transmission d))"

section \<open>The budget\<close>

record image_budget =
  ib_maximum :: nat
  ib_used :: nat

definition image_budget_new :: "nat \<Rightarrow> source_error + image_budget" where
  "image_budget_new maximum =
     (if maximum = 0 then Inl (invalid_value ''Camera image budget must be positive'')
      else Inr \<lparr>ib_maximum = maximum, ib_used = 0\<rparr>)"

text \<open>
  The compare-and-exchange loop: \<open>found\<close> holds what the comparisons that fail find in \<open>used\<close>; after
  these one succeeds, and its value is replaced by the new one in the same atomic operation.
\<close>

fun reserve_loop :: "nat \<Rightarrow> nat \<Rightarrow> nat \<Rightarrow> nat list \<Rightarrow> source_error + nat" where
  "reserve_loop maximum bytes used found =
     and_then (ok_or (Option.bind (checked_add 64 used bytes) (\<lambda>v. if v \<le> maximum then Some v else None))
       (source_error_new KBusy ''Camera image memory is retained by active captures or readers'')) (\<lambda>v.
     case found of [] \<Rightarrow> Inr v | current # found \<Rightarrow> reserve_loop maximum bytes current found)"

definition reserve :: "nat \<Rightarrow> image_budget \<Rightarrow> source_error + image_budget" where
  "reserve bytes b = and_then (reserve_loop (ib_maximum b) bytes (ib_used b) []) (\<lambda>v. Inr (b\<lparr>ib_used := v\<rparr>))"

definition release :: "nat \<Rightarrow> image_budget \<Rightarrow> image_budget" where
  "release bytes b = b\<lparr>ib_used := ib_used b - bytes\<rparr>"

text \<open>What an owner of reserved memory keeps; the reservation is given back when it is dropped.\<close>

record image_allocation =
  al_descriptor :: image_descriptor
  al_bytes :: "nat list"
  al_reserved :: nat

record native_permit =
  np_exposure :: exposure
  np_descriptor :: image_descriptor
  np_reserved :: nat

record native_image_info =
  ni_exposure :: exposure
  ni_metadata :: "nat list"

record camera_image =
  ci_descriptor :: image_descriptor
  ci_bytes :: "nat list"
  ci_native :: "native_image_info option"
  ci_reserved :: nat

record staged_bytes =
  sg_bytes :: "nat list"
  sg_reserved :: nat

record transfer_buffer =
  tb_bytes :: "nat list"
  tb_reserved :: nat

definition allocated :: "string \<Rightarrow> bool \<Rightarrow> source_error + unit" where
  "allocated message fits = ensure fits (source_error_new KUnavailable message)"

definition allocate_image :: "bool \<Rightarrow> image_descriptor \<Rightarrow> image_budget \<Rightarrow> source_error + (image_allocation \<times> image_budget)" where
  "allocate_image fits d b =
     and_then (reserve (byte_len d) b) (\<lambda>b'.
     and_then (allocated ''Camera image allocation failed'' fits) (\<lambda>_.
     Inr (\<lparr>al_descriptor = d, al_bytes = replicate (byte_len d) 0, al_reserved = byte_len d\<rparr>, b')))"

definition allocation_finish :: "image_allocation \<Rightarrow> camera_image" where
  "allocation_finish a = \<lparr>ci_descriptor = al_descriptor a, ci_bytes = al_bytes a, ci_native = None, ci_reserved = al_reserved a\<rparr>"

definition stage_bytes :: "bool \<Rightarrow> nat list \<Rightarrow> image_budget \<Rightarrow> source_error + (staged_bytes \<times> image_budget)" where
  "stage_bytes fits data b =
     and_then (ensure (length data \<le> image_chunk_bytes) (invalid_value ''Camera transport chunk exceeds its bound'')) (\<lambda>_.
     and_then (reserve (length data) b) (\<lambda>b'.
     and_then (allocated ''Camera transport allocation failed'' fits) (\<lambda>_.
     Inr (\<lparr>sg_bytes = data, sg_reserved = length data\<rparr>, b'))))"

definition reserve_native :: "exposure \<Rightarrow> image_budget \<Rightarrow> source_error + (native_permit \<times> image_budget)" where
  "reserve_native e b =
     and_then (descriptor_check \<lparr>de_width = ex_width e, de_height = ex_height e, de_planes = None,
       de_element = EtInt32, de_transmission = EtUInt16, de_order = OrderSensorRows\<rparr>) (\<lambda>d.
     let amount = byte_len d * 2 + native_metadata_bytes + native_worker_header_bytes in
     and_then (reserve amount b) (\<lambda>b'.
     Inr (\<lparr>np_exposure = e, np_descriptor = d, np_reserved = amount\<rparr>, b')))"

text \<open>\<open>NativeFramePermit::adopt\<close> consumes the permit: where it fails, the reservation is dropped.\<close>

definition adopt_frame :: "(json \<Rightarrow> nat list) \<Rightarrow> bool \<Rightarrow> native_permit \<Rightarrow> frame \<Rightarrow> image_budget
    \<Rightarrow> (source_error + camera_image) \<times> image_budget" where
  "adopt_frame to_vec fits p f b =
     (case and_then (ensure (\<not> (fr_exposure f \<noteq> np_exposure p \<or> length (fr_pixels f) \<noteq> byte_len (np_descriptor p)))
          (invalid_value ''Native camera frame differs from its admitted exposure'')) (\<lambda>_.
        and_then (allocated ''Native camera metadata allocation failed'' fits) (\<lambda>_.
        ensure (length (to_vec (fr_metadata f)) \<le> native_metadata_bytes)
          (invalid_value ''Native camera metadata exceeds its encoded bound''))) of
        Inl e \<Rightarrow> (Inl e, release (np_reserved p) b)
      | Inr _ \<Rightarrow>
          let kept = byte_len (np_descriptor p) + native_metadata_bytes in
          (Inr \<lparr>ci_descriptor = np_descriptor p, ci_bytes = fr_pixels f,
             ci_native = Some \<lparr>ni_exposure = fr_exposure f, ni_metadata = to_vec (fr_metadata f)\<rparr>, ci_reserved = kept\<rparr>,
           release (np_reserved p - kept) b))"

definition transfer_buffer_new :: "bool \<Rightarrow> camera_image \<Rightarrow> image_budget \<Rightarrow> source_error + (transfer_buffer \<times> image_budget)" where
  "transfer_buffer_new fits img b =
     (let n = min (length (ci_bytes img)) image_chunk_bytes in
      and_then (reserve n b) (\<lambda>b'.
      and_then (allocated ''Camera transfer allocation failed'' fits) (\<lambda>_.
      Inr (\<lparr>tb_bytes = replicate n 0, tb_reserved = n\<rparr>, b'))))"

section \<open>Export\<close>

definition byte_slice :: "nat \<Rightarrow> nat \<Rightarrow> nat list \<Rightarrow> nat list" where
  "byte_slice start n bytes = take n (drop start bytes)"

definition imagebytes_chunk :: "camera_image \<Rightarrow> nat \<Rightarrow> nat \<Rightarrow> source_error + nat list" where
  "imagebytes_chunk img offset maximum =
     (let d = ci_descriptor img; bytes = ci_bytes img; size = element_bytes (de_transmission d) in
      if length bytes < offset \<or> \<not> size dvd offset \<or> maximum < size \<or> image_chunk_bytes < maximum
      then Inl (invalid_value ''Invalid camera image chunk range or alignment'')
      else let n = min (length bytes - offset) (maximum div size * size) in
        if de_order d = OrderAscom then Inr (byte_slice offset n bytes)
        else Inr (concat (map (\<lambda>element. byte_slice (ascom_offset d element) size bytes) [offset div size..<(offset + n) div size])))"

text \<open>\<open>TransferBuffer::fill\<close>: the buffer afterwards, of which the first part is handed out.\<close>

fun fill_elements :: "image_descriptor \<Rightarrow> nat list \<Rightarrow> nat list \<Rightarrow> nat \<Rightarrow> nat list \<Rightarrow> nat list" where
  "fill_elements d bytes buffer index [] = buffer"
| "fill_elements d bytes buffer index (element # es) =
     (let size = element_bytes (de_transmission d) in
      fill_elements d bytes
        (take (index * size) buffer @ byte_slice (ascom_offset d element) size bytes @ drop ((index + 1) * size) buffer)
        (index + 1) es)"

definition transfer_fill :: "transfer_buffer \<Rightarrow> camera_image \<Rightarrow> nat \<Rightarrow> transfer_buffer \<times> nat list" where
  "transfer_fill tb img offset =
     (let d = ci_descriptor img; bytes = ci_bytes img; size = element_bytes (de_transmission d);
        n = min (length bytes - offset) (length (tb_bytes tb));
        buffer = (if de_order d = OrderAscom then byte_slice offset n bytes @ drop n (tb_bytes tb)
          else fill_elements d bytes (tb_bytes tb) 0 [offset div size..<(offset + n) div size])
      in (tb\<lparr>tb_bytes := buffer\<rparr>, take n buffer))"

section \<open>Reading a response\<close>

text \<open>What a reader delivers: these bytes, and then the end, or a failure.\<close>

record byte_stream =
  bs_bytes :: "nat list"
  bs_ends :: bool

datatype image_read_error = ReadIo | ReadContract source_error | ReadUpstream nat "nat list"

definition contract :: "source_error + 'a \<Rightarrow> image_read_error + 'a" where
  "contract r = (case r of Inl e \<Rightarrow> Inl (ReadContract e) | Inr x \<Rightarrow> Inr x)"

definition read_bytes :: "nat \<Rightarrow> byte_stream \<Rightarrow> image_read_error + (nat list \<times> byte_stream)" where
  "read_bytes n s =
     (if n \<le> length (bs_bytes s) then Inr (take n (bs_bytes s), s\<lparr>bs_bytes := drop n (bs_bytes s)\<rparr>) else Inl ReadIo)"

definition header_fields :: "nat list \<Rightarrow> nat list" where
  "header_fields bytes = map (\<lambda>i. of_le32 (byte_slice (4 * i) 4 bytes)) [0..<11]"

definition header_planes :: "nat \<Rightarrow> nat \<Rightarrow> source_error + nat option" where
  "header_planes rank planes =
     (if rank = 2 \<and> planes = 0 then Inr None
      else if rank = 3 \<and> planes \<noteq> 0 then Inr (Some planes)
      else Inl (invalid_value ''Invalid ImageBytes rank or plane dimension''))"

definition header_descriptor :: "nat list \<Rightarrow> source_error + image_descriptor option" where
  "header_descriptor h =
     (if h ! 1 \<noteq> 0 then Inr None
      else
        and_then (header_planes (h ! 7) (h ! 10)) (\<lambda>planes.
        and_then (element_from_id (h ! 5)) (\<lambda>element.
        and_then (element_from_id (h ! 6)) (\<lambda>transmission.
        and_then (descriptor_check \<lparr>de_width = h ! 8, de_height = h ! 9, de_planes = planes,
          de_element = element, de_transmission = transmission, de_order = OrderAscom\<rparr>) (\<lambda>d. Inr (Some d))))))"

function discard_bytes :: "nat \<Rightarrow> byte_stream \<Rightarrow> image_read_error + byte_stream" where
  "discard_bytes n s =
     (if n = 0 then Inr s
      else and_then (read_bytes (min n 1024) s) (\<lambda>(_, s). discard_bytes (n - min n 1024) s))"
  by pat_completeness auto
termination discard_bytes
  by (relation "measure fst") auto

text \<open>\<open>String::from_utf8\<close>.\<close>

fun utf8_valid :: "nat list \<Rightarrow> bool" where
  "utf8_valid [] = True"
| "utf8_valid (a # s) =
     (let tail = (\<lambda>b. 0x80 \<le> b \<and> b < (0xC0::nat)) in
      if a < 0x80 then utf8_valid s
      else case s of
          [] \<Rightarrow> False
        | b # s \<Rightarrow>
            if 0xC2 \<le> a \<and> a < 0xE0 then tail b \<and> utf8_valid s
            else case s of
                [] \<Rightarrow> False
              | c # s \<Rightarrow>
                  if 0xE0 \<le> a \<and> a < 0xF0 then
                    tail b \<and> tail c \<and> (a = 0xE0 \<longrightarrow> 0xA0 \<le> b) \<and> (a = 0xED \<longrightarrow> b < 0xA0) \<and> utf8_valid s
                  else case s of
                      [] \<Rightarrow> False
                    | e # s \<Rightarrow> 0xF0 \<le> a \<and> a < 0xF5 \<and> tail b \<and> tail c \<and> tail e
                        \<and> (a = 0xF0 \<longrightarrow> 0x90 \<le> b) \<and> (a = 0xF4 \<longrightarrow> b < 0x90) \<and> utf8_valid s)"

definition upstream_error :: "nat \<Rightarrow> byte_stream \<Rightarrow> image_read_error" where
  "upstream_error code s =
     (if \<not> bs_ends s \<and> length (bs_bytes s) \<le> max_error_bytes then ReadIo
      else if max_error_bytes < length (bs_bytes s) then ReadContract (invalid_value ''Camera image error message is too large'')
      else if \<not> utf8_valid (bs_bytes s) then ReadContract (invalid_value ''Camera image error is not UTF-8'')
      else ReadUpstream code (bs_bytes s))"

record imagebytes_response =
  ir_client :: nat
  ir_server :: nat
  ir_image :: camera_image

definition read_pixels :: "image_allocation \<Rightarrow> byte_stream \<Rightarrow> image_read_error + image_allocation" where
  "read_pixels a s =
     and_then (read_bytes (length (al_bytes a)) s) (\<lambda>(pixels, s).
     and_then (ensure (bs_bytes s \<noteq> [] \<or> bs_ends s) ReadIo) (\<lambda>_.
     and_then (ensure (bs_bytes s = []) (ReadContract (invalid_value ''Camera image body contains trailing data''))) (\<lambda>_.
     Inr (a\<lparr>al_bytes := pixels\<rparr>))))"

definition read_imagebytes_matching :: "bool \<Rightarrow> nat \<Rightarrow> (image_descriptor \<times> nat) option \<Rightarrow> byte_stream \<Rightarrow> image_budget
    \<Rightarrow> (image_read_error + imagebytes_response) \<times> image_budget" where
  "read_imagebytes_matching fits client expected s b =
     (case and_then (read_bytes imagebytes_header_bytes s) (\<lambda>(header, s).
        let h = header_fields header in
        and_then (ensure (\<not> (h ! 0 \<noteq> 1 \<or> 2147483647 < h ! 1 \<or> h ! 2 \<noteq> client \<or> h ! 4 < imagebytes_header_bytes
            \<or> image_chunk_bytes < h ! 4))
          (ReadContract (invalid_value ''Invalid ImageBytes header or client transaction''))) (\<lambda>_.
        and_then (contract (header_descriptor h)) (\<lambda>descriptor.
        and_then (ensure (case expected of None \<Rightarrow> True
            | Some (d, server) \<Rightarrow> \<not> (descriptor \<noteq> Some d \<or> h ! 3 \<noteq> server \<or> h ! 4 \<noteq> imagebytes_header_bytes))
          (ReadContract (invalid_value ''ImageBytes header differs from its admitted body contract''))) (\<lambda>_.
        and_then (discard_bytes (h ! 4 - imagebytes_header_bytes) s) (\<lambda>s.
        and_then (ok_or descriptor (upstream_error (h ! 1) s)) (\<lambda>d.
        and_then (contract (allocate_image fits d b)) (\<lambda>(a, b'). Inr (h, a, b', s))))))))
      of
        Inl e \<Rightarrow> (Inl e, b)
      | Inr (h, a, b', s) \<Rightarrow>
          (case read_pixels a s of
             Inl e \<Rightarrow> (Inl e, release (al_reserved a) b')
           | Inr a \<Rightarrow> (Inr \<lparr>ir_client = h ! 2, ir_server = h ! 3, ir_image = allocation_finish a\<rparr>, b')))"

definition read_imagebytes :: "bool \<Rightarrow> nat \<Rightarrow> byte_stream \<Rightarrow> image_budget
    \<Rightarrow> (image_read_error + imagebytes_response) \<times> image_budget" where
  "read_imagebytes fits client s b = read_imagebytes_matching fits client None s b"

end
