(* ===== verification/Camera_Export.thy ===== *)
theory Camera_Export imports Camera_Image begin

text \<open>
  What leaves a camera image: valid descriptors, the order in which elements are exported (a
  permutation of the stored elements), the agreement of both export routines with it, and reading back.
\<close>

section \<open>Valid descriptors\<close>

definition descriptor_ok :: "image_descriptor \<Rightarrow> bool" where
  "descriptor_ok d \<longleftrightarrow> 0 < de_width d \<and> de_width d \<le> 2147483647 \<and> 0 < de_height d \<and> de_height d \<le> 2147483647
     \<and> 0 < plane_count d \<and> plane_count d \<le> 2147483647 \<and> lossless (de_element d) (de_transmission d)
     \<and> byte_len d \<le> max_image_bytes"

lemma element_bytes_pos [simp]: "0 < element_bytes t"
  by (cases t) simp_all

lemma wire_bytes_Some: "wire_bytes d = Some v \<Longrightarrow> v = byte_len d"
  by (auto simp: wire_bytes_def byte_len_def checked_mul_def Option.bind_eq_Some_conv split: if_splits)

lemma wire_bytes_fits:
  assumes "byte_len d \<le> max_image_bytes" "0 < plane_count d"
  shows "wire_bytes d = Some (byte_len d)"
proof -
  have s: "1 \<le> element_bytes (de_transmission d)" using element_bytes_pos [of "de_transmission d"] by linarith
  have p: "1 \<le> plane_count d" using assms(2) by simp
  have "de_width d * de_height d * plane_count d * 1 \<le> byte_len d"
    unfolding byte_len_def by (rule mult_left_mono [OF s]) simp
  moreover have "de_width d * de_height d * 1 \<le> de_width d * de_height d * plane_count d"
    by (rule mult_left_mono [OF p]) simp
  ultimately have "de_width d * de_height d \<le> max_image_bytes" "de_width d * de_height d * plane_count d \<le> max_image_bytes"
    using assms(1) by linarith+
  with assms(1) show ?thesis by (simp add: wire_bytes_def checked_mul_def byte_len_def max_image_bytes_def)
qed

lemma descriptor_check_Inr: "descriptor_check d = Inr d' \<longleftrightarrow> d' = d \<and> descriptor_ok d"
proof -
  have "(\<exists>v \<in> set_option (wire_bytes d). v \<le> max_image_bytes) \<longleftrightarrow> byte_len d \<le> max_image_bytes" if "0 < plane_count d"
    using wire_bytes_Some [of d] wire_bytes_fits [of d] that by (auto split: option.splits)
  then show ?thesis
    by (auto simp: descriptor_check_def descriptor_ok_def and_then_def ensure_def split: sum.splits if_splits)
qed

lemma descriptor_order [simp]: "descriptor_ok (d\<lparr>de_order := k\<rparr>) = descriptor_ok d" "byte_len (d\<lparr>de_order := k\<rparr>) = byte_len d"
  "plane_count (d\<lparr>de_order := k\<rparr>) = plane_count d"
  by (simp_all add: descriptor_ok_def byte_len_def plane_count_def)

section \<open>The order of export\<close>

definition element_count :: "image_descriptor \<Rightarrow> nat" where
  "element_count d = de_width d * de_height d * plane_count d"

text \<open>The position in the source of an element of the ASCOM order: rows and columns change places.\<close>

definition source_index :: "image_descriptor \<Rightarrow> nat \<Rightarrow> nat" where
  "source_index d k =
     (if de_order d = OrderAscom then k
      else (k div plane_count d mod de_height d * de_width d + k div plane_count d div de_height d) * plane_count d
        + k mod plane_count d)"

lemma ascom_offset_index: "ascom_offset d k = source_index d k * element_bytes (de_transmission d)"
  by (simp add: ascom_offset_def source_index_def Let_def)

lemma byte_len_count: "byte_len d = element_count d * element_bytes (de_transmission d)"
  by (simp add: byte_len_def element_count_def)

lemma digits_below:
  fixes a b n m :: nat
  assumes "a < n" "b < m"
  shows "a * m + b < n * m"
proof -
  have "a * m + b < (a + 1) * m" using assms(2) by simp
  also have "\<dots> \<le> n * m" using assms(1) by (intro mult_right_mono) simp_all
  finally show ?thesis .
qed

text \<open>Transposing back and forth is the identity.\<close>

definition transposed :: "image_descriptor \<Rightarrow> image_descriptor" where
  "transposed d = d\<lparr>de_width := de_height d, de_height := de_width d\<rparr>"

lemma source_index_back:
  assumes "descriptor_ok d" "k < element_count d"
  shows "source_index d k < element_count d" and "source_index (transposed d) (source_index d k) = k"
proof -
  let ?w = "de_width d" and ?h = "de_height d" and ?p = "plane_count d"
  have pos: "0 < ?w" "0 < ?h" "0 < ?p" using assms(1) by (simp_all add: descriptor_ok_def)
  define x y l where "x = k div ?p div ?h" and "y = k div ?p mod ?h" and "l = k mod ?p"
  have "k div ?p < ?w * ?h" using assms(2) by (simp add: element_count_def less_mult_imp_div_less)
  then have b: "x < ?w" "y < ?h" "l < ?p" using pos by (simp_all add: x_def y_def l_def less_mult_imp_div_less)
  have k: "k = (x * ?h + y) * ?p + l" by (simp add: x_def y_def l_def)
  have "y * ?w + x < ?h * ?w" by (rule digits_below [OF b(2,1)])
  then have "(y * ?w + x) * ?p + l < ?h * ?w * ?p" using b(3) by (rule digits_below)
  then have "source_index d k < element_count d \<and> source_index (transposed d) (source_index d k) = k"
    using assms(2) b k
    by (auto simp: source_index_def element_count_def transposed_def plane_count_def [of "d\<lparr>de_width := _, de_height := _\<rparr>"]
        x_def [symmetric] y_def [symmetric] l_def [symmetric] plane_count_def [symmetric] mult.commute [of ?h ?w])
  then show "source_index d k < element_count d" "source_index (transposed d) (source_index d k) = k" by simp_all
qed

lemma source_index_bij:
  assumes "descriptor_ok d"
  shows "bij_betw (source_index d) {..<element_count d} {..<element_count d}"
proof -
  have "inj_on (source_index d) {..<element_count d}"
    using source_index_back(2) [OF assms] by (metis inj_onI lessThan_iff)
  moreover have "source_index d ` {..<element_count d} \<subseteq> {..<element_count d}"
    using source_index_back(1) [OF assms] by auto
  ultimately show ?thesis by (simp add: bij_betw_def endo_inj_surj)
qed

section \<open>Slices\<close>

lemma byte_slice_length: "start + n \<le> length bytes \<Longrightarrow> length (byte_slice start n bytes) = n"
  by (simp add: byte_slice_def)

text \<open>A part of a list of equally long pieces, cut at the borders of pieces.\<close>

lemma slice_of_pieces:
  assumes "\<And>k. k < n \<Longrightarrow> length (f k) = w" "j + m \<le> n"
  shows "byte_slice (j * w) (m * w) (concat (map f [0..<n])) = concat (map f [j..<j + m])"
proof -
  have len: "length (concat (map f [i..<i + l])) = l * w" if "i + l \<le> n" for i l
    using that by (induction l) (simp_all add: assms(1))
  have "[0..<n] = [0..<j] @ [j..<j + m] @ [j + m..<n]"
    using assms(2) by (metis add_leE le_add1 le_add_diff_inverse upt_add_eq_append zero_le append.assoc)
  then have "concat (map f [0..<n]) = concat (map f [0..<j]) @ concat (map f [j..<j + m]) @ concat (map f [j + m..<n])"
    by simp
  then show ?thesis using len [of 0 j] len [of j m] assms(2) by (simp add: byte_slice_def)
qed

lemma concat_slices:
  assumes "length bytes = n * w"
  shows "concat (map (\<lambda>k. byte_slice (k * w) w bytes) [0..<n]) = bytes"
proof -
  have "m \<le> n \<Longrightarrow> concat (map (\<lambda>k. byte_slice (k * w) w bytes) [0..<m]) = take (m * w) bytes" for m
    by (induction m) (simp_all add: byte_slice_def take_add add.commute [of w])
  from this [of n] show ?thesis using assms by simp
qed

section \<open>Images\<close>

definition camera_image_ok :: "camera_image \<Rightarrow> bool" where
  "camera_image_ok img \<longleftrightarrow> descriptor_ok (ci_descriptor img) \<and> length (ci_bytes img) = byte_len (ci_descriptor img)"

text \<open>An element as it is stored, and the whole image in the order of export.\<close>

definition stored_element :: "camera_image \<Rightarrow> nat \<Rightarrow> nat list" where
  "stored_element img k = (let w = element_bytes (de_transmission (ci_descriptor img)) in byte_slice (k * w) w (ci_bytes img))"

definition export_bytes :: "camera_image \<Rightarrow> nat list" where
  "export_bytes img = concat (map (\<lambda>k. stored_element img (source_index (ci_descriptor img) k))
     [0..<element_count (ci_descriptor img)])"

lemma stored_length:
  assumes "camera_image_ok img" "k < element_count (ci_descriptor img)"
  shows "length (stored_element img k) = element_bytes (de_transmission (ci_descriptor img))"
proof -
  let ?w = "element_bytes (de_transmission (ci_descriptor img))"
  have "(k + 1) * ?w \<le> element_count (ci_descriptor img) * ?w" using assms(2) by (intro mult_right_mono) simp_all
  then show ?thesis
    using assms(1) by (simp add: stored_element_def Let_def byte_slice_length camera_image_ok_def byte_len_count add.commute)
qed

lemma exported_length:
  assumes "camera_image_ok img" "k < element_count (ci_descriptor img)"
  shows "length (stored_element img (source_index (ci_descriptor img) k)) = element_bytes (de_transmission (ci_descriptor img))"
  using stored_length [OF assms(1)] source_index_back(1) [OF _ assms(2)] assms(1) by (simp add: camera_image_ok_def)

lemma export_slice:
  assumes "camera_image_ok img" "j + m \<le> element_count (ci_descriptor img)"
  shows "byte_slice (j * element_bytes (de_transmission (ci_descriptor img))) (m * element_bytes (de_transmission (ci_descriptor img)))
      (export_bytes img)
    = concat (map (\<lambda>k. stored_element img (source_index (ci_descriptor img) k)) [j..<j + m])"
  unfolding export_bytes_def by (rule slice_of_pieces) (use assms exported_length in auto)

lemma export_length:
  assumes "camera_image_ok img"
  shows "length (export_bytes img) = byte_len (ci_descriptor img)"
proof -
  have "n \<le> element_count (ci_descriptor img) \<Longrightarrow>
      length (concat (map (\<lambda>k. stored_element img (source_index (ci_descriptor img) k)) [0..<n]))
      = n * element_bytes (de_transmission (ci_descriptor img))" for n
    by (induction n) (simp_all add: exported_length [OF assms])
  then show ?thesis by (simp add: export_bytes_def byte_len_count)
qed

lemma export_ascom:
  assumes "camera_image_ok img" "de_order (ci_descriptor img) = OrderAscom"
  shows "export_bytes img = ci_bytes img"
  using concat_slices [of "ci_bytes img" "element_count (ci_descriptor img)" "element_bytes (de_transmission (ci_descriptor img))"] assms
  by (simp add: export_bytes_def stored_element_def Let_def source_index_def camera_image_ok_def byte_len_count)

lemma stored_offset:
  "byte_slice (ascom_offset (ci_descriptor img) k) (element_bytes (de_transmission (ci_descriptor img))) (ci_bytes img)
    = stored_element img (source_index (ci_descriptor img) k)"
  by (simp add: stored_element_def Let_def ascom_offset_index)

text \<open>Bytes in whole elements.\<close>

lemma whole_elements:
  assumes "camera_image_ok img" "element_bytes (de_transmission (ci_descriptor img)) dvd offset"
    and "offset \<le> length (ci_bytes img)" "element_bytes (de_transmission (ci_descriptor img)) dvd n" "n \<le> length (ci_bytes img) - offset"
  obtains j m where "offset = j * element_bytes (de_transmission (ci_descriptor img))"
    "n = m * element_bytes (de_transmission (ci_descriptor img))" "j + m \<le> element_count (ci_descriptor img)"
proof -
  let ?w = "element_bytes (de_transmission (ci_descriptor img))"
  from assms(2,4) obtain j m where jm: "offset = j * ?w" "n = m * ?w" by (metis dvdE mult.commute)
  have "(j + m) * ?w \<le> element_count (ci_descriptor img) * ?w"
    using assms(1) le_diff_conv2 [OF assms(3), of n] assms(5) jm
    by (simp add: camera_image_ok_def byte_len_count add_mult_distrib add.commute)
  then have "j + m \<le> element_count (ci_descriptor img)" by simp
  with jm that show ?thesis by blast
qed

lemma exported_part:
  assumes "camera_image_ok img" "element_bytes (de_transmission (ci_descriptor img)) dvd offset"
    and "offset \<le> length (ci_bytes img)" "element_bytes (de_transmission (ci_descriptor img)) dvd n" "n \<le> length (ci_bytes img) - offset"
  shows "concat (map (\<lambda>k. byte_slice (ascom_offset (ci_descriptor img) k) (element_bytes (de_transmission (ci_descriptor img))) (ci_bytes img))
      [offset div element_bytes (de_transmission (ci_descriptor img))
        ..<(offset + n) div element_bytes (de_transmission (ci_descriptor img))])
    = byte_slice offset n (export_bytes img)"
proof -
  obtain j m where jm: "offset = j * element_bytes (de_transmission (ci_descriptor img))"
    "n = m * element_bytes (de_transmission (ci_descriptor img))" "j + m \<le> element_count (ci_descriptor img)"
    by (rule whole_elements [OF assms])
  then show ?thesis
    using export_slice [OF assms(1) jm(3)] by (simp add: stored_offset add_mult_distrib [symmetric])
qed

text \<open>A chunk is the part of the export it was asked for, cut to whole elements.\<close>

lemma chunk_of_export:
  assumes "camera_image_ok img"
  shows "imagebytes_chunk img offset maximum =
    (let w = element_bytes (de_transmission (ci_descriptor img)) in
     if length (ci_bytes img) < offset \<or> \<not> w dvd offset \<or> maximum < w \<or> image_chunk_bytes < maximum
     then Inl (invalid_value ''Invalid camera image chunk range or alignment'')
     else Inr (byte_slice offset (min (length (ci_bytes img) - offset) (maximum div w * w)) (export_bytes img)))"
proof -
  let ?w = "element_bytes (de_transmission (ci_descriptor img))" and ?n = "length (ci_bytes img)"
  have whole: "?w dvd ?n" using assms by (simp add: camera_image_ok_def byte_len_count)
  have "?w dvd min (?n - offset) (maximum div ?w * ?w)" if "?w dvd offset"
    using dvd_diff_nat [OF whole that] by (simp add: min_def)
  then show ?thesis
    using exported_part [OF assms, of offset "min (?n - offset) (maximum div ?w * ?w)"] export_ascom [OF assms]
    by (auto simp: imagebytes_chunk_def Let_def not_less)
qed

lemma fill_elements_effect:
  assumes "\<And>k. k \<in> set ks \<Longrightarrow> length (byte_slice (ascom_offset d k) (element_bytes (de_transmission d)) bytes) = element_bytes (de_transmission d)"
    and "(i + length ks) * element_bytes (de_transmission d) \<le> length buffer"
  shows "fill_elements d bytes buffer i ks
    = take (i * element_bytes (de_transmission d)) buffer
      @ concat (map (\<lambda>k. byte_slice (ascom_offset d k) (element_bytes (de_transmission d)) bytes) ks)
      @ drop ((i + length ks) * element_bytes (de_transmission d)) buffer"
  using assms
proof (induction ks arbitrary: i buffer)
  case (Cons k ks)
  let ?w = "element_bytes (de_transmission d)" and ?s = "byte_slice (ascom_offset d k) (element_bytes (de_transmission d)) bytes"
  let ?b = "take (i * ?w) buffer @ ?s @ drop ((i + 1) * ?w) buffer"
  have s: "length ?s = ?w" using Cons.prems(1) [of k] by simp
  have fits: "(i + 1 + length ks) * ?w \<le> length buffer" using Cons.prems(2) by (simp add: algebra_simps)
  moreover have "i * ?w + ?w \<le> (i + 1 + length ks) * ?w" by (simp add: algebra_simps)
  ultimately have i: "i * ?w + ?w \<le> length buffer" by linarith
  have len: "length ?b = length buffer" using s i by simp
  have "fill_elements d bytes ?b (i + 1) ks = take ((i + 1) * ?w) ?b
      @ concat (map (\<lambda>k. byte_slice (ascom_offset d k) ?w bytes) ks) @ drop ((i + 1 + length ks) * ?w) ?b"
    by (rule Cons.IH) (use Cons.prems fits len in auto)
  moreover have "take ((i + 1) * ?w) ?b = take (i * ?w) buffer @ ?s" using s i by simp
  moreover have "drop ((i + 1 + length ks) * ?w) ?b = drop ((i + 1 + length ks) * ?w) buffer"
    using s i by (simp add: algebra_simps)
  ultimately show ?case by (simp add: Let_def)
qed simp

text \<open>A transfer buffer of whole elements is filled with the part of the export that follows.\<close>

lemma fill_of_export:
  assumes "camera_image_ok img" "element_bytes (de_transmission (ci_descriptor img)) dvd offset" "offset \<le> length (ci_bytes img)"
    and "element_bytes (de_transmission (ci_descriptor img)) dvd length (tb_bytes tb)"
  shows "snd (transfer_fill tb img offset)
      = byte_slice offset (min (length (ci_bytes img) - offset) (length (tb_bytes tb))) (export_bytes img)"
    and "length (tb_bytes (fst (transfer_fill tb img offset))) = length (tb_bytes tb)"
proof -
  let ?d = "ci_descriptor img"
  let ?w = "element_bytes (de_transmission ?d)" and ?n = "min (length (ci_bytes img) - offset) (length (tb_bytes tb))"
  have whole: "?w dvd length (ci_bytes img)" using assms(1) by (simp add: camera_image_ok_def byte_len_count)
  have n: "?w dvd ?n" using dvd_diff_nat [OF whole assms(2)] assms(4) by (simp add: min_def)
  obtain j m where jm: "offset = j * ?w" "?n = m * ?w" "j + m \<le> element_count ?d"
    by (rule whole_elements [OF assms(1-3) n]) simp
  let ?ks = "[offset div ?w..<(offset + ?n) div ?w]"
  have ks: "?ks = [j..<j + m]" using jm(1) unfolding jm(2) by (simp add: add_mult_distrib [symmetric])
  have part: "concat (map (\<lambda>k. byte_slice (ascom_offset ?d k) ?w (ci_bytes img)) ?ks) = byte_slice offset ?n (export_bytes img)"
    by (rule exported_part [OF assms(1-3) n]) simp
  have total: "offset + ?n \<le> length (export_bytes img)"
    using assms(1,3) export_length [OF assms(1)] by (simp add: camera_image_ok_def)
  have "fill_elements ?d (ci_bytes img) (tb_bytes tb) 0 ?ks = byte_slice offset ?n (export_bytes img) @ drop ?n (tb_bytes tb)"
  proof -
    have "fill_elements ?d (ci_bytes img) (tb_bytes tb) 0 ?ks = take (0 * ?w) (tb_bytes tb)
        @ concat (map (\<lambda>k. byte_slice (ascom_offset ?d k) ?w (ci_bytes img)) ?ks) @ drop ((0 + length ?ks) * ?w) (tb_bytes tb)"
      by (rule fill_elements_effect)
        (use jm ks exported_length [OF assms(1)] in \<open>auto simp: stored_offset min_def split: if_splits\<close>)
    then show ?thesis using part jm(2) by (simp add: ks)
  qed
  then have "transfer_fill tb img offset = (tb\<lparr>tb_bytes := byte_slice offset ?n (export_bytes img) @ drop ?n (tb_bytes tb)\<rparr>,
      take ?n (byte_slice offset ?n (export_bytes img) @ drop ?n (tb_bytes tb)))"
    using export_ascom [OF assms(1)] by (simp add: transfer_fill_def Let_def)
  then show "snd (transfer_fill tb img offset) = byte_slice offset ?n (export_bytes img)"
    "length (tb_bytes (fst (transfer_fill tb img offset))) = length (tb_bytes tb)"
    using byte_slice_length [OF total] by simp_all
qed

end
