(* ===== verification/Camera_Transport.thy ===== *)
theory Camera_Transport imports Camera_Export "HOL-Library.Multiset" begin

text \<open>
  What the transport of camera images promises: the order of the exported pixels, the agreement of the
  export routines, that a response read back is the image sent, and that nothing but an exact response
  is accepted.
\<close>

section \<open>Reading\<close>

lemma read_bytes_Inr:
  "read_bytes n s = Inr (x, t) \<longleftrightarrow> bs_bytes s = x @ bs_bytes t \<and> length x = n \<and> bs_ends t = bs_ends s"
  by (cases s; cases t) (auto simp: read_bytes_def)

declare discard_bytes.simps [simp del]

lemma discard_bytes_effect:
  "discard_bytes n s = (if n \<le> length (bs_bytes s) then Inr (s\<lparr>bs_bytes := drop n (bs_bytes s)\<rparr>) else Inl ReadIo)"
proof (induction n s rule: discard_bytes.induct)
  case (1 n s)
  show ?case
  proof (cases "n = 0")
    case False
    let ?m = "min n 1024"
    have step: "discard_bytes n s = and_then (read_bytes ?m s) (\<lambda>(_, s). discard_bytes (n - ?m) s)"
      using False by (subst discard_bytes.simps) simp
    show ?thesis
    proof (cases "?m \<le> length (bs_bytes s)")
      case True
      then have "discard_bytes n s = discard_bytes (n - ?m) (s\<lparr>bs_bytes := drop ?m (bs_bytes s)\<rparr>)"
        using step by (simp add: read_bytes_def)
      also have "\<dots> = (if n - ?m \<le> length (bs_bytes s) - ?m then Inr (s\<lparr>bs_bytes := drop n (bs_bytes s)\<rparr>) else Inl ReadIo)"
        using "1.IH" [OF False, of "s\<lparr>bs_bytes := drop ?m (bs_bytes s)\<rparr>"] by (cases "n \<le> 1024") (simp_all add: min_def)
      finally show ?thesis using True by (simp add: min_def split: if_splits)
    qed (use step in \<open>simp add: read_bytes_def\<close>)
  qed (simp add: discard_bytes.simps)
qed

lemma contract_Inr [simp]: "contract r = Inr x \<longleftrightarrow> r = Inr x"
  by (simp add: contract_def split: sum.split)

lemma element_from_id_id [simp]: "element_from_id (element_id t) = Inr t"
  by (cases t) (simp_all add: element_from_id_def ok_or_def)

lemma header_descriptor_ok:
  assumes "header_descriptor h = Inr (Some d)"
  shows "descriptor_ok d" "de_order d = OrderAscom" "h ! 1 = 0"
  using assms by (auto simp: header_descriptor_def and_then_def descriptor_check_Inr split: sum.splits if_splits)

lemma reserve_Inr: "reserve n b = Inr b' \<longleftrightarrow> b' = b\<lparr>ib_used := ib_used b + n\<rparr> \<and> ib_used b + n < 2 ^ 64 \<and> ib_used b + n \<le> ib_maximum b"
  by (auto simp: reserve_def and_then_def ok_or_def checked_add_def split: option.splits sum.splits if_splits)

lemma allocate_image_Inr:
  "allocate_image fits d b = Inr (a, b') \<longleftrightarrow> fits \<and> reserve (byte_len d) b = Inr b'
     \<and> a = \<lparr>al_descriptor = d, al_bytes = replicate (byte_len d) 0, al_reserved = byte_len d\<rparr>"
  by (auto simp: allocate_image_def and_then_def allocated_def ensure_def split: sum.splits if_splits)

lemma release_reserved: "reserve n b = Inr b' \<Longrightarrow> release n b' = b"
  by (auto simp: reserve_Inr release_def)

lemma read_pixels_Inr:
  "read_pixels a s = Inr c \<longleftrightarrow> bs_ends s \<and> length (bs_bytes s) = length (al_bytes a) \<and> c = a\<lparr>al_bytes := bs_bytes s\<rparr>"
  by (auto simp: read_pixels_def and_then_def ensure_def read_bytes_def split: sum.splits if_splits)

text \<open>The steps up to the allocation, and what is accepted.\<close>

definition read_start :: "bool \<Rightarrow> nat \<Rightarrow> (image_descriptor \<times> nat) option \<Rightarrow> byte_stream \<Rightarrow> image_budget
    \<Rightarrow> image_read_error + (nat list \<times> image_allocation \<times> image_budget \<times> byte_stream)" where
  "read_start fits client expected s b = and_then (read_bytes imagebytes_header_bytes s) (\<lambda>(header, s).
        let h = header_fields header in
        and_then (ensure (\<not> (h ! 0 \<noteq> 1 \<or> 2147483647 < h ! 1 \<or> h ! 2 \<noteq> client \<or> h ! 4 < imagebytes_header_bytes
            \<or> image_chunk_bytes < h ! 4))
          (ReadContract (invalid_value ''Invalid ImageBytes header or client transaction''))) (\<lambda>_.
        and_then (contract (header_descriptor h)) (\<lambda>descriptor.
        and_then (ensure (case expected of None \<Rightarrow> True
            | Some (d, server) \<Rightarrow> \<not> (descriptor \<noteq> Some d \<or> h ! 3 \<noteq> server \<or> h ! 4 \<noteq> imagebytes_header_bytes))
          (ReadContract (invalid_value ''ImageBytes header differs from its admitted body contract''))) (\<lambda>_.
        and_then (discard_bytes (h ! 4 - imagebytes_header_bytes) s) (\<lambda>s.
        and_then (ok_or descriptor (upstream_error (h ! 1) s)) (\<lambda>d.
        and_then (contract (allocate_image fits d b)) (\<lambda>(a, b'). Inr (h, a, b', s))))))))"

lemma read_by_start:
  "read_imagebytes_matching fits client expected s b = (case read_start fits client expected s b of
      Inl e \<Rightarrow> (Inl e, b)
    | Inr (h, a, b', s) \<Rightarrow>
        (case read_pixels a s of
           Inl e \<Rightarrow> (Inl e, release (al_reserved a) b')
         | Inr a \<Rightarrow> (Inr \<lparr>ir_client = h ! 2, ir_server = h ! 3, ir_image = allocation_finish a\<rparr>, b')))"
  by (simp only: read_imagebytes_matching_def read_start_def)

definition matches :: "(image_descriptor \<times> nat) option \<Rightarrow> image_descriptor \<Rightarrow> nat \<Rightarrow> nat list \<Rightarrow> bool" where
  "matches expected d server extension \<longleftrightarrow> (case expected of None \<Rightarrow> True | Some (d', server') \<Rightarrow> d' = d \<and> server' = server \<and> extension = [])"

lemma read_start_Inr:
  assumes "read_start fits client expected s b = Inr (h, a, b', t)"
  shows "\<exists>header extension. bs_bytes s = header @ extension @ bs_bytes t \<and> length header = imagebytes_header_bytes
      \<and> h = header_fields header \<and> h ! 2 = client \<and> length extension \<le> image_chunk_bytes - imagebytes_header_bytes
      \<and> matches expected (al_descriptor a) (h ! 3) extension"
    and "bs_ends t = bs_ends s" "header_descriptor h = Inr (Some (al_descriptor a))"
    and "fits" "reserve (byte_len (al_descriptor a)) b = Inr b'" "length (al_bytes a) = byte_len (al_descriptor a)"
    and "al_reserved a = byte_len (al_descriptor a)"
proof -
  from assms obtain header s1 where r: "read_bytes imagebytes_header_bytes s = Inr (header, s1)"
    and h: "h = header_fields header" and c: "h ! 2 = client" "imagebytes_header_bytes \<le> h ! 4" "h ! 4 \<le> image_chunk_bytes"
    and hd: "header_descriptor h = Inr (Some (al_descriptor a))"
    and e: "case expected of None \<Rightarrow> True | Some (d, server) \<Rightarrow> al_descriptor a = d \<and> h ! 3 = server \<and> h ! 4 = imagebytes_header_bytes"
    and dis: "discard_bytes (h ! 4 - imagebytes_header_bytes) s1 = Inr t"
    and al: "allocate_image fits (al_descriptor a) b = Inr (a, b')"
    by (auto simp: read_start_def and_then_def ensure_def Let_def ok_or_def allocate_image_Inr
        split: sum.splits if_splits option.splits)
  let ?n = "h ! 4 - imagebytes_header_bytes"
  have t: "t = s1\<lparr>bs_bytes := drop ?n (bs_bytes s1)\<rparr>" and n: "?n \<le> length (bs_bytes s1)"
    using dis by (simp_all add: discard_bytes_effect split: if_splits)
  show "\<exists>header extension. bs_bytes s = header @ extension @ bs_bytes t \<and> length header = imagebytes_header_bytes
      \<and> h = header_fields header \<and> h ! 2 = client \<and> length extension \<le> image_chunk_bytes - imagebytes_header_bytes
      \<and> matches expected (al_descriptor a) (h ! 3) extension"
    by (rule exI [of _ header], rule exI [of _ "take ?n (bs_bytes s1)"])
      (use r h c e t n in \<open>auto simp: read_bytes_Inr matches_def split: option.splits\<close>)
  show "bs_ends t = bs_ends s" using r t by (simp add: read_bytes_Inr)
  show "header_descriptor h = Inr (Some (al_descriptor a))" by (rule hd)
  from al have "fits \<and> reserve (byte_len (al_descriptor a)) b = Inr b'
     \<and> a = \<lparr>al_descriptor = al_descriptor a, al_bytes = replicate (byte_len (al_descriptor a)) 0,
         al_reserved = byte_len (al_descriptor a)\<rparr>" by (simp only: allocate_image_Inr)
  then show "fits" "reserve (byte_len (al_descriptor a)) b = Inr b'" "length (al_bytes a) = byte_len (al_descriptor a)"
    "al_reserved a = byte_len (al_descriptor a)"
    by (simp, simp, metis image_allocation.select_convs(2) length_replicate, metis image_allocation.select_convs(3))
qed

section \<open>What is promised\<close>


text \<open>C38: both ways to export, chunk by chunk and through a reusable transfer buffer, deliver exactly the bytes
  of the image in the order of export: an admissible chunk is the part it was asked for in whole elements,
  and a fresh buffer, filled again and again, never shows what it held before.\<close>

theorem export_routines_agree:
  assumes "camera_image_ok img" "element_bytes (de_transmission (ci_descriptor img)) dvd offset" "offset \<le> length (ci_bytes img)"
    and "element_bytes (de_transmission (ci_descriptor img)) \<le> maximum" "maximum \<le> image_chunk_bytes"
    and "length (tb_bytes tb) = min (length (ci_bytes img)) image_chunk_bytes"
  shows "imagebytes_chunk img offset maximum = Inr (byte_slice offset
        (min (length (ci_bytes img) - offset) (maximum - maximum mod element_bytes (de_transmission (ci_descriptor img)))) (export_bytes img))
    \<and> snd (transfer_fill tb img offset) = byte_slice offset (min (length (ci_bytes img) - offset) image_chunk_bytes) (export_bytes img)
    \<and> length (tb_bytes (fst (transfer_fill tb img offset))) = length (tb_bytes tb)"
proof -
  let ?w = "element_bytes (de_transmission (ci_descriptor img))"
  have "?w dvd length (ci_bytes img)" using assms(1) by (simp add: camera_image_ok_def byte_len_count)
  moreover have "?w dvd image_chunk_bytes"
    by (cases "de_transmission (ci_descriptor img)") (simp_all add: image_chunk_bytes_def)
  ultimately have "?w dvd length (tb_bytes tb)" using assms(6) by (simp add: min_def)
  note fill = fill_of_export [OF assms(1-3) this]
  have "min (length (ci_bytes img) - offset) (length (tb_bytes tb)) = min (length (ci_bytes img) - offset) image_chunk_bytes"
    using assms(6) by simp
  with fill chunk_of_export [OF assms(1), of offset maximum] assms(2-5) show ?thesis
    by (simp add: Let_def minus_mod_eq_div_mult)
qed

section \<open>The header\<close>

lemma header_fields_concat:
  assumes "length xs = 11" "\<forall>x \<in> set xs. x < 2 ^ 32"
  shows "header_fields (concat (map le32 xs)) = xs"
proof (rule nth_equalityI)
  show "length (header_fields (concat (map le32 xs))) = length xs" by (simp add: header_fields_def assms(1))
next
  fix i
  assume "i < length (header_fields (concat (map le32 xs)))"
  then have i: "i < 11" by (simp add: header_fields_def)
  have "map le32 xs = map (\<lambda>k. le32 (xs ! k)) [0..<11]"
    using assms(1) by (intro nth_equalityI) simp_all
  then have "byte_slice (i * 4) (1 * 4) (concat (map le32 xs)) = concat (map (\<lambda>k. le32 (xs ! k)) [i..<i + 1])"
    using slice_of_pieces [of 11 "\<lambda>k. le32 (xs ! k)" 4 i 1] i by simp
  then have "byte_slice (4 * i) 4 (concat (map le32 xs)) = le32 (xs ! i)" by (simp add: mult.commute)
  then show "header_fields (concat (map le32 xs)) ! i = xs ! i"
    using i assms of_le32_le32 [of "xs ! i"] by (simp add: header_fields_def)
qed

lemma header_length [simp]: "length (imagebytes_header d client server) = imagebytes_header_bytes"
  by (simp add: imagebytes_header_def imagebytes_header_bytes_def)

lemma element_id_small: "element_id t < 2 ^ 32"
  by (cases t) simp_all

lemma header_fields_header:
  assumes "descriptor_ok d" "client < 2 ^ 32" "server < 2 ^ 32"
  shows "header_fields (imagebytes_header d client server) = [1, 0, client, server, imagebytes_header_bytes,
      element_id (de_element d), element_id (de_transmission d),
      if de_planes d \<noteq> None then 3 else 2, de_width d, de_height d, (case de_planes d of Some n \<Rightarrow> n | None \<Rightarrow> 0)]"
  unfolding imagebytes_header_def
  by (rule header_fields_concat)
    (use assms element_id_small [of "de_element d"] element_id_small [of "de_transmission d"] in
      \<open>auto simp: descriptor_ok_def imagebytes_header_bytes_def plane_count_def split: option.splits\<close>)

lemma header_descriptor_header:
  assumes "descriptor_ok d" "client < 2 ^ 32" "server < 2 ^ 32"
  shows "header_descriptor (header_fields (imagebytes_header d client server)) = Inr (Some (d\<lparr>de_order := OrderAscom\<rparr>))"
proof -
  have "descriptor_check (d\<lparr>de_order := OrderAscom\<rparr>) = Inr (d\<lparr>de_order := OrderAscom\<rparr>)"
    using assms(1) by (simp add: descriptor_check_Inr)
  then have check: "descriptor_check \<lparr>de_width = de_width d, de_height = de_height d, de_planes = de_planes d, de_element = de_element d,
      de_transmission = de_transmission d, de_order = OrderAscom\<rparr> = Inr (d\<lparr>de_order := OrderAscom\<rparr>)" by (cases d) simp
  have planes: "header_planes (if de_planes d \<noteq> None then 3 else 2) (case de_planes d of Some n \<Rightarrow> n | None \<Rightarrow> 0) = Inr (de_planes d)"
    using assms(1) by (cases "de_planes d") (simp_all add: header_planes_def descriptor_ok_def plane_count_def)
  show ?thesis
    unfolding header_fields_header [OF assms] header_descriptor_def using check planes by (simp add: numeral_eq_Suc)
qed

text \<open>C17: an image sent as an ImageBytes response is read back: the reader gets the descriptor in the order of
  export, both transaction numbers and the exported bytes, whether or not it insists on this descriptor
  and server transaction, and its budget is charged for exactly these bytes.\<close>

theorem imagebytes_roundtrip:
  assumes "camera_image_ok img" "client < 2 ^ 32" "server < 2 ^ 32"
    and "reserve (byte_len (ci_descriptor img)) b = Inr b'"
    and "expected = None \<or> expected = Some ((ci_descriptor img)\<lparr>de_order := OrderAscom\<rparr>, server)"
  shows "read_imagebytes_matching True client expected
      \<lparr>bs_bytes = imagebytes_header (ci_descriptor img) client server @ export_bytes img, bs_ends = True\<rparr> b
    = (Inr \<lparr>ir_client = client, ir_server = server, ir_image = \<lparr>ci_descriptor = (ci_descriptor img)\<lparr>de_order := OrderAscom\<rparr>,
         ci_bytes = export_bytes img, ci_native = None, ci_reserved = byte_len (ci_descriptor img)\<rparr>\<rparr>, b')"
proof -
  let ?d = "ci_descriptor img" and ?h = "imagebytes_header (ci_descriptor img) client server"
  let ?s = "\<lparr>bs_bytes = ?h @ export_bytes img, bs_ends = True\<rparr>"
  have ok: "descriptor_ok ?d" using assms(1) by (simp add: camera_image_ok_def)
  note fields = header_fields_header [OF ok assms(2,3)]
  have nth: "header_fields ?h ! 0 = 1" "header_fields ?h ! 1 = 0" "header_fields ?h ! 2 = client"
    "header_fields ?h ! 3 = server" "header_fields ?h ! 4 = imagebytes_header_bytes"
    by (simp_all add: fields numeral_eq_Suc)
  have small: "\<not> image_chunk_bytes < imagebytes_header_bytes" by (simp add: image_chunk_bytes_def imagebytes_header_bytes_def)
  have read: "read_bytes imagebytes_header_bytes ?s = Inr (?h, \<lparr>bs_bytes = export_bytes img, bs_ends = True\<rparr>)"
    by (simp add: read_bytes_Inr)
  have alloc: "allocate_image True (?d\<lparr>de_order := OrderAscom\<rparr>) b
      = Inr (\<lparr>al_descriptor = ?d\<lparr>de_order := OrderAscom\<rparr>, al_bytes = replicate (byte_len ?d) 0, al_reserved = byte_len ?d\<rparr>, b')"
    using assms(4) by (simp add: allocate_image_Inr)
  have "read_start True client expected ?s b = Inr (header_fields ?h,
      \<lparr>al_descriptor = ?d\<lparr>de_order := OrderAscom\<rparr>, al_bytes = replicate (byte_len ?d) 0, al_reserved = byte_len ?d\<rparr>, b',
      \<lparr>bs_bytes = export_bytes img, bs_ends = True\<rparr>)"
    using assms(5)
    by (elim disjE) (simp_all add: read_start_def read nth small Let_def ensure_def header_descriptor_header [OF ok assms(2,3)]
        contract_def discard_bytes_effect ok_or_def alloc del: One_nat_def)
  moreover have "read_pixels \<lparr>al_descriptor = ?d\<lparr>de_order := OrderAscom\<rparr>, al_bytes = replicate (byte_len ?d) 0, al_reserved = byte_len ?d\<rparr>
      \<lparr>bs_bytes = export_bytes img, bs_ends = True\<rparr>
    = Inr \<lparr>al_descriptor = ?d\<lparr>de_order := OrderAscom\<rparr>, al_bytes = export_bytes img, al_reserved = byte_len ?d\<rparr>"
    by (simp add: read_pixels_Inr export_length [OF assms(1)])
  ultimately show ?thesis
    by (simp add: read_by_start nth allocation_finish_def)
qed

text \<open>C27: nothing but an exact response becomes an image: the accepted bytes are a header of 44 bytes for the
  caller's transaction, an extension within one chunk (none where a body contract was admitted) and as many
  pixel bytes as the valid descriptor says, with nothing left out, nothing after them and no failure of the
  connection; the budget is charged for the pixels, and for nothing if the response is refused.\<close>

theorem accepted_response_is_exact:
  "case read_imagebytes_matching fits client expected s b of
     (Inr r, b') \<Rightarrow> bs_ends s \<and> ir_client r = client \<and> camera_image_ok (ir_image r)
       \<and> de_order (ci_descriptor (ir_image r)) = OrderAscom
       \<and> b' = b\<lparr>ib_used := ib_used b + length (ci_bytes (ir_image r))\<rparr> \<and> ib_used b' \<le> ib_maximum b'
       \<and> (\<exists>header extension. bs_bytes s = header @ extension @ ci_bytes (ir_image r)
            \<and> length header = imagebytes_header_bytes \<and> length extension \<le> image_chunk_bytes - imagebytes_header_bytes
            \<and> header_descriptor (header_fields header) = Inr (Some (ci_descriptor (ir_image r)))
            \<and> header_fields header ! 2 = client
            \<and> matches expected (ci_descriptor (ir_image r)) (ir_server r) extension)
   | (Inl _, b') \<Rightarrow> b' = b"
proof (cases "read_start fits client expected s b")
  case (Inl e)
  then show ?thesis by (simp add: read_by_start)
next
  case (Inr q)
  obtain h a b' t where q: "q = (h, a, b', t)" by (cases q)
  note start = read_start_Inr [OF Inr [unfolded q]]
  show ?thesis
  proof (cases "read_pixels a t")
    case (Inl e)
    then show ?thesis using Inr q release_reserved [OF start(5)] start(7) by (simp add: read_by_start)
  next
    case (Inr c)
    then have c: "bs_ends t" "length (bs_bytes t) = length (al_bytes a)" "c = a\<lparr>al_bytes := bs_bytes t\<rparr>"
      by (simp_all add: read_pixels_Inr)
    have image: "read_imagebytes_matching fits client expected s b
        = (Inr \<lparr>ir_client = h ! 2, ir_server = h ! 3, ir_image = allocation_finish c\<rparr>, b')"
      using Inr \<open>read_start fits client expected s b = Inr q\<close> q by (simp add: read_by_start)
    obtain header extension where parts: "bs_bytes s = header @ extension @ bs_bytes t"
      "length header = imagebytes_header_bytes" "h = header_fields header" "h ! 2 = client"
      "length extension \<le> image_chunk_bytes - imagebytes_header_bytes" "matches expected (al_descriptor a) (h ! 3) extension"
      using start(1) by blast
    have "bs_bytes s = header @ extension @ bs_bytes t \<and> length header = imagebytes_header_bytes
        \<and> length extension \<le> image_chunk_bytes - imagebytes_header_bytes
        \<and> header_descriptor (header_fields header) = Inr (Some (al_descriptor a)) \<and> header_fields header ! 2 = client
        \<and> matches expected (al_descriptor a) (h ! 3) extension"
      using parts start(3) by simp
    then show ?thesis
      unfolding image
      using c start(2,5,6) header_descriptor_ok [OF start(3)] parts(4)
      by (auto simp: allocation_finish_def camera_image_ok_def reserve_Inr)
  qed
qed

section \<open>A small image\<close>

definition small_descriptor :: image_descriptor where
  "small_descriptor = \<lparr>de_width = 2, de_height = 3, de_planes = None, de_element = EtInt32, de_transmission = EtByte,
     de_order = OrderSensorRows\<rparr>"

definition small_image :: camera_image where
  "small_image = \<lparr>ci_descriptor = small_descriptor, ci_bytes = [10, 11, 20, 21, 30, 31], ci_native = None, ci_reserved = 6\<rparr>"

definition small_budget :: image_budget where
  "small_budget = \<lparr>ib_maximum = 100, ib_used = 6\<rparr>"

lemma small_image_ok: "camera_image_ok small_image"
  by (simp add: camera_image_ok_def small_image_def small_descriptor_def descriptor_ok_def byte_len_def plane_count_def
      lossless_def max_image_bytes_def)

lemma small_image_simps:
  "ci_descriptor small_image = small_descriptor" "de_transmission small_descriptor = EtByte" "de_width small_descriptor = 2"
  "de_height small_descriptor = 3" "plane_count small_descriptor = 1" "de_order small_descriptor = OrderSensorRows"
  "length (ci_bytes small_image) = 6"
  by (simp_all add: small_image_def small_descriptor_def plane_count_def)


theorem export_routines_agree_witness:
  "imagebytes_chunk small_image 2 3 = Inr (byte_slice 2 3 (export_bytes small_image))
    \<and> snd (transfer_fill \<lparr>tb_bytes = [9, 9, 9, 9, 9, 9], tb_reserved = 6\<rparr> small_image 2) = byte_slice 2 4 (export_bytes small_image)"
  using export_routines_agree [OF small_image_ok, of 2 3 "\<lparr>tb_bytes = [9, 9, 9, 9, 9, 9], tb_reserved = 6\<rparr>"]
  by (simp add: small_image_simps image_chunk_bytes_def)

theorem imagebytes_roundtrip_witness:
  "fst (read_imagebytes True 7
      \<lparr>bs_bytes = imagebytes_header small_descriptor 7 9 @ [10, 20, 30, 11, 21, 31], bs_ends = True\<rparr> small_budget)
    = Inr \<lparr>ir_client = 7, ir_server = 9, ir_image = \<lparr>ci_descriptor = small_descriptor\<lparr>de_order := OrderAscom\<rparr>,
        ci_bytes = [10, 20, 30, 11, 21, 31], ci_native = None, ci_reserved = 6\<rparr>\<rparr>"
proof -
  have export: "export_bytes small_image = [10, 20, 30, 11, 21, 31]" by code_simp
  have "byte_len small_descriptor = 6" by code_simp
  then have "reserve (byte_len (ci_descriptor small_image)) small_budget = Inr (small_budget\<lparr>ib_used := 12\<rparr>)"
    by (simp add: reserve_Inr small_image_simps small_budget_def)
  from imagebytes_roundtrip [OF small_image_ok _ _ this, of 7 9 None] show ?thesis
    using \<open>byte_len small_descriptor = 6\<close> by (simp add: read_imagebytes_def small_image_simps export)
qed

end
