(* ===== verification/Camera_Memory.thy ===== *)
theory Camera_Memory imports Camera_Transport Reachability begin

text \<open>
  The memory of camera images: everything that holds bytes (staged transport chunks, allocations, native
  permits, images, transfer buffers) holds a reservation of one shared budget, as a system of steps.
\<close>

section \<open>Reservations\<close>

text \<open>However often the loop is overtaken, it reserves on top of what is in use when it succeeds.\<close>

lemma reserve_loop_atomic:
  "reserve_loop maximum bytes used found = Inr v \<Longrightarrow> v = last (used # found) + bytes \<and> v \<le> maximum \<and> v < 2 ^ 64"
proof (induction found arbitrary: used)
  case Nil
  then show ?case
    by (auto simp: and_then_def ok_or_def checked_add_def Option.bind_eq_Some_conv split: sum.splits option.splits if_splits)
next
  case (Cons c found)
  have "reserve_loop maximum bytes c found = Inr v"
    using Cons.prems by (subst (asm) reserve_loop.simps) (auto simp: and_then_def split: sum.splits)
  from Cons.IH [OF this] show ?case by simp
qed

datatype holding = HStaged staged_bytes | HAllocation image_allocation | HPermit native_permit
  | HImage camera_image | HTransfer transfer_buffer

fun held_reserved :: "holding \<Rightarrow> nat" where
  "held_reserved (HStaged g) = sg_reserved g"
| "held_reserved (HAllocation a) = al_reserved a"
| "held_reserved (HPermit p) = np_reserved p"
| "held_reserved (HImage img) = ci_reserved img"
| "held_reserved (HTransfer tb) = tb_reserved tb"

text \<open>The bytes that are held; under a permit the worker's response and the image may both exist.\<close>

definition native_bytes :: "camera_image \<Rightarrow> nat" where
  "native_bytes img = (case ci_native img of None \<Rightarrow> 0 | Some n \<Rightarrow> length (ni_metadata n))"

fun held_bytes :: "holding \<Rightarrow> nat" where
  "held_bytes (HStaged g) = length (sg_bytes g)"
| "held_bytes (HAllocation a) = length (al_bytes a)"
| "held_bytes (HPermit p) = 2 * byte_len (np_descriptor p) + native_metadata_bytes + native_worker_header_bytes"
| "held_bytes (HImage img) = length (ci_bytes img) + native_bytes img"
| "held_bytes (HTransfer tb) = length (tb_bytes tb)"

record image_memory =
  mm_budget :: image_budget
  mm_held :: "holding multiset"

definition memory_initial :: "nat \<Rightarrow> image_memory \<Rightarrow> bool" where
  "memory_initial maximum m \<longleftrightarrow> image_budget_new maximum = Inr (mm_budget m) \<and> mm_held m = {#}"

inductive memory_step :: "(json \<Rightarrow> nat list) \<Rightarrow> image_memory \<Rightarrow> image_memory \<Rightarrow> bool" for to_vec where
  bytes_staged: "stage_bytes fits data b = Inr (g, b') \<Longrightarrow>
    memory_step to_vec \<lparr>mm_budget = b, mm_held = M\<rparr> \<lparr>mm_budget = b', mm_held = add_mset (HStaged g) M\<rparr>"
| image_allocated: "descriptor_check d0 = Inr d \<Longrightarrow> allocate_image fits d b = Inr (a, b') \<Longrightarrow>
    memory_step to_vec \<lparr>mm_budget = b, mm_held = M\<rparr> \<lparr>mm_budget = b', mm_held = add_mset (HAllocation a) M\<rparr>"
| pixels_written: "length pixels = length (al_bytes a) \<Longrightarrow>
    memory_step to_vec \<lparr>mm_budget = b, mm_held = add_mset (HAllocation a) M\<rparr>
      \<lparr>mm_budget = b, mm_held = add_mset (HAllocation (a\<lparr>al_bytes := pixels\<rparr>)) M\<rparr>"
| image_finished: "memory_step to_vec \<lparr>mm_budget = b, mm_held = add_mset (HAllocation a) M\<rparr>
      \<lparr>mm_budget = b, mm_held = add_mset (HImage (allocation_finish a)) M\<rparr>"
| native_permitted: "reserve_native e b = Inr (p, b') \<Longrightarrow>
    memory_step to_vec \<lparr>mm_budget = b, mm_held = M\<rparr> \<lparr>mm_budget = b', mm_held = add_mset (HPermit p) M\<rparr>"
| frame_adopted: "adopt_frame to_vec fits p f b = (Inr img, b') \<Longrightarrow>
    memory_step to_vec \<lparr>mm_budget = b, mm_held = add_mset (HPermit p) M\<rparr> \<lparr>mm_budget = b', mm_held = add_mset (HImage img) M\<rparr>"
| frame_refused: "adopt_frame to_vec fits p f b = (Inl e, b') \<Longrightarrow>
    memory_step to_vec \<lparr>mm_budget = b, mm_held = add_mset (HPermit p) M\<rparr> \<lparr>mm_budget = b', mm_held = M\<rparr>"
| transfer_begun: "HImage img \<in># M \<Longrightarrow> transfer_buffer_new fits img b = Inr (tb, b') \<Longrightarrow>
    memory_step to_vec \<lparr>mm_budget = b, mm_held = M\<rparr> \<lparr>mm_budget = b', mm_held = add_mset (HTransfer tb) M\<rparr>"
| buffer_filled: "HImage img \<in># M \<Longrightarrow> element_bytes (de_transmission (ci_descriptor img)) dvd offset \<Longrightarrow>
    offset \<le> length (ci_bytes img) \<Longrightarrow> length (tb_bytes tb) = min (length (ci_bytes img)) image_chunk_bytes \<Longrightarrow>
    memory_step to_vec \<lparr>mm_budget = b, mm_held = add_mset (HTransfer tb) M\<rparr>
      \<lparr>mm_budget = b, mm_held = add_mset (HTransfer (fst (transfer_fill tb img offset))) M\<rparr>"
| dropped: "memory_step to_vec \<lparr>mm_budget = b, mm_held = add_mset h M\<rparr>
      \<lparr>mm_budget = release (held_reserved h) b, mm_held = M\<rparr>"

section \<open>The invariant\<close>

fun holding_ok :: "holding \<Rightarrow> bool" where
  "holding_ok (HStaged g) = (length (sg_bytes g) = sg_reserved g)"
| "holding_ok (HAllocation a) = (descriptor_ok (al_descriptor a) \<and> length (al_bytes a) = byte_len (al_descriptor a)
     \<and> al_reserved a = byte_len (al_descriptor a))"
| "holding_ok (HPermit p) = (descriptor_ok (np_descriptor p)
     \<and> np_reserved p = byte_len (np_descriptor p) * 2 + native_metadata_bytes + native_worker_header_bytes)"
| "holding_ok (HImage img) = (camera_image_ok img \<and> length (ci_bytes img) + native_bytes img \<le> ci_reserved img)"
| "holding_ok (HTransfer tb) = (length (tb_bytes tb) = tb_reserved tb)"

definition memory_inv :: "nat \<Rightarrow> image_memory \<Rightarrow> bool" where
  "memory_inv maximum m \<longleftrightarrow> ib_maximum (mm_budget m) = maximum
     \<and> ib_used (mm_budget m) = (\<Sum>h\<in>#mm_held m. held_reserved h) \<and> ib_used (mm_budget m) \<le> maximum
     \<and> (\<forall>h \<in># mm_held m. holding_ok h)"

lemma holding_fits: "holding_ok h \<Longrightarrow> held_bytes h \<le> held_reserved h"
  by (cases h) simp_all

lemma stage_bytes_Inr:
  "stage_bytes fits data b = Inr (g, b') \<Longrightarrow> reserve (length data) b = Inr b' \<and> g = \<lparr>sg_bytes = data, sg_reserved = length data\<rparr>"
  by (auto simp: stage_bytes_def and_then_def split: sum.splits)

lemma reserve_native_Inr:
  "reserve_native e b = Inr (p, b') \<Longrightarrow> descriptor_ok (np_descriptor p) \<and> reserve (np_reserved p) b = Inr b'
     \<and> np_reserved p = byte_len (np_descriptor p) * 2 + native_metadata_bytes + native_worker_header_bytes"
  by (auto simp: reserve_native_def and_then_def Let_def descriptor_check_Inr split: sum.splits)

lemma transfer_buffer_Inr:
  "transfer_buffer_new fits img b = Inr (tb, b') \<Longrightarrow> reserve (tb_reserved tb) b = Inr b' \<and> length (tb_bytes tb) = tb_reserved tb"
  by (auto simp: transfer_buffer_new_def and_then_def Let_def split: sum.splits)

text \<open>A new reservation, and one that becomes smaller or is given back.\<close>

lemma memory_grows:
  assumes "memory_inv maximum \<lparr>mm_budget = b, mm_held = M\<rparr>" "reserve (held_reserved h) b = Inr b'" "holding_ok h"
  shows "memory_inv maximum \<lparr>mm_budget = b', mm_held = add_mset h M\<rparr>"
  using assms by (auto simp: memory_inv_def reserve_Inr)

lemma memory_changes:
  assumes "memory_inv maximum \<lparr>mm_budget = b, mm_held = add_mset h M\<rparr>" "held_reserved h' \<le> held_reserved h" "holding_ok h'"
  shows "memory_inv maximum \<lparr>mm_budget = release (held_reserved h - held_reserved h') b, mm_held = add_mset h' M\<rparr>"
  using assms by (auto simp: memory_inv_def release_def)

lemma memory_shrinks:
  assumes "memory_inv maximum \<lparr>mm_budget = b, mm_held = add_mset h M\<rparr>"
  shows "memory_inv maximum \<lparr>mm_budget = release (held_reserved h) b, mm_held = M\<rparr>"
  using assms by (auto simp: memory_inv_def release_def)

lemma release_nothing [simp]: "release 0 b = b"
  by (simp add: release_def)

lemma held_ok: "memory_inv maximum \<lparr>mm_budget = b, mm_held = M\<rparr> \<Longrightarrow> h \<in># M \<Longrightarrow> holding_ok h"
  by (simp add: memory_inv_def)

lemma adopt_frame_Inr:
  assumes "adopt_frame to_vec fits p f b = (Inr img, b')" "holding_ok (HPermit p)"
  shows "holding_ok (HImage img)" "held_reserved (HImage img) \<le> held_reserved (HPermit p)"
    and "b' = release (held_reserved (HPermit p) - held_reserved (HImage img)) b"
  using assms
  by (auto simp: adopt_frame_def and_then_def ensure_def allocated_def Let_def camera_image_ok_def native_bytes_def
      split: sum.splits if_splits)

lemma adopt_frame_Inl: "adopt_frame to_vec fits p f b = (Inl e, b') \<Longrightarrow> b' = release (np_reserved p) b"
  by (auto simp: adopt_frame_def Let_def split: sum.splits)

lemma memory_step_inv:
  assumes "memory_inv maximum m" "memory_step to_vec m m'"
  shows "memory_inv maximum m'"
  using assms(2)
proof cases
  case (bytes_staged fits data b g b' M)
  then show ?thesis using assms(1) stage_bytes_Inr [OF bytes_staged(3)] by (auto intro!: memory_grows)
next
  case (image_allocated d0 d fits b a b' M)
  then show ?thesis using assms(1) by (auto simp: allocate_image_Inr descriptor_check_Inr intro!: memory_grows)
next
  case (pixels_written pixels a b M)
  have "holding_ok (HAllocation (a\<lparr>al_bytes := pixels\<rparr>))"
    using held_ok [of maximum b "add_mset (HAllocation a) M" "HAllocation a"] assms(1) pixels_written by simp
  from memory_changes [OF _ _ this, of maximum b "HAllocation a" M] show ?thesis using assms(1) pixels_written by simp
next
  case (image_finished b a M)
  have "holding_ok (HImage (allocation_finish a))"
    using held_ok [of maximum b "add_mset (HAllocation a) M" "HAllocation a"] assms(1) image_finished
    by (simp add: allocation_finish_def camera_image_ok_def native_bytes_def)
  from memory_changes [OF _ _ this, of maximum b "HAllocation a" M] show ?thesis
    using assms(1) image_finished by (simp add: allocation_finish_def)
next
  case (native_permitted e b p b' M)
  then show ?thesis using assms(1) reserve_native_Inr [OF native_permitted(3)] by (auto intro!: memory_grows)
next
  case (frame_adopted fits p f b img b' M)
  have "holding_ok (HPermit p)"
    using held_ok [of maximum b "add_mset (HPermit p) M" "HPermit p"] assms(1) frame_adopted(1) by simp
  note img = adopt_frame_Inr [OF frame_adopted(3) this]
  from memory_changes [OF _ img(2,1)] show ?thesis using assms(1) frame_adopted(1,2) img(3) by simp
next
  case (frame_refused fits p f b e b' M)
  then show ?thesis using assms(1) adopt_frame_Inl [OF frame_refused(3)] memory_shrinks [of maximum b "HPermit p" M] by simp
next
  case (transfer_begun img M fits b tb b')
  then show ?thesis using assms(1) transfer_buffer_Inr [OF transfer_begun(4)] by (auto intro!: memory_grows)
next
  case (buffer_filled img M offset tb b)
  have "camera_image_ok img"
    using held_ok [of maximum b "add_mset (HTransfer tb) M" "HImage img"] assms(1) buffer_filled by simp
  moreover have "element_bytes (de_transmission (ci_descriptor img)) dvd image_chunk_bytes"
    by (cases "de_transmission (ci_descriptor img)") (simp_all add: image_chunk_bytes_def)
  moreover have "element_bytes (de_transmission (ci_descriptor img)) dvd length (ci_bytes img)"
    using \<open>camera_image_ok img\<close> by (simp add: camera_image_ok_def byte_len_count)
  ultimately have len: "length (tb_bytes (fst (transfer_fill tb img offset))) = length (tb_bytes tb)"
    using buffer_filled by (intro fill_of_export(2)) (auto simp: min_def)
  have kept: "tb_reserved (fst (transfer_fill tb img offset)) = tb_reserved tb"
    by (simp add: transfer_fill_def Let_def)
  have "holding_ok (HTransfer (fst (transfer_fill tb img offset)))"
    using held_ok [of maximum b "add_mset (HTransfer tb) M" "HTransfer tb"] assms(1) buffer_filled(1) len kept by simp
  from memory_changes [OF _ _ this, of maximum b "HTransfer tb" M] show ?thesis using assms(1) buffer_filled kept by simp
next
  case (dropped b h M)
  then show ?thesis using assms(1) memory_shrinks by simp
qed

lemma memory_initial_inv: "memory_initial maximum m \<Longrightarrow> memory_inv maximum m"
  by (cases m) (auto simp: memory_initial_def memory_inv_def image_budget_new_def split: if_splits)

interpretation image_memory: safe_system "memory_initial maximum" "memory_step to_vec" "memory_inv maximum"
  by unfold_locales (fact memory_initial_inv, fact memory_step_inv)

text \<open>C13: the budget is never exceeded: in every reachable state what is in use is the sum of the live
  reservations and at most the maximum, the bytes held anywhere (metadata and both copies of a native
  capture included) are within it, every image is complete, and once everything is dropped nothing is left
  in use.\<close>

theorem image_memory_stays_within_its_budget:
  assumes "reachable (memory_initial maximum) (memory_step to_vec) m"
  shows "(\<Sum>h\<in>#mm_held m. held_bytes h) \<le> ib_used (mm_budget m) \<and> ib_used (mm_budget m) \<le> maximum
    \<and> ib_used (mm_budget m) = (\<Sum>h\<in>#mm_held m. held_reserved h)
    \<and> (\<forall>img. HImage img \<in># mm_held m \<longrightarrow> camera_image_ok img)
    \<and> (mm_held m = {#} \<longrightarrow> ib_used (mm_budget m) = 0)"
proof -
  have inv: "memory_inv maximum m" using image_memory.reachable_inv [OF assms] .
  have "(\<Sum>h\<in>#M. held_bytes h) \<le> (\<Sum>h\<in>#M. held_reserved h)" if "\<forall>h \<in># M. holding_ok h" for M
    using that by (induction M) (auto intro!: add_mono holding_fits)
  with inv show ?thesis by (auto simp: memory_inv_def)
qed

definition small_memory :: image_memory where
  "small_memory = \<lparr>mm_budget = \<lparr>ib_maximum = 100, ib_used = 6\<rparr>,
     mm_held = {#HImage \<lparr>ci_descriptor = small_descriptor, ci_bytes = [0, 0, 0, 0, 0, 0], ci_native = None, ci_reserved = 6\<rparr>#}\<rparr>"

lemma small_memory_reached: "reachable (memory_initial 100) (memory_step to_vec) small_memory"
proof -
  let ?a = "\<lparr>al_descriptor = small_descriptor, al_bytes = [0, 0, 0, 0, 0, 0], al_reserved = 6\<rparr>"
  have len: "byte_len small_descriptor = 6" by code_simp
  have zeros: "replicate 6 (0::nat) = [0, 0, 0, 0, 0, 0]" by code_simp
  have ok: "descriptor_check small_descriptor = Inr small_descriptor"
    using small_image_ok by (simp add: descriptor_check_Inr camera_image_ok_def small_image_simps)
  have alloc: "allocate_image True small_descriptor \<lparr>ib_maximum = 100, ib_used = 0\<rparr> = Inr (?a, \<lparr>ib_maximum = 100, ib_used = 6\<rparr>)"
    by (simp add: allocate_image_Inr reserve_Inr len zeros)
  have "reachable (memory_initial 100) (memory_step to_vec) \<lparr>mm_budget = \<lparr>ib_maximum = 100, ib_used = 0\<rparr>, mm_held = {#}\<rparr>"
    by (rule reachable_initial) (simp add: memory_initial_def image_budget_new_def)
  from reachable_step [OF this image_allocated [OF ok alloc]]
  have "reachable (memory_initial 100) (memory_step to_vec) \<lparr>mm_budget = \<lparr>ib_maximum = 100, ib_used = 6\<rparr>, mm_held = {#HAllocation ?a#}\<rparr>"
    by simp
  from reachable_step [OF this image_finished [of to_vec _ ?a "{#}"]] show ?thesis
    by (simp add: small_memory_def allocation_finish_def)
qed

theorem image_memory_stays_within_its_budget_witness:
  "(\<Sum>h\<in>#mm_held small_memory. held_bytes h) \<le> 6 \<and> mm_held small_memory \<noteq> {#}"
  using image_memory_stays_within_its_budget [OF small_memory_reached] by (simp add: small_memory_def)

end
