(* ===== verification/Spec2Isabelle.thy ===== *)
theory Spec2Isabelle imports Safety_Hub Cooling Timing Worker White_Balance Usb_Peripherals Usb_Target
  Session_Results Continuous Worker_Host Focuser_Moves Source_Cache Weather_Diagnostics Config_Store Camera_Capture Camera_Memory begin

text \<open>
  Regain keeps astronomical cameras and their accessories under control through lost replies, USB
  faults and crashed workers. This development models the control logic of the Rust workspace under
  \<open>crates/\<close>: not the register sequences of the devices, but the decisions on which an observatory
  relies (may the roof stay open, was this control really written, may this exposure be repeated,
  which image is this, has every focuser arrived).

  The parts and how they interact.

  \<^item> A camera frontend calls a \<open>Session\<close> (\<open>regain-core/src/session.rs\<close>). The session drives one worker
    process over a framed protocol (\<open>worker.rs\<close>), recovers it by reopening and by USB resets
    (\<open>recovery.rs\<close>, \<open>usb_peripherals.rs\<close>, USB targets), serves a cooler mailbox (\<open>cooling.rs\<close>) and is
    supervised with time allowances (\<open>timing.rs\<close>).
  \<^item> The worker process reads requests (\<open>regain-worker/src/lib.rs\<close>) and, while streaming, is owned by
    the loop of \<open>continuous.rs\<close>, which hands frames to a protocol thread.
  \<^item> The hub (\<open>regain-hub\<close>) watches safety monitors and publishes one aggregated permission
    (\<open>safety.rs\<close>), owns every device source by an actor (\<open>source.rs\<close>) that samples it
    (\<open>sampling.rs\<close>) and fences its work across host sleeps (\<open>resume.rs\<close>), merges weather
    (\<open>weather.rs\<close>), binds typed sessions to
    sources (\<open>typed_source.rs\<close>, \<open>focuser.rs\<close>) and coordinates groups of devices (\<open>coordination.rs\<close>),
    all as one document configures it (\<open>config.rs\<close>).

  Which theory models what.

  \<^item> \<open>Prelude\<close>, \<open>Ordered_Map\<close>, \<open>Json\<close>, \<open>Double\<close>: the vocabulary of the source. Doubles are exact
    rationals with infinities and NaN, rounded where the source computes with them; durations and
    instants are natural numbers of nanoseconds; \<open>BTreeMap\<close> is a sorted association list;
    \<open>serde_json::Value\<close> a datatype. Fallible functions return \<open>error + 'a\<close>.
  \<^item> \<open>Action\<close>, \<open>Action_Rules\<close>, \<open>Reachability\<close>: operations with effects as state transformers that
    return, fail or run out of loop rounds; rules for what they preserve and return; a Hoare logic;
    transition systems with invariants.
  \<^item> \<open>Parameters\<close>, \<open>Safety\<close>, \<open>Safety_Run\<close>, \<open>Safety_Hub\<close>: \<open>parameters.rs\<close> and \<open>safety.rs\<close> of the hub: an
    endpoint per monitor, its history, the aggregate and its runtime.
  \<^item> \<open>Camera_Model\<close>, \<open>Camera_Status\<close>, \<open>White_Balance\<close>: \<open>model.rs\<close>, the shared status, \<open>white_balance.rs\<close>.
  \<^item> \<open>Worker\<close>, \<open>Worker_Host\<close>: both ends of the worker protocol.
  \<^item> \<open>Recovery\<close>, \<open>Timing\<close>, \<open>Cooling\<close>, \<open>Usb_Peripherals\<close>, \<open>Usb_Target\<close>: the policies and the mailboxes
    around a session.
  \<^item> \<open>Session_Core\<close>, \<open>Session_Control\<close>, \<open>Session_Connect\<close>, \<open>Session_Capture\<close>: \<open>session.rs\<close>, its state,
    controls and cooling, connection and USB recovery, and captures. \<open>Session_Quiet\<close> says what these
    operations leave alone (locales interpreted in \<open>Session_Policy\<close>), \<open>Session_Policy\<close> bounds
    exposures and resets, \<open>Session_Results\<close> states what callers are promised, \<open>Session_Sample\<close> holds
    the concrete session on which the witnesses run.
  \<^item> \<open>Continuous\<close>: the streaming owner and its published state.
  \<^item> \<open>Source_Session\<close>, \<open>Focuser\<close>, \<open>Focuser_Group\<close>, \<open>Focuser_Moves\<close>: typed source sessions, focuser
    operations, and coordinated moves with what they rest on.
  \<^item> \<open>Sampling\<close>, \<open>Source_Actor\<close>, \<open>Resume\<close>: budgets and incremental polls, the actor of a source with
    every command, its polling and its shutdown, and the host sleep clock. \<open>Source_Access\<close> states the
    protocol of leases, control and the uncertain latch and shows that every operation of the actor is
    a run of it, \<open>Source_Safety\<close> draws the promises to clients from that, and \<open>Source_Cache\<close> shows
    what readers of a source can see.
  \<^item> \<open>Weather\<close>, \<open>Weather_Evidence\<close>, \<open>Weather_Diagnostics\<close>: the weather engine (\<open>weather.rs\<close>) and the scalar
    samples of \<open>readout.rs\<close>; what a reading rests on; and that the private copy on which diagnostics
    read shows what a client would read.

  \<^item> \<open>Utf8\<close>, \<open>Hub_Data\<close>, \<open>Hub_Config\<close>, \<open>Dependency\<close>, \<open>Hub_Validate\<close>: the configuration document of the
    hub (\<open>config.rs\<close>) with every check of \<open>HubConfig::validate\<close>, the search for circular dependencies
    and the resolution of aliases; \<open>Hub_Sound\<close> states what an accepted document guarantees.
  \<^item> \<open>Identity_Ledger\<close>, \<open>Config_Store\<close>: the identities a hub has ever given away, and the store that
    replaces one revision of the document by the next, as a system of prepared and committed updates.
  \<^item> \<open>Camera_Group\<close>: coordinated camera bursts (\<open>coordination/camera.rs\<close>) as a system of steps, one for
    each way a wait of the task can end. \<open>Camera_Flight\<close> has the effects of its operations, \<open>Camera_Burst\<close>
    the invariant up to the dispatch, \<open>Camera_Capture\<close> the capture loop, its end, and what a group
    promises. No bound is assumed: \<open>every_burst_ends\<close> counts the waits.
  \<^item> \<open>Camera_Image\<close>: images and their transport (\<open>camera/image.rs\<close>): descriptors, the budget of image
    memory, export and the reader of responses. \<open>Camera_Export\<close> shows that export is a permutation of the
    stored elements, \<open>Camera_Transport\<close> that a response read back is the image sent and nothing else is
    accepted, \<open>Camera_Memory\<close> that everything holding bytes stays within the budget.

  What stands for the world. Stateful operations run against an environment: a script, indexed by a
  step counter, of clock readings, cancellation, answers of workers, of the USB helper and of
  sources, and of what other threads do between two steps. Every theorem holds for all scripts, so
  for all interleavings at the granularity of these steps. What the program makes happen outside is
  recorded in a trace, over which the safety properties are stated. Loops that wait for the world
  are given a number of rounds by the environment (\<open>en_loop_bound\<close>, \<open>se_loop_bound\<close>, \<open>he_loop_bound\<close>):
  safety properties hold for every bound, whether or not it is used up, and where a loop has to end
  (\<open>download_ends_within_its_rereads\<close>, \<open>peripheral_wait_ends\<close>) the bound that is enough is part of the
  theorem. Parsers and printers of JSON, URLs and UUIDs belong to libraries and are parameters, with the
  round trip they document as hypothesis where a property needs it.

  Not modelled. Register sequences and USB transfers of the camera workers (\<open>regain-zwo\<close>,
  \<open>regain-qhy\<close>, \<open>regain-transport\<close>), which are tables and foreign calls; HTTP, COM and IPC surfaces
  (\<open>regain-alpaca\<close>, the hub's \<open>alpaca\<close>, \<open>com.rs\<close>, \<open>ipc.rs\<close>), log files and the flight recorder, the
  command line; the hub's source registry and its camera supervisors (\<open>camera/acquisition.rs\<close>,
  \<open>camera/native_owner.rs\<close>), which are the environment of the camera groups.
\<close>

end
